(* ===== verification/Prelude.thy ===== *)
theory Prelude
  imports Complex_Main "HOL-Library.AList" "HOL-Library.Char_ord"
    "HOL-Library.List_Lexorder" "HOL-Library.Product_Lexorder"
begin

text \<open>
  Shared vocabulary of the development: Python exceptions as values, computations that
  change a state and may raise, insertion-ordered dictionaries as association lists, the
  string methods the code calls (on ASCII text), and the collections of facts
  (\<open>keeps\<close>, \<open>sx_simps\<close>) the component theories add to.
\<close>

named_theorems keeps \<open>operations that keep an invariant, on normal and on exceptional exit\<close>
named_theorems sx_simps \<open>evaluation of stateful computations\<close>

section \<open>Exceptions and stateful computations\<close>

text \<open>
  The exception classes the modelled code raises. The argument is the constant part of the
  message, so that two raise sites of one class stay apart.
\<close>

datatype exn =
    ValueError string
  | KeyError string
  | FileExists string
  | FileNotFound string
  | PermissionDenied string
  | InvalidTransition
  | QueueFull
  | AntiExplosion string
  | StateConflict string
  | TypeError string
  | LedgerConflict string
  | StaleFence string
  | BudgetExceeded string
  | GovernanceConflict string
  | RuntimeFailure string
  | WorkspaceConflict string
  | IntegrityError
  | WouldBlock

text \<open>
  A method that mutates its object and may raise: the state after an exception is the state
  the mutations made so far have left, as in Python, never a rollback.
\<close>

type_synonym ('s, 'a) sx = "'s \<Rightarrow> (exn + 'a) \<times> 's"

definition ret :: "'a \<Rightarrow> ('s, 'a) sx" where
  "ret a s = (Inr a, s)"

definition throw :: "exn \<Rightarrow> ('s, 'a) sx" where
  "throw e s = (Inl e, s)"

definition bnd :: "('s, 'a) sx \<Rightarrow> ('a \<Rightarrow> ('s, 'b) sx) \<Rightarrow> ('s, 'b) sx" where
  "bnd m f s = (case m s of (Inl e, t) \<Rightarrow> (Inl e, t) | (Inr a, t) \<Rightarrow> f a t)"

definition andthen :: "('s, 'a) sx \<Rightarrow> ('s, 'b) sx \<Rightarrow> ('s, 'b) sx" where
  "andthen m n = bnd m (\<lambda>_. n)"

definition gets :: "('s \<Rightarrow> 'a) \<Rightarrow> ('s, 'a) sx" where
  "gets f s = (Inr (f s), s)"

definition modify :: "('s \<Rightarrow> 's) \<Rightarrow> ('s, unit) sx" where
  "modify f s = (Inr (), f s)"

definition catch :: "('s, 'a) sx \<Rightarrow> (exn \<Rightarrow> ('s, 'a) sx) \<Rightarrow> ('s, 'a) sx" where
  "catch m h s = (case m s of (Inl e, t) \<Rightarrow> h e t | (Inr a, t) \<Rightarrow> (Inr a, t))"

text \<open>A \<open>for\<close> loop over a list that has been snapshotted before it starts.\<close>

primrec foreach :: "'a list \<Rightarrow> ('a \<Rightarrow> ('s, unit) sx) \<Rightarrow> ('s, unit) sx" where
  "foreach [] f = ret ()"
| "foreach (x # xs) f = andthen (f x) (foreach xs f)"

lemma ret_run [sx_simps, simp]: "ret a s = (Inr a, s)"
  by (simp add: ret_def)

lemma throw_run [sx_simps, simp]: "throw e s = (Inl e, s)"
  by (simp add: throw_def)

lemma gets_run [sx_simps, simp]: "gets f s = (Inr (f s), s)"
  by (simp add: gets_def)

lemma modify_run [sx_simps, simp]: "modify f s = (Inr (), f s)"
  by (simp add: modify_def)

lemma bnd_run [sx_simps]:
  "bnd m f s = (case m s of (Inl e, t) \<Rightarrow> (Inl e, t) | (Inr a, t) \<Rightarrow> f a t)"
  by (simp add: bnd_def)

lemma andthen_run [sx_simps]:
  "andthen m n s = (case m s of (Inl e, t) \<Rightarrow> (Inl e, t) | (Inr a, t) \<Rightarrow> n t)"
  by (simp add: andthen_def bnd_def)

lemma catch_run [sx_simps]:
  "catch m h s = (case m s of (Inl e, t) \<Rightarrow> h e t | (Inr a, t) \<Rightarrow> (Inr a, t))"
  by (simp add: catch_def)

lemma andthen_modify [simp]: "andthen (modify f) n s = n (f s)"
  by (simp add: sx_simps)

text \<open>
  \<open>keep P m\<close>: from a state that satisfies \<open>P\<close> the computation ends in one that does,
  whether it returns or raises.
\<close>

definition keep :: "('s \<Rightarrow> bool) \<Rightarrow> ('s, 'a) sx \<Rightarrow> bool" where
  "keep P m \<longleftrightarrow> (\<forall>s. P s \<longrightarrow> P (snd (m s)))"

lemma keepI: "(\<And>s. P s \<Longrightarrow> P (snd (m s))) \<Longrightarrow> keep P m"
  by (simp add: keep_def)

lemma keepD: "keep P m \<Longrightarrow> P s \<Longrightarrow> P (snd (m s))"
  by (simp add: keep_def)

lemma keep_run: "keep P m \<Longrightarrow> P s \<Longrightarrow> m s = (r, t) \<Longrightarrow> P t"
  by (metis keepD snd_conv)

lemma keep_ret [keeps]: "keep P (ret a)"
  by (simp add: keep_def)

lemma keep_throw [keeps]: "keep P (throw e)"
  by (simp add: keep_def)

lemma keep_gets [keeps]: "keep P (gets f)"
  by (simp add: keep_def)

lemma keep_modify: "(\<And>s. P s \<Longrightarrow> P (f s)) \<Longrightarrow> keep P (modify f)"
  by (simp add: keep_def)

lemma keep_bnd [keeps]:
  assumes "keep P m" and "\<And>a. keep P (f a)"
  shows "keep P (bnd m f)"
  using assms by (auto simp: keep_def bnd_def split: prod.splits sum.splits)

lemma keep_andthen [keeps]: "keep P m \<Longrightarrow> keep P n \<Longrightarrow> keep P (andthen m n)"
  by (simp add: andthen_def keep_bnd)

lemma keep_catch [keeps]:
  assumes "keep P m" and "\<And>e. keep P (h e)"
  shows "keep P (catch m h)"
  using assms by (auto simp: keep_def catch_def split: prod.splits sum.splits)

lemma keep_foreach [keeps]: "(\<And>x. keep P (f x)) \<Longrightarrow> keep P (foreach xs f)"
  by (induction xs) (auto intro: keeps)

lemma keep_if [keeps]: "keep P m \<Longrightarrow> keep P n \<Longrightarrow> keep P (if b then m else n)"
  by simp

lemma keep_option [keeps]:
  "keep P m \<Longrightarrow> (\<And>x. keep P (f x)) \<Longrightarrow> keep P (case v of None \<Rightarrow> m | Some x \<Rightarrow> f x)"
  by (simp split: option.split)

text \<open>
  A check in front of a computation, a fallible function inside one, and the transaction that
  rolls back when the call raises.
\<close>

definition require :: "bool \<Rightarrow> exn \<Rightarrow> ('s, unit) sx" where
  "require b e = (if b then ret () else throw e)"

definition lift_sum :: "exn + 'a \<Rightarrow> ('s, 'a) sx" where
  "lift_sum r = (case r of Inl e \<Rightarrow> throw e | Inr a \<Rightarrow> ret a)"

definition atomically :: "('s, 'a) sx \<Rightarrow> ('s, 'a) sx" where
  "atomically m s = (case m s of (Inl e, t) \<Rightarrow> (Inl e, s) | (Inr a, t) \<Rightarrow> (Inr a, t))"

lemma keep_require [keeps]: "keep P (require b e)"
  by (simp add: require_def keep_ret keep_throw)

lemma keep_lift_sum [keeps]: "keep P (lift_sum r)"
  by (simp add: lift_sum_def keep_ret keep_throw split: sum.split)

named_theorems at_rules \<open>the state a computation ends in, one step at a time\<close>

lemma at_require [at_rules]:
  "P s \<Longrightarrow> (b \<Longrightarrow> P (snd (n s))) \<Longrightarrow> P (snd (andthen (require b e) n s))"
  by (simp add: require_def andthen_run)

lemma at_gets [at_rules]: "P (snd (f (g s) s)) \<Longrightarrow> P (snd (bnd (gets g) f s))"
  by (simp add: bnd_run)

lemma at_modify [at_rules]: "P (snd (n (f s))) \<Longrightarrow> P (snd (andthen (modify f) n s))"
  by simp

lemma at_lift_sum [at_rules]: "P s \<Longrightarrow> (\<And>a. r = Inr a \<Longrightarrow> P (snd (f a s))) \<Longrightarrow> P (snd (bnd (lift_sum r) f s))"
  by (cases r) (auto simp: lift_sum_def bnd_run)

lemma at_lift_sum_then [at_rules]: "P s \<Longrightarrow> (\<And>a. r = Inr a \<Longrightarrow> P (snd (n s))) \<Longrightarrow> P (snd (andthen (lift_sum r) n s))"
  by (cases r) (auto simp: lift_sum_def andthen_run)

lemma at_ret [at_rules]: "P s \<Longrightarrow> P (snd (ret a s))"
  by simp

lemma at_throw [at_rules]: "P s \<Longrightarrow> P (snd (throw e s))"
  by simp

lemma at_atomically [at_rules]: "P s \<Longrightarrow> P (snd (m s)) \<Longrightarrow> P (snd (atomically m s))"
  by (auto simp: atomically_def split: prod.split sum.split)

text \<open>Inversion of computations that return.\<close>

lemma require_Inr: "andthen (require b e) n d = (Inr x, d') \<longleftrightarrow> b \<and> n d = (Inr x, d')"
  by (simp add: require_def andthen_run)

lemma lift_sum_Inr: "bnd (lift_sum r) f d = (Inr x, d') \<longleftrightarrow> (\<exists>a. r = Inr a \<and> f a d = (Inr x, d'))"
  by (cases r) (simp_all add: lift_sum_def bnd_run)

lemma gets_Inr: "bnd (gets g) f d = (Inr x, d') \<longleftrightarrow> f (g d) d = (Inr x, d')"
  by (simp add: bnd_run)

lemma atomically_Inr: "atomically m d = (Inr x, d') \<longleftrightarrow> m d = (Inr x, d')"
  by (simp add: atomically_def split: prod.split sum.split)

lemma atomically_error: "m d = (Inl e, d') \<Longrightarrow> atomically m d = (Inl e, d)"
  by (simp add: atomically_def)

lemma if_Inr:
  "(if c then m else n) d = (Inr x, d') \<longleftrightarrow> c \<and> m d = (Inr x, d') \<or> \<not> c \<and> n d = (Inr x, d')"
  by simp

lemma then_Inr: "andthen m n d = (Inr x, d') \<longleftrightarrow> (\<exists>a d1. m d = (Inr a, d1) \<and> n d1 = (Inr x, d'))"
  by (auto simp: andthen_run split: prod.split sum.split)

lemma throw_Inr: "throw e d = (Inr x, d') \<longleftrightarrow> False"
  by simp

lemma ret_Inr: "ret a d = (Inr x, d') \<longleftrightarrow> x = a \<and> d' = d"
  by auto

lemma require_done: "require b e d = (Inr x, d') \<longleftrightarrow> b \<and> d' = d"
  by (auto simp: require_def)

lemma lift_done: "lift_sum r d = (Inr x, d') \<longleftrightarrow> r = Inr x \<and> d' = d"
  by (cases r) (auto simp: lift_sum_def)

lemma modify_Inr: "modify f d = (Inr x, d') \<longleftrightarrow> d' = f d"
  by auto

lemma bnd_Inr: "bnd m f d = (Inr x, d') \<longleftrightarrow> (\<exists>a d1. m d = (Inr a, d1) \<and> f a d1 = (Inr x, d'))"
  by (auto simp: bnd_run split: prod.split sum.split)

text \<open>Fallible functions without a state.\<close>

definition sbind :: "exn + 'a \<Rightarrow> ('a \<Rightarrow> exn + 'b) \<Rightarrow> exn + 'b" where
  "sbind r f = (case r of Inl e \<Rightarrow> Inl e | Inr a \<Rightarrow> f a)"

definition scheck :: "bool \<Rightarrow> exn \<Rightarrow> exn + 'b \<Rightarrow> exn + 'b" where
  "scheck b e r = (if b then r else Inl e)"

lemma sbind_Inr: "sbind r f = Inr b \<longleftrightarrow> (\<exists>a. r = Inr a \<and> f a = Inr b)"
  by (cases r) (auto simp: sbind_def)

lemma sbind_Inr_left [simp]: "sbind (Inr a) f = f a"
  by (simp add: sbind_def)

lemma scheck_Inr: "scheck b e r = Inr x \<longleftrightarrow> b \<and> r = Inr x"
  by (simp add: scheck_def)

section \<open>Dictionaries\<close>

text \<open>
  A Python \<open>dict\<close> whose iteration order matters is an association list: assignment to a
  key that is present keeps its place, a new key goes to the end, \<open>del\<close> and \<open>pop\<close> remove
  it. \<open>HOL-Library.AList\<close> has these two operations; the facts below are what the component
  proofs need of them.
\<close>

type_synonym ('k, 'v) dict = "('k \<times> 'v) list"

abbreviation dget :: "('k, 'v) dict \<Rightarrow> 'k \<Rightarrow> 'v option" where
  "dget d k \<equiv> map_of d k"

abbreviation dset :: "'k \<Rightarrow> 'v \<Rightarrow> ('k, 'v) dict \<Rightarrow> ('k, 'v) dict" where
  "dset \<equiv> AList.update"

abbreviation ddel :: "'k \<Rightarrow> ('k, 'v) dict \<Rightarrow> ('k, 'v) dict" where
  "ddel \<equiv> AList.delete"

abbreviation dkeys :: "('k, 'v) dict \<Rightarrow> 'k list" where
  "dkeys d \<equiv> map fst d"

text \<open>The keys are pairwise different: what makes the list a dictionary.\<close>

abbreviation dict_ok :: "('k, 'v) dict \<Rightarrow> bool" where
  "dict_ok d \<equiv> distinct (map fst d)"

text \<open>\<open>d.update(e)\<close>: the entries of \<open>e\<close> are assigned one after the other.\<close>

definition dupdate :: "('k, 'v) dict \<Rightarrow> ('k, 'v) dict \<Rightarrow> ('k, 'v) dict" where
  "dupdate d e = fold (\<lambda>(k, v). dset k v) e d"

lemma dget_dset [simp]: "dget (dset k v d) j = (if j = k then Some v else dget d j)"
  by (simp add: update_conv')

lemma dget_ddel [simp]: "dget (ddel k d) j = (if j = k then None else dget d j)"
  by (simp add: delete_conv')

lemma dset_fresh: "dget d k = None \<Longrightarrow> dset k v d = d @ [(k, v)]"
proof (induction d)
  case (Cons p d)
  then show ?case by (cases p) (auto split: if_splits)
qed simp

lemma dset_same: "dget d k = Some v \<Longrightarrow> dset k v d = d"
  by (induction d) (auto split: if_splits)

lemma set_dkeys_dset [simp]: "fst ` set (dset k v d) = insert k (fst ` set d)"
  by (simp add: dom_update)

lemma set_dkeys_ddel [simp]: "fst ` set (ddel k d) = fst ` set d - {k}"
  by (induction d) auto

lemma dict_ok_dset [simp, intro]: "dict_ok d \<Longrightarrow> dict_ok (dset k v d)"
  by (rule distinct_update)

lemma dict_ok_ddel [simp, intro]: "dict_ok d \<Longrightarrow> dict_ok (ddel k d)"
  by (rule distinct_delete)

lemma dget_None: "dget d k = None \<longleftrightarrow> k \<notin> fst ` set d"
  by (simp add: map_of_eq_None_iff)

lemma dget_Some_key: "dget d k = Some v \<Longrightarrow> k \<in> fst ` set d"
  by (metis dget_None option.discI)

lemma dget_Some_iff: "dict_ok d \<Longrightarrow> dget d k = Some v \<longleftrightarrow> (k, v) \<in> set d"
  by simp

lemma set_ddel: "set (ddel k d) = {(j, v). (j, v) \<in> set d \<and> j \<noteq> k}"
  by (induction d) auto

lemma set_dset_subset: "set (dset k v d) \<subseteq> insert (k, v) (set d)"
  by (induction d) auto

lemma dget_dupdate: "dget (dupdate d e) k = (case dget (rev e) k of None \<Rightarrow> dget d k | Some v \<Rightarrow> Some v)"
  unfolding dupdate_def by (induction e arbitrary: d) (auto split: option.splits simp: map_add_def)

text \<open>SQL's \<open>UPDATE\<close> of one row, and \<open>COALESCE(new, old)\<close>.\<close>

definition upd_row :: "'k \<Rightarrow> ('r \<Rightarrow> 'r) \<Rightarrow> ('k, 'r) dict \<Rightarrow> ('k, 'r) dict" where
  "upd_row i f d = (case dget d i of None \<Rightarrow> d | Some r \<Rightarrow> dset i (f r) d)"

definition coalesce :: "'a option \<Rightarrow> 'a option \<Rightarrow> 'a option" where
  "coalesce new old = (case new of None \<Rightarrow> old | Some x \<Rightarrow> Some x)"

lemma dget_upd_row [simp]:
  "dget (upd_row i f d) j = (if j = i then map_option f (dget d i) else dget d j)"
  by (simp add: upd_row_def split: option.split)

section \<open>Strings\<close>

text \<open>
  The string methods of the code on ASCII text: \<open>str.lower\<close>, \<open>str.upper\<close>, \<open>str.strip\<close>,
  \<open>str.split\<close> (on white space), \<open>in\<close>, \<open>startswith\<close>, \<open>replace\<close> of one character. A byte
  from 128 up stands for a non-ASCII letter, which the methods leave as it is.
\<close>

definition ccode :: "char \<Rightarrow> nat" where
  "ccode c = of_char c"

definition is_space :: "char \<Rightarrow> bool" where
  "is_space c \<longleftrightarrow> (let n = ccode c in n = 32 \<or> (9 \<le> n \<and> n \<le> 13) \<or> (28 \<le> n \<and> n \<le> 31))"

definition is_word :: "char \<Rightarrow> bool" where
  "is_word c \<longleftrightarrow> (let n = ccode c in (48 \<le> n \<and> n \<le> 57) \<or> (65 \<le> n \<and> n \<le> 90) \<or> n = 95
     \<or> (97 \<le> n \<and> n \<le> 122) \<or> 128 \<le> n)"

definition lower_char :: "char \<Rightarrow> char" where
  "lower_char c = (if 65 \<le> ccode c \<and> ccode c \<le> 90 then char_of (ccode c + 32) else c)"

definition upper_char :: "char \<Rightarrow> char" where
  "upper_char c = (if 97 \<le> ccode c \<and> ccode c \<le> 122 then char_of (ccode c - 32) else c)"

definition py_lower :: "string \<Rightarrow> string" where
  "py_lower = map lower_char"

definition py_upper :: "string \<Rightarrow> string" where
  "py_upper = map upper_char"

definition py_lstrip :: "string \<Rightarrow> string" where
  "py_lstrip = dropWhile is_space"

definition py_strip :: "string \<Rightarrow> string" where
  "py_strip s = rev (py_lstrip (rev (py_lstrip s)))"

definition py_startswith :: "string \<Rightarrow> string \<Rightarrow> bool" where
  "py_startswith s p \<longleftrightarrow> take (length p) s = p"

fun py_contains :: "string \<Rightarrow> string \<Rightarrow> bool" where
  "py_contains p [] \<longleftrightarrow> p = []"
| "py_contains p (c # s) \<longleftrightarrow> py_startswith (c # s) p \<or> py_contains p s"

definition replace_char :: "char \<Rightarrow> char \<Rightarrow> string \<Rightarrow> string" where
  "replace_char a b = map (\<lambda>c. if c = a then b else c)"

text \<open>\<open>s.split()\<close>: maximal runs of characters that are not white space.\<close>

fun split_words :: "string \<Rightarrow> string \<Rightarrow> string list" where
  "split_words acc [] = (if acc = [] then [] else [rev acc])"
| "split_words acc (c # s) =
     (if is_space c then (if acc = [] then split_words [] s else rev acc # split_words [] s)
      else split_words (c # acc) s)"

definition py_split :: "string \<Rightarrow> string list" where
  "py_split s = split_words [] s"

text \<open>\<open>' '.join(ws)\<close>.\<close>

fun join_space :: "string list \<Rightarrow> string" where
  "join_space [] = []"
| "join_space [w] = w"
| "join_space (w # v # ws) = w @ CHR '' '' # join_space (v # ws)"

end
