(* ===== verification/Task_Model.thy ===== *)
theory Task_Model
  imports Prelude
begin

text \<open>
  The task record of the orchestrator (\<open>orchestrator/models.py\<close>) and the deterministic task
  state machine (\<open>orchestrator/state_machine.py\<close>): statuses, priorities, the transition
  table, the check that a retry is not a second effect, and the guarded transition that
  appends to the task's history. The interface \<open>transition_table\<close> states what every
  transition table of the program promises; the tables of the durable runtime satisfy it too.
\<close>

section \<open>Transition tables\<close>

text \<open>A state may stay as it is or move along its row of the table.\<close>

definition can_move :: "('s \<Rightarrow> 's list) \<Rightarrow> 's \<Rightarrow> 's \<Rightarrow> bool" where
  "can_move tbl c t \<longleftrightarrow> c = t \<or> t \<in> set (tbl c)"

text \<open>A chain of recorded moves: each starts where the one before ended.\<close>

fun chain :: "('s \<Rightarrow> 's list) \<Rightarrow> 's \<Rightarrow> ('s \<times> 's) list \<Rightarrow> 's \<Rightarrow> bool" where
  "chain tbl s [] t \<longleftrightarrow> s = t"
| "chain tbl s ((a, b) # ms) t \<longleftrightarrow> s = a \<and> can_move tbl a b \<and> chain tbl b ms t"

lemma chain_snoc: "chain tbl s ms a \<Longrightarrow> can_move tbl a b \<Longrightarrow> chain tbl s (ms @ [(a, b)]) b"
  by (induction tbl s ms a rule: chain.induct) auto

locale transition_table =
  fixes tbl :: "'s \<Rightarrow> 's list" and final :: "'s \<Rightarrow> bool"
  assumes final_iff: "final s \<longleftrightarrow> tbl s = []"
begin

lemma final_absorbs: "final s \<Longrightarrow> can_move tbl s t \<longleftrightarrow> t = s"
  by (auto simp: can_move_def final_iff)

lemma not_final_moves: "\<not> final s \<Longrightarrow> \<exists>t. can_move tbl s t \<and> t \<in> set (tbl s)"
  by (metis can_move_def final_iff last_in_set)

lemma chain_from_final: "chain tbl s ms t \<Longrightarrow> final s \<Longrightarrow> t = s"
proof (induction ms arbitrary: s)
  case Nil
  then show ?case by simp
next
  case (Cons m ms)
  obtain a b where m: "m = (a, b)" by (cases m)
  with Cons.prems have "b = s" "chain tbl b ms t"
    by (auto simp: final_absorbs)
  with Cons show ?case by blast
qed

end

section \<open>Statuses, priorities and the task record\<close>

datatype task_status =
    PENDING | QUEUED | RUNNING | VALIDATING | REJECTED | REPAIRING | READY | DISPUTED
  | QUALITY_GATE | READY_FOR_MASTER | MASTER_REVIEW | COMPLETED | FAILED | RETRYING
  | CANCELLED | ESCALATED

datatype task_priority = LOW | MEDIUM | HIGH | CRITICAL

text \<open>The value of a status, a text.\<close>

fun status_name :: "task_status \<Rightarrow> string" where
  "status_name PENDING = ''PENDING''" | "status_name QUEUED = ''QUEUED''"
| "status_name RUNNING = ''RUNNING''" | "status_name VALIDATING = ''VALIDATING''"
| "status_name REJECTED = ''REJECTED''" | "status_name REPAIRING = ''REPAIRING''"
| "status_name READY = ''READY''" | "status_name DISPUTED = ''DISPUTED''"
| "status_name QUALITY_GATE = ''QUALITY_GATE''"
| "status_name READY_FOR_MASTER = ''READY_FOR_MASTER''"
| "status_name MASTER_REVIEW = ''MASTER_REVIEW''" | "status_name COMPLETED = ''COMPLETED''"
| "status_name FAILED = ''FAILED''" | "status_name RETRYING = ''RETRYING''"
| "status_name CANCELLED = ''CANCELLED''" | "status_name ESCALATED = ''ESCALATED''"

text \<open>A reference to a durable lease, as the queue stores it in a task's metadata.\<close>

record lease_ref =
  lr_logical :: string
  lr_key :: string
  lr_token :: int
  lr_until :: rat

text \<open>
  The metadata entries the modelled code reads or writes; the value of an absent entry is
  \<open>None\<close>, \<open>[]\<close> or \<open>False\<close>, which is what \<open>metadata.get\<close> and its truth test give.
\<close>

record task_meta =
  m_effect_state :: "string option"
  m_may_have_started :: bool
  m_timeout_uncertain :: bool
  m_history :: "(task_status \<times> task_status \<times> string) list"
  m_locks_held :: "string list option"
  m_leases :: "lease_ref list option"
  m_node :: "string option"
  m_caps :: "string list option"
  m_recovery :: "string option"

definition no_meta :: task_meta where
  "no_meta = \<lparr>m_effect_state = None, m_may_have_started = False, m_timeout_uncertain = False,
     m_history = [], m_locks_held = None, m_leases = None, m_node = None, m_caps = None,
     m_recovery = None\<rparr>"

record task =
  t_id :: string
  t_run :: string
  objective :: string
  description :: string
  dependencies :: "string list"
  priority :: task_priority
  risk :: string
  required_caps :: "string list"
  strategy :: string
  status :: task_status
  max_iterations :: int
  max_repairs :: int
  repair_round :: int
  token_budget :: int
  retry_count :: int
  max_retries :: int
  depth :: int
  created_at :: rat
  updated_at :: rat
  target_files :: "string list"
  scope :: string
  resource_locks :: "string list"
  timeout_s :: rat
  heartbeat_s :: rat
  idem_key :: string
  candidate :: "string option"
  meta :: task_meta

text \<open>The priorities are ordered as their queue weights are.\<close>

fun priority_weight :: "task_priority \<Rightarrow> int" where
  "priority_weight CRITICAL = 4"
| "priority_weight HIGH = 3"
| "priority_weight MEDIUM = 2"
| "priority_weight LOW = 1"

lemma priority_weight_inj: "priority_weight p = priority_weight q \<Longrightarrow> p = q"
  by (cases p; cases q) auto

instantiation task_priority :: linorder
begin

definition less_eq_task_priority :: "task_priority \<Rightarrow> task_priority \<Rightarrow> bool" where
  "less_eq_task_priority p q \<longleftrightarrow> priority_weight p \<le> priority_weight q"

definition less_task_priority :: "task_priority \<Rightarrow> task_priority \<Rightarrow> bool" where
  "less_task_priority p q \<longleftrightarrow> priority_weight p < priority_weight q"

instance
  by standard
    (auto simp: less_eq_task_priority_def less_task_priority_def dest: priority_weight_inj)

end

section \<open>The task state machine\<close>

fun task_moves :: "task_status \<Rightarrow> task_status list" where
  "task_moves PENDING = [QUEUED, RUNNING, FAILED, CANCELLED]"
| "task_moves QUEUED = [RUNNING, CANCELLED]"
| "task_moves RUNNING = [VALIDATING, COMPLETED, FAILED, CANCELLED]"
| "task_moves VALIDATING = [READY, QUALITY_GATE, REJECTED, DISPUTED, FAILED, CANCELLED]"
| "task_moves REJECTED = [REPAIRING, ESCALATED, FAILED, CANCELLED]"
| "task_moves REPAIRING = [VALIDATING, FAILED, ESCALATED, CANCELLED]"
| "task_moves READY = [QUALITY_GATE, READY_FOR_MASTER, CANCELLED]"
| "task_moves DISPUTED = [ESCALATED, REPAIRING, CANCELLED]"
| "task_moves QUALITY_GATE =
     [READY_FOR_MASTER, REPAIRING, FAILED, CANCELLED, ESCALATED, VALIDATING]"
| "task_moves READY_FOR_MASTER = [MASTER_REVIEW, COMPLETED, CANCELLED]"
| "task_moves MASTER_REVIEW = [COMPLETED, REPAIRING, FAILED, CANCELLED]"
| "task_moves FAILED = [RETRYING, ESCALATED, CANCELLED]"
| "task_moves RETRYING = [QUEUED, RUNNING, FAILED, CANCELLED]"
| "task_moves ESCALATED = [MASTER_REVIEW, FAILED, CANCELLED]"
| "task_moves COMPLETED = []"
| "task_moves CANCELLED = []"

definition unreplayable_effects :: "string list" where
  "unreplayable_effects = [''UNCERTAIN'', ''RUNNING'', ''WAITING_EXTERNAL'', ''IN_FLIGHT'',
     ''CLAIMED'', ''LEASED'', ''IN_REVIEW'']"

text \<open>
  \<open>None\<close> stands for a metadata object that is not a dictionary. An enum member and its
  string give the same text, so the effect state is a string.
\<close>

definition admit_effect_retry :: "task_meta option \<Rightarrow> bool" where
  "admit_effect_retry md = (case md of
       None \<Rightarrow> True
     | Some m \<Rightarrow>
         if m_may_have_started m then False
         else (case m_effect_state m of
             None \<Rightarrow> True
           | Some raw \<Rightarrow> if raw = [] then True else raw \<notin> set unreplayable_effects))"

definition can_transition :: "task_status \<Rightarrow> task_status \<Rightarrow> bool" where
  "can_transition c t = can_move task_moves c t"

definition log_move :: "task_status \<Rightarrow> task_status \<Rightarrow> string \<Rightarrow> task \<Rightarrow> task" where
  "log_move c t reason k =
     k\<lparr>meta := (meta k)\<lparr>m_history := m_history (meta k) @ [(c, t, reason)]\<rparr>\<rparr>"

definition transition :: "task \<Rightarrow> task_status \<Rightarrow> string \<Rightarrow> exn + task" where
  "transition k target reason =
     (let current = status k in
      if \<not> can_transition current target then Inl InvalidTransition
      else if target = RETRYING \<and> \<not> admit_effect_retry (Some (meta k)) then Inl InvalidTransition
      else Inr (log_move current target reason (k\<lparr>status := target\<rparr>)))"

text \<open>A run of the state machine: the first refused move ends it.\<close>

fun transitions :: "task \<Rightarrow> (task_status \<times> string) list \<Rightarrow> exn + task" where
  "transitions k [] = Inr k"
| "transitions k ((t, r) # ms) = (case transition k t r of
      Inl e \<Rightarrow> Inl e
    | Inr k' \<Rightarrow> transitions k' ms)"

definition task_final :: "task_status \<Rightarrow> bool" where
  "task_final s \<longleftrightarrow> s = COMPLETED \<or> s = CANCELLED"

interpretation tasks: transition_table task_moves task_final
proof unfold_locales
  fix s show "task_final s \<longleftrightarrow> task_moves s = []"
    by (cases s) (simp_all add: task_final_def)
qed

section \<open>Facts about transitions\<close>

lemma log_move_simps [simp]:
  "status (log_move c t r k) = status k" "t_id (log_move c t r k) = t_id k"
  "dependencies (log_move c t r k) = dependencies k" "scope (log_move c t r k) = scope k"
  "resource_locks (log_move c t r k) = resource_locks k"
  "target_files (log_move c t r k) = target_files k"
  "idem_key (log_move c t r k) = idem_key k" "retry_count (log_move c t r k) = retry_count k"
  "m_history (meta (log_move c t r k)) = m_history (meta k) @ [(c, t, r)]"
  by (simp_all add: log_move_def)

lemma transition_InrD:
  "transition k t r = Inr k' \<Longrightarrow> can_transition (status k) t \<and> status k' = t
     \<and> k' = log_move (status k) t r (k\<lparr>status := t\<rparr>)"
  by (auto simp: transition_def Let_def split: if_splits)

lemma transition_log:
  "transition k t r = Inr k' \<Longrightarrow> m_history (meta k') = m_history (meta k) @ [(status k, t, r)]"
  by (auto simp: transition_def Let_def split: if_splits)

lemma transition_frame:
  "transition k t r = Inr k' \<Longrightarrow> t_id k' = t_id k \<and> dependencies k' = dependencies k
     \<and> scope k' = scope k \<and> resource_locks k' = resource_locks k
     \<and> target_files k' = target_files k \<and> idem_key k' = idem_key k
     \<and> retry_count k' = retry_count k"
  by (auto simp: transition_def Let_def split: if_splits)

lemma transition_ok:
  "t \<noteq> RETRYING \<Longrightarrow> can_transition (status k) t \<Longrightarrow>
     transition k t r = Inr (log_move (status k) t r (k\<lparr>status := t\<rparr>))"
  by (simp add: transition_def)

lemma transition_error: "transition k t r = Inl e \<Longrightarrow> e = InvalidTransition"
  by (auto simp: transition_def Let_def split: if_splits)

lemma can_transition_final: "task_final c \<Longrightarrow> can_transition c t \<longleftrightarrow> t = c"
  by (simp add: can_transition_def tasks.final_absorbs)

text \<open>The history of a task, without the reasons.\<close>

definition hist :: "task \<Rightarrow> (task_status \<times> task_status) list" where
  "hist k = map (\<lambda>(a, b, r). (a, b)) (m_history (meta k))"

lemma transition_chain:
  assumes "transition k t r = Inr k'" and "chain task_moves s0 (hist k) (status k)"
  shows "chain task_moves s0 (hist k') (status k')"
proof -
  from assms(1) have *: "can_transition (status k) t" "status k' = t"
    "hist k' = hist k @ [(status k, t)]"
    by (auto dest: transition_InrD simp: hist_def transition_log)
  with assms(2) show ?thesis
    by (simp add: can_transition_def chain_snoc)
qed

lemma transitions_chain:
  "transitions k ms = Inr k' \<Longrightarrow> chain task_moves s0 (hist k) (status k) \<Longrightarrow>
     chain task_moves s0 (hist k') (status k')"
  by (induction k ms rule: transitions.induct) (auto split: sum.splits dest: transition_chain)

text \<open>The history only grows: what was recorded stays recorded.\<close>

lemma transitions_history_grows:
  "transitions k ms = Inr k' \<Longrightarrow> \<exists>new. m_history (meta k') = m_history (meta k) @ new
     \<and> map (\<lambda>(a, b, r). (b, r)) new = ms"
proof (induction k ms rule: transitions.induct)
  case (1 k)
  then show ?case by simp
next
  case (2 k t r ms)
  then obtain k1 where k1: "transition k t r = Inr k1" "transitions k1 ms = Inr k'"
    by (auto split: sum.splits)
  then obtain new where "m_history (meta k') = m_history (meta k1) @ new"
    "map (\<lambda>(a, b, r). (b, r)) new = ms"
    using "2.IH" by blast
  with k1(1) show ?case
    by (intro exI [of _ "(status k, t, r) # new"]) (auto simp: transition_log)
qed

end
