(* ===== verification/Durable_Model.thy ===== *)
theory Durable_Model
  imports Task_Model
begin

text \<open>
  The data of the durable runtime (\<open>sentra_mcp/services/durable.py\<close>): the tables of the
  SQLite file as dictionaries of rows, the transition tables of runs, operations, agents,
  chats and goals, identifier validation, row look-up with the ownership check, and the event
  log.

  A JSON column holds the value it encodes. A call reads the clock once, as the argument
  \<open>now\<close>; generated identifiers (\<open>uuid4\<close>) are arguments. The check \<open>assert_principal\<close> of
  the SQLite store does nothing to a store that is selected. Files written beside the
  database (the event log and the state projection) are not modelled.
\<close>

section \<open>JSON values and rows\<close>

datatype json =
    JNull
  | JBool bool
  | JNum rat
  | JStr string
  | JList "json list"
  | JObj "(string \<times> json) list"

type_synonym jobj = "(string \<times> json) list"

definition jopt :: "string option \<Rightarrow> json" where
  "jopt s = (case s of None \<Rightarrow> JNull | Some x \<Rightarrow> JStr x)"

record run_row =
  ru_id :: string
  ru_owner :: string
  ru_workspace :: "string option"
  ru_key :: "string option"
  ru_state :: string
  ru_desired :: string
  ru_started :: rat
  ru_updated :: rat
  ru_result :: "json option"
  ru_rollback :: "json option"
  ru_required :: "string list"
  ru_snapshot :: jobj
  ru_used :: "string list"
  ru_seq :: int

record goal_row =
  go_id :: string
  go_run :: string
  go_owner :: string
  go_parent :: "string option"
  go_external :: "string option"
  go_objective :: string
  go_criteria :: "string list"
  go_constraints :: "string list"
  go_priority :: string
  go_budget :: jobj
  go_deadline :: "rat option"
  go_state :: string
  go_created :: rat
  go_updated :: rat
  go_meta :: jobj

record agent_row =
  ag_id :: string
  ag_run :: string
  ag_owner :: string
  ag_role :: string
  ag_task :: "string option"
  ag_goal :: "string option"
  ag_state :: string
  ag_desired :: string
  ag_chat :: "string option"
  ag_heartbeat :: rat
  ag_created :: rat
  ag_updated :: rat
  ag_meta :: jobj

record chat_row =
  ch_id :: string
  ch_run :: string
  ch_owner :: string
  ch_agent :: "string option"
  ch_state :: string
  ch_desired :: string
  ch_provider :: "string option"
  ch_conversation :: "string option"
  ch_url :: "string option"
  ch_project :: "string option"
  ch_project_url :: "string option"
  ch_title :: "string option"
  ch_heartbeat :: rat
  ch_created :: rat
  ch_updated :: rat
  ch_meta :: jobj

record op_row =
  op_id :: string
  op_run :: string
  op_owner :: string
  op_key :: string
  op_kind :: string
  op_state :: string
  op_readiness :: string
  op_progress :: jobj
  op_started :: rat
  op_updated :: rat
  op_heartbeat :: rat
  op_result :: "json option"
  op_error :: "json option"
  op_rollback :: "json option"
  op_cleanup :: string
  op_intent :: "string option"
  op_resource :: "string option"
  op_token :: "int option"

record resource_row =
  rs_id :: string
  rs_run :: string
  rs_op :: "string option"
  rs_owner :: string
  rs_type :: string
  rs_state :: string
  rs_meta :: jobj
  rs_updated :: rat

record artifact_row =
  af_id :: string
  af_run :: string
  af_op :: "string option"
  af_owner :: string
  af_path :: string
  af_mime :: string
  af_sha :: string
  af_size :: int
  af_meta :: jobj
  af_created :: rat

record lease_row =
  le_key :: string
  le_run :: string
  le_op :: "string option"
  le_owner :: string
  le_token :: int
  le_until :: rat
  le_updated :: rat

record event =
  ev_run :: string
  ev_seq :: int
  ev_op :: "string option"
  ev_type :: string
  ev_state :: "string option"
  ev_ts :: rat
  ev_payload :: jobj

record db =
  tb_runs :: "(string, run_row) dict"
  tb_goals :: "(string, goal_row) dict"
  tb_agents :: "(string, agent_row) dict"
  tb_chats :: "(string, chat_row) dict"
  tb_ops :: "(string, op_row) dict"
  tb_resources :: "(string, resource_row) dict"
  tb_artifacts :: "(string, artifact_row) dict"
  tb_leases :: "(string, lease_row) dict"
  tb_fences :: "(string, int) dict"
  tb_events :: "event list"
  tb_members :: "(string \<times> string \<times> string, agent_row \<times> rat) dict"

definition empty_db :: db where
  "empty_db = \<lparr>tb_runs = [], tb_goals = [], tb_agents = [], tb_chats = [], tb_ops = [],
     tb_resources = [], tb_artifacts = [], tb_leases = [], tb_fences = [], tb_events = [],
     tb_members = []\<rparr>"

section \<open>States and transition tables\<close>

definition run_states :: "string list" where
  "run_states = [''CREATED'', ''RUNNING'', ''PAUSED'', ''RECOVERING'', ''BLOCKED'',
     ''SUCCEEDED'', ''FAILED'', ''CANCELLED'']"

definition operation_states :: "string list" where
  "operation_states = [''QUEUED'', ''STARTING'', ''RUNNING'', ''WAITING_EXTERNAL'',
     ''SUCCEEDED'', ''FAILED'', ''UNCERTAIN'', ''CANCEL_REQUESTED'', ''CANCELLED'']"

definition agent_states :: "string list" where
  "agent_states = [''AVAILABLE'', ''ACTIVE'', ''WAITING'', ''SUSPECTED_STALL'',
     ''RECOVERING'', ''ORPHANED'', ''DEAD'']"

definition chat_states :: "string list" where
  "chat_states = [''READY'', ''GENERATING'', ''TOOL_WAIT'', ''PLATFORM_HOLD'',
     ''WAITING_USER'', ''IDLE'', ''DISCONNECTED'']"

definition goal_states :: "string list" where
  "goal_states = [''ACTIVE'', ''PAUSED'', ''BLOCKED'', ''SUCCEEDED'', ''FAILED'', ''CANCELLED'']"

definition goal_priorities :: "string list" where
  "goal_priorities = [''LOW'', ''MEDIUM'', ''HIGH'', ''CRITICAL'']"

definition readiness_states :: "string list" where
  "readiness_states = [''UNKNOWN'', ''PROCESS_STARTED'', ''PORT_LISTENING'',
     ''TRANSPORT_CONNECTED'', ''PLUGIN_HANDSHAKE'', ''CAPABILITY_NEGOTIATED'',
     ''SESSION_READY'', ''PRODUCT_READY'']"

text \<open>The three terminal sets (runs, operations, goals) are the same.\<close>

definition terminal_states :: "string list" where
  "terminal_states = [''SUCCEEDED'', ''FAILED'', ''CANCELLED'']"

text \<open>\<open>table.get(current, set())\<close>.\<close>

definition row_of :: "(string, string list) dict \<Rightarrow> string \<Rightarrow> string list" where
  "row_of tbl s = (case dget tbl s of None \<Rightarrow> [] | Some ts \<Rightarrow> ts)"

definition run_transitions :: "(string, string list) dict" where
  "run_transitions =
    [(''CREATED'', [''RUNNING'', ''PAUSED'', ''BLOCKED'', ''FAILED'', ''CANCELLED'']),
     (''RUNNING'', [''PAUSED'', ''RECOVERING'', ''BLOCKED'', ''SUCCEEDED'', ''FAILED'', ''CANCELLED'']),
     (''PAUSED'', [''RUNNING'', ''RECOVERING'', ''BLOCKED'', ''FAILED'', ''CANCELLED'']),
     (''RECOVERING'', [''RUNNING'', ''BLOCKED'', ''FAILED'', ''CANCELLED'']),
     (''BLOCKED'', [''RUNNING'', ''RECOVERING'', ''FAILED'', ''CANCELLED'']),
     (''SUCCEEDED'', []), (''FAILED'', []), (''CANCELLED'', [])]"

definition operation_transitions :: "(string, string list) dict" where
  "operation_transitions =
    [(''QUEUED'', [''STARTING'', ''RUNNING'', ''FAILED'', ''CANCELLED'']),
     (''STARTING'', [''RUNNING'', ''WAITING_EXTERNAL'', ''FAILED'', ''UNCERTAIN'',
        ''CANCEL_REQUESTED'', ''CANCELLED'']),
     (''RUNNING'', [''WAITING_EXTERNAL'', ''SUCCEEDED'', ''FAILED'', ''UNCERTAIN'',
        ''CANCEL_REQUESTED'', ''CANCELLED'']),
     (''WAITING_EXTERNAL'', [''RUNNING'', ''SUCCEEDED'', ''FAILED'', ''UNCERTAIN'',
        ''CANCEL_REQUESTED'', ''CANCELLED'']),
     (''CANCEL_REQUESTED'', [''CANCELLED'', ''FAILED'', ''UNCERTAIN'', ''SUCCEEDED'']),
     (''UNCERTAIN'', [''SUCCEEDED'', ''FAILED'', ''CANCELLED'']),
     (''SUCCEEDED'', []), (''FAILED'', []), (''CANCELLED'', [])]"

definition agent_transitions :: "(string, string list) dict" where
  "agent_transitions =
    [(''AVAILABLE'', [''ACTIVE'', ''DEAD'']),
     (''ACTIVE'', [''WAITING'', ''SUSPECTED_STALL'', ''RECOVERING'', ''ORPHANED'', ''DEAD'', ''AVAILABLE'']),
     (''WAITING'', [''ACTIVE'', ''SUSPECTED_STALL'', ''RECOVERING'', ''ORPHANED'', ''DEAD'', ''AVAILABLE'']),
     (''SUSPECTED_STALL'', [''RECOVERING'', ''ACTIVE'', ''ORPHANED'', ''DEAD'']),
     (''RECOVERING'', [''ACTIVE'', ''WAITING'', ''ORPHANED'', ''DEAD'']),
     (''ORPHANED'', [''RECOVERING'', ''DEAD'']),
     (''DEAD'', [])]"

definition chat_transitions :: "(string, string list) dict" where
  "chat_transitions =
    [(''READY'', [''GENERATING'', ''TOOL_WAIT'', ''PLATFORM_HOLD'', ''WAITING_USER'', ''IDLE'', ''DISCONNECTED'']),
     (''GENERATING'', [''READY'', ''TOOL_WAIT'', ''PLATFORM_HOLD'', ''WAITING_USER'', ''IDLE'', ''DISCONNECTED'']),
     (''TOOL_WAIT'', [''GENERATING'', ''READY'', ''PLATFORM_HOLD'', ''WAITING_USER'', ''IDLE'', ''DISCONNECTED'']),
     (''PLATFORM_HOLD'', [''READY'', ''GENERATING'', ''WAITING_USER'', ''IDLE'', ''DISCONNECTED'']),
     (''WAITING_USER'', [''READY'', ''GENERATING'', ''IDLE'', ''DISCONNECTED'']),
     (''IDLE'', [''READY'', ''GENERATING'', ''DISCONNECTED'']),
     (''DISCONNECTED'', [''READY'', ''IDLE''])]"

definition goal_transitions :: "(string, string list) dict" where
  "goal_transitions =
    [(''ACTIVE'', [''PAUSED'', ''BLOCKED'', ''SUCCEEDED'', ''FAILED'', ''CANCELLED'']),
     (''PAUSED'', [''ACTIVE'', ''BLOCKED'', ''FAILED'', ''CANCELLED'']),
     (''BLOCKED'', [''ACTIVE'', ''PAUSED'', ''FAILED'', ''CANCELLED'']),
     (''SUCCEEDED'', []), (''FAILED'', []), (''CANCELLED'', [])]"

text \<open>A state without moves is a terminal state, or not a state at all.\<close>

definition ends :: "string list \<Rightarrow> string list \<Rightarrow> string \<Rightarrow> bool" where
  "ends terminal states s \<longleftrightarrow> s \<in> set terminal \<or> s \<notin> set states"

lemma table_ends:
  assumes "set (map fst tbl) = set states" "dict_ok tbl"
    "\<forall>(s, ts) \<in> set tbl. (s \<in> set terminal) = (ts = [])" "set terminal \<subseteq> set states"
  shows "ends terminal states s \<longleftrightarrow> row_of tbl s = []"
proof (cases "dget tbl s")
  case None
  then have "s \<notin> set states" using assms(1) by (simp add: dget_None)
  with None show ?thesis by (simp add: ends_def row_of_def)
next
  case (Some ts)
  then have "s \<in> set states" using assms(1) dget_Some_key [OF Some] by simp
  moreover have "(s \<in> set terminal) = (ts = [])"
    using assms(3) map_of_SomeD [OF Some] by blast
  ultimately show ?thesis using Some by (simp add: ends_def row_of_def)
qed

interpretation runs: transition_table "row_of run_transitions" "ends terminal_states run_states"
  by (unfold_locales, rule table_ends)
    (simp_all add: run_transitions_def run_states_def terminal_states_def insert_commute)

interpretation operations: transition_table "row_of operation_transitions" "ends terminal_states operation_states"
  by (unfold_locales, rule table_ends)
    (simp_all add: operation_transitions_def operation_states_def terminal_states_def insert_commute)

interpretation agents: transition_table "row_of agent_transitions" "ends [''DEAD''] agent_states"
  by (unfold_locales, rule table_ends)
    (simp_all add: agent_transitions_def agent_states_def terminal_states_def insert_commute)

interpretation chats: transition_table "row_of chat_transitions" "ends [] chat_states"
  by (unfold_locales, rule table_ends)
    (simp_all add: chat_transitions_def chat_states_def terminal_states_def insert_commute)

interpretation goals: transition_table "row_of goal_transitions" "ends terminal_states goal_states"
  by (unfold_locales, rule table_ends)
    (simp_all add: goal_transitions_def goal_states_def terminal_states_def insert_commute)

section \<open>Validation\<close>

definition id_char :: "char \<Rightarrow> bool" where
  "id_char c \<longleftrightarrow> (let n = ccode c in (48 \<le> n \<and> n \<le> 57) \<or> (65 \<le> n \<and> n \<le> 90) \<or> (97 \<le> n \<and> n \<le> 122)
     \<or> n = 95 \<or> n = 46 \<or> n = 58 \<or> n = 45)"

definition id_start :: "char \<Rightarrow> bool" where
  "id_start c \<longleftrightarrow> (let n = ccode c in (48 \<le> n \<and> n \<le> 57) \<or> (65 \<le> n \<and> n \<le> 90) \<or> (97 \<le> n \<and> n \<le> 122))"

definition validate_id :: "string \<Rightarrow> string \<Rightarrow> exn + string" where
  "validate_id name v =
     (let text = py_strip v in
      if text \<noteq> [] \<and> id_start (hd text) \<and> list_all id_char (tl text) \<and> length text \<le> 128
      then Inr text else Inl (ValueError name))"

text \<open>Entries stripped, at most 100 of them, each 1 to 4000 characters, duplicates dropped.\<close>

fun goal_strings :: "string list \<Rightarrow> string list \<Rightarrow> exn + string list" where
  "goal_strings out [] = Inr out"
| "goal_strings out (x # xs) =
     (let text = py_strip x in
      if text = [] \<or> length text > 4000 then Inl (ValueError ''entries'')
      else goal_strings (if text \<in> set out then out else out @ [text]) xs)"

definition goal_string_list :: "string list option \<Rightarrow> exn + string list" where
  "goal_string_list v = (case v of
       None \<Rightarrow> Inr []
     | Some xs \<Rightarrow> if length xs > 100 then Inl (ValueError ''at most 100 strings'')
         else goal_strings [] xs)"

section \<open>Row look-up and the event log\<close>

text \<open>A missing row is not found; a row of another owner is refused.\<close>

definition lookup ::
  "string \<Rightarrow> (db \<Rightarrow> (string, 'r) dict) \<Rightarrow> ('r \<Rightarrow> string) \<Rightarrow> string \<Rightarrow> string option \<Rightarrow> (db, 'r) sx" where
  "lookup what tb own i owner d = (case dget (tb d) i of
       None \<Rightarrow> (Inl (FileNotFound what), d)
     | Some r \<Rightarrow> if owner \<noteq> None \<and> own r \<noteq> the owner then (Inl (PermissionDenied what), d)
         else (Inr r, d))"

definition fetch_run_row :: "string \<Rightarrow> string option \<Rightarrow> (db, run_row) sx" where
  "fetch_run_row = lookup ''run'' tb_runs ru_owner"

definition fetch_goal_row :: "string \<Rightarrow> string option \<Rightarrow> (db, goal_row) sx" where
  "fetch_goal_row = lookup ''goal'' tb_goals go_owner"

definition fetch_operation_row :: "string \<Rightarrow> string option \<Rightarrow> (db, op_row) sx" where
  "fetch_operation_row = lookup ''operation'' tb_ops op_owner"

definition fetch_agent_row :: "string \<Rightarrow> string option \<Rightarrow> (db, agent_row) sx" where
  "fetch_agent_row = lookup ''agent'' tb_agents ag_owner"

definition fetch_chat_row :: "string \<Rightarrow> string option \<Rightarrow> (db, chat_row) sx" where
  "fetch_chat_row = lookup ''chat'' tb_chats ch_owner"

definition append_event ::
  "rat \<Rightarrow> string \<Rightarrow> string \<Rightarrow> string option \<Rightarrow> string option \<Rightarrow> jobj \<Rightarrow> (db, event) sx" where
  "append_event now rid typ opid st payload =
     bnd (fetch_run_row rid None) (\<lambda>r.
       let seq = ru_seq r + 1;
           e = \<lparr>ev_run = rid, ev_seq = seq, ev_op = opid, ev_type = typ, ev_state = st,
                ev_ts = now, ev_payload = payload\<rparr>
       in andthen (modify (\<lambda>d. d\<lparr>tb_events := tb_events d @ [e],
              tb_runs := dset rid (r\<lparr>ru_seq := seq, ru_updated := now\<rparr>) (tb_runs d)\<rparr>))
            (ret e))"

text \<open>Rows of a table, in insertion order.\<close>

definition rows :: "('k, 'r) dict \<Rightarrow> 'r list" where
  "rows d = map snd d"

text \<open>\<open>dict.update\<close> on a JSON object.\<close>

definition merged :: "jobj \<Rightarrow> jobj option \<Rightarrow> jobj" where
  "merged d u = (case u of None \<Rightarrow> d | Some e \<Rightarrow> dupdate d e)"

text \<open>\<open>str(x or '').strip() or None\<close>.\<close>

definition clean_key :: "string option \<Rightarrow> string option" where
  "clean_key k = (case k of None \<Rightarrow> None | Some s \<Rightarrow> if py_strip s = [] then None else Some (py_strip s))"

text \<open>\<open>x or y\<close> on an optional string.\<close>

definition or_else :: "string option \<Rightarrow> string \<Rightarrow> string" where
  "or_else x y = (case x of None \<Rightarrow> y | Some s \<Rightarrow> if s = [] then y else s)"

definition filled :: "string option \<Rightarrow> bool" where
  "filled x \<longleftrightarrow> x \<noteq> None \<and> x \<noteq> Some []"

end
