(* ===== verification/Durable_Runs.thy ===== *)
theory Durable_Runs
  imports Durable_Model
begin

text \<open>
  Runs, goals, agents and chats of the durable runtime: creation with idempotent replay,
  guarded state transitions, reassignment of an agent identity between runs, and the binding
  of a logical chat to a physical conversation. Every call that changes a row appends an
  event to the run's log in the same transaction. The value of a call is the row it reports
  and whether it was a replay.
\<close>

section \<open>Runs\<close>

definition run_by_key :: "string \<Rightarrow> string option \<Rightarrow> db \<Rightarrow> run_row option" where
  "run_by_key owner key d = (case key of None \<Rightarrow> None
     | Some k \<Rightarrow> find (\<lambda>r. ru_owner r = owner \<and> ru_key r = Some k) (rows (tb_runs d)))"

definition new_run ::
  "rat \<Rightarrow> string \<Rightarrow> string \<Rightarrow> string option \<Rightarrow> string option \<Rightarrow> string list \<Rightarrow> jobj \<Rightarrow> string \<Rightarrow> run_row" where
  "new_run now i owner ws key req snap desired = \<lparr>ru_id = i, ru_owner = owner, ru_workspace = ws,
     ru_key = key, ru_state = ''CREATED'', ru_desired = desired, ru_started = now, ru_updated = now,
     ru_result = None, ru_rollback = None, ru_required = req, ru_snapshot = snap, ru_used = [],
     ru_seq = 0\<rparr>"

definition put_run :: "run_row \<Rightarrow> db \<Rightarrow> db" where
  "put_run r d = d\<lparr>tb_runs := dset (ru_id r) r (tb_runs d)\<rparr>"

definition create_run ::
  "rat \<Rightarrow> string \<Rightarrow> string \<Rightarrow> string option \<Rightarrow> string option \<Rightarrow> string option \<Rightarrow> string list \<Rightarrow>
     jobj \<Rightarrow> string \<Rightarrow> (db, run_row \<times> bool) sx" where
  "create_run now gen owner ws rid key req snap desired =
     andthen (require (desired \<in> set run_states) (ValueError ''desired run state''))
     (andthen (require (desired \<notin> set terminal_states) (ValueError ''terminal desired state''))
     (bnd (gets (run_by_key owner (clean_key key))) (\<lambda>old. case old of
        Some r \<Rightarrow> ret (r, True)
      | None \<Rightarrow>
          bnd (lift_sum (validate_id ''run_id'' (or_else rid gen))) (\<lambda>i.
          bnd (gets (\<lambda>d. dget (tb_runs d) i)) (\<lambda>taken. case taken of
             Some x \<Rightarrow> throw (FileExists ''run_id'')
           | None \<Rightarrow>
               andthen (modify (put_run (new_run now i owner ws (clean_key key) req snap desired)))
               (andthen (append_event now i ''RUN_CREATED'' None (Some ''CREATED'')
                   [(''owner'', JStr owner), (''workspace'', jopt ws), (''desired_state'', JStr desired),
                    (''required_capabilities'', JList (map JStr req))])
               (andthen
                  (if desired = ''RUNNING''
                   then andthen (modify (\<lambda>d. d\<lparr>tb_runs := upd_row i
                            (\<lambda>r. r\<lparr>ru_state := ''RUNNING'', ru_updated := now\<rparr>) (tb_runs d)\<rparr>))
                          (andthen (append_event now i ''RUN_STARTED'' None (Some ''RUNNING'') []) (ret ()))
                   else ret ())
                  (bnd (fetch_run_row i None) (\<lambda>r. ret (r, False))))))))))"

text \<open>The digest of owner and workspace (\<open>sha256\<close>, 24 digits) is an argument.\<close>

definition ensure_implicit_run ::
  "(string \<Rightarrow> string) \<Rightarrow> rat \<Rightarrow> string \<Rightarrow> string \<Rightarrow> string option \<Rightarrow> (db, run_row \<times> bool) sx" where
  "ensure_implicit_run digest now gen owner ws =
     create_run now gen owner ws None
       (Some (''implicit:'' @ digest (owner @ ''|'' @ (case ws of None \<Rightarrow> [] | Some w \<Rightarrow> w))))
       [] [] ''RUNNING''"

definition transition_run ::
  "rat \<Rightarrow> string \<Rightarrow> string \<Rightarrow> string \<Rightarrow> string \<Rightarrow> json option \<Rightarrow> json option \<Rightarrow> (db, run_row) sx" where
  "transition_run now rid owner state reason result rollback =
     andthen (require (state \<in> set run_states) (ValueError ''run state''))
     (bnd (fetch_run_row rid (Some owner)) (\<lambda>r.
       andthen (require (can_move (row_of run_transitions) (ru_state r) state) (StateConflict ''run transition''))
       (andthen (modify (\<lambda>d. d\<lparr>tb_runs := dset rid (r\<lparr>ru_state := state, ru_updated := now,
            ru_result := coalesce result (ru_result r),
            ru_rollback := coalesce rollback (ru_rollback r)\<rparr>) (tb_runs d)\<rparr>))
       (andthen (append_event now rid ''RUN_STATE_CHANGED'' None (Some state)
            [(''from'', JStr (ru_state r)), (''to'', JStr state), (''reason'', JStr reason)])
       (fetch_run_row rid None)))))"

definition clean_words :: "string list \<Rightarrow> string list" where
  "clean_words xs = sort (remdups (filter (\<lambda>s. s \<noteq> []) (map py_strip xs)))"

definition record_capabilities_used :: "rat \<Rightarrow> string \<Rightarrow> string \<Rightarrow> string list \<Rightarrow> (db, run_row) sx" where
  "record_capabilities_used now rid owner caps =
     bnd (fetch_run_row rid (Some owner)) (\<lambda>r.
       let norm = clean_words caps; all = sort (remdups (ru_used r @ norm)) in
       andthen (modify (\<lambda>d. d\<lparr>tb_runs := dset rid (r\<lparr>ru_used := all, ru_updated := now\<rparr>) (tb_runs d)\<rparr>))
       (andthen (append_event now rid ''CAPABILITIES_USED'' None None
            [(''capabilities'', JList (map JStr norm)), (''all'', JList (map JStr all))])
       (fetch_run_row rid None)))"

section \<open>Goals\<close>

definition goal_text_ok :: "string \<Rightarrow> bool" where
  "goal_text_ok t \<longleftrightarrow> t \<noteq> [] \<and> length t \<le> 100000"

definition external_ok :: "string option \<Rightarrow> bool" where
  "external_ok e = (case e of None \<Rightarrow> True
     | Some s \<Rightarrow> length s \<le> 200 \<and> CHR 0x0D \<notin> set s \<and> CHR 0x0A \<notin> set s \<and> CHR 0x00 \<notin> set s)"

definition goal_by_key :: "string \<Rightarrow> string option \<Rightarrow> db \<Rightarrow> goal_row option" where
  "goal_by_key rid key d = (case key of None \<Rightarrow> None
     | Some k \<Rightarrow> find (\<lambda>g. go_run g = rid \<and> go_external g = Some k) (rows (tb_goals d)))"

definition create_goal ::
  "rat \<Rightarrow> string \<Rightarrow> string \<Rightarrow> string \<Rightarrow> string \<Rightarrow> string list option \<Rightarrow> string list option \<Rightarrow> string \<Rightarrow>
     jobj \<Rightarrow> rat option \<Rightarrow> string option \<Rightarrow> string option \<Rightarrow> string option \<Rightarrow> jobj \<Rightarrow>
     (db, goal_row \<times> bool) sx" where
  "create_goal now gen rid owner txt criteria constraints prt budget deadline parent gid
       external md =
     andthen (require (goal_text_ok (py_strip txt)) (ValueError ''goal objective''))
     (andthen (require (py_upper (py_strip prt) \<in> set goal_priorities) (ValueError ''goal priority''))
     (bnd (lift_sum (goal_string_list criteria)) (\<lambda>crit.
     (bnd (lift_sum (goal_string_list constraints)) (\<lambda>lims.
     (andthen (require (external_ok (clean_key external)) (ValueError ''external_key''))
     (andthen (fetch_run_row rid (Some owner))
     (bnd (gets (goal_by_key rid (clean_key external))) (\<lambda>old. case old of
        Some g \<Rightarrow> ret (g, True)
      | None \<Rightarrow>
          andthen (if filled parent
             then bnd (fetch_goal_row (the parent) (Some owner)) (\<lambda>p.
                 require (go_run p = rid) (ValueError ''parent goal belongs to another run''))
             else ret ())
          (bnd (lift_sum (validate_id ''goal_id'' (or_else gid gen))) (\<lambda>i.
          bnd (gets (\<lambda>d. dget (tb_goals d) i)) (\<lambda>taken. case taken of
             Some x \<Rightarrow> throw (FileExists ''goal_id'')
           | None \<Rightarrow>
               andthen (modify (\<lambda>d. d\<lparr>tb_goals := dset i \<lparr>go_id = i, go_run = rid, go_owner = owner,
                   go_parent = parent, go_external = clean_key external,
                   go_objective = py_strip txt, go_criteria = crit, go_constraints = lims,
                   go_priority = py_upper (py_strip prt), go_budget = budget,
                   go_deadline = deadline, go_state = ''ACTIVE'', go_created = now, go_updated = now,
                   go_meta = md\<rparr> (tb_goals d)\<rparr>))
               (andthen (append_event now rid ''GOAL_CREATED'' None (Some ''ACTIVE'')
                   [(''goal_id'', JStr i), (''parent_goal_id'', jopt parent),
                    (''priority'', JStr (py_upper (py_strip prt))),
                    (''external_key'', jopt (clean_key external)),
                    (''acceptance_criteria_count'', JNum (of_nat (length crit))),
                    (''constraints_count'', JNum (of_nat (length lims)))])
               (bnd (fetch_goal_row i None) (\<lambda>g. ret (g, False))))))))))))))))"

definition goal_info :: "string \<Rightarrow> string \<Rightarrow> (db, goal_row \<times> bool) sx" where
  "goal_info gid owner = bnd (fetch_goal_row gid (Some owner)) (\<lambda>g. ret (g, go_state g \<in> set terminal_states))"

definition list_goals :: "string \<Rightarrow> string \<Rightarrow> string list option \<Rightarrow> (db, goal_row list) sx" where
  "list_goals rid owner states =
     andthen (fetch_run_row rid (Some owner))
     (andthen (require (case states of None \<Rightarrow> True
          | Some ss \<Rightarrow> set (map py_upper ss) \<subseteq> set goal_states) (ValueError ''goal state filter''))
     (gets (\<lambda>d. filter (\<lambda>g. case states of None \<Rightarrow> True | Some ss \<Rightarrow> go_state g \<in> set (map py_upper ss))
        (sort_key (\<lambda>g. (go_created g, go_id g))
          (filter (\<lambda>g. go_run g = rid) (rows (tb_goals d)))))))"

definition update_goal ::
  "rat \<Rightarrow> string \<Rightarrow> string \<Rightarrow> string option \<Rightarrow> string list option \<Rightarrow> string list option \<Rightarrow>
     string option \<Rightarrow> jobj option \<Rightarrow> rat option \<Rightarrow> string option \<Rightarrow> string \<Rightarrow> jobj option \<Rightarrow>
     (db, goal_row) sx" where
  "update_goal now gid owner txt criteria constraints prt budget deadline state reason md =
     bnd (fetch_goal_row gid (Some owner)) (\<lambda>g.
       let cur = go_state g; target = py_upper (or_else state cur) in
       andthen (require (target \<in> set goal_states) (ValueError ''goal state''))
       (andthen (require (can_move (row_of goal_transitions) cur target) (StateConflict ''goal transition''))
       (let obj = (case txt of None \<Rightarrow> go_objective g | Some t \<Rightarrow> py_strip t) in
       andthen (require (goal_text_ok obj) (ValueError ''goal objective''))
       (bnd (case criteria of None \<Rightarrow> ret (go_criteria g) | Some c \<Rightarrow> lift_sum (goal_string_list (Some c))) (\<lambda>crit.
       bnd (case constraints of None \<Rightarrow> ret (go_constraints g) | Some c \<Rightarrow> lift_sum (goal_string_list (Some c))) (\<lambda>lims.
       let prio = py_upper (or_else prt (go_priority g)) in
       andthen (require (prio \<in> set goal_priorities) (ValueError ''goal priority''))
       (andthen (modify (\<lambda>d. d\<lparr>tb_goals := dset gid (g\<lparr>go_objective := obj, go_criteria := crit,
            go_constraints := lims, go_priority := prio,
            go_budget := (case budget of None \<Rightarrow> go_budget g | Some b \<Rightarrow> b),
            go_deadline := coalesce deadline (go_deadline g), go_state := target,
            go_updated := now, go_meta := merged (go_meta g) md\<rparr>) (tb_goals d)\<rparr>))
       (andthen (append_event now (go_run g)
            (if target \<noteq> cur then ''GOAL_STATE_CHANGED'' else ''GOAL_UPDATED'') None (Some target)
            [(''goal_id'', JStr gid), (''from'', JStr cur), (''to'', JStr target),
             (''priority'', JStr prio), (''reason'', JStr (take 1000 reason))])
       (fetch_goal_row gid None)))))))))"

section \<open>Agents\<close>

definition assign_agent ::
  "rat \<Rightarrow> string \<Rightarrow> string \<Rightarrow> string \<Rightarrow> string \<Rightarrow> string option \<Rightarrow> string option \<Rightarrow> string option \<Rightarrow>
     string \<Rightarrow> string \<Rightarrow> jobj \<Rightarrow> (db, agent_row) sx" where
  "assign_agent now gen rid owner role tid goal aid state desired md =
     andthen (require (state \<in> set agent_states \<and> desired \<in> set agent_states) (ValueError ''agent state''))
     (andthen (require (py_strip role \<noteq> [] \<and> length (py_strip role) \<le> 120) (ValueError ''agent role''))
     (bnd (lift_sum (validate_id ''agent_id'' (or_else aid gen))) (\<lambda>i.
     (andthen (fetch_run_row rid (Some owner))
     (andthen (case goal of None \<Rightarrow> ret ()
          | Some g \<Rightarrow> bnd (fetch_goal_row g (Some owner)) (\<lambda>x.
              require (go_run x = rid) (ValueError ''goal belongs to another run'')))
     (bnd (gets (\<lambda>d. dget (tb_agents d) i)) (\<lambda>old. case old of
        Some a \<Rightarrow>
          if ag_owner a \<noteq> owner then throw (FileExists ''agent_id'')
          else if ag_run a = rid then ret a
          else bnd (fetch_run_row (ag_run a) (Some owner)) (\<lambda>prev.
            andthen (require (ru_state prev \<in> set terminal_states)
                (StateConflict ''agent identity is still assigned to an active run''))
            (andthen (modify (\<lambda>d. d\<lparr>
                tb_members := dset (owner, ag_run a, i) (a, now) (tb_members d),
                tb_agents := dset i (a\<lparr>ag_run := rid, ag_role := py_strip role, ag_task := tid,
                  ag_goal := goal, ag_state := state, ag_desired := desired, ag_heartbeat := now,
                  ag_updated := now, ag_meta := md\<rparr>) (tb_agents d)\<rparr>))
            (andthen (append_event now rid ''AGENT_IDENTITY_REASSIGNED'' None (Some state)
                [(''agent_id'', JStr i), (''previous_run_id'', JStr (ag_run a)),
                 (''grant_created'', JBool False)])
            (fetch_agent_row i (Some owner)))))
      | None \<Rightarrow>
          andthen (modify (\<lambda>d. d\<lparr>tb_agents := dset i \<lparr>ag_id = i, ag_run = rid, ag_owner = owner,
              ag_role = py_strip role, ag_task = tid, ag_goal = goal, ag_state = state,
              ag_desired = desired, ag_chat = None, ag_heartbeat = now, ag_created = now,
              ag_updated = now, ag_meta = md\<rparr> (tb_agents d)\<rparr>))
          (andthen (append_event now rid ''AGENT_ASSIGNED'' None (Some state)
              [(''agent_id'', JStr i), (''role'', JStr (py_strip role)), (''task_id'', jopt tid),
               (''goal_id'', jopt goal), (''desired_state'', JStr desired)])
          (fetch_agent_row i None)))))))))"

definition agent_info :: "string \<Rightarrow> string \<Rightarrow> (db, agent_row) sx" where
  "agent_info aid owner = fetch_agent_row aid (Some owner)"

definition update_agent ::
  "rat \<Rightarrow> string \<Rightarrow> string \<Rightarrow> string option \<Rightarrow> string option \<Rightarrow> string option \<Rightarrow> string option \<Rightarrow>
     string option \<Rightarrow> jobj option \<Rightarrow> bool \<Rightarrow> string \<Rightarrow> (db, agent_row) sx" where
  "update_agent now aid owner state desired tid goal chat md heartbeat etype =
     andthen (require (case state of None \<Rightarrow> True | Some s \<Rightarrow> s \<in> set agent_states) (ValueError ''agent state''))
     (andthen (require (case desired of None \<Rightarrow> True | Some s \<Rightarrow> s \<in> set agent_states)
         (ValueError ''desired agent state''))
     (bnd (fetch_agent_row aid (Some owner)) (\<lambda>a.
       let cur = ag_state a; target = or_else state cur in
       andthen (require (can_move (row_of agent_transitions) cur target) (StateConflict ''agent transition''))
       (andthen (case goal of None \<Rightarrow> ret ()
          | Some g \<Rightarrow> bnd (fetch_goal_row g (Some owner)) (\<lambda>x.
              require (go_run x = ag_run a) (ValueError ''goal belongs to another run'')))
       (andthen (case chat of None \<Rightarrow> ret ()
          | Some c \<Rightarrow> bnd (fetch_chat_row c (Some owner)) (\<lambda>x.
              require (ch_run x = ag_run a) (ValueError ''chat belongs to another run'')))
       (andthen (modify (\<lambda>d. d\<lparr>tb_agents := dset aid (a\<lparr>ag_state := target,
            ag_desired := or_else desired (ag_desired a), ag_task := coalesce tid (ag_task a),
            ag_goal := coalesce goal (ag_goal a), ag_chat := coalesce chat (ag_chat a),
            ag_meta := merged (ag_meta a) md,
            ag_heartbeat := (if heartbeat then now else ag_heartbeat a), ag_updated := now\<rparr>)
            (tb_agents d)\<rparr>))
       (andthen (append_event now (ag_run a) etype None (Some target)
            [(''agent_id'', JStr aid), (''from'', JStr cur), (''to'', JStr target),
             (''desired_state'', JStr (or_else desired (ag_desired a))),
             (''task_id'', jopt (coalesce tid (ag_task a))),
             (''goal_id'', jopt (coalesce goal (ag_goal a))),
             (''chat_id'', jopt (coalesce chat (ag_chat a)))])
       (fetch_agent_row aid None))))))))"

section \<open>Chats\<close>

definition bind_chat ::
  "rat \<Rightarrow> string \<Rightarrow> string \<Rightarrow> string \<Rightarrow> string option \<Rightarrow> string option \<Rightarrow> string option \<Rightarrow> string option \<Rightarrow>
     string option \<Rightarrow> string option \<Rightarrow> string option \<Rightarrow> string option \<Rightarrow> string \<Rightarrow> string \<Rightarrow> jobj \<Rightarrow>
     (db, chat_row) sx" where
  "bind_chat now gen rid owner aid provider conv url project project_url title cid state desired md =
     andthen (require (state \<in> set chat_states \<and> desired \<in> set chat_states) (ValueError ''chat state''))
     (bnd (lift_sum (validate_id ''chat_id'' (or_else cid gen))) (\<lambda>i.
     (andthen (fetch_run_row rid (Some owner))
     (bnd (if filled aid
           then bnd (fetch_agent_row (the aid) (Some owner)) (\<lambda>a.
               andthen (require (ag_run a = rid) (ValueError ''agent belongs to another run'')) (ret (ag_role a)))
           else ret ''chat'') (\<lambda>role.
     (bnd (gets (\<lambda>d. dget (tb_chats d) i)) (\<lambda>old. case old of
        Some c \<Rightarrow>
          if ch_owner c \<noteq> owner \<or> ch_run c \<noteq> rid then throw (FileExists ''chat_id already belongs to another run'')
          else if ch_agent c \<noteq> aid then throw (FileExists ''chat_id already belongs to another agent'')
          else ret c
      | None \<Rightarrow>
          let ttl = or_else title (''[SENTRA] '' @ rid @ '' - '' @ role) in
          andthen (modify (\<lambda>d. d\<lparr>tb_chats := dset i \<lparr>ch_id = i, ch_run = rid, ch_owner = owner,
              ch_agent = aid, ch_state = state, ch_desired = desired, ch_provider = provider,
              ch_conversation = conv, ch_url = url, ch_project = project,
              ch_project_url = project_url, ch_title = Some ttl, ch_heartbeat = now,
              ch_created = now, ch_updated = now, ch_meta = md\<rparr> (tb_chats d)\<rparr>))
          (andthen (if filled aid
             then modify (\<lambda>d. d\<lparr>tb_agents := upd_row (the aid)
                 (\<lambda>a. a\<lparr>ag_chat := Some i, ag_updated := now\<rparr>) (tb_agents d)\<rparr>)
             else ret ())
          (andthen (append_event now rid ''CHAT_BOUND'' None (Some state)
              [(''chat_id'', JStr i), (''agent_id'', jopt aid), (''provider'', jopt provider),
               (''conversation_id'', jopt conv), (''conversation_url'', jopt url),
               (''project_id'', jopt project), (''project_url'', jopt project_url),
               (''title'', JStr ttl)])
          (fetch_chat_row i None))))))))))"

definition update_chat ::
  "rat \<Rightarrow> string \<Rightarrow> string \<Rightarrow> string option \<Rightarrow> string option \<Rightarrow> jobj option \<Rightarrow> bool \<Rightarrow> string \<Rightarrow>
     (db, chat_row) sx" where
  "update_chat now cid owner state desired md heartbeat etype =
     andthen (require (case state of None \<Rightarrow> True | Some s \<Rightarrow> s \<in> set chat_states) (ValueError ''chat state''))
     (andthen (require (case desired of None \<Rightarrow> True | Some s \<Rightarrow> s \<in> set chat_states)
         (ValueError ''desired chat state''))
     (bnd (fetch_chat_row cid (Some owner)) (\<lambda>c.
       let cur = ch_state c; target = or_else state cur in
       andthen (require (can_move (row_of chat_transitions) cur target) (StateConflict ''chat transition''))
       (andthen (modify (\<lambda>d. d\<lparr>tb_chats := dset cid (c\<lparr>ch_state := target,
            ch_desired := or_else desired (ch_desired c), ch_meta := merged (ch_meta c) md,
            ch_heartbeat := (if heartbeat then now else ch_heartbeat c), ch_updated := now\<rparr>)
            (tb_chats d)\<rparr>))
       (andthen (append_event now (ch_run c) etype None (Some target)
            [(''chat_id'', JStr cid), (''from'', JStr cur), (''to'', JStr target),
             (''desired_state'', JStr (or_else desired (ch_desired c)))])
       (fetch_chat_row cid None))))))"

definition or_provider :: "string option \<Rightarrow> string option \<Rightarrow> string option" where
  "or_provider new old = (if filled new then new else old)"

definition rebind_chat ::
  "rat \<Rightarrow> string \<Rightarrow> string \<Rightarrow> string option \<Rightarrow> string option \<Rightarrow> string option \<Rightarrow> string option \<Rightarrow>
     string option \<Rightarrow> string \<Rightarrow> string option \<Rightarrow> (db, chat_row) sx" where
  "rebind_chat now cid owner conv url provider project project_url reason expected =
     bnd (fetch_chat_row cid (Some owner)) (\<lambda>c.
       andthen (require (case expected of None \<Rightarrow> True | Some e \<Rightarrow> ch_conversation c = Some e)
          (StateConflict ''chat conversation changed''))
       (andthen (modify (\<lambda>d. d\<lparr>tb_chats := dset cid (c\<lparr>ch_state := ''READY'', ch_desired := ''READY'',
            ch_provider := or_provider provider (ch_provider c), ch_conversation := conv, ch_url := url,
            ch_project := coalesce project (ch_project c),
            ch_project_url := coalesce project_url (ch_project_url c),
            ch_heartbeat := now, ch_updated := now\<rparr>) (tb_chats d)\<rparr>))
       (andthen (append_event now (ch_run c) ''CHAT_REBOUND'' None (Some ''READY'')
            [(''chat_id'', JStr cid), (''agent_id'', jopt (ch_agent c)),
             (''previous'', JObj [(''conversation_id'', jopt (ch_conversation c)),
                (''conversation_url'', jopt (ch_url c)), (''provider'', jopt (ch_provider c))]),
             (''conversation_id'', jopt conv), (''conversation_url'', jopt url),
             (''provider'', jopt (or_provider provider (ch_provider c))), (''reason'', JStr reason)])
       (fetch_chat_row cid None))))"

end
