(* ===== verification/Durable_Operations.thy ===== *)
theory Durable_Operations
  imports Durable_Runs
begin

text \<open>
  Operations, leases, resources and artifacts of the durable runtime: admission of an
  operation with or without a machine reservation, the fencing check in front of every
  guarded update, the physical-effect boundary, leases with monotone fencing tokens, and the
  event log's readers.
\<close>

section \<open>Fencing\<close>

definition verify_fence :: "rat \<Rightarrow> string option \<Rightarrow> int option \<Rightarrow> (db, unit) sx" where
  "verify_fence now key token =
     (if key = None \<and> token = None then ret ()
      else if \<not> filled key \<or> token = None then throw (ValueError ''resource_key and fencing_token'')
      else bnd (gets (\<lambda>d. dget (tb_leases d) (the key))) (\<lambda>l. case l of
          None \<Rightarrow> throw (StaleFence ''lease no longer exists'')
        | Some x \<Rightarrow>
            if the token \<noteq> le_token x then throw (StaleFence ''stale fencing token'')
            else if le_until x \<le> now then throw (StaleFence ''lease expired'')
            else ret ()))"

text \<open>The token that follows every token given out for the key so far.\<close>

definition next_token :: "string \<Rightarrow> db \<Rightarrow> int" where
  "next_token key d =
     max (case dget (tb_leases d) key of None \<Rightarrow> 0 | Some l \<Rightarrow> le_token l)
         (case dget (tb_fences d) key of None \<Rightarrow> 0 | Some t \<Rightarrow> t) + 1"

definition grant_lease ::
  "rat \<Rightarrow> string \<Rightarrow> string \<Rightarrow> string \<Rightarrow> string option \<Rightarrow> rat \<Rightarrow> int \<Rightarrow> db \<Rightarrow> db" where
  "grant_lease now key rid owner opid ttl token d = d\<lparr>
     tb_fences := dset key token (tb_fences d),
     tb_leases := dset key \<lparr>le_key = key, le_run = rid, le_op = opid, le_owner = owner,
        le_token = token, le_until = now + ttl, le_updated = now\<rparr> (tb_leases d)\<rparr>"

section \<open>Leases\<close>

definition grant ::
  "rat \<Rightarrow> string \<Rightarrow> string \<Rightarrow> string \<Rightarrow> string option \<Rightarrow> rat \<Rightarrow> int \<Rightarrow> (db, lease_row \<times> bool) sx" where
  "grant now key rid owner opid ttl token =
     andthen (modify (grant_lease now key rid owner opid ttl token))
     (andthen (append_event now rid ''LEASE_ACQUIRED'' opid None
         [(''resource_key'', JStr key), (''fencing_token'', JNum (of_int token)),
          (''lease_until'', JNum (now + ttl))])
       (ret (\<lparr>le_key = key, le_run = rid, le_op = opid, le_owner = owner, le_token = token,
          le_until = now + ttl, le_updated = now\<rparr>, False)))"

definition acquire_lease ::
  "rat \<Rightarrow> string \<Rightarrow> string \<Rightarrow> string \<Rightarrow> string option \<Rightarrow> rat \<Rightarrow> (db, lease_row \<times> bool) sx" where
  "acquire_lease now rid owner resource_key opid ttl =
     andthen (require (1 \<le> ttl \<and> ttl \<le> 3600) (ValueError ''ttl_s''))
     (bnd (lift_sum (validate_id ''resource_key'' resource_key)) (\<lambda>key.
     andthen (fetch_run_row rid (Some owner))
     (bnd (gets (\<lambda>d. (dget (tb_leases d) key, next_token key d))) (\<lambda>(held, token).
        case held of
          Some l \<Rightarrow>
            if le_until l > now
            then (if le_owner l = owner \<and> le_run l = rid \<and> le_op l = opid then ret (l, True)
                  else throw (StateConflict ''resource lease is already held''))
            else grant now key rid owner opid ttl token
        | None \<Rightarrow> grant now key rid owner opid ttl token))))"

definition renew_lease :: "rat \<Rightarrow> string \<Rightarrow> string \<Rightarrow> int \<Rightarrow> rat \<Rightarrow> (db, rat) sx" where
  "renew_lease now key owner token ttl =
     andthen (require (1 \<le> ttl \<and> ttl \<le> 3600) (ValueError ''ttl_s''))
     (bnd (gets (\<lambda>d. dget (tb_leases d) key)) (\<lambda>held. case held of
        None \<Rightarrow> throw (StaleFence ''lease no longer belongs to caller'')
      | Some l \<Rightarrow>
          if le_owner l \<noteq> owner then throw (StaleFence ''lease no longer belongs to caller'')
          else if le_token l \<noteq> token then throw (StaleFence ''stale fencing token'')
          else if le_until l \<le> now then throw (StaleFence ''lease expired'')
          else andthen (modify (\<lambda>d. d\<lparr>tb_leases := dset key
                  (l\<lparr>le_until := now + ttl, le_updated := now\<rparr>) (tb_leases d)\<rparr>))
               (andthen (append_event now (le_run l) ''LEASE_RENEWED'' (le_op l) None
                  [(''resource_key'', JStr key), (''fencing_token'', JNum (of_int token)),
                   (''lease_until'', JNum (now + ttl))])
               (ret (now + ttl)))))"

definition release_lease :: "rat \<Rightarrow> string \<Rightarrow> string \<Rightarrow> int \<Rightarrow> (db, bool) sx" where
  "release_lease now key owner token =
     bnd (gets (\<lambda>d. dget (tb_leases d) key)) (\<lambda>held. case held of
        None \<Rightarrow> ret False
      | Some l \<Rightarrow>
          if le_owner l \<noteq> owner \<or> le_token l \<noteq> token then throw (StaleFence ''stale fencing token'')
          else andthen (modify (\<lambda>d. d\<lparr>tb_leases := ddel key (tb_leases d)\<rparr>))
               (andthen (append_event now (le_run l) ''LEASE_RELEASED'' (le_op l) None
                  [(''resource_key'', JStr key), (''fencing_token'', JNum (of_int token))])
               (ret True)))"

section \<open>Operations\<close>

definition op_by_key :: "string \<Rightarrow> string \<Rightarrow> db \<Rightarrow> op_row option" where
  "op_by_key rid key d = find (\<lambda>r. op_run r = rid \<and> op_key r = key) (rows (tb_ops d))"

definition new_op :: "rat \<Rightarrow> string \<Rightarrow> string \<Rightarrow> string \<Rightarrow> string \<Rightarrow> string \<Rightarrow> string \<Rightarrow> string \<Rightarrow> op_row" where
  "new_op now i rid owner key knd st cleanup = \<lparr>op_id = i, op_run = rid, op_owner = owner,
     op_key = key, op_kind = knd, op_state = st, op_readiness = ''UNKNOWN'', op_progress = [],
     op_started = now, op_updated = now, op_heartbeat = now, op_result = None, op_error = None,
     op_rollback = None, op_cleanup = cleanup, op_intent = None, op_resource = None,
     op_token = None\<rparr>"

text \<open>\<open>INSERT\<close> of a row whose primary key is taken raises and changes nothing.\<close>

definition insert_op :: "op_row \<Rightarrow> (db, unit) sx" where
  "insert_op r d = (case dget (tb_ops d) (op_id r) of
      Some x \<Rightarrow> (Inl IntegrityError, d)
    | None \<Rightarrow> (Inr (), d\<lparr>tb_ops := dset (op_id r) r (tb_ops d)\<rparr>))"

definition cleanup_policies :: "string list" where
  "cleanup_policies = [''terminate_on_run_end'', ''preserve'', ''manual'']"

definition create_operation ::
  "rat \<Rightarrow> string \<Rightarrow> string \<Rightarrow> string \<Rightarrow> string \<Rightarrow> string \<Rightarrow> string option \<Rightarrow> string \<Rightarrow> string \<Rightarrow>
     (db, op_row \<times> bool) sx" where
  "create_operation now gen rid owner knd idem oid cleanup initial =
     andthen (require (initial \<in> set operation_states) (ValueError ''operation state''))
     (andthen (require (py_strip knd \<noteq> [] \<and> length (py_strip knd) \<le> 120) (ValueError ''operation kind''))
     (andthen (require (py_strip idem \<noteq> [] \<and> length (py_strip idem) \<le> 240) (ValueError ''idempotency_key''))
     (andthen (require (cleanup \<in> set cleanup_policies) (ValueError ''cleanup_policy''))
     (andthen (fetch_run_row rid (Some owner))
     (bnd (gets (op_by_key rid (py_strip idem))) (\<lambda>old. case old of
        Some r \<Rightarrow> ret (r, True)
      | None \<Rightarrow>
          bnd (lift_sum (validate_id ''operation_id'' (or_else oid gen))) (\<lambda>i.
          andthen (insert_op (new_op now i rid owner (py_strip idem) (py_strip knd) initial cleanup))
          (andthen (append_event now rid ''OPERATION_CREATED'' (Some i) (Some initial)
              [(''kind'', JStr (py_strip knd)), (''idempotency_key'', JStr (py_strip idem)),
               (''cleanup_policy'', JStr cleanup)])
          (bnd (fetch_operation_row i None) (\<lambda>r. ret (r, False)))))))))))"

definition update_operation ::
  "rat \<Rightarrow> string \<Rightarrow> string \<Rightarrow> string option \<Rightarrow> string option \<Rightarrow> jobj option \<Rightarrow> string \<Rightarrow>
     json option \<Rightarrow> json option \<Rightarrow> json option \<Rightarrow> string option \<Rightarrow> int option \<Rightarrow> (db, op_row) sx" where
  "update_operation now oid owner state readiness progress etype result err rollback key token =
     andthen (require (case state of None \<Rightarrow> True | Some s \<Rightarrow> s \<in> set operation_states)
        (ValueError ''operation state''))
     (andthen (require (case readiness of None \<Rightarrow> True | Some s \<Rightarrow> s \<in> set readiness_states)
        (ValueError ''readiness state''))
     (andthen (verify_fence now key token)
     (bnd (fetch_operation_row oid (Some owner)) (\<lambda>r.
       let cur = op_state r; target = or_else state cur;
           rdy = or_else readiness (op_readiness r); prog = merged (op_progress r) progress in
       andthen (require (can_move (row_of operation_transitions) cur target)
           (StateConflict ''operation transition''))
       (andthen (modify (\<lambda>d. d\<lparr>tb_ops := dset oid (r\<lparr>op_state := target, op_readiness := rdy,
            op_progress := prog, op_updated := now, op_heartbeat := now,
            op_result := coalesce result (op_result r), op_error := coalesce err (op_error r),
            op_rollback := coalesce rollback (op_rollback r)\<rparr>) (tb_ops d)\<rparr>))
       (andthen (append_event now (op_run r) etype (Some oid) (Some target)
            [(''from'', JStr cur), (''to'', JStr target), (''readiness'', JStr rdy),
             (''progress'', JObj prog)])
       (fetch_operation_row oid None)))))))"

definition heartbeat_operation ::
  "rat \<Rightarrow> string \<Rightarrow> string \<Rightarrow> jobj option \<Rightarrow> string option \<Rightarrow> string option \<Rightarrow> int option \<Rightarrow> (db, op_row) sx" where
  "heartbeat_operation now oid owner progress readiness key token =
     update_operation now oid owner None readiness progress ''OPERATION_HEARTBEAT'' None None None key token"

definition request_cancel :: "rat \<Rightarrow> string \<Rightarrow> string \<Rightarrow> bool \<Rightarrow> (db, op_row) sx" where
  "request_cancel now oid owner started =
     update_operation now oid owner (Some (if started then ''CANCEL_REQUESTED'' else ''CANCELLED'')) None
       (Some [(''side_effect_may_have_started'', JBool started)]) ''OPERATION_CANCEL_REQUESTED''
       None None None None None"

definition operation_status :: "string \<Rightarrow> string \<Rightarrow> (db, op_row) sx" where
  "operation_status oid owner = fetch_operation_row oid (Some owner)"

text \<open>What \<open>wait_operation\<close> stops at: a terminal state or UNCERTAIN.\<close>

definition settled_operation :: "op_row \<Rightarrow> bool" where
  "settled_operation r \<longleftrightarrow> op_state r \<in> set terminal_states \<or> op_state r = ''UNCERTAIN''"

section \<open>Machine reservations\<close>

definition hex_digit :: "char \<Rightarrow> bool" where
  "hex_digit c \<longleftrightarrow> (let n = ccode c in (48 \<le> n \<and> n \<le> 57) \<or> (97 \<le> n \<and> n \<le> 102))"

definition sha_ok :: "string \<Rightarrow> bool" where
  "sha_ok s \<longleftrightarrow> length s = 64 \<and> list_all hex_digit s"

definition context_keys :: "string list" where
  "context_keys = [''work_item_id'', ''principal_id'', ''machine_id'', ''capability_id'']"

type_synonym sdict = "(string \<times> string) list"

definition context_json :: "sdict \<Rightarrow> jobj" where
  "context_json c = map (\<lambda>(k, v). (k, JStr v)) c"

definition obj_eq :: "jobj \<Rightarrow> jobj \<Rightarrow> bool" where
  "obj_eq a b \<longleftrightarrow> (\<forall>k \<in> set (map fst a) \<union> set (map fst b). dget a k = dget b k)"

definition optional_capability :: "sdict \<Rightarrow> bool" where
  "optional_capability c = (let v = (case dget c ''capability_id'' of None \<Rightarrow> [] | Some x \<Rightarrow> x) in
     py_startswith v ''shell.voice.'' \<or> py_startswith v ''shell.attachments.'')"

definition pending_operation_intent ::
  "rat \<Rightarrow> string \<Rightarrow> string \<Rightarrow> string \<Rightarrow> string \<Rightarrow> string \<Rightarrow> string \<Rightarrow> sdict \<Rightarrow> (db, op_row) sx" where
  "pending_operation_intent now rid owner oid idem sha key ctx = atomically
     (andthen (lift_sum (validate_id ''operation_id'' oid))
     (andthen (lift_sum (validate_id ''resource_key'' key))
     (andthen (require (sha_ok sha \<and> idem \<noteq> [] \<and> length idem \<le> 240) (ValueError ''pending intent''))
     (andthen (require (set (map fst ctx) = set context_keys) (ValueError ''pending operation context''))
     (andthen (require (optional_capability ctx) (ValueError ''optional owner interactions''))
     (andthen (fetch_run_row rid (Some owner))
     (bnd (gets (op_by_key rid idem)) (\<lambda>old. case old of
        Some r \<Rightarrow>
          if op_id r \<noteq> oid \<or> op_intent r \<noteq> Some sha \<or> op_resource r \<noteq> Some key
              \<or> \<not> obj_eq (op_progress r) (context_json ctx)
          then throw (StateConflict ''pending optional intent changed'') else ret r
      | None \<Rightarrow>
          andthen (insert_op ((new_op now oid rid owner idem ''sentra.machine.pending'' ''QUEUED'' ''manual'')
              \<lparr>op_progress := context_json ctx, op_intent := Some sha, op_resource := Some key\<rparr>))
          (andthen (append_event now rid ''OPTIONAL_INTENT_AWAITING_AUTHORITY'' (Some oid) (Some ''QUEUED'')
              [(''intent_sha256'', JStr sha),
               (''work_item_id'', jopt (dget ctx ''work_item_id''))])
          (fetch_operation_row oid (Some owner)))))))))))"

definition cleanup_capabilities :: "string list" where
  "cleanup_capabilities = [''shell.voice.stop'', ''shell.voice.revoke'', ''shell.attachments.upload_abort'']"

definition unresolved_states :: "string list" where
  "unresolved_states = [''STARTING'', ''RUNNING'', ''WAITING_EXTERNAL'', ''CANCEL_REQUESTED'', ''UNCERTAIN'']"

definition effect_started :: "op_row \<Rightarrow> bool" where
  "effect_started r \<longleftrightarrow> dget (op_progress r) ''effect_started'' = Some (JBool True)"

text \<open>An admitted effect on the resource whose outcome is not known.\<close>

definition unresolved_effect :: "string \<Rightarrow> db \<Rightarrow> bool" where
  "unresolved_effect key d \<longleftrightarrow> (\<exists>r \<in> set (rows (tb_ops d)). op_resource r = Some key
     \<and> op_kind r \<noteq> ''sentra.machine.observation'' \<and> op_state r \<in> set unresolved_states \<and> effect_started r)"

definition context_ok :: "sdict \<Rightarrow> bool" where
  "context_ok c \<longleftrightarrow> set (map fst c) \<subseteq> set context_keys
     \<and> (\<forall>(k, v) \<in> set c. v \<noteq> [] \<and> length v \<le> 128)"

definition is_pending :: "op_row \<Rightarrow> bool" where
  "is_pending r \<longleftrightarrow> op_kind r = ''sentra.machine.pending'' \<and> op_state r = ''QUEUED''"

definition start_reserved ::
  "rat \<Rightarrow> string \<Rightarrow> string \<Rightarrow> string \<Rightarrow> string \<Rightarrow> string \<Rightarrow> string \<Rightarrow> string \<Rightarrow> sdict \<Rightarrow> bool \<Rightarrow> int \<Rightarrow>
     (db, unit) sx" where
  "start_reserved now rid owner oid idem sha key knd ctx pending token =
     (if pending
      then modify (\<lambda>d. d\<lparr>tb_ops := upd_row oid (\<lambda>r.
          if op_owner r = owner \<and> is_pending r
          then r\<lparr>op_kind := knd, op_state := ''STARTING'', op_readiness := ''UNKNOWN'',
             op_updated := now, op_heartbeat := now, op_token := Some token\<rparr>
          else r) (tb_ops d)\<rparr>)
      else insert_op ((new_op now oid rid owner idem knd ''STARTING'' ''manual'')
          \<lparr>op_progress := context_json ctx, op_intent := Some sha, op_resource := Some key,
            op_token := Some token\<rparr>))"

definition reserve_operation_intent ::
  "rat \<Rightarrow> string \<Rightarrow> string \<Rightarrow> string \<Rightarrow> string \<Rightarrow> string \<Rightarrow> string \<Rightarrow> string \<Rightarrow> rat \<Rightarrow> sdict \<Rightarrow> bool \<Rightarrow>
     (db, string \<times> int) sx" where
  "reserve_operation_intent now rid owner oid0 idem0 sha key0 knd0 ttl ctx allow_cleanup =
     bnd (lift_sum (validate_id ''operation_id'' oid0)) (\<lambda>oid.
     bnd (lift_sum (validate_id ''resource_key'' key0)) (\<lambda>key.
     let idem = py_strip idem0; knd = py_strip knd0 in
     andthen (require (idem \<noteq> [] \<and> length idem \<le> 240) (ValueError ''idempotency_key''))
     (andthen (require (sha_ok sha) (ValueError ''intent_sha256''))
     (andthen (require (knd \<noteq> [] \<and> length knd \<le> 120) (ValueError ''operation kind''))
     (andthen (require (1 \<le> ttl \<and> ttl \<le> 3600) (ValueError ''lease TTL''))
     (andthen (require (context_ok ctx) (ValueError ''operation context''))
     (atomically
       (bnd (fetch_run_row rid (Some owner)) (\<lambda>run.
       let cleanup = allow_cleanup \<and> knd = ''sentra.machine.cleanup''
             \<and> (case dget ctx ''capability_id'' of None \<Rightarrow> False | Some c \<Rightarrow> c \<in> set cleanup_capabilities) in
       andthen (require (ru_state run = ''RUNNING'' \<or> cleanup) (StateConflict ''run must be RUNNING''))
       (bnd (gets (op_by_key rid idem)) (\<lambda>old.
       let pending = (case old of None \<Rightarrow> False | Some r \<Rightarrow> is_pending r) in
       andthen (require (case old of None \<Rightarrow> True | Some r \<Rightarrow> pending \<longrightarrow>
            op_id r = oid \<and> op_intent r = Some sha \<and> op_resource r = Some key
            \<and> obj_eq (op_progress r) (context_json ctx) \<and> optional_capability ctx)
          (StateConflict ''pending operation intent mismatch''))
       (if old \<noteq> None \<and> \<not> pending
        then (let r = the old in
          if op_id r \<noteq> oid \<or> op_kind r \<noteq> knd \<or> op_intent r \<noteq> Some sha \<or> op_resource r \<noteq> Some key
              \<or> op_token r = None
              \<or> (\<exists>(k, v) \<in> set ctx. dget (op_progress r) k \<noteq> Some (JStr v))
          then throw (StateConflict ''persistent operation intent mismatch'')
          else ret (''EXISTING'', the (op_token r)))
        else
          bnd (gets (\<lambda>d. (unresolved_effect key d, dget (tb_leases d) key, next_token key d)))
            (\<lambda>(unres, held, token).
          andthen (require (\<not> unres) (StateConflict ''machine effect requires reconciliation''))
          (andthen (require (case held of None \<Rightarrow> True | Some l \<Rightarrow> le_until l \<le> now)
              (StateConflict ''resource already leased''))
          (andthen (start_reserved now rid owner oid idem sha key knd ctx pending token)
          (andthen (modify (grant_lease now key rid owner (Some oid) ttl token))
          (andthen (append_event now rid ''MACHINE_INTENT_RESERVED'' (Some oid) (Some ''STARTING'')
              [(''kind'', JStr knd), (''intent_sha256'', JStr sha), (''resource_key'', JStr key),
               (''fencing_token'', JNum (of_int token))])
          (ret (''RESERVED'', token)))))))))))))))))))"

text \<open>The mark set immediately before the provider is called.\<close>

definition begin_machine_effect ::
  "rat \<Rightarrow> string \<Rightarrow> string \<Rightarrow> string \<Rightarrow> string \<Rightarrow> int \<Rightarrow> (db, op_row) sx" where
  "begin_machine_effect now oid owner sha key token = bnd (atomically
     (andthen (verify_fence now (Some key) (Some token))
     (bnd (fetch_operation_row oid (Some owner)) (\<lambda>r.
      bnd (gets (\<lambda>d. dget (tb_leases d) key)) (\<lambda>held.
        andthen (require (op_intent r = Some sha \<and> op_resource r = Some key \<and> op_token r = Some token
            \<and> op_state r = ''RUNNING''
            \<and> (case held of None \<Rightarrow> False | Some l \<Rightarrow> le_op l = Some oid \<and> le_owner l = owner))
          (StaleFence ''physical effect binding is no longer active''))
        (bnd (fetch_run_row (op_run r) (Some owner)) (\<lambda>run.
        andthen (require (ru_state run = ''RUNNING'' \<or> op_kind r = ''sentra.machine.cleanup'')
          (StaleFence ''physical effect binding is no longer active''))
        (andthen (modify (\<lambda>d. d\<lparr>tb_ops := dset oid (r\<lparr>op_progress :=
             dset ''effect_boundary'' (JStr ''central-os-lock-v1'')
               (dset ''effect_started'' (JBool True) (op_progress r)),
             op_updated := now, op_heartbeat := now\<rparr>) (tb_ops d)\<rparr>))
        (if effect_started r then ret ()
         else andthen (append_event now (op_run r) ''MACHINE_PHYSICAL_EFFECT_STARTED'' (Some oid) (Some ''RUNNING'')
            [(''resource_key'', JStr key), (''fencing_token'', JNum (of_int token))]) (ret ()))))))))))
     (\<lambda>_. fetch_operation_row oid (Some owner))"

end
