(* ===== verification/Task_Ledger.thy ===== *)
theory Task_Ledger
  imports Durable_Operations
begin

text \<open>
  The durable task ledger (\<open>sentra_mcp/services/task_ledger.py\<close>): one row per task of a run,
  an append-only journal of its transitions, and \<open>sync\<close>, which admits a task's state against
  the transition table. The metadata object a caller sends is opaque (\<open>'m\<close>) but for the text
  of its \<open>assigned_node_id\<close> entry, which the ledger reads; JSON columns hold the value they
  encode. \<open>time.time()\<close> is the argument \<open>now\<close>.
\<close>

section \<open>States and the table\<close>

definition task_states :: "string list" where
  "task_states = [''PENDING'', ''QUEUED'', ''RUNNING'', ''VALIDATING'', ''REJECTED'', ''REPAIRING'',
     ''READY'', ''DISPUTED'', ''QUALITY_GATE'', ''READY_FOR_MASTER'', ''MASTER_REVIEW'',
     ''COMPLETED'', ''FAILED'', ''RETRYING'', ''CANCELLED'', ''ESCALATED'']"

definition terminal_task_states :: "string list" where
  "terminal_task_states = [''COMPLETED'', ''CANCELLED'']"

definition ledger_priorities :: "string list" where
  "ledger_priorities = [''LOW'', ''MEDIUM'', ''HIGH'', ''CRITICAL'']"

definition ledger_scopes :: "string list" where
  "ledger_scopes = [''ISOLATED'', ''WORKSPACE_WRITE'', ''EXTERNAL'', ''EXCLUSIVE'']"

definition ledger_transitions :: "(string, string list) dict" where
  "ledger_transitions =
    [(''PENDING'', [''QUEUED'', ''RUNNING'', ''FAILED'', ''CANCELLED'']),
     (''QUEUED'', [''RUNNING'', ''CANCELLED'']),
     (''RUNNING'', [''VALIDATING'', ''COMPLETED'', ''FAILED'', ''CANCELLED'']),
     (''VALIDATING'', [''READY'', ''QUALITY_GATE'', ''REJECTED'', ''DISPUTED'', ''FAILED'', ''CANCELLED'']),
     (''REJECTED'', [''REPAIRING'', ''ESCALATED'', ''FAILED'', ''CANCELLED'']),
     (''REPAIRING'', [''VALIDATING'', ''FAILED'', ''ESCALATED'', ''CANCELLED'']),
     (''READY'', [''QUALITY_GATE'', ''READY_FOR_MASTER'', ''CANCELLED'']),
     (''DISPUTED'', [''ESCALATED'', ''REPAIRING'', ''CANCELLED'']),
     (''QUALITY_GATE'', [''READY_FOR_MASTER'', ''REPAIRING'', ''FAILED'', ''CANCELLED'',
        ''ESCALATED'', ''VALIDATING'']),
     (''READY_FOR_MASTER'', [''MASTER_REVIEW'', ''COMPLETED'', ''CANCELLED'']),
     (''MASTER_REVIEW'', [''COMPLETED'', ''REPAIRING'', ''FAILED'', ''CANCELLED'']),
     (''FAILED'', [''RETRYING'', ''ESCALATED'', ''CANCELLED'']),
     (''RETRYING'', [''QUEUED'', ''RUNNING'', ''FAILED'', ''CANCELLED'']),
     (''ESCALATED'', [''MASTER_REVIEW'', ''FAILED'', ''CANCELLED'']),
     (''COMPLETED'', []), (''CANCELLED'', [])]"

definition recoverable_to_queued :: "string list" where
  "recoverable_to_queued = [''RUNNING'', ''VALIDATING'', ''REPAIRING'', ''QUALITY_GATE'',
     ''READY_FOR_MASTER'', ''MASTER_REVIEW'', ''RETRYING'']"

interpretation ledger_states:
  transition_table "row_of ledger_transitions" "ends terminal_task_states task_states"
  by (unfold_locales, rule table_ends)
    (simp_all add: ledger_transitions_def task_states_def terminal_task_states_def insert_commute)

text \<open>What \<open>sync\<close> admits; crash recovery may also put a task under way back to QUEUED.\<close>

definition ledger_allows :: "bool \<Rightarrow> string \<Rightarrow> string \<Rightarrow> bool" where
  "ledger_allows recovery current target \<longleftrightarrow>
     target = current \<or> target \<in> set (row_of ledger_transitions current)
     \<or> recovery \<and> target = ''QUEUED'' \<and> current \<in> set recoverable_to_queued"

section \<open>Rows, journal and the caller's object\<close>

datatype 'm meta_entry = AbsentMeta | NotAnObject | MetaObject "string option" 'm

record 'm ledger_input =
  in_id :: "string option"
  in_task_id :: "string option"
  in_objective :: "string option"
  in_status :: "string option"
  in_state :: "string option"
  in_priority :: "string option"
  in_key :: "string option"
  in_meta :: "'m meta_entry"
  in_retry :: "int option"
  in_scope :: "string option"
  in_node :: "string option"
  in_deps :: "string list option"
  in_caps :: "string list option"
  in_files :: "string list option"
  in_locks :: "string list option"

record 'm ledger_data =
  ld_task :: string
  ld_objective :: string
  ld_state :: string
  ld_priority :: string
  ld_key :: string
  ld_deps :: "string list"
  ld_caps :: "string list"
  ld_files :: "string list"
  ld_locks :: "string list"
  ld_scope :: string
  ld_node :: "string option"
  ld_retry :: int
  ld_meta :: "'m option"

record 'm ledger_row =
  tr_run :: string
  tr_owner :: string
  tr_data :: "'m ledger_data"
  tr_created :: rat
  tr_updated :: rat

record ledger_event =
  te_seq :: nat
  te_run :: string
  te_task :: string
  te_owner :: string
  te_type :: string
  te_from :: "string option"
  te_to :: string
  te_node :: "string option"
  te_retry :: int
  te_ts :: rat

text \<open>\<open>lg_seq\<close> is the journal's AUTOINCREMENT counter.\<close>

record 'm ledger =
  lg_tasks :: "(string \<times> string, 'm ledger_row) dict"
  lg_events :: "ledger_event list"
  lg_seq :: nat

definition empty_ledger :: "'m ledger" where
  "empty_ledger = \<lparr>lg_tasks = [], lg_events = [], lg_seq = 0\<rparr>"

section \<open>Normalisation\<close>

definition ledger_strings :: "string list option \<Rightarrow> exn + string list" where
  "ledger_strings v = (case v of
       None \<Rightarrow> Inr []
     | Some xs \<Rightarrow> if int (length xs) > 1000 then Inl (ValueError ''at most 1000 strings'')
         else goal_strings [] xs)"

definition meta_node :: "'m meta_entry \<Rightarrow> string option" where
  "meta_node e = (case e of MetaObject n md \<Rightarrow> n | _ \<Rightarrow> None)"

definition meta_value :: "'m meta_entry \<Rightarrow> 'm option" where
  "meta_value e = (case e of MetaObject n md \<Rightarrow> Some md | _ \<Rightarrow> None)"

text \<open>\<open>str(a or b or default)\<close>.\<close>

definition either_or :: "string option \<Rightarrow> string option \<Rightarrow> string \<Rightarrow> string" where
  "either_or a b z = or_else a (or_else b z)"

definition normalize_task :: "'m ledger_input \<Rightarrow> exn + 'm ledger_data" where
  "normalize_task t =
     (let task_id = py_strip (either_or (in_id t) (in_task_id t) []);
          obj = py_strip (or_else (in_objective t) []);
          state = py_upper (either_or (in_status t) (in_state t) ''PENDING'');
          prio = py_upper (or_else (in_priority t) ''MEDIUM'');
          key = py_strip (or_else (in_key t) task_id);
          retry = (case in_retry t of None \<Rightarrow> 0 | Some n \<Rightarrow> n);
          scp = py_upper (py_strip (or_else (in_scope t) ''ISOLATED''));
          node = py_strip (either_or (in_node t) (meta_node (in_meta t)) [])
      in scheck (task_id \<noteq> [] \<and> length task_id \<le> 128) (ValueError ''task_id'')
        (scheck (obj \<noteq> [] \<and> int (length obj) \<le> 100000) (ValueError ''task objective'')
        (scheck (state \<in> set task_states) (ValueError ''invalid task state'')
        (scheck (prio \<in> set ledger_priorities) (ValueError ''invalid task priority'')
        (scheck (key \<noteq> [] \<and> int (length key) \<le> 512) (ValueError ''task idempotency_key'')
        (scheck (in_meta t \<noteq> NotAnObject) (ValueError ''task metadata must be an object'')
        (scheck (0 \<le> retry) (ValueError ''task retry_count'')
        (scheck (scp \<in> set ledger_scopes) (ValueError ''invalid side_effect_scope'')
        (sbind (ledger_strings (in_deps t)) (\<lambda>deps.
         sbind (ledger_strings (in_caps t)) (\<lambda>caps.
         sbind (ledger_strings (in_files t)) (\<lambda>files.
         sbind (ledger_strings (in_locks t)) (\<lambda>locks.
         Inr \<lparr>ld_task = task_id, ld_objective = obj, ld_state = state, ld_priority = prio, ld_key = key,
           ld_deps = deps, ld_caps = caps, ld_files = files, ld_locks = locks, ld_scope = scp,
           ld_node = (if node = [] then None else Some node), ld_retry = retry,
           ld_meta = meta_value (in_meta t)\<rparr>)))))))))))))"

text \<open>What a task's identity is bound to: the entries of \<open>_intent\<close>.\<close>

definition data_intent :: "'m ledger_data \<Rightarrow> 'm ledger_data" where
  "data_intent d = d\<lparr>ld_task := [], ld_state := [], ld_node := None, ld_retry := 0, ld_meta := None\<rparr>"

section \<open>Synchronisation\<close>

definition row_by_key :: "string \<Rightarrow> string \<Rightarrow> 'm ledger \<Rightarrow> 'm ledger_row option" where
  "row_by_key rid key l = find (\<lambda>r. tr_run r = rid \<and> ld_key (tr_data r) = key) (rows (lg_tasks l))"

definition fetch_task_row :: "string \<Rightarrow> string \<Rightarrow> ('m ledger, 'm ledger_row) sx" where
  "fetch_task_row rid tid l = (case dget (lg_tasks l) (rid, tid) of
      None \<Rightarrow> (Inl (FileNotFound ''task''), l) | Some r \<Rightarrow> (Inr r, l))"

definition put_task :: "'m ledger_row \<Rightarrow> 'm ledger \<Rightarrow> 'm ledger" where
  "put_task r l = l\<lparr>lg_tasks := dset (tr_run r, ld_task (tr_data r)) r (lg_tasks l)\<rparr>"

text \<open>The columns an update of an existing row writes.\<close>

definition refreshed :: "rat \<Rightarrow> 'm ledger_data \<Rightarrow> 'm ledger_row \<Rightarrow> 'm ledger_row" where
  "refreshed now d r = r\<lparr>tr_data := (tr_data r)\<lparr>ld_state := ld_state d, ld_node := ld_node d,
     ld_retry := ld_retry d, ld_meta := ld_meta d\<rparr>, tr_updated := now\<rparr>"

definition sync_event_type :: "bool \<Rightarrow> string \<Rightarrow> string \<Rightarrow> string" where
  "sync_event_type recovery current target =
     (if recovery \<and> target = ''QUEUED'' \<and> current \<noteq> target then ''TASK_RECOVERED''
      else if current \<noteq> target then ''TASK_STATE_CHANGED'' else ''TASK_SYNCED'')"

definition journal ::
  "rat \<Rightarrow> string \<Rightarrow> string \<Rightarrow> 'm ledger_data \<Rightarrow> string option \<Rightarrow> string \<Rightarrow> 'm ledger \<Rightarrow> 'm ledger" where
  "journal now rid owner d from typ l = l\<lparr>lg_seq := lg_seq l + 1,
     lg_events := lg_events l @ [\<lparr>te_seq = lg_seq l + 1, te_run = rid, te_task = ld_task d,
       te_owner = owner, te_type = typ, te_from = from, te_to = ld_state d, te_node = ld_node d,
       te_retry = ld_retry d, te_ts = now\<rparr>]\<rparr>"

text \<open>The transaction: from the two look-ups to the commit.\<close>

definition sync_row ::
  "rat \<Rightarrow> string \<Rightarrow> string \<Rightarrow> 'm ledger_data \<Rightarrow> bool \<Rightarrow> ('m ledger, unit) sx" where
  "sync_row now rid owner d recovery =
     bnd (gets (\<lambda>l. (dget (lg_tasks l) (rid, ld_task d), row_by_key rid (ld_key d) l))) (\<lambda>(existing, by_key).
     andthen (require (case by_key of None \<Rightarrow> True
           | Some b \<Rightarrow> (case existing of None \<Rightarrow> False
               | Some e \<Rightarrow> ld_task (tr_data b) = ld_task (tr_data e)))
         (LedgerConflict ''task idempotency key already belongs to another task''))
     (case existing of
        None \<Rightarrow>
          andthen (modify (put_task \<lparr>tr_run = rid, tr_owner = owner, tr_data = d, tr_created = now, tr_updated = now\<rparr>))
            (modify (journal now rid owner d None ''TASK_REGISTERED''))
      | Some e \<Rightarrow>
          let current = ld_state (tr_data e) in
          andthen (require (tr_owner e = owner) (PermissionDenied ''task belongs to another owner''))
          (andthen (require (data_intent (tr_data e) = data_intent d)
              (LedgerConflict ''task identity/idempotency key reused with different intent''))
          (andthen (require (ledger_allows recovery current (ld_state d))
              (LedgerConflict ''invalid durable task transition''))
          (andthen (modify (put_task (refreshed now d e)))
            (modify (journal now rid owner d (Some current) (sync_event_type recovery current (ld_state d)))))))))"

definition sync ::
  "rat \<Rightarrow> string \<Rightarrow> string \<Rightarrow> 'm ledger_input \<Rightarrow> bool \<Rightarrow> ('m ledger, 'm ledger_row) sx" where
  "sync now run0 owner0 t recovery =
     (let rid = py_strip run0; owner = py_strip owner0 in
      andthen (require (rid \<noteq> [] \<and> owner \<noteq> []) (ValueError ''run_id and owner are required''))
      (bnd (lift_sum (normalize_task t)) (\<lambda>d.
       andthen (atomically (sync_row now rid owner d recovery))
         (fetch_task_row rid (ld_task d)))))"

section \<open>Reads\<close>

definition task_info :: "string \<Rightarrow> string \<Rightarrow> string \<Rightarrow> ('m ledger, 'm ledger_row) sx" where
  "task_info rid owner tid =
     bnd (fetch_task_row rid tid) (\<lambda>r.
       andthen (require (tr_owner r = owner) (PermissionDenied ''task belongs to another owner'')) (ret r))"

definition row_terminal :: "'m ledger_row \<Rightarrow> bool" where
  "row_terminal r \<longleftrightarrow> ld_state (tr_data r) \<in> set terminal_task_states"

definition list_tasks ::
  "string \<Rightarrow> string \<Rightarrow> string list option \<Rightarrow> ('m ledger, 'm ledger_row list) sx" where
  "list_tasks rid owner states =
     (let wanted = map_option (map py_upper) states in
      andthen (require (case wanted of None \<Rightarrow> True | Some ss \<Rightarrow> set ss \<subseteq> set task_states)
          (ValueError ''invalid task state filter''))
      (bnd (gets (\<lambda>l. sort_key (\<lambda>r. (tr_created r, ld_task (tr_data r)))
            (filter (\<lambda>r. tr_run r = rid) (rows (lg_tasks l))))) (\<lambda>rs.
       andthen (require (\<forall>r \<in> set rs. tr_owner r = owner) (PermissionDenied ''run tasks belong to another owner''))
       (ret (filter (\<lambda>r. case wanted of None \<Rightarrow> True | Some ss \<Rightarrow> ld_state (tr_data r) \<in> set ss) rs)))))"

definition task_events ::
  "string \<Rightarrow> string \<Rightarrow> int \<Rightarrow> int \<Rightarrow> ('m ledger, ledger_event list \<times> int) sx" where
  "task_events rid owner after limit =
     andthen (require (0 \<le> after \<and> 1 \<le> limit \<and> limit \<le> 1000) (ValueError ''invalid task event cursor/limit''))
     (bnd (gets (\<lambda>l. take (nat limit) (sort_key te_seq
           (filter (\<lambda>e. te_run e = rid \<and> int (te_seq e) > after) (lg_events l))))) (\<lambda>es.
      andthen (require (\<forall>e \<in> set es. te_owner e = owner) (PermissionDenied ''task events belong to another owner''))
      (ret (es, if es = [] then after else int (te_seq (last es))))))"

end
