(* ===== verification/Task_Dict.thy ===== *)
theory Task_Dict
  imports Task_Ledger
begin

text \<open>
  Tasks as dictionaries (\<open>Task.to_dict\<close>, \<open>Task.from_dict\<close>, \<open>Task.__post_init__\<close> of
  \<open>orchestrator/models.py\<close>) and what the ledger reads of such a dictionary. An absent key is
  \<open>None\<close>; the value of a key that is present has its field's type, priorities and statuses are
  texts.
\<close>

record task_dict =
  td_id :: "string option"
  td_run :: "string option"
  td_objective :: "string option"
  td_description :: "string option"
  td_deps :: "string list option"
  td_priority :: "string option"
  td_risk :: "string option"
  td_caps :: "string list option"
  td_strategy :: "string option"
  td_status :: "string option"
  td_max_iterations :: "int option"
  td_max_repairs :: "int option"
  td_round :: "int option"
  td_budget :: "int option"
  td_retry :: "int option"
  td_max_retries :: "int option"
  td_depth :: "int option"
  td_created :: "rat option"
  td_updated :: "rat option"
  td_files :: "string list option"
  td_scope :: "string option"
  td_locks :: "string list option"
  td_timeout :: "rat option"
  td_heartbeat :: "rat option"
  td_key :: "string option"
  td_candidate :: "string option"
  td_meta :: "task_meta option"

fun priority_name :: "task_priority \<Rightarrow> string" where
  "priority_name LOW = ''LOW''"
| "priority_name MEDIUM = ''MEDIUM''"
| "priority_name HIGH = ''HIGH''"
| "priority_name CRITICAL = ''CRITICAL''"

definition all_statuses :: "task_status list" where
  "all_statuses = [PENDING, QUEUED, RUNNING, VALIDATING, REJECTED, REPAIRING, READY, DISPUTED,
     QUALITY_GATE, READY_FOR_MASTER, MASTER_REVIEW, COMPLETED, FAILED, RETRYING, CANCELLED, ESCALATED]"

text \<open>\<open>TaskStatus(text.upper())\<close>, or PENDING; \<open>TaskPriority(text.upper())\<close>, or MEDIUM.\<close>

definition parse_status :: "string \<Rightarrow> task_status" where
  "parse_status s = (case find (\<lambda>x. status_name x = py_upper s) all_statuses of None \<Rightarrow> PENDING | Some x \<Rightarrow> x)"

definition parse_priority :: "string \<Rightarrow> task_priority" where
  "parse_priority s = (case find (\<lambda>x. priority_name x = py_upper s) [LOW, MEDIUM, HIGH, CRITICAL] of
     None \<Rightarrow> MEDIUM | Some x \<Rightarrow> x)"

text \<open>\<open>digest\<close> is SHA-256 in hexadecimal.\<close>

definition post_init :: "(string \<Rightarrow> string) \<Rightarrow> task \<Rightarrow> task" where
  "post_init digest k =
     (if idem_key k = []
      then k\<lparr>idem_key := ''task-'' @ take 32 (digest (t_run k @ [CHR 0x00] @ t_id k @ [CHR 0x00] @ objective k))\<rparr>
      else k)"

definition to_dict :: "task \<Rightarrow> task_dict" where
  "to_dict k = \<lparr>td_id = Some (t_id k), td_run = Some (t_run k), td_objective = Some (objective k),
     td_description = Some (description k), td_deps = Some (dependencies k),
     td_priority = Some (priority_name (priority k)), td_risk = Some (risk k),
     td_caps = Some (required_caps k), td_strategy = Some (strategy k),
     td_status = Some (status_name (status k)), td_max_iterations = Some (max_iterations k),
     td_max_repairs = Some (max_repairs k), td_round = Some (repair_round k),
     td_budget = Some (token_budget k), td_retry = Some (retry_count k),
     td_max_retries = Some (max_retries k), td_depth = Some (depth k),
     td_created = Some (created_at k), td_updated = Some (updated_at k),
     td_files = Some (target_files k), td_scope = Some (scope k), td_locks = Some (resource_locks k),
     td_timeout = Some (timeout_s k), td_heartbeat = Some (heartbeat_s k), td_key = Some (idem_key k),
     td_candidate = candidate k, td_meta = Some (meta k)\<rparr>"

definition dflt :: "'a \<Rightarrow> 'a option \<Rightarrow> 'a" where
  "dflt x v = (case v of None \<Rightarrow> x | Some y \<Rightarrow> y)"

text \<open>The two readings of the clock are the defaults of \<open>created_at\<close> and \<open>updated_at\<close>.\<close>

definition from_dict :: "(string \<Rightarrow> string) \<Rightarrow> rat \<Rightarrow> rat \<Rightarrow> task_dict \<Rightarrow> exn + task" where
  "from_dict digest now1 now2 d =
     (if td_id d = None \<or> td_run d = None \<or> td_objective d = None
      then Inl (TypeError ''missing required argument'')
      else Inr (post_init digest \<lparr>t_id = the (td_id d), t_run = the (td_run d), objective = the (td_objective d),
         description = dflt [] (td_description d), dependencies = dflt [] (td_deps d),
         priority = (case td_priority d of None \<Rightarrow> MEDIUM | Some p \<Rightarrow> parse_priority p),
         risk = dflt ''LOW'' (td_risk d), required_caps = dflt [] (td_caps d),
         strategy = dflt ''standard'' (td_strategy d),
         status = (case td_status d of None \<Rightarrow> PENDING | Some s \<Rightarrow> parse_status s),
         max_iterations = dflt 4 (td_max_iterations d), max_repairs = dflt 4 (td_max_repairs d),
         repair_round = dflt 0 (td_round d), token_budget = dflt 30000 (td_budget d),
         retry_count = dflt 0 (td_retry d), max_retries = dflt 3 (td_max_retries d),
         depth = dflt 0 (td_depth d), created_at = dflt now1 (td_created d),
         updated_at = dflt now2 (td_updated d), target_files = dflt [] (td_files d),
         scope = dflt ''ISOLATED'' (td_scope d), resource_locks = dflt [] (td_locks d),
         timeout_s = dflt 900 (td_timeout d), heartbeat_s = dflt 120 (td_heartbeat d),
         idem_key = dflt [] (td_key d), candidate = td_candidate d, meta = dflt no_meta (td_meta d)\<rparr>))"

text \<open>The entries of the dictionary the ledger reads.\<close>

definition ledger_payload :: "task_dict \<Rightarrow> task_meta ledger_input" where
  "ledger_payload d = \<lparr>in_id = td_id d, in_task_id = None, in_objective = td_objective d,
     in_status = td_status d, in_state = None, in_priority = td_priority d, in_key = td_key d,
     in_meta = (case td_meta d of None \<Rightarrow> AbsentMeta | Some m \<Rightarrow> MetaObject (m_node m) m),
     in_retry = td_retry d, in_scope = td_scope d, in_node = None, in_deps = td_deps d,
     in_caps = td_caps d, in_files = td_files d, in_locks = td_locks d\<rparr>"

section \<open>Facts\<close>

lemma status_name_upper [simp]: "py_upper (status_name s) = status_name s"
  by (induct s) code_simp+

lemma priority_name_upper [simp]: "py_upper (priority_name p) = priority_name p"
  by (induct p) code_simp+

lemma parse_status_name [simp]: "parse_status (status_name s) = s"
  unfolding parse_status_def status_name_upper by (cases s) (simp_all add: all_statuses_def)

lemma parse_priority_name [simp]: "parse_priority (priority_name p) = p"
  unfolding parse_priority_def priority_name_upper by (cases p) simp_all

lemma status_name_inj: "status_name s = status_name t \<Longrightarrow> s = t"
  by (metis parse_status_name)

lemma status_name_states [simp]: "status_name s \<in> set task_states"
  by (cases s) (simp_all add: task_states_def)

lemma status_name_not_empty [simp]: "status_name s \<noteq> []"
  by (cases s) simp_all

lemma post_init_key [simp]: "idem_key (post_init h k) \<noteq> []"
  by (simp add: post_init_def)

lemma post_init_idem [simp]: "idem_key k \<noteq> [] \<Longrightarrow> post_init h k = k"
  by (simp add: post_init_def)

text \<open>The durable table is the scheduler's table, state by state.\<close>

lemma ledger_row_of_status: "row_of ledger_transitions (status_name s) = map status_name (task_moves s)"
  by (cases s) (simp_all add: row_of_def ledger_transitions_def)

end
