(* ===== verification/Anti_Explosion.thy ===== *)
theory Anti_Explosion
  imports Task_Model
begin

text \<open>
  The guard against task explosion (\<open>orchestrator/anti_explosion.py\<close>): a global task budget,
  a depth limit, a branching limit per parent, and the rejection of textual duplicates and of
  near duplicates by Jaccard similarity of the word sets. The digest of a normalised text
  (\<open>sha256\<close>) is a parameter: nothing below depends on which function it is.
\<close>

section \<open>State\<close>

record guard_config =
  branching_limit :: int
  max_depth :: int
  task_limit :: int
  marginal_value :: rat
  deduplicate :: bool
  similarity_threshold :: rat

definition default_guard_config :: guard_config where
  "default_guard_config = \<lparr>branching_limit = 5, max_depth = 5, task_limit = 200,
     marginal_value = 5 / 100, deduplicate = True, similarity_threshold = 85 / 100\<rparr>"

record guard =
  g_config :: guard_config
  g_signatures :: "string set"
  g_tokens :: "string set list"
  g_total :: int
  g_children :: "(string, int) dict"

definition new_guard :: "guard_config \<Rightarrow> guard" where
  "new_guard c = \<lparr>g_config = c, g_signatures = {}, g_tokens = [], g_total = 0, g_children = []\<rparr>"

section \<open>Operations\<close>

definition normalize_text :: "string \<Rightarrow> string" where
  "normalize_text t = join_space (py_split (filter (\<lambda>c. is_word c \<or> is_space c) (py_lower t)))"

definition word_tokens :: "string \<Rightarrow> string set" where
  "word_tokens t = set (py_split (normalize_text t))"

definition jaccard :: "string set \<Rightarrow> string set \<Rightarrow> rat" where
  "jaccard a b = (if a = {} \<and> b = {} then 1
     else if a = {} \<or> b = {} then 0
     else of_nat (card (a \<inter> b)) / of_nat (card (a \<union> b)))"

definition find_most_similar :: "guard \<Rightarrow> string \<Rightarrow> rat" where
  "find_most_similar g text =
     (let cand = word_tokens text in
      fold (\<lambda>toks best. let sim = jaccard cand toks in if sim > best then sim else best)
        (g_tokens g) 0)"

definition task_signature :: "(string \<Rightarrow> string) \<Rightarrow> task \<Rightarrow> string" where
  "task_signature digest k = digest (normalize_text (objective k))"

text \<open>An optional string is false when it is absent or empty.\<close>

definition truthy :: "string option \<Rightarrow> bool" where
  "truthy p \<longleftrightarrow> p \<noteq> None \<and> p \<noteq> Some []"

definition children_of :: "guard \<Rightarrow> string \<Rightarrow> int" where
  "children_of g p = (case dget (g_children g) p of None \<Rightarrow> 0 | Some n \<Rightarrow> n)"

definition validate_new_task ::
  "(string \<Rightarrow> string) \<Rightarrow> task \<Rightarrow> string option \<Rightarrow> guard \<Rightarrow> exn + unit" where
  "validate_new_task digest k parent g =
     (let c = g_config g in
      if g_total g \<ge> task_limit c then Inl (AntiExplosion ''budget'')
      else if depth k > max_depth c then Inl (AntiExplosion ''depth'')
      else if truthy parent \<and> children_of g (the parent) \<ge> branching_limit c
        then Inl (AntiExplosion ''branching'')
      else if deduplicate c \<and> task_signature digest k \<in> g_signatures g
        then Inl (AntiExplosion ''duplicate'')
      else if deduplicate c \<and> find_most_similar g (objective k) \<ge> similarity_threshold c
        then Inl (AntiExplosion ''near duplicate'')
      else Inr ())"

definition register_task ::
  "(string \<Rightarrow> string) \<Rightarrow> task \<Rightarrow> string option \<Rightarrow> (guard, unit) sx" where
  "register_task digest k parent g =
     (case validate_new_task digest k parent g of
        Inl e \<Rightarrow> (Inl e, g)
      | Inr _ \<Rightarrow> (Inr (), g\<lparr>
          g_signatures := insert (task_signature digest k) (g_signatures g),
          g_tokens := g_tokens g @ [word_tokens (objective k)],
          g_total := g_total g + 1,
          g_children := (if truthy parent
            then dset (the parent) (children_of g (the parent) + 1) (g_children g)
            else g_children g)\<rparr>))"

definition is_duplicate :: "(string \<Rightarrow> string) \<Rightarrow> guard \<Rightarrow> string \<Rightarrow> bool" where
  "is_duplicate digest g text \<longleftrightarrow>
     digest (normalize_text text) \<in> g_signatures g
     \<or> find_most_similar g text \<ge> similarity_threshold (g_config g)"

section \<open>Similarity is a maximum\<close>

lemma fold_max_ge:
  fixes b :: rat
  shows "b \<le> fold (\<lambda>x best. let s = f x in if s > best then s else best) xs b"
  by (induction xs arbitrary: b) (auto simp: Let_def intro: order_trans [OF less_imp_le])

lemma fold_max_bound:
  fixes b :: rat
  shows "x \<in> set xs \<Longrightarrow> f x \<le> fold (\<lambda>x best. let s = f x in if s > best then s else best) xs b"
proof (induction xs arbitrary: b)
  case Nil
  then show ?case by simp
next
  case (Cons y ys)
  show ?case
  proof (cases "x = y")
    case True
    have "f x \<le> (if f y > b then f y else b)" using True by simp
    also have "\<dots> \<le> fold (\<lambda>x best. let s = f x in if s > best then s else best) ys \<dots>"
      by (rule fold_max_ge)
    finally show ?thesis by (simp add: Let_def)
  next
    case False
    with Cons show ?thesis by (simp add: Let_def)
  qed
qed

lemma find_most_similar_nonneg: "0 \<le> find_most_similar g t"
  unfolding find_most_similar_def Let_def by (rule fold_max_ge [unfolded Let_def])

lemma find_most_similar_bound:
  "toks \<in> set (g_tokens g) \<Longrightarrow> jaccard (word_tokens t) toks \<le> find_most_similar g t"
  unfolding find_most_similar_def Let_def
  by (rule fold_max_bound [of toks "g_tokens g" "jaccard (word_tokens t)", unfolded Let_def])

lemma jaccard_self: "finite a \<Longrightarrow> jaccard a a = 1"
  by (auto simp: jaccard_def)

lemma finite_word_tokens [simp]: "finite (word_tokens t)"
  by (simp add: word_tokens_def)

lemma jaccard_sym: "jaccard a b = jaccard b a"
  by (simp add: jaccard_def Int_commute Un_commute conj_commute disj_commute)

lemma jaccard_le_1: "finite a \<Longrightarrow> finite b \<Longrightarrow> jaccard a b \<le> 1"
proof -
  assume fin: "finite a" "finite b"
  then have "card (a \<inter> b) \<le> card (a \<union> b)"
    by (intro card_mono) auto
  moreover have "card (a \<union> b) \<noteq> 0" if "a \<noteq> {}" using fin that by simp
  ultimately show ?thesis
    by (auto simp: jaccard_def divide_le_eq_1 of_nat_le_iff)
qed

section \<open>The guard's invariant\<close>

text \<open>
  One token set per admitted task, never more tasks than the budget, and no parent with more
  children than the branching limit (limits that are not negative, as in the default
  configuration).
\<close>

definition guard_ok :: "guard \<Rightarrow> bool" where
  "guard_ok g \<longleftrightarrow>
     int (length (g_tokens g)) = g_total g
     \<and> (0 \<le> task_limit (g_config g) \<longrightarrow> g_total g \<le> task_limit (g_config g))
     \<and> (0 \<le> branching_limit (g_config g) \<longrightarrow>
          (\<forall>p. children_of g p \<le> branching_limit (g_config g)))
     \<and> (\<forall>toks \<in> set (g_tokens g). finite toks)"

lemma guard_ok_new: "guard_ok (new_guard c)"
  by (simp add: guard_ok_def new_guard_def children_of_def)

lemma register_cases:
  obtains (refused) e where "register_task digest k p g = (Inl e, g)"
      "validate_new_task digest k p g = Inl e"
  | (admitted) g' where "register_task digest k p g = (Inr (), g')"
      "validate_new_task digest k p g = Inr ()"
  by (cases "validate_new_task digest k p g") (auto simp: register_task_def)

lemma register_error: "register_task digest k p g = (Inl e, g') \<Longrightarrow> g' = g \<and> (\<exists>w. e = AntiExplosion w)"
  by (auto simp: register_task_def validate_new_task_def Let_def split: sum.splits if_splits)

lemma register_config [simp]: "g_config (snd (register_task digest k p g)) = g_config g"
  by (simp add: register_task_def split: sum.split)

lemma register_keeps: "keep guard_ok (register_task digest k p)"
proof (rule keepI)
  fix g assume ok: "guard_ok g"
  show "guard_ok (snd (register_task digest k p g))"
  proof (cases "validate_new_task digest k p g")
    case (Inl e)
    with ok show ?thesis by (simp add: register_task_def)
  next
    case (Inr u)
    then have lim: "g_total g < task_limit (g_config g)"
      and br: "truthy p \<Longrightarrow> children_of g (the p) < branching_limit (g_config g)"
      by (auto simp: validate_new_task_def Let_def split: if_splits)
    show ?thesis
      using ok lim br Inr
      by (auto simp: guard_ok_def register_task_def children_of_def split: option.splits)
  qed
qed

lemma register_remembers:
  assumes "register_task digest k p g = (Inr (), g')"
  shows "task_signature digest k \<in> g_signatures g'" "g_signatures g \<subseteq> g_signatures g'"
    "set (g_tokens g') = insert (word_tokens (objective k)) (set (g_tokens g))"
    "g_total g' = g_total g + 1"
  using assms by (auto simp: register_task_def split: sum.splits)

end
