(* ===== verification/Task_Queue.thy ===== *)
theory Task_Queue
  imports Anti_Explosion
begin

text \<open>
  The scheduler's queue (\<open>orchestrator/queue.py\<close>): admission with backpressure and
  idempotent replay, dependency tracking, dispatch under resource locks, settlement
  (completed, failed with retries and dead letters, escalated, cancelled), the cascade to
  dependents and crash recovery.

  Every method of the class runs under one lock without suspending, so a method is one
  function on the state. The task objects shared by the class's dictionaries live once, in
  \<open>q_all\<close>; the other collections hold ids. A method that raises leaves the mutations made
  before the raise. The durable lease manager is the parameter \<open>api\<close> (\<open>None\<close> when the
  queue has none), with its own state in \<open>q_lm\<close>. Wall-clock readings are the argument
  \<open>now\<close>.
\<close>

section \<open>State\<close>

record 'm lease_api =
  la_acquire :: "task \<Rightarrow> string list \<Rightarrow> ('m, lease_ref list option) sx"
  la_release :: "lease_ref list \<Rightarrow> ('m, unit) sx"
  la_sync :: "(task \<Rightarrow> bool \<Rightarrow> ('m, unit) sx) option"

record dead_letter =
  dl_task_id :: string
  dl_task :: task
  dl_error :: string
  dl_attempts :: int
  dl_time :: rat

record 'm queue =
  q_guard :: guard
  q_max :: int
  q_all :: "(string, task) dict"
  q_idem :: "(string, string) dict"
  q_ready :: "string list"
  q_blocked :: "(string, string list) dict"
  q_running :: "string list"
  q_done :: "string list"
  q_cancelled :: "string list"
  q_failed :: "string list"
  q_dlq :: "dead_letter list"
  q_holders :: "(string, string) dict"
  q_locks :: "(string, string list) dict"
  q_leases :: "(string, lease_ref list) dict"
  q_dropped :: nat
  q_lm :: 'm

definition new_queue :: "guard \<Rightarrow> int \<Rightarrow> 'm \<Rightarrow> 'm queue" where
  "new_queue g mx m = \<lparr>q_guard = g, q_max = mx, q_all = [], q_idem = [], q_ready = [],
     q_blocked = [], q_running = [], q_done = [], q_cancelled = [], q_failed = [], q_dlq = [],
     q_holders = [], q_locks = [], q_leases = [], q_dropped = 0, q_lm = m\<rparr>"

text \<open>The keys of a dictionary whose values are the tasks of \<open>q_all\<close>.\<close>

definition ladd :: "string \<Rightarrow> string list \<Rightarrow> string list" where
  "ladd x xs = (if x \<in> set xs then xs else xs @ [x])"

lemma set_ladd [simp]: "set (ladd x xs) = insert x (set xs)"
  by (auto simp: ladd_def)

text \<open>Decimal text of an integer, for the retry reason.\<close>

fun str_of_nat :: "nat \<Rightarrow> string" where
  "str_of_nat n = (if n < 10 then [char_of (48 + n)]
     else str_of_nat (n div 10) @ [char_of (48 + n mod 10)])"

declare str_of_nat.simps [simp del]

definition str_of_int :: "int \<Rightarrow> string" where
  "str_of_int i = (if i < 0 then CHR ''-'' # str_of_nat (nat (- i)) else str_of_nat (nat i))"

definition lift_lm :: "('m, 'a) sx \<Rightarrow> ('m queue, 'a) sx" where
  "lift_lm m q = (case m (q_lm q) of (r, s) \<Rightarrow> (r, q\<lparr>q_lm := s\<rparr>))"

section \<open>Resources of a task\<close>

definition normalize_resource :: "string \<Rightarrow> string" where
  "normalize_resource v = py_lower (replace_char (CHR 0x5C) (CHR ''/'') (py_strip v))"

definition scope_of :: "task \<Rightarrow> string" where
  "scope_of k = py_upper (if scope k = [] then ''ISOLATED'' else scope k)"

definition run_exclusive :: string where
  "run_exclusive = ''__run_exclusive__''"

definition whole_workspace :: string where
  "whole_workspace = ''workspace:*''"

definition normalized :: "string list \<Rightarrow> string list" where
  "normalized xs = filter (\<lambda>r. r \<noteq> []) (map normalize_resource xs)"

definition resources_for_task :: "task \<Rightarrow> string list" where
  "resources_for_task k =
     (let res = normalized (resource_locks k); targets = normalized (target_files k) in
      remdups
        (if scope_of k = ''WORKSPACE_WRITE''
         then (if targets \<noteq> [] then res @ map (\<lambda>t. ''file:'' @ t) targets
               else res @ [whole_workspace])
         else if scope_of k = ''EXTERNAL'' \<and> res = [] then [''external:*'']
         else if scope_of k = ''EXCLUSIVE'' then res @ [run_exclusive]
         else res))"

definition touches_workspace :: "string \<Rightarrow> bool" where
  "touches_workspace r \<longleftrightarrow> r = whole_workspace \<or> py_startswith r ''file:''"

definition resource_conflict :: "string list \<Rightarrow> string list \<Rightarrow> bool" where
  "resource_conflict held res =
     (if run_exclusive \<in> set held then True
      else if res = [] then False
      else if run_exclusive \<in> set res \<and> held \<noteq> [] then True
      else if whole_workspace \<in> set held \<and> (\<exists>r \<in> set res. touches_workspace r) then True
      else if whole_workspace \<in> set res \<and> (\<exists>r \<in> set held. touches_workspace r) then True
      else (\<exists>r \<in> set res. r \<in> set held))"

section \<open>Primitive steps\<close>

definition upd_task :: "string \<Rightarrow> (task \<Rightarrow> task) \<Rightarrow> 'm queue \<Rightarrow> 'm queue" where
  "upd_task tid f q = (case dget (q_all q) tid of None \<Rightarrow> q | Some k \<Rightarrow> q\<lparr>q_all := dset tid (f k) (q_all q)\<rparr>)"

definition the_task :: "string \<Rightarrow> ('m queue, task) sx" where
  "the_task tid q = (case dget (q_all q) tid of
      None \<Rightarrow> (Inl (KeyError tid), q) | Some k \<Rightarrow> (Inr k, q))"

text \<open>\<open>TaskStateMachine.transition\<close> on a task of the queue.\<close>

definition move :: "string \<Rightarrow> task_status \<Rightarrow> string \<Rightarrow> ('m queue, unit) sx" where
  "move tid target reason q = (case dget (q_all q) tid of
      None \<Rightarrow> (Inl (KeyError tid), q)
    | Some k \<Rightarrow> (case transition k target reason of
        Inl e \<Rightarrow> (Inl e, q)
      | Inr k' \<Rightarrow> (Inr (), q\<lparr>q_all := dset tid k' (q_all q)\<rparr>)))"

definition drop_running :: "string \<Rightarrow> 'm queue \<Rightarrow> 'm queue" where
  "drop_running tid q = q\<lparr>q_running := removeAll tid (q_running q)\<rparr>"

definition push_ready :: "string \<Rightarrow> 'm queue \<Rightarrow> 'm queue" where
  "push_ready tid q = q\<lparr>q_ready := q_ready q @ [tid]\<rparr>"

definition drop_blocked :: "string \<Rightarrow> 'm queue \<Rightarrow> 'm queue" where
  "drop_blocked tid q = q\<lparr>q_blocked := ddel tid (q_blocked q)\<rparr>"

definition add_failed :: "string \<Rightarrow> 'm queue \<Rightarrow> 'm queue" where
  "add_failed tid q = q\<lparr>q_failed := ladd tid (q_failed q)\<rparr>"

definition sync_task :: "'m lease_api option \<Rightarrow> string \<Rightarrow> ('m queue, unit) sx" where
  "sync_task api tid = (case api of
       None \<Rightarrow> ret ()
     | Some a \<Rightarrow> (case la_sync a of
         None \<Rightarrow> ret ()
       | Some f \<Rightarrow> bnd (the_task tid) (\<lambda>k. lift_lm (f k False))))"

text \<open>Higher weight first, earlier creation first; the sort is stable.\<close>

definition ready_key :: "(string, task) dict \<Rightarrow> string \<Rightarrow> int \<times> rat" where
  "ready_key all tid = (case dget all tid of
      None \<Rightarrow> (0, 0) | Some k \<Rightarrow> (- priority_weight (priority k), created_at k))"

definition sort_ready :: "('m queue, unit) sx" where
  "sort_ready q = (case find (\<lambda>i. dget (q_all q) i = None) (q_ready q) of
      Some i \<Rightarrow> (Inl (KeyError i), q)
    | None \<Rightarrow> (Inr (), q\<lparr>q_ready := sort_key (ready_key (q_all q)) (q_ready q)\<rparr>))"

definition queue_size :: "'m queue \<Rightarrow> int" where
  "queue_size q = int (length (q_ready q) + length (q_running q) + length (q_blocked q))"

section \<open>Resource locks\<close>

definition hold_all :: "string \<Rightarrow> string list \<Rightarrow> (string, string) dict \<Rightarrow> (string, string) dict" where
  "hold_all tid res h = fold (\<lambda>r. dset r tid) res h"

definition record_locks :: "string \<Rightarrow> string list \<Rightarrow> lease_ref list \<Rightarrow> 'm queue \<Rightarrow> 'm queue" where
  "record_locks tid res ls q =
     upd_task tid (\<lambda>k. k\<lparr>meta := (meta k)\<lparr>
         m_leases := (if ls \<noteq> [] then Some ls else m_leases (meta k)),
         m_locks_held := Some (sort res)\<rparr>\<rparr>)
       (q\<lparr>q_holders := hold_all tid res (q_holders q),
          q_locks := dset tid res (q_locks q),
          q_leases := (if ls \<noteq> [] then dset tid ls (q_leases q) else q_leases q)\<rparr>)"

definition try_acquire :: "'m lease_api option \<Rightarrow> string \<Rightarrow> ('m queue, bool) sx" where
  "try_acquire api tid = bnd (the_task tid) (\<lambda>k.
     let res = resources_for_task k in
     bnd (gets (\<lambda>q. resource_conflict (dkeys (q_holders q)) res)) (\<lambda>conflict.
       if conflict then ret False
       else bnd (case api of
              None \<Rightarrow> ret (Some [])
            | Some a \<Rightarrow> if res = [] then ret (Some []) else lift_lm (la_acquire a k res))
          (\<lambda>got. case got of
              None \<Rightarrow> ret False
            | Some ls \<Rightarrow> andthen (modify (record_locks tid res ls)) (ret True))))"

definition drop_holders :: "string \<Rightarrow> string list \<Rightarrow> (string, string) dict \<Rightarrow> (string, string) dict" where
  "drop_holders tid res h = fold (\<lambda>r h. if dget h r = Some tid then ddel r h else h) res h"

definition drop_locks :: "string \<Rightarrow> 'm queue \<Rightarrow> 'm queue" where
  "drop_locks tid q =
     upd_task tid (\<lambda>k. k\<lparr>meta := (meta k)\<lparr>m_locks_held := None, m_leases := None\<rparr>\<rparr>)
       (q\<lparr>q_holders := drop_holders tid (case dget (q_locks q) tid of None \<Rightarrow> [] | Some rs \<Rightarrow> rs)
            (q_holders q),
          q_locks := ddel tid (q_locks q)\<rparr>)"

definition release_resources :: "'m lease_api option \<Rightarrow> string \<Rightarrow> ('m queue, unit) sx" where
  "release_resources api tid =
     bnd (gets (\<lambda>q. case dget (q_leases q) tid of None \<Rightarrow> [] | Some ls \<Rightarrow> ls)) (\<lambda>ls.
     andthen (modify (\<lambda>q. q\<lparr>q_leases := ddel tid (q_leases q)\<rparr>))
     (andthen (case api of
          None \<Rightarrow> ret ()
        | Some a \<Rightarrow> if ls = [] then ret () else lift_lm (la_release a ls))
       (modify (drop_locks tid))))"

section \<open>Admission\<close>

text \<open>The immutable part of a task: what a replay must repeat exactly.\<close>

definition task_intent :: "task \<Rightarrow> task" where
  "task_intent k = k\<lparr>status := PENDING, repair_round := 0, retry_count := 0, created_at := 0,
     updated_at := 0, candidate := None, meta := no_meta\<rparr>"

definition existing_for_replay :: "task \<Rightarrow> 'm queue \<Rightarrow> exn + task option" where
  "existing_for_replay k q =
     (let by_id = dget (q_all q) (t_id k);
          by_key = (case dget (q_idem q) (idem_key k) of
              None \<Rightarrow> None
            | Some i \<Rightarrow> if i = [] then None else dget (q_all q) i);
          existing = (case by_id of Some e \<Rightarrow> Some e | None \<Rightarrow> by_key)
      in case existing of
           None \<Rightarrow> Inr None
         | Some e \<Rightarrow> if t_id e \<noteq> t_id k \<or> idem_key e \<noteq> idem_key k \<or> task_intent e \<noteq> task_intent k
             then Inl (ValueError ''task reused with a different intent'') else Inr (Some e))"

lemma existing_for_replay_guard [simp]:
  "existing_for_replay k (q\<lparr>q_guard := g\<rparr>) = existing_for_replay k q"
  by (simp add: existing_for_replay_def cong del: if_weak_cong option.case_cong_weak)

definition known_replay :: "task \<Rightarrow> 'm queue \<Rightarrow> bool" where
  "known_replay k q \<longleftrightarrow> dget (q_all q) (t_id k) \<noteq> None \<or> dget (q_idem q) (idem_key k) \<noteq> None"

definition lift_guard :: "(guard, 'a) sx \<Rightarrow> ('m queue, 'a) sx" where
  "lift_guard m q = (case m (q_guard q) of (r, g) \<Rightarrow> (r, q\<lparr>q_guard := g\<rparr>))"

definition index_task :: "task \<Rightarrow> 'm queue \<Rightarrow> 'm queue" where
  "index_task k q = q\<lparr>q_all := dset (t_id k) k (q_all q),
     q_idem := dset (idem_key k) (t_id k) (q_idem q)\<rparr>"

definition unfulfilled :: "task \<Rightarrow> 'm queue \<Rightarrow> string list" where
  "unfulfilled k q = remdups (filter (\<lambda>d. d \<notin> set (q_done q)) (dependencies k))"

definition insert_new :: "'m lease_api option \<Rightarrow> task \<Rightarrow> ('m queue, bool) sx" where
  "insert_new api k =
     andthen (modify (index_task k))
     (bnd (gets (unfulfilled k)) (\<lambda>missing.
       andthen
         (if missing = [] then
            andthen (move (t_id k) QUEUED ''All dependencies satisfied'')
              (andthen (modify (push_ready (t_id k))) sort_ready)
          else
            modify (\<lambda>q. upd_task (t_id k) (\<lambda>t. t\<lparr>status := PENDING\<rparr>)
              (q\<lparr>q_blocked := dset (t_id k) missing (q_blocked q)\<rparr>)))
         (andthen (sync_task api (t_id k)) (ret True))))"

text \<open>
  With \<open>block\<close> the method sleeps while the queue is full; \<open>WouldBlock\<close> with an unchanged
  state is that suspended call, which looks again later.
\<close>

definition add_task ::
  "'m lease_api option \<Rightarrow> (string \<Rightarrow> string) \<Rightarrow> task \<Rightarrow> string option \<Rightarrow> bool \<Rightarrow>
     ('m queue, bool) sx" where
  "add_task api digest k parent block q =
     (if queue_size q \<ge> q_max q \<and> \<not> known_replay k q
      then (if block then (Inl WouldBlock, q)
            else (Inl QueueFull, q\<lparr>q_dropped := Suc (q_dropped q)\<rparr>))
      else (case existing_for_replay k q of
          Inl e \<Rightarrow> (Inl e, q)
        | Inr (Some e) \<Rightarrow> (Inr True, q)
        | Inr None \<Rightarrow>
            (case lift_guard (register_task digest k parent) q of
               (Inl e, q1) \<Rightarrow> (Inr False, q1)
             | (Inr u, q1) \<Rightarrow> insert_new api k q1)))"

section \<open>Dispatch\<close>

definition clean_caps :: "string list \<Rightarrow> string list" where
  "clean_caps xs = remdups (map (\<lambda>x. py_lower (py_strip x)) (filter (\<lambda>x. py_strip x \<noteq> []) xs))"

definition caps_ok :: "string list option \<Rightarrow> task \<Rightarrow> bool" where
  "caps_ok caps k = (case caps of None \<Rightarrow> True
     | Some cs \<Rightarrow> set (clean_caps (required_caps k)) \<subseteq> set cs)"

text \<open>
  The scan of the ready queue: the first candidate whose capabilities are met and whose
  resources can be acquired. \<open>n\<close> is the position of the head of the remaining list.
\<close>

fun select_ready ::
  "'m lease_api option \<Rightarrow> string list option \<Rightarrow> nat \<Rightarrow> string list \<Rightarrow>
     ('m queue, (nat \<times> string) option) sx" where
  "select_ready api caps n [] = ret None"
| "select_ready api caps n (i # is) = bnd (the_task i) (\<lambda>k.
     if \<not> caps_ok caps k then select_ready api caps (Suc n) is
     else bnd (try_acquire api i) (\<lambda>ok.
       if ok then ret (Some (n, i)) else select_ready api caps (Suc n) is))"

definition note_dispatch :: "string \<Rightarrow> string list option \<Rightarrow> string option \<Rightarrow> 'm queue \<Rightarrow> 'm queue" where
  "note_dispatch tid caps node = upd_task tid (\<lambda>k. k\<lparr>meta := (meta k)\<lparr>
      m_node := (if truthy node then node else m_node (meta k)),
      m_caps := (case caps of None \<Rightarrow> m_caps (meta k) | Some cs \<Rightarrow> Some (sort cs))\<rparr>\<rparr>)"

definition pop_ready_task ::
  "'m lease_api option \<Rightarrow> string list option \<Rightarrow> string option \<Rightarrow>
     ('m queue, string option) sx" where
  "pop_ready_task api available node q =
     (if q_ready q = [] then (Inr None, q)
      else let caps = map_option clean_caps available in
        bnd (select_ready api caps 0 (q_ready q)) (\<lambda>sel. case sel of
            None \<Rightarrow> ret None
          | Some (n, tid) \<Rightarrow>
              andthen (modify (note_dispatch tid caps node))
              (andthen (modify (\<lambda>q. q\<lparr>q_ready := take n (q_ready q) @ drop (Suc n) (q_ready q)\<rparr>))
              (andthen (move tid RUNNING ''Dispatched to worker'')
              (andthen (modify (\<lambda>q. q\<lparr>q_running := ladd tid (q_running q)\<rparr>))
              (andthen (sync_task api tid) (ret (Some tid))))))) q)"

definition unsatisfied_capabilities :: "string list \<Rightarrow> 'm queue \<Rightarrow> (string, string list) dict" where
  "unsatisfied_capabilities available q =
     (let caps = clean_caps available in
      fold (\<lambda>i d. case dget (q_all q) i of
          None \<Rightarrow> d
        | Some k \<Rightarrow>
            (let missing = sort (filter (\<lambda>c. c \<notin> set caps) (clean_caps (required_caps k)))
             in if missing \<noteq> [] then dset i missing d else d)) (q_ready q) [])"

section \<open>Settlement\<close>

definition unblock :: "string \<Rightarrow> (string, string list) dict \<Rightarrow> string list \<times> (string, string list) dict" where
  "unblock tid b =
     (let b' = map (\<lambda>(i, ds). (i, removeAll tid ds)) b in
      (map fst (filter (\<lambda>(i, ds). ds = []) b'), filter (\<lambda>(i, ds). ds \<noteq> []) b'))"

definition release_dependents :: "'m lease_api option \<Rightarrow> string \<Rightarrow> ('m queue, unit) sx" where
  "release_dependents api tid q =
     (let (newly, b) = unblock tid (q_blocked q) in
      andthen (foreach newly (\<lambda>i.
          andthen (move i QUEUED ''All dependencies completed'')
            (andthen (modify (push_ready i)) (sync_task api i))))
        (if newly \<noteq> [] then sort_ready else ret ())
        (q\<lparr>q_blocked := b\<rparr>))"

definition when_known :: "string \<Rightarrow> 'a \<Rightarrow> ('m queue, 'a) sx \<Rightarrow> ('m queue, 'a) sx" where
  "when_known tid a m q = (case dget (q_all q) tid of None \<Rightarrow> (Inr a, q) | Some k \<Rightarrow> m q)"

definition mark_completed :: "'m lease_api option \<Rightarrow> string \<Rightarrow> ('m queue, unit) sx" where
  "mark_completed api tid = when_known tid ()
     (andthen (modify (drop_running tid))
     (andthen (release_resources api tid)
     (andthen (move tid COMPLETED ''Task finished successfully'')
     (andthen (modify (\<lambda>q. q\<lparr>q_done := ladd tid (q_done q)\<rparr>))
     (andthen (sync_task api tid) (release_dependents api tid))))))"

text \<open>Statuses that never complete: a task waiting for one of them would wait for ever.\<close>

definition dead_status :: "task_status \<Rightarrow> bool" where
  "dead_status s \<longleftrightarrow> s = FAILED \<or> s = ESCALATED \<or> s = CANCELLED"

definition dep_dead :: "(string, task) dict \<Rightarrow> string \<Rightarrow> bool" where
  "dep_dead all d = (case dget all d of None \<Rightarrow> False | Some k \<Rightarrow> dead_status (status k))"

definition doomed :: "string \<Rightarrow> (string, task) dict \<Rightarrow> string list \<Rightarrow> bool" where
  "doomed tid all deps \<longleftrightarrow> tid \<in> set deps \<or> (\<exists>d \<in> set deps. dep_dead all d)"

text \<open>\<open>transition\<close> to FAILED, and the bare assignment where the machine refuses it.\<close>

definition force_failed :: "string \<Rightarrow> string \<Rightarrow> 'm queue \<Rightarrow> 'm queue" where
  "force_failed tid reason = upd_task tid (\<lambda>k. case transition k FAILED reason of
      Inl e \<Rightarrow> k\<lparr>status := FAILED\<rparr> | Inr k' \<Rightarrow> k')"

definition push_dlq :: "string \<Rightarrow> string \<Rightarrow> rat \<Rightarrow> 'm queue \<Rightarrow> 'm queue" where
  "push_dlq tid err now q = (case dget (q_all q) tid of
      None \<Rightarrow> q
    | Some k \<Rightarrow> q\<lparr>q_dlq := q_dlq q @ [\<lparr>dl_task_id = tid, dl_task = k, dl_error = err,
        dl_attempts = retry_count k, dl_time = now\<rparr>]\<rparr>)"

text \<open>One pass over a snapshot of the blocked tasks: the ids failed and whether anything changed.\<close>

fun fail_pass ::
  "'m lease_api option \<Rightarrow> rat \<Rightarrow> string \<Rightarrow> string \<Rightarrow> (string \<times> string list) list \<Rightarrow>
     ('m queue, string list \<times> bool) sx" where
  "fail_pass api now tid reason [] q = (Inr ([], False), q)"
| "fail_pass api now tid reason ((b, deps) # bs) q =
     (if \<not> doomed tid (q_all q) deps then fail_pass api now tid reason bs q
      else case dget (q_all q) b of
        None \<Rightarrow> (case fail_pass api now tid reason bs (drop_blocked b q) of
            (Inl e, q') \<Rightarrow> (Inl e, q')
          | (Inr (ids, ch), q') \<Rightarrow> (Inr (ids, True), q'))
      | Some k \<Rightarrow>
          (case sync_task api b (add_failed b (force_failed b reason (drop_blocked b q))) of
             (Inl e, q') \<Rightarrow> (Inl e, q')
           | (Inr u, q1) \<Rightarrow>
               (case fail_pass api now tid reason bs
                  (push_dlq b (''[DEPENDENCY_ERROR] '' @ reason) now q1) of
                  (Inl e, q') \<Rightarrow> (Inl e, q')
                | (Inr (ids, ch), q') \<Rightarrow> (Inr (b # ids, True), q'))))"

text \<open>Steps that only forward to the lease manager leave the rest of the queue alone.\<close>

lemma lift_lm_frame: "lift_lm m q = (r, q') \<Longrightarrow> \<exists>s. q' = q\<lparr>q_lm := s\<rparr>"
  by (auto simp: lift_lm_def split: prod.splits)

lemma sync_task_frame: "sync_task api tid q = (r, q') \<Longrightarrow> \<exists>s. q' = q\<lparr>q_lm := s\<rparr>"
  by (auto simp: sync_task_def the_task_def bnd_def
      split: option.splits prod.splits sum.splits dest!: lift_lm_frame)
    (metis queue.surjective queue.update_convs(16))+

lemma upd_task_frame [simp]:
  "q_blocked (upd_task i f q) = q_blocked q" "q_ready (upd_task i f q) = q_ready q"
  "q_running (upd_task i f q) = q_running q" "q_done (upd_task i f q) = q_done q"
  "q_holders (upd_task i f q) = q_holders q" "q_locks (upd_task i f q) = q_locks q"
  "q_failed (upd_task i f q) = q_failed q" "q_cancelled (upd_task i f q) = q_cancelled q"
  "q_idem (upd_task i f q) = q_idem q" "q_dlq (upd_task i f q) = q_dlq q"
  "q_guard (upd_task i f q) = q_guard q" "q_max (upd_task i f q) = q_max q"
  "q_leases (upd_task i f q) = q_leases q" "q_dropped (upd_task i f q) = q_dropped q"
  "q_lm (upd_task i f q) = q_lm q"
  by (simp_all add: upd_task_def split: option.split)

lemma dget_upd_task [simp]:
  "dget (q_all (upd_task i f q)) j = (if j = i then map_option f (dget (q_all q) i) else dget (q_all q) j)"
  by (simp add: upd_task_def split: option.split)

lemma push_dlq_frame [simp]:
  "q_blocked (push_dlq i e n q) = q_blocked q" "q_ready (push_dlq i e n q) = q_ready q"
  "q_running (push_dlq i e n q) = q_running q" "q_done (push_dlq i e n q) = q_done q"
  "q_holders (push_dlq i e n q) = q_holders q" "q_locks (push_dlq i e n q) = q_locks q"
  "q_failed (push_dlq i e n q) = q_failed q" "q_cancelled (push_dlq i e n q) = q_cancelled q"
  "q_all (push_dlq i e n q) = q_all q" "q_idem (push_dlq i e n q) = q_idem q"
  "q_guard (push_dlq i e n q) = q_guard q" "q_max (push_dlq i e n q) = q_max q"
  by (simp_all add: push_dlq_def split: option.split)

lemma force_failed_frame [simp]:
  "q_blocked (force_failed i r q) = q_blocked q" "q_ready (force_failed i r q) = q_ready q"
  "q_running (force_failed i r q) = q_running q" "q_done (force_failed i r q) = q_done q"
  "q_holders (force_failed i r q) = q_holders q" "q_locks (force_failed i r q) = q_locks q"
  "q_failed (force_failed i r q) = q_failed q" "q_cancelled (force_failed i r q) = q_cancelled q"
  "q_guard (force_failed i r q) = q_guard q" "q_max (force_failed i r q) = q_max q"
  by (simp_all add: force_failed_def)

lemma ddel_length: "length (ddel k d) \<le> length d"
  by (rule length_delete_le)

lemma ddel_length_less: "k \<in> fst ` set d \<Longrightarrow> length (ddel k d) < length d"
proof (induction d)
  case Nil
  then show ?case by simp
next
  case (Cons p d)
  then show ?case
    using le_imp_less_Suc [OF ddel_length [of k d]] by auto
qed

lemma fail_pass_shrinks:
  "fail_pass api now tid reason bs q = (r, q') \<Longrightarrow> length (q_blocked q') \<le> length (q_blocked q)"
proof (induction bs arbitrary: q r q')
  case Nil
  then show ?case by simp
next
  case (Cons p bs)
  obtain b deps where p: "p = (b, deps)" by (cases p)
  note del = ddel_length [of b "q_blocked q"]
  from Cons.prems show ?case
    unfolding p
    by (auto simp: drop_blocked_def add_failed_def split: if_splits option.splits prod.splits sum.splits
        dest!: Cons.IH sync_task_frame intro: order_trans [OF _ del])
qed

lemma fail_pass_decreases:
  "fail_pass api now tid reason bs q = (Inr (ids, True), q') \<Longrightarrow>
     fst ` set bs \<subseteq> fst ` set (q_blocked q) \<Longrightarrow> length (q_blocked q') < length (q_blocked q)"
proof (induction bs arbitrary: q ids q')
  case Nil
  then show ?case by simp
next
  case (Cons p bs)
  obtain b deps where p: "p = (b, deps)" by (cases p)
  show ?case
  proof (cases "doomed tid (q_all q) deps")
    case False
    with Cons p show ?thesis by auto
  next
    case True
    have "length (ddel b (q_blocked q)) < length (q_blocked q)"
      using Cons.prems(2) p by (intro ddel_length_less) auto
    with True Cons.prems(1) show ?thesis
      unfolding p
      by (auto simp: drop_blocked_def add_failed_def split: option.splits prod.splits sum.splits
          dest!: fail_pass_shrinks sync_task_frame)
  qed
qed

text \<open>The cascade: passes over the blocked tasks until one changes nothing.\<close>

function fail_dependents ::
  "'m lease_api option \<Rightarrow> rat \<Rightarrow> string \<Rightarrow> string \<Rightarrow> ('m queue, string list) sx" where
  "fail_dependents api now tid reason q =
     (case fail_pass api now tid reason (q_blocked q) q of
        (Inl e, q') \<Rightarrow> (Inl e, q')
      | (Inr (ids, changed), q') \<Rightarrow>
          if changed
          then (case fail_dependents api now tid reason q' of
              (Inl e, q'') \<Rightarrow> (Inl e, q'')
            | (Inr rest, q'') \<Rightarrow> (Inr (ids @ rest), q''))
          else (Inr ids, q'))"
  by pat_completeness auto
termination
  by (relation "measure (\<lambda>(api, now, tid, reason, q). length (q_blocked q))")
    (auto dest!: fail_pass_decreases [OF sym])

declare fail_dependents.simps [simp del]

definition mark_failed ::
  "'m lease_api option \<Rightarrow> rat \<Rightarrow> string \<Rightarrow> string \<Rightarrow> bool \<Rightarrow> ('m queue, bool) sx" where
  "mark_failed api now tid err retryable = when_known tid False
     (andthen (modify (drop_running tid))
     (andthen (release_resources api tid)
     (andthen (modify (upd_task tid (\<lambda>k. k\<lparr>retry_count := retry_count k + 1\<rparr>)))
     (bnd (the_task tid) (\<lambda>k.
       if retryable \<and> retry_count k \<le> max_retries k
       then
         andthen (move tid FAILED err)
         (andthen (sync_task api tid)
         (andthen (move tid RETRYING (''Attempt '' @ str_of_int (retry_count k) @ ''/''
             @ str_of_int (max_retries k)))
         (andthen (sync_task api tid)
         (andthen (move tid QUEUED ''Re-queued for retry'')
         (andthen (sync_task api tid)
         (andthen (modify (push_ready tid))
         (andthen sort_ready (ret True))))))))
       else
         andthen (move tid FAILED (''Max retries exceeded: '' @ err))
         (andthen (sync_task api tid)
         (andthen (modify (push_dlq tid err now))
         (andthen (modify (add_failed tid))
         (andthen (fail_dependents api now tid (''dependency '' @ tid @ '' failed permanently''))
           (ret False)))))
     )))))"

definition mark_escalated ::
  "'m lease_api option \<Rightarrow> rat \<Rightarrow> string \<Rightarrow> string \<Rightarrow> ('m queue, unit) sx" where
  "mark_escalated api now tid reason = when_known tid ()
     (andthen (modify (drop_running tid))
     (andthen (release_resources api tid)
     (andthen (modify (\<lambda>q. drop_blocked tid (q\<lparr>q_ready := remove1 tid (q_ready q)\<rparr>)))
     (andthen
        (catch (move tid ESCALATED reason)
          (\<lambda>e. if e = InvalidTransition
             then andthen (move tid FAILED (''escalating: '' @ reason)) (move tid ESCALATED reason)
             else throw e))
        (andthen (fail_dependents api now tid (''dependency '' @ tid @ '' escalated'')) (ret ()))))))"

definition mark_cancelled ::
  "'m lease_api option \<Rightarrow> rat \<Rightarrow> string \<Rightarrow> string \<Rightarrow> ('m queue, bool) sx" where
  "mark_cancelled api now tid reason q = (case dget (q_all q) tid of
      None \<Rightarrow> (Inr False, q)
    | Some k \<Rightarrow>
        if status k = COMPLETED \<or> status k = CANCELLED then (Inr False, q)
        else
          (andthen (modify (drop_running tid))
          (andthen (release_resources api tid)
          (andthen (modify (\<lambda>q. drop_blocked tid (q\<lparr>q_ready := remove1 tid (q_ready q)\<rparr>)))
          (andthen (move tid CANCELLED reason)
          (andthen (modify (\<lambda>q. q\<lparr>q_cancelled := ladd tid (q_cancelled q)\<rparr>))
          (andthen (fail_dependents api now tid (''dependency '' @ tid @ '' cancelled''))
            (ret True))))))) q)"

fun cancel_each ::
  "'m lease_api option \<Rightarrow> rat \<Rightarrow> string \<Rightarrow> string list \<Rightarrow> nat \<Rightarrow> ('m queue, nat) sx" where
  "cancel_each api now reason [] n = ret n"
| "cancel_each api now reason (i # is) n =
     bnd (mark_cancelled api now i reason)
       (\<lambda>done. cancel_each api now reason is (if done then Suc n else n))"

definition live_status :: "task_status \<Rightarrow> bool" where
  "live_status s \<longleftrightarrow> s \<noteq> COMPLETED \<and> s \<noteq> CANCELLED \<and> s \<noteq> FAILED \<and> s \<noteq> ESCALATED"

definition cancel_all :: "'m lease_api option \<Rightarrow> rat \<Rightarrow> string \<Rightarrow> ('m queue, nat) sx" where
  "cancel_all api now reason =
     bnd (gets (\<lambda>q. map fst (filter (\<lambda>(i, k). live_status (status k)) (q_all q))))
       (\<lambda>ids. cancel_each api now reason ids 0)"

section \<open>Blocked tasks nothing can unblock\<close>

definition dep_unfulfillable :: "(string, task) dict \<Rightarrow> string \<Rightarrow> bool" where
  "dep_unfulfillable all d = (case dget all d of None \<Rightarrow> True | Some k \<Rightarrow> dead_status (status k))"

fun unfulfillable_loop ::
  "'m lease_api option \<Rightarrow> rat \<Rightarrow> (string \<times> string list) list \<Rightarrow> ('m queue, string list) sx" where
  "unfulfillable_loop api now [] q = (Inr [], q)"
| "unfulfillable_loop api now ((b, deps) # bs) q =
     (if \<forall>d \<in> set deps. dep_unfulfillable (q_all q) d
      then bnd (fail_dependents api now b ''unfulfillable dependencies'') (\<lambda>ids.
        bnd (\<lambda>q. if dget (q_blocked q) b = None then (Inr [], q)
           else case dget (q_all q) b of
             None \<Rightarrow> (Inr [], drop_blocked b q)
           | Some k \<Rightarrow> andthen (sync_task api b) (ret [b])
               (add_failed b (force_failed b ''unfulfillable dependencies'' (drop_blocked b q))))
        (\<lambda>forced. bnd (unfulfillable_loop api now bs) (\<lambda>rest. ret (ids @ forced @ rest)))) q
      else unfulfillable_loop api now bs q)"

definition fail_unfulfillable_blocked :: "'m lease_api option \<Rightarrow> rat \<Rightarrow> ('m queue, string list) sx" where
  "fail_unfulfillable_blocked api now q = unfulfillable_loop api now (q_blocked q) q"

section \<open>Crash recovery\<close>

text \<open>
  Work that was under way when the process died: with an external or exclusive scope, or
  after an uncertain timeout, its effects may have happened, so it is escalated and never
  queued again; the rest is queued again. The dependency indexes are then rebuilt.
\<close>

definition in_progress :: "task_status \<Rightarrow> bool" where
  "in_progress s \<longleftrightarrow> s \<in> {RUNNING, VALIDATING, REPAIRING, QUALITY_GATE, MASTER_REVIEW,
     READY_FOR_MASTER, RETRYING}"

definition may_have_effects :: "task \<Rightarrow> bool" where
  "may_have_effects k \<longleftrightarrow>
     m_timeout_uncertain (meta k) \<or> scope_of k = ''EXTERNAL'' \<or> scope_of k = ''EXCLUSIVE''"

definition recover_task :: "task \<Rightarrow> task" where
  "recover_task k =
     (if in_progress (status k)
      then (if may_have_effects k
        then log_move (status k) ESCALATED ''crash recovery requires explicit reconciliation''
          (k\<lparr>status := ESCALATED, meta := (meta k)\<lparr>m_recovery :=
             Some ''prior execution may have produced nonlocal effects''\<rparr>\<rparr>)
        else log_move (status k) QUEUED ''recovered after restart with stable idempotency key''
          (k\<lparr>status := QUEUED\<rparr>))
      else k)"

definition recover_indexed :: "'m queue \<Rightarrow> 'm queue" where
  "recover_indexed q =
     (let old = q_all q;
          gone = map fst (filter (\<lambda>(i, k). in_progress (status k)) old);
          esc = map fst (filter (\<lambda>(i, k). in_progress (status k) \<and> may_have_effects k) old)
      in q\<lparr>q_holders := [], q_locks := [], q_leases := [],
           q_all := map (\<lambda>(i, k). (i, recover_task k)) old,
           q_running := filter (\<lambda>i. i \<notin> set gone) (q_running q),
           q_failed := fold ladd esc (q_failed q)\<rparr>)"

definition requeue_step :: "string \<times> task \<Rightarrow> 'm queue \<Rightarrow> 'm queue" where
  "requeue_step = (\<lambda>(i, k) q.
     if status k = QUEUED \<or> status k = PENDING
     then (let missing = unfulfilled k q in
        if missing \<noteq> []
        then upd_task i (\<lambda>t. t\<lparr>status := PENDING\<rparr>) (q\<lparr>q_blocked := dset i missing (q_blocked q)\<rparr>)
        else push_ready i (upd_task i (\<lambda>t. t\<lparr>status := QUEUED\<rparr>) q))
     else q)"

definition recover_incomplete_tasks :: "('m queue, string list) sx" where
  "recover_incomplete_tasks q =
     (let recovered = map fst (filter (\<lambda>(i, k). in_progress (status k) \<and> \<not> may_have_effects k)
            (q_all q));
          q1 = (recover_indexed q)\<lparr>q_ready := [], q_blocked := []\<rparr>;
          q2 = fold requeue_step (q_all q1) q1
      in andthen sort_ready (ret recovered) q2)"

definition restore_index :: "task \<Rightarrow> 'm queue \<Rightarrow> 'm queue" where
  "restore_index k q =
     (let i = t_id k; ready = (if i \<in> set (q_ready q) then q else push_ready i q) in
      if status k = COMPLETED then q\<lparr>q_done := ladd i (q_done q)\<rparr>
      else if status k = CANCELLED then q\<lparr>q_cancelled := ladd i (q_cancelled q)\<rparr>
      else if status k = FAILED \<or> status k = ESCALATED then add_failed i q
      else if status k = QUEUED \<or> status k = RETRYING then ready
      else if status k = PENDING
        then (if unfulfilled k q \<noteq> [] then q\<lparr>q_blocked := dset i (unfulfilled k q) (q_blocked q)\<rparr>
              else ready)
      else if status k \<in> {RUNNING, VALIDATING, REPAIRING, QUALITY_GATE, MASTER_REVIEW, READY_FOR_MASTER}
        then q\<lparr>q_running := ladd i (q_running q)\<rparr>
      else q)"

definition restore_task :: "task \<Rightarrow> ('m queue, unit) sx" where
  "restore_task k q = (case existing_for_replay k q of
      Inl e \<Rightarrow> (Inl e, q)
    | Inr (Some e) \<Rightarrow> (Inr (), q)
    | Inr None \<Rightarrow>
        (case dget (q_idem q) (idem_key k) of
           Some i \<Rightarrow> if i \<noteq> t_id k then (Inl (ValueError ''idempotency key collides''), q)
             else if dget (q_all q) (t_id k) \<noteq> None then (Inl (ValueError ''task id collides''), q)
             else sort_ready (restore_index k (index_task k q))
         | None \<Rightarrow>
             if dget (q_all q) (t_id k) \<noteq> None then (Inl (ValueError ''task id collides''), q)
             else sort_ready (restore_index k (index_task k q))))"

section \<open>Reporting\<close>

definition has_pending_work :: "'m queue \<Rightarrow> bool" where
  "has_pending_work q \<longleftrightarrow> q_ready q \<noteq> [] \<or> q_running q \<noteq> [] \<or> q_blocked q \<noteq> []"

definition escalated_count :: "'m queue \<Rightarrow> nat" where
  "escalated_count q = length (filter (\<lambda>(i, k). status k = ESCALATED) (q_all q))"

text \<open>The first dead letter of a task wins, then the reason of its last transition.\<close>

definition dlq_errors :: "dead_letter list \<Rightarrow> (string, string) dict" where
  "dlq_errors ds = fold (\<lambda>d m. if dl_task_id d \<noteq> [] \<and> dget m (dl_task_id d) = None
      then dset (dl_task_id d) (dl_error d) m else m) ds []"

definition last_reason :: "task \<Rightarrow> string" where
  "last_reason k = (if m_history (meta k) = [] then []
     else (case last (m_history (meta k)) of (a, b, r) \<Rightarrow> if r \<noteq> [] then r else status_name b))"

definition task_error_map :: "'m queue \<Rightarrow> (string, string) dict" where
  "task_error_map q =
     (let dlq = dlq_errors (q_dlq q) in
      map (\<lambda>(i, k).
          let r = (case dget dlq i of Some e \<Rightarrow> e | None \<Rightarrow> []);
              r' = (if r = [] then last_reason k else r)
          in (i, if r' = [] then status_name (status k) else r'))
        (filter (\<lambda>(i, k). dead_status (status k)) (q_all q)))"

end
