(* ===== verification/Lease_Manager.thy ===== *)
theory Lease_Manager
  imports Task_Dict Task_Queue
begin

text \<open>
  The durable resource lease manager (\<open>orchestrator/durable_resources.py\<close>): the queue's locks
  as fenced leases of the durable runtime, under keys that two processes on one workspace
  share, and the queue's tasks as rows of the task ledger. SHA-256 (in hexadecimal) and the
  resolved workspace path are parameters; \<open>clk n\<close> is the clock at the \<open>n\<close>-th call of the
  durable runtime a method makes.
\<close>

section \<open>The manager\<close>

record lease_manager =
  lm_digest :: "string \<Rightarrow> string"
  lm_workspace :: string
  lm_owner :: string
  lm_run :: string

text \<open>The two services it calls.\<close>

record services =
  sv_db :: db
  sv_ledger :: "task_meta ledger"

definition on_db :: "(db, 'a) sx \<Rightarrow> (services, 'a) sx" where
  "on_db m s = (case m (sv_db s) of (r, d) \<Rightarrow> (r, s\<lparr>sv_db := d\<rparr>))"

definition on_ledger :: "(task_meta ledger, 'a) sx \<Rightarrow> (services, 'a) sx" where
  "on_ledger m s = (case m (sv_ledger s) of (r, l) \<Rightarrow> (r, s\<lparr>sv_ledger := l\<rparr>))"

definition workspace_key :: "(string \<Rightarrow> string) \<Rightarrow> string \<Rightarrow> string" where
  "workspace_key digest ws = take 24 (digest ws)"

definition new_manager ::
  "(string \<Rightarrow> string) \<Rightarrow> rat \<Rightarrow> string \<Rightarrow> string \<Rightarrow> string \<Rightarrow> string option \<Rightarrow> (services, lease_manager) sx" where
  "new_manager digest now gen ws logical owner =
     (let o1 = or_else owner (''oma:'' @ workspace_key digest ws);
          stable = take 32 (digest (ws @ [CHR 0x00] @ logical)) in
      bnd (on_db (create_run now gen o1 (Some ws) None (Some (''oma-resource-run:'' @ stable)) [] [] ''RUNNING''))
        (\<lambda>(r, replayed). ret \<lparr>lm_digest = digest, lm_workspace = ws, lm_owner = o1, lm_run = ru_id r\<rparr>))"

section \<open>Keys, operations and times\<close>

text \<open>The part of the resource name before its first colon.\<close>

definition resource_prefix :: "string \<Rightarrow> string" where
  "resource_prefix logical = (if CHR '':'' \<in> set logical then take 24 (takeWhile (\<lambda>c. c \<noteq> CHR '':'') logical)
     else ''resource'')"

definition resource_key :: "lease_manager \<Rightarrow> string \<Rightarrow> string" where
  "resource_key m r =
     (let logical = py_lower (replace_char (CHR 0x5C) (CHR ''/'') (py_strip r)) in
      ''oma:'' @ workspace_key (lm_digest m) (lm_workspace m) @ '':'' @ resource_prefix logical
        @ '':'' @ take 32 (lm_digest m logical))"

definition operation_id :: "lease_manager \<Rightarrow> task \<Rightarrow> string" where
  "operation_id m k = ''oma-task-'' @ take 32 (lm_digest m (t_run k @ [CHR 0x00] @ t_id k))"

text \<open>\<open>x or default\<close> on a number.\<close>

definition or_num :: "rat \<Rightarrow> rat \<Rightarrow> rat" where
  "or_num x z = (if x = 0 then z else x)"

definition ttl_for :: "task \<Rightarrow> rat" where
  "ttl_for k = min 3600 (max 60 (or_num (timeout_s k) 900 + or_num (heartbeat_s k) 120 + 30))"

section \<open>Leases\<close>

definition named :: "string list \<Rightarrow> string list" where
  "named res = sort (remdups (filter (\<lambda>r. r \<noteq> []) res))"

definition lease_ref_of :: "string \<Rightarrow> lease_row \<Rightarrow> lease_ref" where
  "lease_ref_of r l = \<lparr>lr_logical = r, lr_key = le_key l, lr_token = le_token l, lr_until = le_until l\<rparr>"

text \<open>The leases acquired before the loop ended, and the exception that ended it, if any.\<close>

fun acquire_each ::
  "lease_manager \<Rightarrow> (nat \<Rightarrow> rat) \<Rightarrow> string \<Rightarrow> rat \<Rightarrow> lease_ref list \<Rightarrow> string list \<Rightarrow>
     (db, lease_ref list \<times> exn option) sx" where
  "acquire_each m clk opid ttl got [] d = (Inr (got, None), d)"
| "acquire_each m clk opid ttl got (r # rs) d =
     (case acquire_lease (clk (length got)) (lm_run m) (lm_owner m) (resource_key m r) (Some opid) ttl d of
        (Inl e, d') \<Rightarrow> (Inr (got, Some e), d')
      | (Inr (l, replayed), d') \<Rightarrow> acquire_each m clk opid ttl (got @ [lease_ref_of r l]) rs d')"

definition release_one :: "lease_manager \<Rightarrow> rat \<Rightarrow> lease_ref \<Rightarrow> (db, unit) sx" where
  "release_one m now x =
     catch (andthen (release_lease now (lr_key x) (lm_owner m) (lr_token x)) (ret ())) (\<lambda>e. ret ())"

definition release_all :: "lease_manager \<Rightarrow> rat \<Rightarrow> lease_ref list \<Rightarrow> (db, unit) sx" where
  "release_all m now ls = foreach (rev ls) (release_one m now)"

fun is_conflict :: "exn \<Rightarrow> bool" where
  "is_conflict (StateConflict w) = True"
| "is_conflict _ = False"

definition acquire ::
  "lease_manager \<Rightarrow> (nat \<Rightarrow> rat) \<Rightarrow> task \<Rightarrow> string list \<Rightarrow> (db, lease_ref list option) sx" where
  "acquire m clk k res =
     bnd (acquire_each m clk (operation_id m k) (ttl_for k) [] (named res)) (\<lambda>(got, err). case err of
        None \<Rightarrow> ret (Some got)
      | Some e \<Rightarrow> andthen (release_all m (clk (Suc (length got))) got)
          (if is_conflict e then ret None else throw e))"

fun renew_each :: "lease_manager \<Rightarrow> (nat \<Rightarrow> rat) \<Rightarrow> rat \<Rightarrow> lease_ref list \<Rightarrow> lease_ref list \<Rightarrow> (db, lease_ref list) sx" where
  "renew_each m clk ttl new [] = ret new"
| "renew_each m clk ttl new (x # xs) =
     bnd (renew_lease (clk (length new)) (lr_key x) (lm_owner m) (lr_token x) ttl) (\<lambda>until.
       renew_each m clk ttl (new @ [x\<lparr>lr_until := until\<rparr>]) xs)"

definition renew :: "lease_manager \<Rightarrow> (nat \<Rightarrow> rat) \<Rightarrow> lease_ref list \<Rightarrow> task \<Rightarrow> (db, lease_ref list) sx" where
  "renew m clk ls k = renew_each m clk (ttl_for k) [] ls"

section \<open>Tasks\<close>

definition manager_sync :: "lease_manager \<Rightarrow> rat \<Rightarrow> task \<Rightarrow> bool \<Rightarrow> (services, task_meta ledger_row) sx" where
  "manager_sync m now k recovery = on_ledger (sync now (lm_run m) (lm_owner m) (ledger_payload (to_dict k)) recovery)"

definition manager_task_info :: "lease_manager \<Rightarrow> string \<Rightarrow> (services, task_meta ledger_row) sx" where
  "manager_task_info m tid = on_ledger (task_info (lm_run m) (lm_owner m) tid)"

definition manager_list_tasks :: "lease_manager \<Rightarrow> string list option \<Rightarrow> (services, task_meta ledger_row list) sx" where
  "manager_list_tasks m states = on_ledger (list_tasks (lm_run m) (lm_owner m) states)"

section \<open>Admission after an incident\<close>

record incident_answer =
  ia_incident :: string
  ia_state :: "string option"
  ia_may_acquire :: bool
  ia_resources :: nat

text \<open>The other entries of the answer are the constants \<open>False\<close> and \<open>0\<close>: nothing is done.\<close>

definition admit_after_incident ::
  "task \<Rightarrow> string list \<Rightarrow> string \<Rightarrow> string option \<Rightarrow> exn + incident_answer" where
  "admit_after_incident k res incident given =
     (if incident \<notin> {''crash'', ''canvas_closed'', ''relay_down'', ''reboot''}
      then Inl (ValueError ''incident'')
      else let st = (case given of Some s \<Rightarrow> Some s | None \<Rightarrow> m_effect_state (meta k));
               unstarted = st \<in> {None, Some [], Some ''NOT_STARTED'', Some ''ABSENT''} \<and> \<not> m_may_have_started (meta k);
               settled = st \<in> {Some ''SUCCEEDED'', Some ''FAILED'', Some ''CANCELLED''}
           in Inr \<lparr>ia_incident = incident, ia_state = st, ia_may_acquire = (unstarted \<and> \<not> settled),
                ia_resources = length (named res)\<rparr>)"

section \<open>The queue's lease interface\<close>

definition manager_api :: "lease_manager \<Rightarrow> (nat \<Rightarrow> rat) \<Rightarrow> services lease_api" where
  "manager_api m clk = \<lparr>la_acquire = (\<lambda>k res. on_db (acquire m clk k res)),
     la_release = (\<lambda>ls. on_db (release_all m (clk 0) ls)),
     la_sync = Some (\<lambda>k recovery. andthen (manager_sync m (clk 0) k recovery) (ret ()))\<rparr>"

end
