(* ===== verification/Durable_Records.thy ===== *)
theory Durable_Records
  imports Durable_Operations
begin

text \<open>
  Resources, artifacts, checkpoints and the read side of the durable runtime: pages of the
  event log, lists of runs and operations, the full view of a run. Where SQLite leaves the
  order of equal keys open the model keeps insertion order.
\<close>

section \<open>Resources, artifacts, checkpoints\<close>

definition op_in_run :: "string option \<Rightarrow> string \<Rightarrow> string \<Rightarrow> (db, unit) sx" where
  "op_in_run opid rid owner =
     (if filled opid
      then bnd (fetch_operation_row (the opid) (Some owner)) (\<lambda>r.
          require (op_run r = rid) (ValueError ''operation belongs to another run''))
      else ret ())"

definition attach_resource ::
  "rat \<Rightarrow> string \<Rightarrow> string \<Rightarrow> string \<Rightarrow> string \<Rightarrow> string \<Rightarrow> string option \<Rightarrow> jobj \<Rightarrow> (db, resource_row) sx" where
  "attach_resource now rid owner typ resource_id st opid md =
     bnd (lift_sum (validate_id ''resource_id'' resource_id)) (\<lambda>i.
     andthen (require (typ \<noteq> [] \<and> length typ \<le> 80) (ValueError ''resource_type''))
     (andthen (fetch_run_row rid (Some owner))
     (andthen (op_in_run opid rid owner)
     (let new = \<lparr>rs_id = i, rs_run = rid, rs_op = opid, rs_owner = owner, rs_type = typ,
            rs_state = st, rs_meta = md, rs_updated = now\<rparr> in
      andthen (modify (\<lambda>d. d\<lparr>tb_resources := (case dget (tb_resources d) i of
            None \<Rightarrow> dset i new (tb_resources d)
          | Some r \<Rightarrow> dset i (r\<lparr>rs_state := st, rs_meta := md, rs_updated := now\<rparr>) (tb_resources d))\<rparr>))
      (andthen (append_event now rid ''RESOURCE_OBSERVED'' opid (Some st)
          [(''resource_id'', JStr i), (''resource_type'', JStr typ), (''metadata'', JObj md)])
      (ret new))))))"

text \<open>
  The file's path, digest, size and guessed type are arguments: reading it is not modelled.
\<close>

definition register_artifact ::
  "rat \<Rightarrow> string \<Rightarrow> string \<Rightarrow> string \<Rightarrow> string \<Rightarrow> string \<Rightarrow> int \<Rightarrow> string \<Rightarrow> string option \<Rightarrow>
     string option \<Rightarrow> string option \<Rightarrow> jobj \<Rightarrow> (db, artifact_row \<times> bool) sx" where
  "register_artifact now gen rid owner path sha bytes mime opid aid expected md =
     andthen (require (case expected of None \<Rightarrow> True | Some x \<Rightarrow> sha = x) (ValueError ''artifact content''))
     (bnd (if filled aid then lift_sum (validate_id ''artifact_id'' (the aid)) else ret gen) (\<lambda>i.
     andthen (fetch_run_row rid (Some owner))
     (andthen (op_in_run opid rid owner)
     (bnd (gets (\<lambda>d. dget (tb_artifacts d) i)) (\<lambda>old. case old of
        Some r \<Rightarrow>
          if af_run r \<noteq> rid \<or> af_op r \<noteq> opid \<or> af_owner r \<noteq> owner \<or> af_path r \<noteq> path \<or> af_mime r \<noteq> mime
              \<or> af_sha r \<noteq> sha \<or> af_size r \<noteq> bytes \<or> \<not> obj_eq (af_meta r) md
          then throw (ValueError ''artifact identity collision'') else ret (r, True)
      | None \<Rightarrow>
          let new = \<lparr>af_id = i, af_run = rid, af_op = opid, af_owner = owner, af_path = path,
               af_mime = mime, af_sha = sha, af_size = bytes, af_meta = md, af_created = now\<rparr> in
          andthen (modify (\<lambda>d. d\<lparr>tb_artifacts := dset i new (tb_artifacts d)\<rparr>))
          (andthen (append_event now rid ''ARTIFACT_WRITTEN'' opid None
              [(''artifact_id'', JStr i), (''path'', JStr path), (''mime_type'', JStr mime),
               (''sha256'', JStr sha), (''size_bytes'', JNum (of_int bytes))])
          (ret (new, False))))))))"

definition artifact_info :: "string \<Rightarrow> string option \<Rightarrow> (db, artifact_row) sx" where
  "artifact_info = lookup ''artifact'' tb_artifacts af_owner"

text \<open>\<open>file\<close> is the current digest of the file, when it is there.\<close>

definition read_artifact :: "string \<Rightarrow> int \<Rightarrow> string option \<Rightarrow> (db, bool) sx" where
  "read_artifact aid max_bytes file =
     bnd (artifact_info aid None) (\<lambda>r.
     andthen (require (af_size r \<le> max_bytes) (ValueError ''artifact exceeds configured read limit''))
     (case file of
        None \<Rightarrow> throw (FileNotFound ''artifact file'')
      | Some sha \<Rightarrow> if sha \<noteq> af_sha r then throw IntegrityError else ret True))"

definition checkpoint ::
  "(jobj \<Rightarrow> nat) \<Rightarrow> rat \<Rightarrow> string \<Rightarrow> string \<Rightarrow> jobj \<Rightarrow> string \<Rightarrow> (db, event) sx" where
  "checkpoint size_of now rid owner data label =
     andthen (require (size_of data \<le> 2 * 1024 * 1024) (ValueError ''checkpoint exceeds 2 MiB''))
     (andthen (fetch_run_row rid (Some owner))
     (append_event now rid ''CHECKPOINT'' None None [(''label'', JStr label), (''data'', JObj data)]))"

section \<open>Pages\<close>

record 'a page =
  pg_items :: "'a list"
  pg_total :: nat
  pg_next :: "nat option"

definition page_of :: "nat \<Rightarrow> nat \<Rightarrow> 'a list \<Rightarrow> 'a page" where
  "page_of offset limit xs =
     (let items = take limit (drop offset xs); next_offset = offset + length items in
      \<lparr>pg_items = items, pg_total = length xs,
        pg_next = (if next_offset < length xs then Some next_offset else None)\<rparr>)"

definition page_ok :: "int \<Rightarrow> int \<Rightarrow> bool" where
  "page_ok offset limit \<longleftrightarrow> 0 \<le> offset \<and> 1 \<le> limit \<and> limit \<le> 1000"

definition run_events :: "string \<Rightarrow> db \<Rightarrow> event list" where
  "run_events rid d = filter (\<lambda>e. ev_run e = rid) (tb_events d)"

definition events_page :: "string \<Rightarrow> string \<Rightarrow> int \<Rightarrow> int \<Rightarrow> (db, event page) sx" where
  "events_page rid owner offset limit =
     andthen (require (page_ok offset limit) (ValueError ''event page''))
     (andthen (fetch_run_row rid (Some owner))
     (gets (\<lambda>d. page_of (nat offset) (nat limit) (sort_key ev_seq (run_events rid d)))))"

record cursor =
  cu_items :: "event list"
  cu_next :: int
  cu_last :: int
  cu_caught_up :: bool

definition events_after :: "string \<Rightarrow> string \<Rightarrow> int \<Rightarrow> int \<Rightarrow> (db, cursor) sx" where
  "events_after rid owner after limit =
     andthen (require (page_ok after limit) (ValueError ''event cursor''))
     (bnd (fetch_run_row rid (Some owner)) (\<lambda>r.
       gets (\<lambda>d.
         let items = take (nat limit) (sort_key ev_seq (filter (\<lambda>e. ev_seq e > after) (run_events rid d)));
             nxt = (if items = [] then after else ev_seq (last items))
         in \<lparr>cu_items = items, cu_next = nxt, cu_last = ru_seq r, cu_caught_up = ru_seq r \<le> nxt\<rparr>)))"

definition list_runs :: "string \<Rightarrow> int \<Rightarrow> int \<Rightarrow> (db, run_row page) sx" where
  "list_runs owner offset limit =
     andthen (require (page_ok offset limit) (ValueError ''run page''))
     (gets (\<lambda>d. page_of (nat offset) (nat limit)
        (sort_key (\<lambda>r. - ru_updated r) (filter (\<lambda>r. ru_owner r = owner) (rows (tb_runs d))))))"

definition count_states :: "op_row list \<Rightarrow> (string, nat) dict" where
  "count_states rs = map (\<lambda>s. (s, length (filter (\<lambda>r. op_state r = s) rs))) (remdups (map op_state rs))"

definition list_operations ::
  "string \<Rightarrow> string \<Rightarrow> int \<Rightarrow> int \<Rightarrow> string list option \<Rightarrow> (db, op_row page \<times> (string, nat) dict) sx" where
  "list_operations rid owner offset limit states =
     andthen (require (page_ok offset limit) (ValueError ''operation page''))
     (andthen (require (case states of None \<Rightarrow> True
         | Some ss \<Rightarrow> ss \<noteq> [] \<and> set ss \<subseteq> set operation_states) (ValueError ''operation states''))
     (andthen (fetch_run_row rid (Some owner))
     (gets (\<lambda>d. let rs = filter (\<lambda>r. op_run r = rid) (rows (tb_ops d)) in
        (page_of (nat offset) (nat limit) (sort_key (\<lambda>r. (- op_updated r, op_id r))
            (filter (\<lambda>r. case states of None \<Rightarrow> True | Some ss \<Rightarrow> op_state r \<in> set ss) rs)),
         count_states rs)))))"

section \<open>The view of a run\<close>

record run_view =
  vw_run :: run_row
  vw_terminal :: bool
  vw_goals :: "goal_row list"
  vw_agents :: "agent_row list"
  vw_chats :: "chat_row list"
  vw_ops :: "op_row list"
  vw_resources :: "resource_row list"
  vw_processes :: "resource_row list"
  vw_artifacts :: "artifact_row list"
  vw_leases :: "lease_row list"

text \<open>Agents of the run, then the archived identities that have left it.\<close>

definition view_agents :: "run_row \<Rightarrow> db \<Rightarrow> agent_row list" where
  "view_agents r d =
     (let cur = sort_key ag_created (filter (\<lambda>a. ag_run a = ru_id r) (rows (tb_agents d)));
          arch = map (\<lambda>(k, a, t). a) (sort_key (\<lambda>(k, a, t). snd (snd k))
            (filter (\<lambda>(k, a, t). fst k = ru_owner r \<and> fst (snd k) = ru_id r) (tb_members d)))
      in cur @ filter (\<lambda>a. ag_id a \<notin> set (map ag_id cur)) arch)"

definition run_info :: "run_row \<Rightarrow> db \<Rightarrow> run_view" where
  "run_info r d =
     (let res = sort_key rs_updated (filter (\<lambda>x. rs_run x = ru_id r) (rows (tb_resources d))) in
      \<lparr>vw_run = r, vw_terminal = (ru_state r \<in> set terminal_states),
       vw_goals = sort_key (\<lambda>g. (go_created g, go_id g)) (filter (\<lambda>g. go_run g = ru_id r) (rows (tb_goals d))),
       vw_agents = view_agents r d,
       vw_chats = sort_key ch_created (filter (\<lambda>c. ch_run c = ru_id r) (rows (tb_chats d))),
       vw_ops = sort_key op_started (filter (\<lambda>x. op_run x = ru_id r) (rows (tb_ops d))),
       vw_resources = res, vw_processes = filter (\<lambda>x. rs_type x = ''process'') res,
       vw_artifacts = sort_key af_created (filter (\<lambda>x. af_run x = ru_id r) (rows (tb_artifacts d))),
       vw_leases = sort_key le_updated (filter (\<lambda>x. le_run x = ru_id r) (rows (tb_leases d)))\<rparr>)"

definition run_status :: "string \<Rightarrow> string \<Rightarrow> (db, run_view) sx" where
  "run_status rid owner = bnd (fetch_run_row rid (Some owner)) (\<lambda>r. gets (run_info r))"

text \<open>\<open>resume\<close> adds whether the run may go on.\<close>

definition resume_run :: "string \<Rightarrow> string \<Rightarrow> (db, run_view \<times> bool) sx" where
  "resume_run rid owner = bnd (fetch_run_row rid (Some owner)) (\<lambda>r.
     gets (\<lambda>d. (run_info r d, ru_state r \<notin> set terminal_states)))"

end
