(* ===== verification/Durable_Reconcile.thy ===== *)
theory Durable_Reconcile
  imports Durable_Records
begin

text \<open>
  Reconciliation of a run after a crash or a silent worker: an operation whose heartbeat is
  stale and for which no evidence of life exists becomes UNCERTAIN and nothing is ever
  replayed. The operating system's answer to whether a process exists is a parameter.
\<close>

section \<open>Evidence of life\<close>

definition alive_states :: "string list" where
  "alive_states = [''RUNNING'', ''READY'', ''CONNECTED'', ''PRODUCT_READY'']"

text \<open>
  \<open>int\<close> of a text: blanks around it, an optional sign, digits with single underscores
  between them.
\<close>

definition decimal_char :: "char \<Rightarrow> bool" where
  "decimal_char c \<longleftrightarrow> 48 \<le> ccode c \<and> ccode c \<le> 57"

fun decimal_value :: "int \<Rightarrow> string \<Rightarrow> int option" where
  "decimal_value n [] = Some n"
| "decimal_value n (c # cs) =
     (if decimal_char c then decimal_value (10 * n + (int (ccode c) - 48)) cs
      else if c = CHR ''_'' \<and> cs \<noteq> [] \<and> decimal_char (hd cs) then decimal_value n cs
      else None)"

definition unsigned_value :: "string \<Rightarrow> int option" where
  "unsigned_value s = (if s \<noteq> [] \<and> decimal_char (hd s) then decimal_value 0 s else None)"

definition text_value :: "string \<Rightarrow> int option" where
  "text_value s = (case py_strip s of
       [] \<Rightarrow> None
     | c # cs \<Rightarrow> if c = CHR ''-'' then map_option uminus (unsigned_value cs)
         else if c = CHR ''+'' then unsigned_value cs else unsigned_value (c # cs))"

text \<open>
  \<open>int(metadata.get('pid') or 0)\<close>: the whole part of a number, the number a text denotes, 1 for
  true; where the code returns early with a value it cannot read, this gives no process (0).
\<close>

definition pid_of :: "jobj \<Rightarrow> int" where
  "pid_of md = (case dget md ''pid'' of
       Some (JNum n) \<Rightarrow> (if n < 0 then - floor (- n) else floor n)
     | Some (JStr s) \<Rightarrow> (case text_value s of None \<Rightarrow> 0 | Some n \<Rightarrow> n)
     | Some (JBool b) \<Rightarrow> (if b then 1 else 0)
     | _ \<Rightarrow> 0)"

definition pid_exists :: "(int \<Rightarrow> bool) \<Rightarrow> int \<Rightarrow> bool" where
  "pid_exists os pid \<longleftrightarrow> pid > 0 \<and> os pid"

definition resource_alive :: "(int \<Rightarrow> bool) \<Rightarrow> rat \<Rightarrow> rat \<Rightarrow> resource_row \<Rightarrow> bool" where
  "resource_alive os now stale r =
     (if py_upper (rs_state r) \<notin> set alive_states then False
      else if py_lower (rs_type r) = ''process'' then pid_exists os (pid_of (rs_meta r))
      else now - rs_updated r \<le> stale)"

text \<open>The identifier an operation's progress names, when it is a text.\<close>

definition linked :: "string \<Rightarrow> op_row \<Rightarrow> string option" where
  "linked field r = (case dget (op_progress r) field of
      Some (JStr s) \<Rightarrow> (if s = [] then None else Some s) | _ \<Rightarrow> None)"

text \<open>The rows \<open>reconcile\<close> read before it changed anything.\<close>

definition linked_agent :: "agent_row list \<Rightarrow> op_row \<Rightarrow> agent_row option" where
  "linked_agent ags r = (case linked ''agent_id'' r of None \<Rightarrow> None | Some i \<Rightarrow> find (\<lambda>a. ag_id a = i) ags)"

definition linked_chat :: "chat_row list \<Rightarrow> op_row \<Rightarrow> chat_row option" where
  "linked_chat chs r = (case linked ''chat_id'' r of None \<Rightarrow> None | Some i \<Rightarrow> find (\<lambda>c. ch_id c = i) chs)"

definition agent_fresh :: "rat \<Rightarrow> rat \<Rightarrow> agent_row option \<Rightarrow> bool" where
  "agent_fresh now stale a = (case a of None \<Rightarrow> False
     | Some x \<Rightarrow> now - ag_heartbeat x \<le> stale \<and> ag_state x \<in> {''ACTIVE'', ''WAITING'', ''RECOVERING''})"

definition chat_fresh :: "rat \<Rightarrow> rat \<Rightarrow> chat_row option \<Rightarrow> bool" where
  "chat_fresh now stale c = (case c of None \<Rightarrow> False
     | Some x \<Rightarrow> now - ch_heartbeat x \<le> stale \<and> ch_state x \<noteq> ''DISCONNECTED'')"

definition op_resources :: "string \<Rightarrow> db \<Rightarrow> resource_row list" where
  "op_resources oid d = filter (\<lambda>r. rs_op r = Some oid) (rows (tb_resources d))"

definition recent_artifact :: "string \<Rightarrow> rat \<Rightarrow> db \<Rightarrow> bool" where
  "recent_artifact oid since d \<longleftrightarrow> (\<exists>a \<in> set (rows (tb_artifacts d)). af_op a = Some oid \<and> af_created a \<ge> since)"

definition fresh_lease :: "string \<Rightarrow> rat \<Rightarrow> rat \<Rightarrow> db \<Rightarrow> bool" where
  "fresh_lease oid now since d \<longleftrightarrow> (\<exists>l \<in> set (rows (tb_leases d)). le_op l = Some oid \<and> le_until l > now
     \<and> le_updated l \<ge> since)"

text \<open>The kinds of evidence found, in the order they are reported.\<close>

definition evidence ::
  "(int \<Rightarrow> bool) \<Rightarrow> rat \<Rightarrow> rat \<Rightarrow> agent_row list \<Rightarrow> chat_row list \<Rightarrow> op_row \<Rightarrow> resource_row list \<Rightarrow> db \<Rightarrow> string list" where
  "evidence os now stale ags chs r res d =
     (if filter (resource_alive os now stale) res \<noteq> [] then [''live_resource''] else [])
     @ (if recent_artifact (op_id r) (now - stale) d then [''recent_artifact''] else [])
     @ (if fresh_lease (op_id r) now (now - stale) d then [''fresh_lease''] else [])
     @ (if agent_fresh now stale (linked_agent ags r) then [''fresh_agent''] else [])
     @ (if chat_fresh now stale (linked_chat chs r) then [''fresh_chat''] else [])"

section \<open>The reconciliation\<close>

datatype recon_action =
    NoAction string "string list"
  | MarkUncertain string
  | SoftRecovery string

text \<open>Processes that have gone are recorded as exited.\<close>

definition gone_process :: "(int \<Rightarrow> bool) \<Rightarrow> rat \<Rightarrow> rat \<Rightarrow> resource_row \<Rightarrow> bool" where
  "gone_process os now stale r \<longleftrightarrow> py_lower (rs_type r) = ''process''
     \<and> py_upper (rs_state r) \<in> set alive_states \<and> \<not> resource_alive os now stale r"

definition mark_exited :: "rat \<Rightarrow> string \<Rightarrow> string \<Rightarrow> resource_row \<Rightarrow> (db, unit) sx" where
  "mark_exited now rid oid r =
     andthen (modify (\<lambda>d. d\<lparr>tb_resources := upd_row (rs_id r)
         (\<lambda>x. x\<lparr>rs_state := ''EXITED'', rs_updated := now\<rparr>) (tb_resources d)\<rparr>))
     (andthen (append_event now rid ''RESOURCE_RECONCILED'' (Some oid) (Some ''EXITED'')
         [(''resource_id'', JStr (rs_id r)), (''resource_type'', JStr ''process''),
          (''reason'', JStr ''persisted process resource is no longer alive'')]) (ret ()))"

definition disconnect_chat :: "rat \<Rightarrow> rat \<Rightarrow> string \<Rightarrow> chat_row option \<Rightarrow> (db, unit) sx" where
  "disconnect_chat now stale rid c = (case c of
       None \<Rightarrow> ret ()
     | Some x \<Rightarrow>
         if now - ch_heartbeat x > stale \<and> ch_state x \<noteq> ''DISCONNECTED''
         then andthen (modify (\<lambda>d. d\<lparr>tb_chats := upd_row (ch_id x)
                  (\<lambda>y. y\<lparr>ch_state := ''DISCONNECTED'', ch_updated := now\<rparr>) (tb_chats d)\<rparr>))
              (andthen (append_event now rid ''CHAT_STATE_CHANGED'' None (Some ''DISCONNECTED'')
                 [(''chat_id'', JStr (ch_id x)), (''from'', JStr (ch_state x)),
                  (''to'', JStr ''DISCONNECTED''),
                  (''reason'', JStr ''stale chat heartbeat during reconciliation'')]) (ret ()))
         else ret ())"

definition suspect_agent :: "rat \<Rightarrow> string \<Rightarrow> string \<Rightarrow> agent_row option \<Rightarrow> (db, unit) sx" where
  "suspect_agent now rid oid a = (case a of
       None \<Rightarrow> ret ()
     | Some x \<Rightarrow>
         if ag_state x \<notin> {''SUSPECTED_STALL'', ''ORPHANED'', ''DEAD''}
            \<and> ''SUSPECTED_STALL'' \<in> set (row_of agent_transitions (ag_state x))
         then andthen (modify (\<lambda>d. d\<lparr>tb_agents := upd_row (ag_id x)
                  (\<lambda>y. y\<lparr>ag_state := ''SUSPECTED_STALL'', ag_updated := now\<rparr>) (tb_agents d)\<rparr>))
              (andthen (append_event now rid ''AGENT_SUSPECTED_STALL'' None (Some ''SUSPECTED_STALL'')
                 [(''agent_id'', JStr (ag_id x)), (''operation_id'', JStr oid)]) (ret ()))
         else ret ())"

text \<open>The states reconciliation leaves alone.\<close>

definition reconciled_already :: "op_row \<Rightarrow> bool" where
  "reconciled_already r \<longleftrightarrow> op_state r \<in> set terminal_states \<or> op_state r = ''UNCERTAIN''"

definition mark_uncertain :: "rat \<Rightarrow> string \<Rightarrow> string \<Rightarrow> op_row \<Rightarrow> (db, unit) sx" where
  "mark_uncertain now rid desired r =
     andthen (modify (\<lambda>d. d\<lparr>tb_ops := upd_row (op_id r)
         (\<lambda>x. x\<lparr>op_state := ''UNCERTAIN'', op_updated := now\<rparr>) (tb_ops d)\<rparr>))
     (andthen (append_event now rid ''OPERATION_SUSPECTED_STALL'' (Some (op_id r)) (Some ''UNCERTAIN'')
         [(''heartbeat_age_s'', JNum (now - op_heartbeat r)),
          (''action'', JStr ''FAIL_CLOSED_NO_REPLAY''), (''desired_state'', JStr desired)]) (ret ()))"

definition reconcile_op ::
  "(int \<Rightarrow> bool) \<Rightarrow> rat \<Rightarrow> rat \<Rightarrow> string \<Rightarrow> string \<Rightarrow> agent_row list \<Rightarrow> chat_row list \<Rightarrow> op_row \<Rightarrow>
     (db, recon_action list) sx" where
  "reconcile_op os now stale rid desired ags chs r =
     (if reconciled_already r then ret []
      else if now - op_heartbeat r \<le> stale then ret []
      else
        bnd (gets (op_resources (op_id r))) (\<lambda>res.
        andthen (foreach (filter (gone_process os now stale) res) (mark_exited now rid (op_id r)))
        (bnd (gets (evidence os now stale ags chs r res)) (\<lambda>ev.
          if ev \<noteq> [] then ret [NoAction (op_id r) ev]
          else andthen (mark_uncertain now rid desired r)
               (andthen (disconnect_chat now stale rid (linked_chat chs r))
               (andthen (suspect_agent now rid (op_id r) (linked_agent ags r))
               (ret [MarkUncertain (op_id r)])))))))"

fun reconcile_ops ::
  "(int \<Rightarrow> bool) \<Rightarrow> rat \<Rightarrow> rat \<Rightarrow> string \<Rightarrow> string \<Rightarrow> agent_row list \<Rightarrow> chat_row list \<Rightarrow> op_row list \<Rightarrow>
     (db, recon_action list) sx" where
  "reconcile_ops os now stale rid desired ags chs [] = ret []"
| "reconcile_ops os now stale rid desired ags chs (r # rs) =
     bnd (reconcile_op os now stale rid desired ags chs r) (\<lambda>as.
     bnd (reconcile_ops os now stale rid desired ags chs rs) (\<lambda>bs. ret (as @ bs)))"

fun needs_recovery :: "recon_action \<Rightarrow> bool" where
  "needs_recovery (NoAction i e) = False"
| "needs_recovery (MarkUncertain i) = True"
| "needs_recovery (SoftRecovery i) = True"

definition reconcile ::
  "(int \<Rightarrow> bool) \<Rightarrow> rat \<Rightarrow> string \<Rightarrow> string \<Rightarrow> rat \<Rightarrow> (db, run_view \<times> recon_action list) sx" where
  "reconcile os now rid owner stale =
     andthen (require (5 \<le> stale \<and> stale \<le> 86400) (ValueError ''stale_after_s''))
     (bnd (fetch_run_row rid (Some owner)) (\<lambda>run.
      bnd (gets (\<lambda>d. (filter (\<lambda>x. op_run x = rid) (rows (tb_ops d)),
            filter (\<lambda>x. ag_run x = rid) (rows (tb_agents d)),
            filter (\<lambda>x. ch_run x = rid) (rows (tb_chats d))))) (\<lambda>(ops, ags, chs).
      bnd (reconcile_ops os now stale rid (ru_desired run) ags chs ops) (\<lambda>acts.
      bnd (gets (\<lambda>d. map (\<lambda>a. SoftRecovery (ag_id a))
            (filter (\<lambda>x. ag_run x = rid \<and> ag_state x = ''SUSPECTED_STALL'') (rows (tb_agents d))))) (\<lambda>soft.
      andthen
        (if (\<exists>a \<in> set (acts @ soft). needs_recovery a) \<and> ru_state run \<in> {''RUNNING'', ''PAUSED''}
         then andthen (modify (\<lambda>d. d\<lparr>tb_runs := upd_row rid
                  (\<lambda>x. x\<lparr>ru_state := ''RECOVERING'', ru_updated := now\<rparr>) (tb_runs d)\<rparr>))
              (andthen (append_event now rid ''RECOVERY_STARTED'' None (Some ''RECOVERING'')
                 [(''reason'', JStr ''desired and observed execution state diverged''),
                  (''automatic_replay'', JBool False)]) (ret ()))
         else ret ())
      (bnd (fetch_run_row rid None) (\<lambda>r. gets (\<lambda>d. (run_info r d, acts @ soft)))))))))"

end
