(* ===== verification/Durable_Invariants.thy ===== *)
theory Durable_Invariants
  imports Durable_Reconcile
begin

text \<open>
  Invariants of the durable runtime under every sequence of its calls. The locale
  \<open>db_invariant\<close> names the elementary writes the calls are made of; every call keeps an
  invariant that these keep. It is interpreted for the shape of the operation table, for
  leases and fencing tokens, for the event log, and for what may become of an operation, of a
  run and of a fencing token after a given state.
\<close>

section \<open>Reasoning at a state\<close>

lemma at_lookup [at_rules]:
  "P s \<Longrightarrow> (\<And>r. dget (tb s) i = Some r \<Longrightarrow> (owner \<noteq> None \<longrightarrow> own r = the owner) \<Longrightarrow> P (snd (f r s))) \<Longrightarrow>
     P (snd (bnd (lookup what tb own i owner) f s))"
  by (auto simp: bnd_run lookup_def split: option.split)

lemma at_lookup_then [at_rules]:
  "P s \<Longrightarrow> (\<And>r. dget (tb s) i = Some r \<Longrightarrow> (owner \<noteq> None \<longrightarrow> own r = the owner) \<Longrightarrow> P (snd (n s))) \<Longrightarrow>
     P (snd (andthen (lookup what tb own i owner) n s))"
  by (auto simp: andthen_run lookup_def split: option.split)

lemma at_lookup_end [at_rules]: "P s \<Longrightarrow> P (snd (lookup what tb own i owner s))"
  by (simp add: lookup_def split: option.split)

lemmas row_defs = fetch_run_row_def fetch_goal_row_def fetch_operation_row_def fetch_agent_row_def fetch_chat_row_def artifact_info_def

lemma keep_row [keeps]: "keep P (lookup what tb own i owner)"
  by (auto simp: keep_def lookup_def split: option.split)

lemma keep_verify_fence [keeps]: "keep P (verify_fence now key token)"
  unfolding verify_fence_def by (intro keeps)

lemma keep_read: "(\<And>s. snd (m s) = s) \<Longrightarrow> keep P m"
  by (simp add: keep_def)

section \<open>What may become of a row\<close>

text \<open>An operation moves along its table; reconciliation also takes QUEUED to UNCERTAIN.\<close>

definition op_edge :: "string \<Rightarrow> string \<Rightarrow> bool" where
  "op_edge s t \<longleftrightarrow> can_move (row_of operation_transitions) s t \<or> s = ''QUEUED'' \<and> t = ''UNCERTAIN''"

definition op_move :: "op_row \<Rightarrow> op_row \<Rightarrow> bool" where
  "op_move r r' \<longleftrightarrow> op_id r' = op_id r \<and> op_run r' = op_run r \<and> op_owner r' = op_owner r
     \<and> op_key r' = op_key r \<and> op_intent r' = op_intent r \<and> op_resource r' = op_resource r
     \<and> op_token r' = op_token r \<and> op_edge (op_state r) (op_state r')"

definition run_move :: "run_row \<Rightarrow> run_row \<Rightarrow> bool" where
  "run_move r r' \<longleftrightarrow> ru_id r' = ru_id r \<and> ru_owner r' = ru_owner r \<and> ru_key r' = ru_key r
     \<and> ru_seq r' = ru_seq r \<and> can_move (row_of run_transitions) (ru_state r) (ru_state r')"

definition ops_ok :: "db \<Rightarrow> bool" where
  "ops_ok d \<longleftrightarrow> dict_ok (tb_ops d)
     \<and> (\<forall>i r. dget (tb_ops d) i = Some r \<longrightarrow> op_id r = i \<and> op_state r \<in> set operation_states)"

section \<open>What reconciliation leaves alone\<close>

definition op_at :: "string \<Rightarrow> op_row option \<Rightarrow> db \<Rightarrow> bool" where
  "op_at j c d \<longleftrightarrow> dget (tb_ops d) j = c"

definition run_at :: "string \<Rightarrow> string option \<Rightarrow> db \<Rightarrow> bool" where
  "run_at i st d \<longleftrightarrow> map_option ru_state (dget (tb_runs d) i) = st"

lemma event_op_at [keeps]: "keep (op_at j c) (append_event now rid typ opid st pl)"
  by (auto simp: keep_def append_event_def fetch_run_row_def lookup_def bnd_run andthen_run op_at_def Let_def
      split: option.split)

lemma event_run_at [keeps]: "keep (run_at j c) (append_event now rid typ opid st pl)"
  by (auto simp: keep_def append_event_def fetch_run_row_def lookup_def bnd_run andthen_run run_at_def Let_def
      split: option.split)

lemma exited_op_at: "keep (op_at j c) (mark_exited now rid oid r)"
  unfolding mark_exited_def by (intro keeps keep_modify) (simp add: op_at_def)

lemma exited_run_at: "keep (run_at j c) (mark_exited now rid oid r)"
  unfolding mark_exited_def by (intro keeps keep_modify) (simp add: run_at_def)

lemma uncertain_op_at: "j \<noteq> op_id r \<Longrightarrow> keep (op_at j c) (mark_uncertain now rid des r)"
  unfolding mark_uncertain_def by (intro keeps keep_modify) (simp add: op_at_def)

lemma uncertain_run_at: "keep (run_at j c) (mark_uncertain now rid des r)"
  unfolding mark_uncertain_def by (intro keeps keep_modify) (simp add: run_at_def)

lemma chat_op_at: "keep (op_at j c) (disconnect_chat now stale rid x)"
  unfolding disconnect_chat_def by (intro keeps keep_modify) (simp add: op_at_def)

lemma chat_run_at: "keep (run_at j c) (disconnect_chat now stale rid x)"
  unfolding disconnect_chat_def by (intro keeps keep_modify) (simp add: run_at_def)

lemma agent_op_at: "keep (op_at j c) (suspect_agent now rid oid x)"
  unfolding suspect_agent_def by (intro keeps keep_modify) (simp add: op_at_def)

lemma agent_run_at: "keep (run_at j c) (suspect_agent now rid oid x)"
  unfolding suspect_agent_def by (intro keeps keep_modify) (simp add: run_at_def)

lemma reconcile_op_other:
  "j \<noteq> op_id r \<Longrightarrow> keep (op_at j c) (reconcile_op os now stale rid des ags chs r)"
  unfolding reconcile_op_def
  by (intro keeps exited_op_at uncertain_op_at chat_op_at agent_op_at)

lemma reconcile_op_run: "keep (run_at j c) (reconcile_op os now stale rid des ags chs r)"
  unfolding reconcile_op_def
  by (intro keeps exited_run_at uncertain_run_at chat_run_at agent_run_at)

lemma reconcile_ops_run: "keep (run_at j c) (reconcile_ops os now stale rid des ags chs rs)"
  by (induction rs) (simp_all only: reconcile_ops.simps, (intro keeps reconcile_op_run; assumption)+)

lemma stall_edge: "s \<in> set operation_states \<Longrightarrow> s \<notin> set terminal_states \<Longrightarrow> op_edge s ''UNCERTAIN''"
  by (auto simp: operation_states_def terminal_states_def op_edge_def can_move_def row_of_def
      operation_transitions_def)

text \<open>The write of one event, with the run's counter.\<close>

definition put_event :: "event \<Rightarrow> run_row \<Rightarrow> db \<Rightarrow> db" where
  "put_event e r d = d\<lparr>tb_events := tb_events d @ [e],
     tb_runs := dset (ev_run e) (r\<lparr>ru_seq := ev_seq e, ru_updated := ev_ts e\<rparr>) (tb_runs d)\<rparr>"

text \<open>The run of an operation exists and has its owner.\<close>

definition owned_by_run :: "op_row \<Rightarrow> db \<Rightarrow> bool" where
  "owned_by_run r d \<longleftrightarrow> map_option ru_owner (dget (tb_runs d) (op_run r)) = Some (op_owner r)"

locale db_invariant =
  fixes P :: "db \<Rightarrow> bool"
  assumes base: "\<And>d. P d \<Longrightarrow> ops_ok d"
    and event_step: "\<And>d e r. P d \<Longrightarrow> dget (tb_runs d) (ev_run e) = Some r \<Longrightarrow> ev_seq e = ru_seq r + 1 \<Longrightarrow>
        P (put_event e r d)"
    and new_run_step: "\<And>d r. P d \<Longrightarrow> dget (tb_runs d) (ru_id r) = None \<Longrightarrow> ru_seq r = 0 \<Longrightarrow> P (put_run r d)"
    and run_step: "\<And>d i r r'. P d \<Longrightarrow> dget (tb_runs d) i = Some r \<Longrightarrow> run_move r r' \<Longrightarrow>
        P (d\<lparr>tb_runs := dset i r' (tb_runs d)\<rparr>)"
    and new_op_step: "\<And>d r. P d \<Longrightarrow> dget (tb_ops d) (op_id r) = None \<Longrightarrow> op_token r = None \<Longrightarrow>
        op_state r \<in> set operation_states \<Longrightarrow> op_by_key (op_run r) (op_key r) d = None \<Longrightarrow>
        owned_by_run r d \<Longrightarrow> P (d\<lparr>tb_ops := dset (op_id r) r (tb_ops d)\<rparr>)"
    and op_step: "\<And>d i r r'. P d \<Longrightarrow> dget (tb_ops d) i = Some r \<Longrightarrow> op_move r r' \<Longrightarrow>
        P (d\<lparr>tb_ops := dset i r' (tb_ops d)\<rparr>)"
    and reserve_step: "\<And>d r key now rid owner opid ttl. P d \<Longrightarrow> dget (tb_ops d) (op_id r) = None \<Longrightarrow>
        op_state r = ''STARTING'' \<Longrightarrow> op_resource r = Some key \<Longrightarrow> op_token r = Some (next_token key d) \<Longrightarrow>
        op_by_key (op_run r) (op_key r) d = None \<Longrightarrow> owned_by_run r d \<Longrightarrow>
        P (grant_lease now key rid owner opid ttl (next_token key d) (d\<lparr>tb_ops := dset (op_id r) r (tb_ops d)\<rparr>))"
    and resume_step: "\<And>d i r key knd now rid owner opid ttl. P d \<Longrightarrow> dget (tb_ops d) i = Some r \<Longrightarrow>
        op_resource r = Some key \<Longrightarrow> op_state r = ''QUEUED'' \<Longrightarrow>
        P (grant_lease now key rid owner opid ttl (next_token key d) (d\<lparr>tb_ops := dset i
          (r\<lparr>op_kind := knd, op_state := ''STARTING'', op_readiness := ''UNKNOWN'', op_updated := now,
             op_heartbeat := now, op_token := Some (next_token key d)\<rparr>) (tb_ops d)\<rparr>))"
    and lease_step: "\<And>d now key rid owner opid ttl. P d \<Longrightarrow>
        P (grant_lease now key rid owner opid ttl (next_token key d) d)"
    and renew_step: "\<And>d key l u v. P d \<Longrightarrow> dget (tb_leases d) key = Some l \<Longrightarrow>
        P (d\<lparr>tb_leases := dset key (l\<lparr>le_until := u, le_updated := v\<rparr>) (tb_leases d)\<rparr>)"
    and drop_step: "\<And>d key. P d \<Longrightarrow> P (d\<lparr>tb_leases := ddel key (tb_leases d)\<rparr>)"
    and goals_step: "\<And>d x. P d \<Longrightarrow> P (d\<lparr>tb_goals := x\<rparr>)"
    and agents_step: "\<And>d x. P d \<Longrightarrow> P (d\<lparr>tb_agents := x\<rparr>)"
    and chats_step: "\<And>d x. P d \<Longrightarrow> P (d\<lparr>tb_chats := x\<rparr>)"
    and resources_step: "\<And>d x. P d \<Longrightarrow> P (d\<lparr>tb_resources := x\<rparr>)"
    and artifacts_step: "\<And>d x. P d \<Longrightarrow> P (d\<lparr>tb_artifacts := x\<rparr>)"
    and members_step: "\<And>d x. P d \<Longrightarrow> P (d\<lparr>tb_members := x\<rparr>)"
begin

lemmas at = at_rules [where P = P]

lemma event_keeps: "keep P (append_event now rid typ opid st pl)"
proof (rule keepI)
  fix d assume P: "P d"
  show "P (snd (append_event now rid typ opid st pl d))"
    unfolding append_event_def fetch_run_row_def Let_def
  proof (intro at P)
    fix r assume "dget (tb_runs d) rid = Some r"
    with P show "P (d\<lparr>tb_events := tb_events d @ [\<lparr>ev_run = rid, ev_seq = ru_seq r + 1, ev_op = opid,
        ev_type = typ, ev_state = st, ev_ts = now, ev_payload = pl\<rparr>],
        tb_runs := dset rid (r\<lparr>ru_seq := ru_seq r + 1, ru_updated := now\<rparr>) (tb_runs d)\<rparr>)"
      using event_step [of d "\<lparr>ev_run = rid, ev_seq = ru_seq r + 1, ev_op = opid,
        ev_type = typ, ev_state = st, ev_ts = now, ev_payload = pl\<rparr>" r]
      by (simp add: put_event_def)
  qed
qed

lemma at_event: "P s \<Longrightarrow> keep P n \<Longrightarrow> P (snd (andthen (append_event now rid typ opid st pl) n s))"
  by (rule keepD [OF keep_andthen [OF event_keeps]])

lemmas tails = keep_row keep_ret keep_bnd keep_gets keep_andthen event_keeps keep_throw keep_if

lemma run_same: "run_move r r" by (simp add: run_move_def can_move_def)

lemma transition_run_keeps: "keep P (transition_run now rid owner st reason res rb)"
proof (rule keepI)
  fix d assume P: "P d"
  show "P (snd (transition_run now rid owner st reason res rb d))"
    unfolding transition_run_def row_defs
    by (intro at P at_event tails run_step [of d rid]) (auto simp: run_move_def)
qed

lemma capabilities_keeps: "keep P (record_capabilities_used now rid owner caps)"
proof (rule keepI)
  fix d assume P: "P d"
  show "P (snd (record_capabilities_used now rid owner caps d))"
    unfolding record_capabilities_used_def row_defs Let_def
    by (intro at P at_event tails run_step [of d rid]) (auto simp: run_move_def can_move_def)
qed

text \<open>Goals, agents, chats, resources and artifacts touch nothing the invariant is about.\<close>

lemmas others = goals_step agents_step chats_step resources_step artifacts_step members_step

lemma keep_parent: "keep P (if b then bnd (lookup what tb own i owner) (\<lambda>p. require (c p) e) else ret ())"
  by (intro keeps)

lemma at_keep: "P s \<Longrightarrow> keep P m \<Longrightarrow> (\<And>t. P t \<Longrightarrow> P (snd (n t))) \<Longrightarrow> P (snd (andthen m n s))"
  by (rule keepD [OF keep_andthen]) (auto intro: keepI)

lemma at_keep_bnd: "P s \<Longrightarrow> keep P m \<Longrightarrow> (\<And>a t. P t \<Longrightarrow> P (snd (f a t))) \<Longrightarrow> P (snd (bnd m f s))"
  by (rule keepD [OF keep_bnd]) (auto intro: keepI)

lemma at_then: "P (snd (m s)) \<Longrightarrow> keep P n \<Longrightarrow> P (snd (andthen m n s))"
  by (cases "m s") (auto simp: andthen_run split: sum.split dest: keepD)

lemma at_option: "(v = None \<Longrightarrow> P (snd (m s))) \<Longrightarrow> (\<And>x. v = Some x \<Longrightarrow> P (snd (f x s))) \<Longrightarrow>
    P (snd ((case v of None \<Rightarrow> m | Some x \<Rightarrow> f x) s))"
  by (simp split: option.split)

lemma at_if: "(b \<Longrightarrow> P (snd (m s))) \<Longrightarrow> (\<not> b \<Longrightarrow> P (snd (n s))) \<Longrightarrow> P (snd ((if b then m else n) s))"
  by simp

lemma create_goal_keeps:
  "keep P (create_goal now gen rid owner txt crit lims prt bud dl par gid ext md)"
proof (rule keepI)
  fix d assume P: "P d"
  show "P (snd (create_goal now gen rid owner txt crit lims prt bud dl par gid ext md d))"
    unfolding create_goal_def row_defs
    by (intro at P at_event tails at_option at_keep keep_parent keep_require goals_step)
qed

lemma update_goal_keeps:
  "keep P (update_goal now gid owner txt crit lims prt bud dl st reason md)"
proof (rule keepI)
  fix d assume P: "P d"
  have strs: "keep P (case c of None \<Rightarrow> ret x | Some c \<Rightarrow> lift_sum (goal_string_list (Some c)))" for c x
    by (intro keeps)
  show "P (snd (update_goal now gid owner txt crit lims prt bud dl st reason md d))"
    unfolding update_goal_def row_defs Let_def
    by (intro at P at_keep_bnd strs at_event tails goals_step)
qed

lemma assign_agent_keeps:
  "keep P (assign_agent now gen rid owner role tid goal aid st desired md)"
proof (rule keepI)
  fix d assume P: "P d"
  have g: "keep P (case goal of None \<Rightarrow> ret () | Some g \<Rightarrow> bnd (lookup what tb own g o1) (\<lambda>x. require (c x) e))"
    for what tb own o1 c e
    by (intro keeps)
  show "P (snd (assign_agent now gen rid owner role tid goal aid st desired md d))"
    unfolding assign_agent_def row_defs
    by (intro at P at_keep g at_option at_if at_event tails agents_step members_step)
qed

lemma update_agent_keeps:
  "keep P (update_agent now aid owner st desired tid goal chat md hb et)"
proof (rule keepI)
  fix d assume P: "P d"
  have g: "keep P (case goal of None \<Rightarrow> ret () | Some g \<Rightarrow> bnd (lookup what tb own g o1) (\<lambda>x. require (c x) e))"
    for what tb own o1 c e and goal :: "string option"
    by (intro keeps)
  show "P (snd (update_agent now aid owner st desired tid goal chat md hb et d))"
    unfolding update_agent_def row_defs Let_def
    by (intro at P at_keep g at_event tails agents_step)
qed

lemma bind_chat_keeps:
  "keep P (bind_chat now gen rid owner aid prov conv url pj pju title cid st desired md)"
proof (rule keepI)
  fix d assume P: "P d"
  have g: "keep P (if b then bnd (lookup what tb own i o1) (\<lambda>a. andthen (require (c a) e) (ret (f a))) else ret x)"
    for b what tb own i o1 c e f and x :: string
    by (intro keeps)
  have m: "keep P (if b then modify (\<lambda>d. d\<lparr>tb_agents := f d\<rparr>) else ret ())" for b f
    by (intro keep_if keep_modify keep_ret agents_step)
  show "P (snd (bind_chat now gen rid owner aid prov conv url pj pju title cid st desired md d))"
    unfolding bind_chat_def row_defs Let_def
    by (intro at P at_keep m at_keep_bnd g at_option at_if at_event tails chats_step)
qed

lemma update_chat_keeps: "keep P (update_chat now cid owner st desired md hb et)"
proof (rule keepI)
  fix d assume P: "P d"
  show "P (snd (update_chat now cid owner st desired md hb et d))"
    unfolding update_chat_def row_defs Let_def
    by (intro at P at_event tails chats_step)
qed

lemma rebind_chat_keeps: "keep P (rebind_chat now cid owner conv url prov pj pju reason expd)"
proof (rule keepI)
  fix d assume P: "P d"
  show "P (snd (rebind_chat now cid owner conv url prov pj pju reason expd d))"
    unfolding rebind_chat_def row_defs
    by (intro at P at_event tails chats_step)
qed

lemma append_event_run:
  "dget (tb_runs d) rid = Some r \<Longrightarrow> append_event now rid typ opid st pl d =
     (let e = \<lparr>ev_run = rid, ev_seq = ru_seq r + 1, ev_op = opid, ev_type = typ, ev_state = st,
        ev_ts = now, ev_payload = pl\<rparr> in (Inr e, put_event e r d))"
  by (simp add: append_event_def fetch_run_row_def lookup_def bnd_run andthen_run put_event_def Let_def)

lemma run_upd: "P d \<Longrightarrow> (\<And>r. dget (tb_runs d) i = Some r \<Longrightarrow> run_move r (f r)) \<Longrightarrow>
    P (d\<lparr>tb_runs := upd_row i f (tb_runs d)\<rparr>)"
  by (auto simp: upd_row_def split: option.split intro: run_step)

lemma create_run_keeps: "keep P (create_run now gen owner ws rid key req snap desired)"
proof (rule keepI)
  fix d assume P: "P d"
  have fresh: "P (snd (andthen (modify (put_run r)) (andthen (append_event now i t1 o1 s1 p1)
      (andthen (if c then andthen (modify (\<lambda>d. d\<lparr>tb_runs := upd_row i
              (\<lambda>r. r\<lparr>ru_state := ''RUNNING'', ru_updated := now\<rparr>) (tb_runs d)\<rparr>))
            (andthen (append_event now i t2 o2 s2 p2) (ret ())) else ret ())
        (bnd (fetch_run_row i None) (\<lambda>r. ret (r, False))))) d))"
    if new: "dget (tb_runs d) i = None" "ru_id r = i" "ru_seq r = 0" "ru_state r = ''CREATED''"
    for r i t1 o1 s1 p1 c t2 o2 s2 p2
  proof -
    let ?d1 = "put_run r d"
    let ?e = "\<lparr>ev_run = i, ev_seq = ru_seq r + 1, ev_op = o1, ev_type = t1, ev_state = s1,
        ev_ts = now, ev_payload = p1\<rparr>"
    have d1: "P ?d1" using P new by (intro new_run_step) simp_all
    have at1: "dget (tb_runs ?d1) i = Some r" using new(2) by (simp add: put_run_def)
    have d2: "P (put_event ?e r ?d1)" using d1 at1 by (intro event_step) simp_all
    have m: "P ((put_event ?e r ?d1)\<lparr>tb_runs := upd_row i
          (\<lambda>r. r\<lparr>ru_state := ''RUNNING'', ru_updated := now\<rparr>) (tb_runs (put_event ?e r ?d1))\<rparr>)"
      using new(4)
      by (intro run_upd d2)
        (auto simp: put_event_def run_move_def can_move_def row_of_def run_transitions_def)
    have "P (snd (andthen (if c then andthen (modify (\<lambda>d. d\<lparr>tb_runs := upd_row i
              (\<lambda>r. r\<lparr>ru_state := ''RUNNING'', ru_updated := now\<rparr>) (tb_runs d)\<rparr>))
            (andthen (append_event now i t2 o2 s2 p2) (ret ())) else ret ())
        (bnd (fetch_run_row i None) (\<lambda>r. ret (r, False))) (put_event ?e r ?d1)))"
    proof (cases c)
      case True
      have "keep P (andthen (andthen (append_event now i t2 o2 s2 p2) (ret ()))
          (bnd (fetch_run_row i None) (\<lambda>r. ret (r, False))))"
        unfolding row_defs by (intro tails)
      from this [THEN keepD, OF m] True show ?thesis
        by (simp add: andthen_def bnd_def modify_def split: prod.split sum.split)
    next
      case False
      have "keep P (andthen (ret ()) (bnd (fetch_run_row i None) (\<lambda>r. ret (r, False))))"
        unfolding row_defs by (intro tails)
      from this [THEN keepD, OF d2] False show ?thesis by simp
    qed
    then show ?thesis
      using append_event_run [OF at1, of now t1 o1 s1 p1] by (simp add: andthen_run [where m = "append_event _ _ _ _ _ _"] Let_def)
  qed
  show "P (snd (create_run now gen owner ws rid key req snap desired d))"
    unfolding create_run_def
    by (intro at P at_option fresh) (simp_all add: new_run_def)
qed

lemma implicit_run_keeps: "keep P (ensure_implicit_run digest now gen owner ws)"
  unfolding ensure_implicit_run_def by (rule create_run_keeps)

text \<open>Leases.\<close>

lemma verify_keeps: "keep P (verify_fence now key token)"
  by (rule keep_verify_fence)

lemma at_grant: "P d \<Longrightarrow> P (snd (grant now key rid owner opid ttl (next_token key d) d))"
  unfolding grant_def by (intro at at_event tails lease_step)

lemma acquire_lease_keeps: "keep P (acquire_lease now rid owner key opid ttl)"
proof (rule keepI)
  fix d assume P: "P d"
  show "P (snd (acquire_lease now rid owner key opid ttl d))"
    unfolding acquire_lease_def row_defs
    using P by (intro at P) (auto split: option.split intro: at_grant)
qed

lemma renew_lease_keeps: "keep P (renew_lease now key owner token ttl)"
proof (rule keepI)
  fix d assume P: "P d"
  show "P (snd (renew_lease now key owner token ttl d))"
    unfolding renew_lease_def
    by (intro at P at_option at_if at_event tails renew_step)
qed

lemma release_lease_keeps: "keep P (release_lease now key owner token)"
proof (rule keepI)
  fix d assume P: "P d"
  show "P (snd (release_lease now key owner token d))"
    unfolding release_lease_def
    by (intro at P at_option at_if at_event tails drop_step)
qed

text \<open>Operations.\<close>

lemma at_insert_op:
  "P d \<Longrightarrow> op_token r = None \<Longrightarrow> op_state r \<in> set operation_states \<Longrightarrow>
     op_by_key (op_run r) (op_key r) d = None \<Longrightarrow> owned_by_run r d \<Longrightarrow> P (snd (insert_op r d))"
  by (auto simp: insert_op_def split: option.split intro: new_op_step)

lemma create_operation_keeps: "keep P (create_operation now gen rid owner knd idem oid cleanup initial)"
proof (rule keepI)
  fix d assume P: "P d"
  show "P (snd (create_operation now gen rid owner knd idem oid cleanup initial d))"
    unfolding create_operation_def row_defs
    by (intro at P at_option at_then at_insert_op tails) (simp_all add: new_op_def owned_by_run_def)
qed

lemma update_operation_keeps:
  "keep P (update_operation now oid owner st rdy pg et res er rb key token)"
proof (rule keepI)
  fix d assume P: "P d"
  show "P (snd (update_operation now oid owner st rdy pg et res er rb key token d))"
    unfolding update_operation_def row_defs Let_def
    by (intro at P at_keep verify_keeps at_event tails op_step [where i = oid])
      (auto simp: op_move_def op_edge_def)
qed

lemma heartbeat_keeps: "keep P (heartbeat_operation now oid owner pg rdy key token)"
  unfolding heartbeat_operation_def by (rule update_operation_keeps)

lemma request_cancel_keeps: "keep P (request_cancel now oid owner started)"
  unfolding request_cancel_def by (rule update_operation_keeps)

lemma pending_keeps: "keep P (pending_operation_intent now rid owner oid idem sha key ctx)"
proof (rule keepI)
  fix d assume P: "P d"
  show "P (snd (pending_operation_intent now rid owner oid idem sha key ctx d))"
    unfolding pending_operation_intent_def row_defs
    by (intro at P at_option at_if at_then at_insert_op tails)
      (simp_all add: new_op_def operation_states_def owned_by_run_def)
qed

lemma start_reserved_error:
  "start_reserved now rid owner oid idem sha key knd ctx pend token d = (Inl e, d1) \<Longrightarrow> d1 = d"
  by (auto simp: start_reserved_def insert_op_def split: if_splits option.splits)

lemma at_reserved:
  assumes P: "P d" and res: "\<And>r. pend \<Longrightarrow> dget (tb_ops d) oid = Some r \<Longrightarrow> op_resource r = Some key"
    and new: "\<not> pend \<Longrightarrow> op_by_key rid idem d = None"
    and own: "map_option ru_owner (dget (tb_runs d) rid) = Some owner"
  shows "P (snd (andthen (start_reserved now rid owner oid idem sha key knd ctx pend (next_token key d))
      (andthen (modify (grant_lease now key rid owner (Some oid) ttl (next_token key d)))
      (andthen (append_event now rid typ opid st pl) (ret x))) d))"
proof (cases "start_reserved now rid owner oid idem sha key knd ctx pend (next_token key d) d")
  case (Pair y d1)
  show ?thesis
  proof (cases y)
    case (Inl e)
    with Pair P start_reserved_error show ?thesis by (fastforce simp: andthen_run)
  next
    case (Inr u)
    have g: "P (grant_lease now key rid owner (Some oid) ttl (next_token key d) d1)"
    proof (cases pend)
      case True
      show ?thesis
      proof (cases "\<exists>r. dget (tb_ops d) oid = Some r \<and> op_owner r = owner \<and> is_pending r")
        case True
        then obtain r where r: "dget (tb_ops d) oid = Some r" "op_owner r = owner" "is_pending r" by blast
        with Pair Inr \<open>pend\<close> have "d1 = d\<lparr>tb_ops := dset oid (r\<lparr>op_kind := knd, op_state := ''STARTING'',
            op_readiness := ''UNKNOWN'', op_updated := now, op_heartbeat := now,
            op_token := Some (next_token key d)\<rparr>) (tb_ops d)\<rparr>"
          by (simp add: start_reserved_def upd_row_def)
        with r res [OF \<open>pend\<close> r(1)] show ?thesis
          by (simp add: resume_step [OF P] is_pending_def)
      next
        case False
        with Pair Inr \<open>pend\<close> have "d1 = d"
          by (auto simp: start_reserved_def upd_row_def dset_same split: option.splits)
        with P show ?thesis by (simp add: lease_step)
      qed
    next
      case False
      let ?r = "(new_op now oid rid owner idem knd ''STARTING'' ''manual'')\<lparr>op_progress := context_json ctx,
          op_intent := Some sha, op_resource := Some key, op_token := Some (next_token key d)\<rparr>"
      from False Pair Inr have none: "dget (tb_ops d) oid = None"
        and d1: "d1 = d\<lparr>tb_ops := dset oid ?r (tb_ops d)\<rparr>"
        by (auto simp: start_reserved_def insert_op_def new_op_def split: option.splits)
      show ?thesis
        using reserve_step [OF P, of ?r key now rid owner "Some oid" ttl] none new [OF False] own
        unfolding d1 by (simp add: new_op_def owned_by_run_def)
    qed
    have "P (snd (andthen (modify (grant_lease now key rid owner (Some oid) ttl (next_token key d)))
      (andthen (append_event now rid typ opid st pl) (ret x)) d1))"
      by (intro at at_event tails g)
    with Pair Inr show ?thesis by (simp add: andthen_run [where m = "start_reserved _ _ _ _ _ _ _ _ _ _ _"])
  qed
qed

lemma found_row:
  assumes "P d" "op_by_key rid idem d = Some r"
  shows "dget (tb_ops d) (op_id r) = Some r"
proof -
  have ok: "ops_ok d" using assms(1) by (rule base)
  from assms(2) have "r \<in> snd ` set (tb_ops d)"
    by (auto simp: op_by_key_def rows_def find_Some_iff)
  then obtain i where "(i, r) \<in> set (tb_ops d)" by auto
  with ok have "dget (tb_ops d) i = Some r" by (simp add: ops_ok_def)
  with ok show ?thesis by (auto simp: ops_ok_def)
qed

lemma reserve_keeps:
  "keep P (reserve_operation_intent now rid owner oid idem sha key knd ttl ctx cl)"
proof (rule keepI)
  fix d assume P: "P d"
  show "P (snd (reserve_operation_intent now rid owner oid idem sha key knd ttl ctx cl d))"
    unfolding reserve_operation_intent_def row_defs Let_def
    apply (intro at P at_if)
    apply (simp only: prod.case)
    apply (intro at P at_reserved)
    apply (auto split: option.splits dest: found_row [OF P])
    done
qed

lemma begin_effect_keeps: "keep P (begin_machine_effect now oid owner sha key token)"
proof (rule keepI)
  fix d assume P: "P d"
  have opt: "keep P (if b then ret () else andthen (append_event n r t o1 s p) (ret ()))" for b n r t o1 s p
    by (intro tails)
  show "P (snd (begin_machine_effect now oid owner sha key token d))"
    unfolding begin_machine_effect_def row_defs
    by (intro at_keep_bnd [OF P] keepI at at_keep verify_keeps keepD [OF opt] op_step [where i = oid])
      (auto simp: op_move_def op_edge_def can_move_def)
qed

text \<open>Records and reads.\<close>

lemma op_in_run_keeps: "keep P (op_in_run opid rid owner)"
  unfolding op_in_run_def row_defs by (intro keeps)

lemma attach_resource_keeps: "keep P (attach_resource now rid owner typ i st opid md)"
proof (rule keepI)
  fix d assume P: "P d"
  show "P (snd (attach_resource now rid owner typ i st opid md d))"
    unfolding attach_resource_def row_defs Let_def
    by (intro at P at_keep op_in_run_keeps at_event tails resources_step)
qed

lemma register_artifact_keeps:
  "keep P (register_artifact now gen rid owner path sha n mime opid aid ex md)"
proof (rule keepI)
  fix d assume P: "P d"
  have v: "keep P (if b then lift_sum (validate_id x y) else ret gen)" for b x y
    by (intro keeps)
  show "P (snd (register_artifact now gen rid owner path sha n mime opid aid ex md d))"
    unfolding register_artifact_def row_defs Let_def
    by (intro at P at_keep at_keep_bnd v op_in_run_keeps at_option at_if at_event tails artifacts_step)
qed

lemma checkpoint_keeps: "keep P (checkpoint sz now rid owner data label)"
  unfolding checkpoint_def row_defs by (intro keeps event_keeps)

text \<open>Reconciliation.\<close>

lemma exited_keeps: "keep P (mark_exited now rid oid r)"
  unfolding mark_exited_def by (intro keeps keep_modify event_keeps resources_step)

lemma chat_keeps: "keep P (disconnect_chat now stale rid x)"
  unfolding disconnect_chat_def by (intro keeps keep_modify event_keeps chats_step)

lemma agent_keeps: "keep P (suspect_agent now rid oid x)"
  unfolding suspect_agent_def by (intro keeps keep_modify event_keeps agents_step)

lemma at_uncertain:
  assumes "P d" "dget (tb_ops d) (op_id r) = Some r" "\<not> reconciled_already r"
  shows "P (snd (mark_uncertain now rid des r d))"
proof -
  have "op_state r \<in> set operation_states"
    using base [OF assms(1)] assms(2) by (simp add: ops_ok_def)
  then have "op_edge (op_state r) ''UNCERTAIN''"
    using assms(3) by (intro stall_edge) (simp_all add: reconciled_already_def)
  then have "P (d\<lparr>tb_ops := dset (op_id r) (r\<lparr>op_state := ''UNCERTAIN'', op_updated := now\<rparr>) (tb_ops d)\<rparr>)"
    by (intro op_step [OF assms(1,2)]) (simp add: op_move_def)
  then have "P (d\<lparr>tb_ops := upd_row (op_id r) (\<lambda>x. x\<lparr>op_state := ''UNCERTAIN'', op_updated := now\<rparr>) (tb_ops d)\<rparr>)"
    using assms(2) by (simp add: upd_row_def)
  then show ?thesis
    unfolding mark_uncertain_def by (intro at at_event tails)
qed

lemma at_reconcile_op:
  assumes "P d" "dget (tb_ops d) (op_id r) = Some r"
  shows "P (snd (reconcile_op os now stale rid des ags chs r d))"
proof (cases "reconciled_already r \<or> now - op_heartbeat r \<le> stale")
  case True
  with assms(1) show ?thesis by (auto simp: reconcile_op_def)
next
  case False
  let ?fs = "foreach (filter (gone_process os now stale) (op_resources (op_id r) d)) (mark_exited now rid (op_id r))"
  obtain x d1 where fs: "?fs d = (x, d1)" by fastforce
  have P1: "P d1"
    using keep_foreach [of P "mark_exited now rid (op_id r)", OF exited_keeps] assms(1) fs by (rule keep_run)
  have at1: "dget (tb_ops d1) (op_id r) = Some r"
    using keep_run [OF keep_foreach [OF exited_op_at] _ fs, of "op_id r" "Some r"] assms(2)
    by (simp add: op_at_def)
  have "P (snd (andthen (mark_uncertain now rid des r) (andthen (disconnect_chat now stale rid (linked_chat chs r))
               (andthen (suspect_agent now rid (op_id r) (linked_agent ags r)) (ret [MarkUncertain (op_id r)]))) d1))"
  proof (cases "mark_uncertain now rid des r d1")
    case (Pair y d2)
    have "P d2" using at_uncertain [OF P1 at1, of now rid des] Pair False by simp
    moreover have "keep P (andthen (disconnect_chat now stale rid (linked_chat chs r))
               (andthen (suspect_agent now rid (op_id r) (linked_agent ags r)) (ret [MarkUncertain (op_id r)])))"
      by (intro keeps chat_keeps agent_keeps)
    ultimately show ?thesis
      using Pair by (auto simp: andthen_run [where m = "mark_uncertain _ _ _ _"] split: sum.split dest: keepD)
  qed
  with False P1 fs show ?thesis
    by (auto simp: reconcile_op_def bnd_run andthen_run [where m = "foreach _ _"] split: sum.split)
qed

lemma at_reconcile_ops:
  "P d \<Longrightarrow> \<forall>r \<in> set rs. dget (tb_ops d) (op_id r) = Some r \<Longrightarrow> distinct (map op_id rs) \<Longrightarrow>
     P (snd (reconcile_ops os now stale rid des ags chs rs d))"
proof (induction rs arbitrary: d)
  case Nil
  then show ?case by simp
next
  case (Cons r rs)
  obtain x d1 where one: "reconcile_op os now stale rid des ags chs r d = (x, d1)" by fastforce
  have P1: "P d1" using at_reconcile_op [of d r os now stale rid des ags chs] Cons.prems one by simp
  have "dget (tb_ops d1) (op_id s) = Some s" if "s \<in> set rs" for s
  proof -
    have "op_id s \<noteq> op_id r" using Cons.prems(3) that by (auto simp: image_iff)
    from keep_run [OF reconcile_op_other [OF this] _ one, of "Some s"] Cons.prems(2) that
    show ?thesis by (simp add: op_at_def)
  qed
  with Cons.IH [OF P1] Cons.prems(3)
  have "P (snd (reconcile_ops os now stale rid des ags chs rs d1))" by simp
  with one P1 show ?case
    by (auto simp: bnd_run split: sum.split prod.split)
qed

lemma snapshot_rows:
  assumes "P d"
  shows "\<forall>r \<in> set (filter f (rows (tb_ops d))). dget (tb_ops d) (op_id r) = Some r"
    "distinct (map op_id (filter f (rows (tb_ops d))))"
proof -
  have ok: "dict_ok (tb_ops d)" "\<And>i r. dget (tb_ops d) i = Some r \<Longrightarrow> op_id r = i"
    using base [OF assms] by (simp_all add: ops_ok_def)
  have id: "op_id r = i" if "(i, r) \<in> set (tb_ops d)" for i r
    using ok that by (metis dget_Some_iff)
  show "\<forall>r \<in> set (filter f (rows (tb_ops d))). dget (tb_ops d) (op_id r) = Some r"
    using ok id by (auto simp: rows_def)
  have "map op_id (rows (tb_ops d)) = map fst (tb_ops d)"
    using id by (auto simp: rows_def)
  with ok have "distinct (map op_id (rows (tb_ops d)))" by simp
  then show "distinct (map op_id (filter f (rows (tb_ops d))))"
    by (rule distinct_map_filter)
qed

lemma at_recovering:
  assumes "P d" "run_at rid (Some st) d" "c \<Longrightarrow> st \<in> {''RUNNING'', ''PAUSED''}"
  shows "P (snd ((if c then andthen (modify (\<lambda>d. d\<lparr>tb_runs := upd_row rid
                  (\<lambda>x. x\<lparr>ru_state := ''RECOVERING'', ru_updated := now\<rparr>) (tb_runs d)\<rparr>))
              (andthen (append_event now rid ty opid est pl) (ret ()))
         else ret ()) d))"
proof (cases c)
  case True
  with assms have "st \<in> {''RUNNING'', ''PAUSED''}" by simp
  then have "P (d\<lparr>tb_runs := upd_row rid (\<lambda>x. x\<lparr>ru_state := ''RECOVERING'', ru_updated := now\<rparr>) (tb_runs d)\<rparr>)"
    using assms(2) by (intro run_upd assms(1))
      (auto simp: run_at_def run_move_def can_move_def row_of_def run_transitions_def)
  with True show ?thesis
    by (simp only: if_True) (intro at at_event tails)
next
  case False
  with assms(1) show ?thesis by simp
qed

lemma reconcile_keeps: "keep P (reconcile os now rid owner stale)"
proof (rule keepI)
  fix d assume P: "P d"
  show "P (snd (reconcile os now rid owner stale d))"
    unfolding reconcile_def row_defs
  proof (intro at P, simp only: prod.case)
    fix run assume run: "dget (tb_runs d) rid = Some run"
    let ?ops = "filter (\<lambda>x. op_run x = rid) (rows (tb_ops d))"
    let ?ags = "filter (\<lambda>x. ag_run x = rid) (rows (tb_agents d))"
    let ?chs = "filter (\<lambda>x. ch_run x = rid) (rows (tb_chats d))"
    let ?m = "reconcile_ops os now stale rid (ru_desired run) ?ags ?chs ?ops"
    obtain y d1 where m: "?m d = (y, d1)" by fastforce
    have P1: "P d1"
      using at_reconcile_ops [OF P snapshot_rows [OF P, where f = "\<lambda>x. op_run x = rid"], of os now stale rid "ru_desired run" ?ags ?chs] m by simp
    have r1: "run_at rid (Some (ru_state run)) d1"
      using keep_run [OF reconcile_ops_run _ m] run by (simp add: run_at_def)
    let ?soft = "\<lambda>d. map (\<lambda>a. SoftRecovery (ag_id a))
            (filter (\<lambda>x. ag_run x = rid \<and> ag_state x = ''SUSPECTED_STALL'') (rows (tb_agents d)))"
    let ?c = "\<lambda>acts soft. (\<exists>a \<in> set (acts @ soft). needs_recovery a) \<and> ru_state run \<in> {''RUNNING'', ''PAUSED''}"
    have rest: "P (snd (bnd (gets ?soft) (\<lambda>soft. andthen
        (if ?c acts soft then andthen (modify (\<lambda>d. d\<lparr>tb_runs := upd_row rid
                  (\<lambda>x. x\<lparr>ru_state := ''RECOVERING'', ru_updated := now\<rparr>) (tb_runs d)\<rparr>))
              (andthen (append_event now rid ty opid est pl) (ret ()))
         else ret ())
      (bnd (lookup w tb own i ow) (\<lambda>r. gets (\<lambda>d. (run_info r d, acts @ soft))))) d1))" for acts ty opid est pl w tb own i ow
      by (intro at at_then at_recovering [OF P1 r1] keeps) auto
    then show "P (snd (bnd ?m (\<lambda>acts. bnd (gets ?soft) (\<lambda>soft. andthen
        (if ?c acts soft then andthen (modify (\<lambda>d. d\<lparr>tb_runs := upd_row rid
                  (\<lambda>x. x\<lparr>ru_state := ''RECOVERING'', ru_updated := now\<rparr>) (tb_runs d)\<rparr>))
              (andthen (append_event now rid ''RECOVERY_STARTED'' None (Some ''RECOVERING'')
                 [(''reason'', JStr ''desired and observed execution state diverged''),
                  (''automatic_replay'', JBool False)]) (ret ()))
         else ret ())
      (bnd (lookup ''run'' tb_runs ru_owner rid None) (\<lambda>r. gets (\<lambda>d. (run_info r d, acts @ soft)))))) d))"
      using m P1 by (auto simp: bnd_run [where m = "reconcile_ops _ _ _ _ _ _ _ _"] split: sum.split)
  qed
qed

end

section \<open>Reachable databases\<close>

text \<open>One call of the service. Reads change nothing and are left out.\<close>

inductive db_step :: "db \<Rightarrow> db \<Rightarrow> bool" where
  CreateRun: "db_step d (snd (create_run now gen owner ws rid key req snap desired d))"
| TransitionRun: "db_step d (snd (transition_run now rid owner st reason res rb d))"
| Capabilities: "db_step d (snd (record_capabilities_used now rid owner caps d))"
| CreateGoal: "db_step d (snd (create_goal now gen rid owner txt crit lims prt bud dl par gid ext md d))"
| UpdateGoal: "db_step d (snd (update_goal now gid owner txt' crit' lims' prt' bud' dl' st' reason md' d))"
| AssignAgent: "db_step d (snd (assign_agent now gen rid owner role tid goal aid st desired md d))"
| UpdateAgent: "db_step d (snd (update_agent now agid owner st' desired' tid goal chat md' hb et d))"
| BindChat: "db_step d (snd (bind_chat now gen rid owner aid prov conv url pj pju title cid st desired md d))"
| UpdateChat: "db_step d (snd (update_chat now chid owner st' desired' md' hb et d))"
| RebindChat: "db_step d (snd (rebind_chat now chid owner conv url prov pj pju reason expd d))"
| Pending: "db_step d (snd (pending_operation_intent now rid owner oid idem sha rkey ctx d))"
| Reserve: "db_step d (snd (reserve_operation_intent now rid owner oid idem sha rkey knd ttl ctx cl d))"
| Begin: "db_step d (snd (begin_machine_effect now oid owner sha rkey token d))"
| CreateOperation: "db_step d (snd (create_operation now gen rid owner knd idem oid' cleanup initial d))"
| UpdateOperation: "db_step d (snd (update_operation now oid owner st' rdy pg et res er rb key tok d))"
| AttachResource: "db_step d (snd (attach_resource now rid owner typ i st opid md d))"
| RegisterArtifact: "db_step d (snd (register_artifact now gen rid owner path sha n mime opid aid ex md d))"
| Checkpoint: "db_step d (snd (checkpoint sz now rid owner data label d))"
| Acquire: "db_step d (snd (acquire_lease now rid owner rkey opid ttl d))"
| Renew: "db_step d (snd (renew_lease now rkey owner token ttl d))"
| Release: "db_step d (snd (release_lease now rkey owner token d))"
| Reconcile: "db_step d (snd (reconcile os now rid owner stale d))"

definition reachable_db :: "db \<Rightarrow> bool" where
  "reachable_db d \<longleftrightarrow> db_step\<^sup>*\<^sup>* empty_db d"

context db_invariant
begin

lemma step_keeps: "db_step d d' \<Longrightarrow> P d \<Longrightarrow> P d'"
  by (induction rule: db_step.induct)
    (erule keepD [rotated], rule create_run_keeps transition_run_keeps capabilities_keeps create_goal_keeps
      update_goal_keeps assign_agent_keeps update_agent_keeps bind_chat_keeps update_chat_keeps
      rebind_chat_keeps pending_keeps reserve_keeps begin_effect_keeps create_operation_keeps
      update_operation_keeps attach_resource_keeps register_artifact_keeps checkpoint_keeps
      acquire_lease_keeps renew_lease_keeps release_lease_keeps reconcile_keeps)+

lemma steps_keep: "db_step\<^sup>*\<^sup>* d d' \<Longrightarrow> P d \<Longrightarrow> P d'"
  by (induction rule: rtranclp_induct) (auto intro: step_keeps)

end

end
