(* ===== verification/Durable_Safety.thy ===== *)
theory Durable_Safety
  imports Durable_Invariants
begin

text \<open>
  The interpretations of \<open>db_invariant\<close>: the operation table, leases and fencing tokens, the
  growth of fences, the event log, idempotency keys, and the paths of operations and runs.
\<close>

section \<open>The operation table\<close>

lemma operation_rows: "list_all (\<lambda>t. t \<in> set operation_states) (row_of operation_transitions s)"
  by (simp add: row_of_def operation_transitions_def operation_states_def)

lemma uncertain_state: "''UNCERTAIN'' \<in> set operation_states"
  by (simp add: operation_states_def)

lemma edge_states: "op_edge s t \<Longrightarrow> s \<in> set operation_states \<Longrightarrow> t \<in> set operation_states"
  using operation_rows [of s] uncertain_state by (auto simp: op_edge_def can_move_def list_all_iff)

lemma starting_state [simp]: "''STARTING'' \<in> set operation_states"
  by (simp add: operation_states_def)

interpretation op_table: db_invariant ops_ok
proof unfold_locales
  fix d i r r' assume "ops_ok d" "dget (tb_ops d) i = Some r" "op_move r r'"
  then show "ops_ok (d\<lparr>tb_ops := dset i r' (tb_ops d)\<rparr>)"
    using edge_states [of "op_state r" "op_state r'"] by (auto simp: ops_ok_def op_move_def)
qed (auto simp: ops_ok_def put_event_def put_run_def grant_lease_def)

lemmas ops_table_steps = op_table.event_step op_table.new_run_step op_table.run_step op_table.new_op_step
  op_table.op_step op_table.reserve_step op_table.resume_step op_table.lease_step op_table.renew_step
  op_table.drop_step op_table.others

lemma ops_ok_empty: "ops_ok empty_db"
  by (simp add: ops_ok_def empty_db_def)

section \<open>Leases and fencing tokens\<close>

text \<open>
  A lease carries the last token given out for its key; the tokens bound to operations of a
  resource are pairwise different and were given out before.
\<close>

definition fences_ok :: "db \<Rightarrow> bool" where
  "fences_ok d \<longleftrightarrow>
     (\<forall>k l. dget (tb_leases d) k = Some l \<longrightarrow> dget (tb_fences d) k = Some (le_token l))
     \<and> (\<forall>i r k t. dget (tb_ops d) i = Some r \<longrightarrow> op_resource r = Some k \<longrightarrow> op_token r = Some t \<longrightarrow>
          (\<exists>f. dget (tb_fences d) k = Some f \<and> t \<le> f))
     \<and> (\<forall>i j r s k t. dget (tb_ops d) i = Some r \<longrightarrow> dget (tb_ops d) j = Some s \<longrightarrow> i \<noteq> j \<longrightarrow>
          op_resource r = Some k \<longrightarrow> op_resource s = Some k \<longrightarrow> op_token r = Some t \<longrightarrow> op_token s \<noteq> Some t)"

lemma fences_okD:
  assumes "fences_ok d"
  shows "dget (tb_leases d) k = Some l \<Longrightarrow> dget (tb_fences d) k = Some (le_token l)"
    "dget (tb_ops d) i = Some r \<Longrightarrow> op_resource r = Some k \<Longrightarrow> op_token r = Some t \<Longrightarrow>
       \<exists>f. dget (tb_fences d) k = Some f \<and> t \<le> f"
    "dget (tb_ops d) i = Some r \<Longrightarrow> dget (tb_ops d) j = Some s \<Longrightarrow> i \<noteq> j \<Longrightarrow> op_resource r = Some k \<Longrightarrow>
       op_resource s = Some k \<Longrightarrow> op_token r = Some t \<Longrightarrow> op_token s \<noteq> Some t"
  using assms unfolding fences_ok_def by blast+

lemma fences_okI:
  assumes "\<And>k l. dget (tb_leases d) k = Some l \<Longrightarrow> dget (tb_fences d) k = Some (le_token l)"
    and "\<And>i r k t. dget (tb_ops d) i = Some r \<Longrightarrow> op_resource r = Some k \<Longrightarrow> op_token r = Some t \<Longrightarrow>
       \<exists>f. dget (tb_fences d) k = Some f \<and> t \<le> f"
    and "\<And>i j r s k t. dget (tb_ops d) i = Some r \<Longrightarrow> dget (tb_ops d) j = Some s \<Longrightarrow> i \<noteq> j \<Longrightarrow>
       op_resource r = Some k \<Longrightarrow> op_resource s = Some k \<Longrightarrow> op_token r = Some t \<Longrightarrow> op_token s \<noteq> Some t"
  shows "fences_ok d"
  using assms unfolding fences_ok_def by blast

text \<open>The next token is above every token given out for the key.\<close>

lemma next_token_fresh:
  assumes "fences_ok d" "dget (tb_ops d) i = Some r" "op_resource r = Some k" "op_token r = Some t"
  shows "t < next_token k d"
  using fences_okD(2) [OF assms] by (auto simp: next_token_def)

lemma next_token_fence: "dget (tb_fences d) k = Some f \<Longrightarrow> f < next_token k d"
  by (simp add: next_token_def)

lemma fences_ok_grant:
  assumes ok: "fences_ok d"
  shows "fences_ok (grant_lease now key rid owner opid ttl (next_token key d) d)"
proof (rule fences_okI)
  let ?d = "grant_lease now key rid owner opid ttl (next_token key d) d"
  fix k l assume "dget (tb_leases ?d) k = Some l"
  with fences_okD(1) [OF ok] show "dget (tb_fences ?d) k = Some (le_token l)"
    by (auto simp: grant_lease_def split: if_splits)
next
  let ?d = "grant_lease now key rid owner opid ttl (next_token key d) d"
  fix i r k t assume r: "dget (tb_ops ?d) i = Some r" "op_resource r = Some k" "op_token r = Some t"
  then have r': "dget (tb_ops d) i = Some r" by (simp add: grant_lease_def)
  from fences_okD(2) [OF ok r' r(2,3)] next_token_fresh [OF ok r' r(2,3)]
  show "\<exists>f. dget (tb_fences ?d) k = Some f \<and> t \<le> f"
    by (auto simp: grant_lease_def)
next
  let ?d = "grant_lease now key rid owner opid ttl (next_token key d) d"
  fix i j r s k t
  assume "dget (tb_ops ?d) i = Some r" "dget (tb_ops ?d) j = Some s" "i \<noteq> j" "op_resource r = Some k"
    "op_resource s = Some k" "op_token r = Some t"
  then show "op_token s \<noteq> Some t"
    using fences_okD(3) [OF ok, of i r j s] by (simp add: grant_lease_def)
qed

text \<open>Binding the next token to an operation of the resource, then granting it.\<close>

lemma fences_ok_bind:
  assumes ok: "fences_ok d" and r: "op_resource r = Some key" "op_token r = Some (next_token key d)"
  shows "fences_ok (grant_lease now key rid owner opid ttl (next_token key d) (d\<lparr>tb_ops := dset i r (tb_ops d)\<rparr>))"
    (is "fences_ok ?d")
proof (rule fences_okI)
  fix k l assume "dget (tb_leases ?d) k = Some l"
  with fences_okD(1) [OF ok] show "dget (tb_fences ?d) k = Some (le_token l)"
    by (auto simp: grant_lease_def split: if_splits)
next
  fix j s k t assume s: "dget (tb_ops ?d) j = Some s" "op_resource s = Some k" "op_token s = Some t"
  show "\<exists>f. dget (tb_fences ?d) k = Some f \<and> t \<le> f"
  proof (cases "j = i")
    case True
    with s r show ?thesis by (auto simp: grant_lease_def)
  next
    case False
    with s have s': "dget (tb_ops d) j = Some s" by (simp add: grant_lease_def)
    from fences_okD(2) [OF ok s' s(2,3)] next_token_fresh [OF ok s' s(2,3)] show ?thesis
      by (auto simp: grant_lease_def)
  qed
next
  fix a b p s k t
  assume *: "dget (tb_ops ?d) a = Some p" "dget (tb_ops ?d) b = Some s" "a \<noteq> b" "op_resource p = Some k"
    "op_resource s = Some k" "op_token p = Some t"
  have old: "op_token x \<noteq> Some (next_token key d)" if "dget (tb_ops d) j = Some x" "op_resource x = Some key" for j x
    using next_token_fresh [OF ok that] by fastforce
  show "op_token s \<noteq> Some t"
  proof (cases "a = i \<or> b = i")
    case True
    with * r old show ?thesis by (auto simp: grant_lease_def)
  next
    case False
    with * fences_okD(3) [OF ok, of a p b s] show ?thesis by (simp add: grant_lease_def)
  qed
qed


text \<open>Only leases, fences and operations matter.\<close>

lemma fences_ok_cong:
  "fences_ok d \<Longrightarrow> tb_leases d' = tb_leases d \<Longrightarrow> tb_fences d' = tb_fences d \<Longrightarrow> tb_ops d' = tb_ops d \<Longrightarrow>
     fences_ok d'"
  by (simp add: fences_ok_def)

lemma fences_ok_insert:
  "fences_ok d \<Longrightarrow> op_token r = None \<Longrightarrow> fences_ok (d\<lparr>tb_ops := dset i r (tb_ops d)\<rparr>)"
  by (rule fences_okI) (auto dest: fences_okD split: if_splits)

lemma moved_from:
  assumes "dget (tb_ops d) i = Some r" "op_move r r'" "dget (tb_ops (d\<lparr>tb_ops := dset i r' (tb_ops d)\<rparr>)) j = Some s"
  shows "\<exists>q. dget (tb_ops d) j = Some q \<and> op_run q = op_run s \<and> op_key q = op_key s
    \<and> op_resource q = op_resource s \<and> op_token q = op_token s"
  using assms by (cases "j = i") (auto simp: op_move_def)

lemma fences_ok_move:
  assumes ok: "fences_ok d" and r: "dget (tb_ops d) i = Some r" and m: "op_move r r'"
  shows "fences_ok (d\<lparr>tb_ops := dset i r' (tb_ops d)\<rparr>)" (is "fences_ok ?d")
proof (rule fences_okI)
  fix k l assume "dget (tb_leases ?d) k = Some l"
  with fences_okD(1) [OF ok] show "dget (tb_fences ?d) k = Some (le_token l)" by simp
next
  fix j s k t assume s: "dget (tb_ops ?d) j = Some s" "op_resource s = Some k" "op_token s = Some t"
  from moved_from [OF r m s(1)] s(2,3) obtain q where "dget (tb_ops d) j = Some q" "op_resource q = Some k" "op_token q = Some t"
    by auto
  from fences_okD(2) [OF ok this] show "\<exists>f. dget (tb_fences ?d) k = Some f \<and> t \<le> f" by simp
next
  fix a b p s k t
  assume *: "dget (tb_ops ?d) a = Some p" "dget (tb_ops ?d) b = Some s" "a \<noteq> b" "op_resource p = Some k"
    "op_resource s = Some k" "op_token p = Some t"
  from moved_from [OF r m *(1)] *(4,6) obtain p0 where p: "dget (tb_ops d) a = Some p0" "op_resource p0 = Some k" "op_token p0 = Some t"
    by auto
  from moved_from [OF r m *(2)] *(5) obtain s0 where q: "dget (tb_ops d) b = Some s0" "op_resource s0 = Some k" "op_token s0 = op_token s"
    by auto
  from fences_okD(3) [OF ok p(1) q(1) *(3) p(2) q(2) p(3)] q(3) show "op_token s \<noteq> Some t" by simp
qed

definition fencing_ok :: "db \<Rightarrow> bool" where
  "fencing_ok d \<longleftrightarrow> ops_ok d \<and> fences_ok d"

interpretation fencing: db_invariant fencing_ok
proof unfold_locales
  fix d key now rid owner opid ttl and r :: op_row
  assume "fencing_ok d" "dget (tb_ops d) (op_id r) = None" "op_state r = ''STARTING''"
    "op_resource r = Some key" "op_token r = Some (next_token key d)"
    "op_by_key (op_run r) (op_key r) d = None" "owned_by_run r d"
  then show "fencing_ok (grant_lease now key rid owner opid ttl (next_token key d)
      (d\<lparr>tb_ops := dset (op_id r) r (tb_ops d)\<rparr>))"
    by (simp add: fencing_ok_def fences_ok_bind op_table.reserve_step)
next
  fix d i key knd now rid owner opid ttl and r :: op_row
  assume "fencing_ok d" "dget (tb_ops d) i = Some r" "op_resource r = Some key" "op_state r = ''QUEUED''"
  then show "fencing_ok (grant_lease now key rid owner opid ttl (next_token key d)
      (d\<lparr>tb_ops := dset i (r\<lparr>op_kind := knd, op_state := ''STARTING'', op_readiness := ''UNKNOWN'',
        op_updated := now, op_heartbeat := now, op_token := Some (next_token key d)\<rparr>) (tb_ops d)\<rparr>))"
    by (simp add: fencing_ok_def fences_ok_bind op_table.resume_step)
next
  fix d now key rid owner opid ttl assume "fencing_ok d"
  then show "fencing_ok (grant_lease now key rid owner opid ttl (next_token key d) d)"
    by (simp add: fencing_ok_def fences_ok_grant op_table.lease_step)
next
  fix d key l u v assume "fencing_ok d" "dget (tb_leases d) key = Some l"
  then show "fencing_ok (d\<lparr>tb_leases := dset key (l\<lparr>le_until := u, le_updated := v\<rparr>) (tb_leases d)\<rparr>)"
    by (auto simp: fencing_ok_def fences_ok_def ops_ok_def)
next
  fix d key assume "fencing_ok d"
  then show "fencing_ok (d\<lparr>tb_leases := ddel key (tb_leases d)\<rparr>)"
    by (auto simp: fencing_ok_def fences_ok_def ops_ok_def)
next
  fix d i r and r' :: op_row assume "fencing_ok d" "dget (tb_ops d) i = Some r" "op_move r r'"
  then show "fencing_ok (d\<lparr>tb_ops := dset i r' (tb_ops d)\<rparr>)"
    by (auto simp: fencing_ok_def intro: op_table.op_step fences_ok_move)
qed (simp_all add: fencing_ok_def fences_ok_insert op_table.new_op_step op_table.event_step
    op_table.new_run_step op_table.run_step op_table.others, simp_all add: fences_ok_def put_event_def put_run_def)

lemma fencing_ok_empty: "fencing_ok empty_db"
  by (simp add: fencing_ok_def ops_ok_empty) (simp add: fences_ok_def empty_db_def)


section \<open>The event log\<close>

text \<open>The events of a run are numbered 1 to the run's counter, in the order they were appended.\<close>

definition run_log :: "string \<Rightarrow> db \<Rightarrow> int list" where
  "run_log i d = map ev_seq (filter (\<lambda>e. ev_run e = i) (tb_events d))"

definition last_seq :: "string \<Rightarrow> db \<Rightarrow> int" where
  "last_seq i d = (case dget (tb_runs d) i of None \<Rightarrow> 0 | Some r \<Rightarrow> ru_seq r)"

definition numbered :: "db \<Rightarrow> bool" where
  "numbered d \<longleftrightarrow> (\<forall>i. 0 \<le> last_seq i d \<and> run_log i d = [1..last_seq i d])"

definition log_ok :: "db \<Rightarrow> bool" where
  "log_ok d \<longleftrightarrow> ops_ok d \<and> numbered d"

lemma numbered_event:
  assumes ok: "numbered d" and r: "dget (tb_runs d) (ev_run e) = Some r" "ev_seq e = ru_seq r + 1"
  shows "numbered (put_event e r d)"
proof -
  have l: "last_seq i (put_event e r d) = (if i = ev_run e then last_seq i d + 1 else last_seq i d)" for i
    using r by (simp add: last_seq_def put_event_def)
  have t: "run_log i (put_event e r d) = run_log i d @ (if i = ev_run e then [last_seq i d + 1] else [])" for i
    using r by (simp add: run_log_def put_event_def last_seq_def)
  have "[1..last_seq i d + 1] = [1..last_seq i d] @ [last_seq i d + 1]" if "0 \<le> last_seq i d" for i
    using that by (simp add: upto_rec2)
  with ok show ?thesis by (simp add: numbered_def l t)
qed

lemma numbered_run:
  "numbered d \<Longrightarrow> last_seq i d = ru_seq r \<Longrightarrow> numbered (d\<lparr>tb_runs := dset i r (tb_runs d)\<rparr>)"
  by (auto simp: numbered_def run_log_def last_seq_def dest: spec [of _ i])

interpretation event_log: db_invariant log_ok
proof unfold_locales
  fix d i r r' assume "log_ok d" "dget (tb_runs d) i = Some r" "run_move r r'"
  then show "log_ok (d\<lparr>tb_runs := dset i r' (tb_runs d)\<rparr>)"
    by (simp add: log_ok_def op_table.run_step numbered_run last_seq_def run_move_def)
next
  fix d and r :: run_row assume "log_ok d" "dget (tb_runs d) (ru_id r) = None" "ru_seq r = 0"
  then show "log_ok (put_run r d)"
    by (simp add: log_ok_def op_table.new_run_step) (simp add: put_run_def numbered_run last_seq_def)
qed (simp_all add: log_ok_def numbered_event ops_table_steps, simp_all add: numbered_def run_log_def last_seq_def
    grant_lease_def)

lemma log_ok_empty: "log_ok empty_db"
  by (simp add: log_ok_def ops_ok_empty) (simp add: numbered_def run_log_def last_seq_def empty_db_def)

section \<open>Idempotency keys\<close>

definition one_per_key :: "db \<Rightarrow> bool" where
  "one_per_key d \<longleftrightarrow>
     (\<forall>i j r s. dget (tb_ops d) i = Some r \<longrightarrow> dget (tb_ops d) j = Some s \<longrightarrow> op_run r = op_run s \<longrightarrow>
        op_key r = op_key s \<longrightarrow> i = j)"

lemma one_per_keyD:
  "one_per_key d \<Longrightarrow> dget (tb_ops d) i = Some r \<Longrightarrow> dget (tb_ops d) j = Some s \<Longrightarrow> op_run r = op_run s \<Longrightarrow>
     op_key r = op_key s \<Longrightarrow> i = j"
  unfolding one_per_key_def by blast

lemma one_per_key_cong: "one_per_key d \<Longrightarrow> tb_ops d' = tb_ops d \<Longrightarrow> one_per_key d'"
  by (simp add: one_per_key_def)

lemma op_by_key_None:
  "op_by_key rid key d = None \<Longrightarrow> dget (tb_ops d) i = Some r \<Longrightarrow> op_run r = rid \<Longrightarrow> op_key r \<noteq> key"
  by (force simp: op_by_key_def rows_def find_None_iff dest: map_of_SomeD)

lemma one_per_key_insert:
  assumes "one_per_key d" "op_by_key (op_run r) (op_key r) d = None"
  shows "one_per_key (d\<lparr>tb_ops := dset i r (tb_ops d)\<rparr>)"
  using one_per_keyD [OF assms(1)] op_by_key_None [OF assms(2)]
  by (auto simp: one_per_key_def split: if_splits) metis+

lemma one_per_key_move:
  assumes "one_per_key d" "dget (tb_ops d) i = Some r" "op_run r' = op_run r" "op_key r' = op_key r"
  shows "one_per_key (d\<lparr>tb_ops := dset i r' (tb_ops d)\<rparr>)"
  using one_per_keyD [OF assms(1)] assms(2-)
  by (auto simp: one_per_key_def split: if_splits)

definition keys_ok :: "db \<Rightarrow> bool" where
  "keys_ok d \<longleftrightarrow> ops_ok d \<and> one_per_key d"

lemma one_per_key_grant: "one_per_key (grant_lease now key rid owner opid ttl t d) = one_per_key d"
  by (simp add: grant_lease_def one_per_key_def)

interpretation idempotency: db_invariant keys_ok
proof unfold_locales
  fix d i r and r' :: op_row assume "keys_ok d" "dget (tb_ops d) i = Some r" "op_move r r'"
  then show "keys_ok (d\<lparr>tb_ops := dset i r' (tb_ops d)\<rparr>)"
    by (auto simp: keys_ok_def op_move_def intro: op_table.op_step one_per_key_move)
next
  fix d i key knd now rid owner opid ttl and r :: op_row
  assume "keys_ok d" "dget (tb_ops d) i = Some r" "op_resource r = Some key" "op_state r = ''QUEUED''"
  then show "keys_ok (grant_lease now key rid owner opid ttl (next_token key d)
      (d\<lparr>tb_ops := dset i (r\<lparr>op_kind := knd, op_state := ''STARTING'', op_readiness := ''UNKNOWN'',
        op_updated := now, op_heartbeat := now, op_token := Some (next_token key d)\<rparr>) (tb_ops d)\<rparr>))"
    by (simp add: keys_ok_def one_per_key_grant op_table.resume_step one_per_key_move)
qed (simp_all add: keys_ok_def ops_table_steps one_per_key_grant one_per_key_insert,
    simp_all add: one_per_key_def put_event_def put_run_def)

lemma keys_ok_empty: "keys_ok empty_db"
  by (simp add: keys_ok_def ops_ok_empty) (simp add: one_per_key_def empty_db_def)

section \<open>Ownership\<close>

definition all_owned :: "db \<Rightarrow> bool" where
  "all_owned d \<longleftrightarrow> (\<forall>i r. dget (tb_ops d) i = Some r \<longrightarrow> owned_by_run r d)"

lemma all_ownedD: "all_owned d \<Longrightarrow> dget (tb_ops d) i = Some r \<Longrightarrow> owned_by_run r d"
  by (simp add: all_owned_def)

lemma owned_runs:
  "owned_by_run r d \<Longrightarrow> dget (tb_runs d) i = None \<or> map_option ru_owner (dget (tb_runs d) i) = Some (ru_owner q) \<Longrightarrow>
     owned_by_run r (d\<lparr>tb_runs := dset i q (tb_runs d)\<rparr>)"
  by (auto simp: owned_by_run_def)

lemma all_owned_run:
  "all_owned d \<Longrightarrow> dget (tb_runs d) i = None \<or> map_option ru_owner (dget (tb_runs d) i) = Some (ru_owner q) \<Longrightarrow>
     all_owned (d\<lparr>tb_runs := dset i q (tb_runs d)\<rparr>)"
  unfolding all_owned_def by (simp add: owned_runs)

lemma all_owned_op:
  "all_owned d \<Longrightarrow> owned_by_run r d \<Longrightarrow> all_owned (d\<lparr>tb_ops := dset i r (tb_ops d)\<rparr>)"
  by (simp add: all_owned_def owned_by_run_def)

lemma all_owned_cong:
  "all_owned d \<Longrightarrow> tb_ops d' = tb_ops d \<Longrightarrow> tb_runs d' = tb_runs d \<Longrightarrow> all_owned d'"
  by (simp add: all_owned_def owned_by_run_def)

lemma all_owned_grant: "all_owned (grant_lease now key rid owner opid ttl t d) = all_owned d"
  by (simp add: grant_lease_def all_owned_def owned_by_run_def)

definition owners_ok :: "db \<Rightarrow> bool" where
  "owners_ok d \<longleftrightarrow> ops_ok d \<and> all_owned d"

interpretation ownership: db_invariant owners_ok
proof unfold_locales
  fix d r and e :: event assume "owners_ok d" "dget (tb_runs d) (ev_run e) = Some r" "ev_seq e = ru_seq r + 1"
  then show "owners_ok (put_event e r d)"
    by (simp add: owners_ok_def op_table.event_step)
      (fastforce simp: put_event_def all_owned_def owned_by_run_def)
next
  fix d and r :: run_row assume "owners_ok d" "dget (tb_runs d) (ru_id r) = None" "ru_seq r = 0"
  then show "owners_ok (put_run r d)"
    by (simp add: owners_ok_def op_table.new_run_step) (simp add: put_run_def all_owned_run)
next
  fix d i r r' assume "owners_ok d" "dget (tb_runs d) i = Some r" "run_move r r'"
  then show "owners_ok (d\<lparr>tb_runs := dset i r' (tb_runs d)\<rparr>)"
    by (simp add: owners_ok_def op_table.run_step all_owned_run run_move_def)
next
  fix d i r and r' :: op_row assume a: "owners_ok d" "dget (tb_ops d) i = Some r" "op_move r r'"
  then have "owned_by_run r' d"
    using all_ownedD [of d i r] by (simp add: owners_ok_def owned_by_run_def op_move_def)
  with a show "owners_ok (d\<lparr>tb_ops := dset i r' (tb_ops d)\<rparr>)"
    by (auto simp: owners_ok_def all_owned_op intro: op_table.op_step)
next
  fix d i key knd now rid owner opid ttl and r :: op_row
  assume a: "owners_ok d" "dget (tb_ops d) i = Some r" "op_resource r = Some key" "op_state r = ''QUEUED''"
  let ?r = "r\<lparr>op_kind := knd, op_state := ''STARTING'', op_readiness := ''UNKNOWN'',
        op_updated := now, op_heartbeat := now, op_token := Some (next_token key d)\<rparr>"
  from a have "owned_by_run ?r d"
    using all_ownedD [of d i r] by (simp add: owners_ok_def owned_by_run_def)
  with a show "owners_ok (grant_lease now key rid owner opid ttl (next_token key d)
      (d\<lparr>tb_ops := dset i ?r (tb_ops d)\<rparr>))"
    by (simp add: owners_ok_def all_owned_grant op_table.resume_step all_owned_op)
qed (simp_all add: owners_ok_def ops_table_steps all_owned_grant all_owned_op,
    simp_all add: all_owned_def owned_by_run_def)

lemma owners_ok_empty: "owners_ok empty_db"
  by (simp add: owners_ok_def ops_ok_empty) (simp add: all_owned_def empty_db_def)

section \<open>What may become of a state\<close>

definition op_past :: "op_row \<Rightarrow> op_row \<Rightarrow> bool" where
  "op_past r r' \<longleftrightarrow> op_run r' = op_run r \<and> op_owner r' = op_owner r \<and> op_key r' = op_key r
     \<and> op_intent r' = op_intent r \<and> op_resource r' = op_resource r
     \<and> op_edge\<^sup>*\<^sup>* (op_state r) (op_state r')"

definition run_past :: "run_row \<Rightarrow> run_row \<Rightarrow> bool" where
  "run_past r r' \<longleftrightarrow> ru_owner r' = ru_owner r \<and> ru_key r' = ru_key r \<and> ru_seq r \<le> ru_seq r'
     \<and> (can_move (row_of run_transitions))\<^sup>*\<^sup>* (ru_state r) (ru_state r')"

text \<open>Every row of the earlier state is found in the later one, related to it.\<close>

definition tracks :: "('v \<Rightarrow> 'v \<Rightarrow> bool) \<Rightarrow> (string \<times> 'v) list \<Rightarrow> (string \<times> 'v) list \<Rightarrow> bool" where
  "tracks R t t' \<longleftrightarrow> (\<forall>i r. dget t i = Some r \<longrightarrow> (\<exists>r'. dget t' i = Some r' \<and> R r r'))"

lemma tracks_refl: "(\<And>r. R r r) \<Longrightarrow> tracks R t t"
  by (simp add: tracks_def)

lemma tracks_insert: "tracks R t t' \<Longrightarrow> dget t' i = None \<Longrightarrow> tracks R t (dset i r t')"
  unfolding tracks_def by (metis dget_dset option.distinct(1))

lemma tracks_update:
  "tracks R t t' \<Longrightarrow> dget t' i = Some r \<Longrightarrow> (\<And>q. R q r \<Longrightarrow> R q r') \<Longrightarrow> tracks R t (dset i r' t')"
  unfolding tracks_def by (metis dget_dset option.inject)

lemma tracksD: "tracks R t t' \<Longrightarrow> dget t i = Some r \<Longrightarrow> \<exists>r'. dget t' i = Some r' \<and> R r r'"
  by (simp add: tracks_def)

lemma op_past_move: "op_past q r \<Longrightarrow> op_move r r' \<Longrightarrow> op_past q r'"
  by (auto simp: op_past_def op_move_def)

lemma run_past_move: "run_past q r \<Longrightarrow> run_move r r' \<Longrightarrow> run_past q r'"
  by (auto simp: run_past_def run_move_def)

definition follows :: "db \<Rightarrow> db \<Rightarrow> bool" where
  "follows d0 d \<longleftrightarrow> tracks op_past (tb_ops d0) (tb_ops d) \<and> tracks run_past (tb_runs d0) (tb_runs d)
     \<and> tracks (\<le>) (tb_fences d0) (tb_fences d) \<and> (\<exists>es. tb_events d = tb_events d0 @ es)"

lemma follows_ops: "follows d0 d \<Longrightarrow> tracks op_past (tb_ops d0) (tb_ops d)"
  by (simp add: follows_def)

lemma follows_refl: "follows d d"
  by (simp add: follows_def tracks_refl op_past_def run_past_def)

lemma tracks_fence:
  assumes "tracks (\<le>) (tb_fences d0) (tb_fences d)"
  shows "tracks (\<le>) (tb_fences d0) (dset key (next_token key d) (tb_fences d))"
proof (cases "dget (tb_fences d) key")
  case None
  with assms show ?thesis by (rule tracks_insert)
next
  case (Some f)
  show ?thesis using next_token_fence [OF Some] by (intro tracks_update [OF assms Some]) simp
qed

lemma follows_grant:
  assumes "follows d0 d" "tracks op_past (tb_ops d0) t"
  shows "follows d0 (grant_lease now key rid owner opid ttl (next_token key d) (d\<lparr>tb_ops := t\<rparr>))"
  using assms by (simp add: follows_def grant_lease_def tracks_fence)

lemma follows_grant_only:
  "follows d0 d \<Longrightarrow> follows d0 (grant_lease now key rid owner opid ttl (next_token key d) d)"
  by (simp add: follows_def grant_lease_def tracks_fence)

definition onward :: "db \<Rightarrow> db \<Rightarrow> bool" where
  "onward d0 d \<longleftrightarrow> ops_ok d \<and> follows d0 d"

lemma onward_run:
  assumes "follows d0 d" "dget (tb_runs d) i = Some r" "\<And>q. run_past q r \<Longrightarrow> run_past q r'"
  shows "follows d0 (d\<lparr>tb_runs := dset i r' (tb_runs d)\<rparr>)"
  using assms by (auto simp: follows_def intro: tracks_update)

interpretation onward: db_invariant "onward d0" for d0
proof unfold_locales
  fix d r and e :: event assume "onward d0 d" "dget (tb_runs d) (ev_run e) = Some r" "ev_seq e = ru_seq r + 1"
  then show "onward d0 (put_event e r d)"
    by (simp add: onward_def op_table.event_step)
      (auto simp: follows_def put_event_def run_past_def intro!: tracks_update)
next
  fix d and r :: run_row assume "onward d0 d" "dget (tb_runs d) (ru_id r) = None" "ru_seq r = 0"
  then show "onward d0 (put_run r d)"
    by (simp add: onward_def op_table.new_run_step) (simp add: follows_def put_run_def tracks_insert)
next
  fix d i r and r' :: run_row assume "onward d0 d" "dget (tb_runs d) i = Some r" "run_move r r'"
  then show "onward d0 (d\<lparr>tb_runs := dset i r' (tb_runs d)\<rparr>)"
    by (simp add: onward_def op_table.run_step) (auto intro: onward_run run_past_move)
next
  fix d i r and r' :: op_row assume "onward d0 d" "dget (tb_ops d) i = Some r" "op_move r r'"
  then show "onward d0 (d\<lparr>tb_ops := dset i r' (tb_ops d)\<rparr>)"
    by (simp add: onward_def op_table.op_step) (auto simp: follows_def intro: tracks_update op_past_move)
next
  fix d key now rid owner opid ttl and r :: op_row
  assume "onward d0 d" "dget (tb_ops d) (op_id r) = None" "op_state r = ''STARTING''"
    "op_resource r = Some key" "op_token r = Some (next_token key d)" "op_by_key (op_run r) (op_key r) d = None" "owned_by_run r d"
  then show "onward d0 (grant_lease now key rid owner opid ttl (next_token key d)
      (d\<lparr>tb_ops := dset (op_id r) r (tb_ops d)\<rparr>))"
    by (simp add: onward_def op_table.reserve_step)
      (auto intro: follows_grant tracks_insert follows_ops)
next
  fix d i key knd now rid owner opid ttl and r :: op_row
  assume a: "onward d0 d" "dget (tb_ops d) i = Some r" "op_resource r = Some key" "op_state r = ''QUEUED''"
  have "op_edge ''QUEUED'' ''STARTING''"
    by (simp add: op_edge_def can_move_def row_of_def operation_transitions_def)
  then have "op_past q (r\<lparr>op_kind := knd, op_state := ''STARTING'', op_readiness := ''UNKNOWN'',
      op_updated := now, op_heartbeat := now, op_token := Some (next_token key d)\<rparr>)" if "op_past q r" for q
    using that a(4) by (auto simp: op_past_def)
  with a show "onward d0 (grant_lease now key rid owner opid ttl (next_token key d)
      (d\<lparr>tb_ops := dset i (r\<lparr>op_kind := knd, op_state := ''STARTING'', op_readiness := ''UNKNOWN'',
        op_updated := now, op_heartbeat := now, op_token := Some (next_token key d)\<rparr>) (tb_ops d)\<rparr>))"
    by (simp add: onward_def op_table.resume_step) (auto intro: follows_grant tracks_update follows_ops)
qed (simp_all add: onward_def ops_table_steps follows_grant_only, simp_all add: follows_def tracks_insert)

lemma reachable_onward:
  assumes "reachable_db d0" "db_step\<^sup>*\<^sup>* d0 d"
  shows "fencing_ok d0" "fencing_ok d" "log_ok d" "keys_ok d" "follows d0 d" "owners_ok d"
proof -
  have d: "db_step\<^sup>*\<^sup>* empty_db d0" "db_step\<^sup>*\<^sup>* empty_db d"
    using assms by (auto simp: reachable_db_def)
  show "fencing_ok d0" "fencing_ok d" using d fencing.steps_keep fencing_ok_empty by blast+
  show "log_ok d" using d(2) event_log.steps_keep log_ok_empty by blast
  show "keys_ok d" using d(2) idempotency.steps_keep keys_ok_empty by blast
  show "owners_ok d" using d(2) ownership.steps_keep owners_ok_empty by blast
  have "ops_ok d0" using d(1) op_table.steps_keep ops_ok_empty by blast
  then have "onward d0 d0" by (simp add: onward_def follows_refl)
  with assms(2) have "onward d0 d" by (rule onward.steps_keep)
  then show "follows d0 d" by (simp add: onward_def)
qed

end
