(* ===== verification/Durable_Properties.thy ===== *)
theory Durable_Properties
  imports Durable_Safety
begin

text \<open>
  The properties of the durable runtime, each with an application at a concrete database.
\<close>

section \<open>Concrete databases\<close>

definition running_db :: db where
  "running_db = snd (create_run 10 ''g1'' ''alice'' None (Some ''run-1'') (Some ''k1'') [''machine''] [] ''RUNNING'' empty_db)"

definition leased_db :: db where
  "leased_db = snd (acquire_lease 20 ''run-1'' ''alice'' ''desktop'' None 60 running_db)"

definition digest64 :: string where
  "digest64 = replicate 64 CHR ''a''"

definition reserved_db :: db where
  "reserved_db = snd (reserve_operation_intent 100 ''run-1'' ''alice'' ''op-1'' ''click'' digest64 ''desktop''
     ''sentra.machine.click'' 60 [] False leased_db)"

definition effect_db :: db where
  "effect_db = snd (begin_machine_effect 102 ''op-1'' ''alice'' digest64 ''desktop'' 2
     (snd (update_operation 101 ''op-1'' ''alice'' (Some ''RUNNING'') None None ''OPERATION_UPDATED''
        None None None (Some ''desktop'') (Some 2) reserved_db)))"

lemma reach_running: "reachable_db running_db"
  unfolding reachable_db_def running_db_def by (rule r_into_rtranclp) (rule db_step.CreateRun)

lemma reach_step: "reachable_db d \<Longrightarrow> db_step d d' \<Longrightarrow> reachable_db d'"
  unfolding reachable_db_def by (rule rtranclp.rtrancl_into_rtrancl)

lemma reach_leased: "reachable_db leased_db"
  unfolding leased_db_def by (rule reach_step [OF reach_running db_step.Acquire])

lemma step_reserved: "db_step leased_db reserved_db"
  unfolding reserved_db_def by (rule db_step.Reserve)

lemma reach_reserved: "reachable_db reserved_db"
  by (rule reach_step [OF reach_leased step_reserved])

lemma reach_effect: "reachable_db effect_db"
  unfolding effect_db_def
  by (rule reach_step [OF reach_step [OF reach_reserved db_step.UpdateOperation] db_step.Begin])

lemma two_steps: "db_step\<^sup>*\<^sup>* reserved_db effect_db"
  unfolding effect_db_def
  by (rule rtranclp.rtrancl_into_rtrancl [OF r_into_rtranclp [where r = db_step, OF db_step.UpdateOperation] db_step.Begin])

lemma sample_states:
  "map op_state (rows (tb_ops reserved_db)) = [''STARTING'']"
  "map (\<lambda>r. (op_state r, effect_started r)) (rows (tb_ops effect_db)) = [(''RUNNING'', True)]"
  by code_simp+

section \<open>Inversion of successful calls\<close>

lemma lookup_Inr:
  "bnd (lookup what tb own i owner) f d = (Inr x, d') \<longleftrightarrow>
     (\<exists>r. dget (tb d) i = Some r \<and> (owner \<noteq> None \<longrightarrow> own r = the owner) \<and> f r d = (Inr x, d'))"
  by (auto simp: bnd_run lookup_def split: option.split)

lemma lookup_then_Inr:
  "andthen (lookup what tb own i owner) n d = (Inr x, d') \<longleftrightarrow>
     (\<exists>r. dget (tb d) i = Some r \<and> (owner \<noteq> None \<longrightarrow> own r = the owner) \<and> n d = (Inr x, d'))"
  by (auto simp: andthen_run lookup_def split: option.split)

lemma verify_Inr:
  "andthen (verify_fence now (Some key) (Some t)) n d = (Inr x, d') \<longleftrightarrow>
     key \<noteq> [] \<and> (\<exists>l. dget (tb_leases d) key = Some l \<and> le_token l = t \<and> now < le_until l) \<and> n d = (Inr x, d')"
  by (auto simp: verify_fence_def andthen_run bnd_run filled_def split: option.split)

lemmas call_Inr = require_Inr lift_sum_Inr lookup_Inr lookup_then_Inr gets_Inr verify_Inr

lemma acquire_granted:
  assumes "acquire_lease now rid owner key0 opid ttl d = (Inr (l, False), d')"
  shows "le_token l = next_token (le_key l) d" "dget (tb_fences d') (le_key l) = Some (le_token l)"
    "dget (tb_leases d') (le_key l) = Some l" "le_until l = now + ttl" "1 \<le> ttl"
proof -
  have "\<exists>key. 1 \<le> ttl \<and> grant now key rid owner opid ttl (next_token key d) d = (Inr (l, False), d')"
    using assms unfolding acquire_lease_def row_defs
    by (auto simp: call_Inr split: option.splits if_splits)
  then obtain key where ttl: "1 \<le> ttl" and
    g: "grant now key rid owner opid ttl (next_token key d) d = (Inr (l, False), d')" by blast
  show "le_token l = next_token (le_key l) d" "dget (tb_fences d') (le_key l) = Some (le_token l)"
    "dget (tb_leases d') (le_key l) = Some l" "le_until l = now + ttl" "1 \<le> ttl"
    using g ttl by (auto simp: grant_def andthen_run append_event_def row_defs lookup_def bnd_run Let_def
        grant_lease_def split: option.splits)
qed

lemma stale_verify:
  assumes "fences_ok d" "dget (tb_fences d) key = Some f" "t < f"
  shows "\<exists>e. verify_fence now (Some key) (Some t) d = (Inl e, d)"
proof (cases "dget (tb_leases d) key")
  case None
  then show ?thesis by (simp add: verify_fence_def bnd_run)
next
  case (Some l)
  with fences_okD(1) [OF assms(1) Some] assms(2,3) show ?thesis by (simp add: verify_fence_def bnd_run)
qed

lemma later_fence:
  assumes "follows d0 d" "dget (tb_fences d0) key = Some f"
  shows "\<exists>g. dget (tb_fences d) key = Some g \<and> f \<le> g"
proof -
  have "tracks (\<le>) (tb_fences d0) (tb_fences d)" using assms(1) by (simp add: follows_def)
  from tracksD [OF this assms(2)] show ?thesis by blast
qed

section \<open>Fencing\<close>

text \<open>
  fencing tokens increase: a lease granted at any later state has a token above that of
  every lease of the resource seen before and of every operation bound to the resource before,
  and is the lease the table then holds.
\<close>

theorem fencing_tokens_increase:
  assumes "reachable_db d0" "db_step\<^sup>*\<^sup>* d0 d"
    and "acquire_lease now rid owner key opid ttl d = (Inr (l, False), d')"
  shows "(\<forall>l0. dget (tb_leases d0) (le_key l) = Some l0 \<longrightarrow> le_token l0 < le_token l)
    \<and> (\<forall>i r t. dget (tb_ops d0) i = Some r \<longrightarrow> op_resource r = Some (le_key l) \<longrightarrow> op_token r = Some t \<longrightarrow> t < le_token l)
    \<and> dget (tb_leases d') (le_key l) = Some l"
proof -
  note f0 = reachable_onward(1) [OF assms(1,2), unfolded fencing_ok_def, THEN conjunct2]
  have up: "f < le_token l" if "dget (tb_fences d0) (le_key l) = Some f" for f
    using later_fence [OF reachable_onward(5) [OF assms(1,2)] that] next_token_fence [of d "le_key l"]
    by (auto simp: acquire_granted(1) [OF assms(3)])
  have "le_token l0 < le_token l" if "dget (tb_leases d0) (le_key l) = Some l0" for l0
    using fences_okD(1) [OF f0 that] up by blast
  moreover have "t < le_token l"
    if "dget (tb_ops d0) i = Some r" "op_resource r = Some (le_key l)" "op_token r = Some t" for i r t
    using fences_okD(2) [OF f0 that] up by fastforce
  ultimately show ?thesis using acquire_granted(3) [OF assms(3)] by blast
qed

theorem fencing_tokens_increase_witness:
  "\<exists>l. fst (acquire_lease 100 ''run-1'' ''alice'' ''desktop'' None 60 leased_db) = Inr (l, False) \<and> 1 < le_token l"
proof -
  let ?c = "acquire_lease 100 ''run-1'' ''alice'' ''desktop'' None 60 leased_db"
  have c: "fst ?c = Inr (\<lparr>le_key = ''desktop'', le_run = ''run-1'', le_op = None, le_owner = ''alice'',
      le_token = 2, le_until = 160, le_updated = 100\<rparr>, False)"
    by code_simp
  then obtain l where l: "fst ?c = Inr (l, False)" "le_key l = ''desktop''" by auto
  then have "?c = (Inr (l, False), snd ?c)" by (metis prod.collapse)
  moreover have "map_option le_token (dget (tb_leases leased_db) ''desktop'') = Some 1" by code_simp
  ultimately show ?thesis
    using fencing_tokens_increase [OF reach_leased rtranclp.rtrancl_refl, of 100] l by fastforce
qed

text \<open>
  C1: once a resource has been leased again, the holder of an older token changes nothing
  any more: every guarded update of an operation and every start of a physical effect with the
  older token is refused and leaves the database as it was, at every later state.
\<close>

theorem superseded_token_is_refused:
  assumes "reachable_db d0" "acquire_lease now0 rid owner0 key0 opid ttl d0 = (Inr (l, False), d1)"
    and "db_step\<^sup>*\<^sup>* d1 d2" "t < le_token l"
  shows "(\<exists>e. update_operation now oid owner st rdy pg et res er rb (Some (le_key l)) (Some t) d2 = (Inl e, d2))
    \<and> (\<exists>e. begin_machine_effect now oid owner sha (le_key l) t d2 = (Inl e, d2))"
proof -
  have "db_step d0 d1" using db_step.Acquire [of d0 now0 rid owner0 key0 opid ttl] assms(2) by simp
  with assms(1) have d1: "reachable_db d1" by (rule reach_step)
  note after = reachable_onward [OF d1 assms(3)]
  obtain g where g: "dget (tb_fences d2) (le_key l) = Some g" "le_token l \<le> g"
    using later_fence [OF after(5) acquire_granted(2) [OF assms(2)]] by blast
  obtain e where e: "verify_fence now (Some (le_key l)) (Some t) d2 = (Inl e, d2)"
    using stale_verify [OF _ g(1), of t now] after(2) g(2) assms(4) by (auto simp: fencing_ok_def)
  have "\<exists>e. update_operation now oid owner st rdy pg et res er rb (Some (le_key l)) (Some t) d2 = (Inl e, d2)"
    unfolding update_operation_def require_def by (simp add: andthen_run e)
  moreover have "begin_machine_effect now oid owner sha (le_key l) t d2 = (Inl e, d2)"
    unfolding begin_machine_effect_def by (simp add: atomically_def andthen_run bnd_run e)
  ultimately show ?thesis by blast
qed

definition second_lease :: lease_row where
  "second_lease = \<lparr>le_key = ''desktop'', le_run = ''run-1'', le_op = None, le_owner = ''alice'',
      le_token = 3, le_until = 260, le_updated = 200\<rparr>"

lemma leased_again:
  "acquire_lease 200 ''run-1'' ''alice'' ''desktop'' None 60 effect_db =
     (Inr (second_lease, False), snd (acquire_lease 200 ''run-1'' ''alice'' ''desktop'' None 60 effect_db))"
  (is "?c = _")
proof -
  have "fst ?c = Inr (second_lease, False)" by code_simp
  then show ?thesis by (metis prod.collapse)
qed

theorem superseded_token_is_refused_witness:
  "\<exists>e. update_operation 210 ''op-1'' ''alice'' (Some ''SUCCEEDED'') None None ''OPERATION_UPDATED'' None None None
      (Some ''desktop'') (Some 2) (snd (acquire_lease 200 ''run-1'' ''alice'' ''desktop'' None 60 effect_db))
     = (Inl e, snd (acquire_lease 200 ''run-1'' ''alice'' ''desktop'' None 60 effect_db))"
  using superseded_token_is_refused [OF reach_effect leased_again rtranclp.rtrancl_refl,
      of 2 210 "''op-1''" "''alice''" "Some ''SUCCEEDED''" None None "''OPERATION_UPDATED''" None None None]
  by (simp add: second_lease_def)

lemma atomically_bnd_Inr:
  "bnd (atomically m) f d = (Inr x, d') \<longleftrightarrow> (\<exists>a d1. m d = (Inr a, d1) \<and> f a d1 = (Inr x, d'))"
  by (auto simp: bnd_run atomically_def split: prod.split sum.split)

lemma event_ops: "append_event now rid typ opid st pl d = (x, d') \<Longrightarrow> tb_ops d' = tb_ops d"
  by (auto simp: append_event_def row_defs lookup_def bnd_run andthen_run Let_def split: option.splits)

lemma event_if_ops:
  "(if b then ret () else andthen (append_event now rid typ opid st pl) (ret ())) d = (x, d') \<Longrightarrow> tb_ops d' = tb_ops d"
  by (auto simp: andthen_run split: if_splits prod.splits sum.splits dest: event_ops)

lemma atomically_lookup_Inr:
  "bnd (atomically m) (\<lambda>_. lookup what tb own i owner) d = (Inr r, d') \<Longrightarrow>
     (\<exists>a. m d = (Inr a, d')) \<and> dget (tb d') i = Some r"
  by (auto simp: atomically_bnd_Inr lookup_def split: option.splits if_splits)

lemma begin_effect_Inr:
  assumes "begin_machine_effect now oid owner sha key token d = (Inr r, d')"
  shows "\<exists>q l. dget (tb_ops d) oid = Some q \<and> op_resource q = Some key \<and> op_token q = Some token
      \<and> op_state q = ''RUNNING'' \<and> op_intent q = Some sha \<and> op_owner q = owner
      \<and> dget (tb_leases d) key = Some l \<and> le_token l = token \<and> now < le_until l \<and> le_op l = Some oid
      \<and> r = q\<lparr>op_progress := dset ''effect_boundary'' (JStr ''central-os-lock-v1'')
               (dset ''effect_started'' (JBool True) (op_progress q)), op_updated := now, op_heartbeat := now\<rparr>"
  using assms unfolding begin_machine_effect_def row_defs
  apply -
  apply (drule atomically_lookup_Inr, elim conjE exE)
  apply (simp only: call_Inr andthen_modify option.sel, elim exE conjE, drule event_if_ops)
  apply (auto split: option.splits)
  done

text \<open>
  C3: a physical effect starts only for the newest operation of its resource: when
  \<open>begin_machine_effect\<close> succeeds, the operation's token is that of the resource's unexpired
  lease, the lease names the operation, and every other operation bound to the resource has a
  smaller token.
\<close>

theorem effect_starts_for_the_newest_token:
  assumes "reachable_db d" "begin_machine_effect now oid owner sha key token d = (Inr r, d')"
  shows "(\<exists>l. dget (tb_leases d) key = Some l \<and> le_token l = token \<and> now < le_until l \<and> le_op l = Some oid)
    \<and> (\<forall>j s t. dget (tb_ops d) j = Some s \<longrightarrow> j \<noteq> oid \<longrightarrow> op_resource s = Some key \<longrightarrow> op_token s = Some t \<longrightarrow> t < token)
    \<and> effect_started r \<and> op_state r = ''RUNNING''"
proof -
  obtain q l where q: "dget (tb_ops d) oid = Some q" "op_resource q = Some key" "op_token q = Some token"
    and l: "dget (tb_leases d) key = Some l" "le_token l = token" "now < le_until l" "le_op l = Some oid"
    and r: "effect_started r" "op_state r = ''RUNNING''"
    using begin_effect_Inr [OF assms(2)] by (auto simp: effect_started_def)
  have ok: "fences_ok d"
    using reachable_onward(1) [OF assms(1) rtranclp.rtrancl_refl] by (simp add: fencing_ok_def)
  have "t < token" if s: "dget (tb_ops d) j = Some s" "j \<noteq> oid" "op_resource s = Some key" "op_token s = Some t" for j s t
  proof -
    have "t \<le> token" using fences_okD(2) [OF ok s(1,3,4)] fences_okD(1) [OF ok l(1)] l(2) by auto
    moreover have "t \<noteq> token"
      using fences_okD(3) [OF ok s(1) q(1) s(2,3) q(2) s(4)] q(3) by auto
    ultimately show ?thesis by simp
  qed
  with l r show ?thesis by blast
qed

theorem effect_starts_for_the_newest_token_witness:
  "\<exists>r. fst (begin_machine_effect 103 ''op-1'' ''alice'' digest64 ''desktop'' 2 effect_db) = Inr r \<and> effect_started r"
proof -
  let ?c = "begin_machine_effect 103 ''op-1'' ''alice'' digest64 ''desktop'' 2 effect_db"
  have "\<exists>r. fst ?c = Inr r"
  proof -
    have "(case fst ?c of Inl e \<Rightarrow> False | Inr r \<Rightarrow> True)" by code_simp
    then show ?thesis by (auto split: sum.splits)
  qed
  then obtain r where r: "fst ?c = Inr r" by blast
  then have "?c = (Inr r, snd ?c)" by (metis prod.collapse)
  from effect_starts_for_the_newest_token [OF reach_effect this] r show ?thesis by blast
qed

section \<open>Leases\<close>

lemma held_acquire:
  assumes "dget (tb_leases d) key = Some l" "now < le_until l" "validate_id ''resource_key'' key0 = Inr key"
    "(owner, rid, opid) \<noteq> (le_owner l, le_run l, le_op l)"
  shows "\<exists>e. acquire_lease now rid owner key0 opid ttl d = (Inl e, d)"
  using assms
  by (auto simp: acquire_lease_def require_def lift_sum_def row_defs lookup_def bnd_run andthen_run split: option.split)

text \<open>A reservation is granted on a free resource without an unresolved effect, for a key not
  used before or used by a pending intent, and leaves the operation in STARTING.\<close>

lemma reserved_Inr:
  assumes "reserve_operation_intent now rid owner oid0 idem0 sha key0 knd0 ttl ctx cl d = (Inr (''RESERVED'', t), d')"
  shows "\<exists>key oid. validate_id ''resource_key'' key0 = Inr key \<and> validate_id ''operation_id'' oid0 = Inr oid
    \<and> \<not> unresolved_effect key d \<and> (\<forall>l. dget (tb_leases d) key = Some l \<longrightarrow> le_until l \<le> now)
    \<and> map_option ru_owner (dget (tb_runs d) rid) = Some owner
    \<and> (\<forall>r. op_by_key rid (py_strip idem0) d = Some r \<longrightarrow> is_pending r \<and> op_id r = oid)
    \<and> fst (start_reserved now rid owner oid (py_strip idem0) sha key (py_strip knd0) ctx
         (op_by_key rid (py_strip idem0) d \<noteq> None) t d) = Inr ()
    \<and> tb_ops d' = tb_ops (snd (start_reserved now rid owner oid (py_strip idem0) sha key (py_strip knd0) ctx
         (op_by_key rid (py_strip idem0) d \<noteq> None) t d))
    \<and> t = next_token key d"
  using assms unfolding reserve_operation_intent_def row_defs Let_def
  apply (simp only: call_Inr atomically_Inr prod.case, elim exE conjE)
  apply (simp only: if_Inr call_Inr throw_Inr ret_Inr then_Inr [where m = "start_reserved _ _ _ _ _ _ _ _ _ _ _"]
      then_Inr [where m = "append_event _ _ _ _ _ _"] andthen_modify prod.case prod.inject)
  apply (elim exE conjE disjE)
   apply simp
  apply (auto simp: grant_lease_def dest!: event_ops split: option.splits)
  done

text \<open>Calls that raise only before they write, or inside a transaction.\<close>

definition refusing :: "('s, 'a) sx \<Rightarrow> bool" where
  "refusing m \<longleftrightarrow> (\<forall>s e s'. m s = (Inl e, s') \<longrightarrow> s' = s)"

lemma refusing_atomically: "refusing (atomically m)"
  by (auto simp: refusing_def atomically_def split: prod.splits sum.splits)

lemma refusing_lift: "(\<And>a. refusing (f a)) \<Longrightarrow> refusing (bnd (lift_sum r) f)"
  by (auto simp: refusing_def bnd_run lift_sum_def split: sum.splits)

lemma refusing_require: "refusing m \<Longrightarrow> refusing (andthen (require b e) m)"
  by (auto simp: refusing_def andthen_run require_def)

lemmas refusing_rules = refusing_atomically refusing_lift refusing_require

lemma reserve_refuses: "refusing (reserve_operation_intent now rid owner oid0 idem0 sha key0 knd0 ttl ctx cl)"
  unfolding reserve_operation_intent_def Let_def by (intro refusing_rules)

text \<open>What a reservation that returns has found: a known intent, or a free resource.\<close>

lemma reserve_Inr:
  assumes "reserve_operation_intent now rid owner oid0 idem0 sha key0 knd0 ttl ctx cl d = (Inr x, d')"
    and "dget (tb_leases d) key = Some l" "now < le_until l" "validate_id ''resource_key'' key0 = Inr key"
  shows "\<exists>r. op_by_key rid (py_strip idem0) d = Some r \<and> \<not> is_pending r \<and> x = (''EXISTING'', the (op_token r)) \<and> d' = d"
proof (cases "op_by_key rid (py_strip idem0) d")
  case None
  then show ?thesis
    using assms unfolding reserve_operation_intent_def row_defs Let_def
    apply (simp only: call_Inr atomically_Inr prod.case, elim exE conjE)
    apply (simp add: if_Inr call_Inr)
    done
next
  case (Some r)
  then show ?thesis
    using assms unfolding reserve_operation_intent_def row_defs Let_def
    apply (simp only: call_Inr atomically_Inr prod.case, elim exE conjE)
    apply (cases "is_pending r")
    apply (simp_all add: if_Inr call_Inr split: if_splits)
    done
qed
text \<open>
  C8: an unexpired lease is its holder's alone: another owner, run or operation cannot acquire the
  resource; a reservation on it, by anyone, raises or is answered from the recorded intent
  (EXISTING, with the token of that operation); renewing or releasing it with another owner or
  token raises. In each of these cases the database is left as it was.
\<close>

theorem unexpired_lease_is_exclusive:
  assumes "dget (tb_leases d) key = Some l" "now < le_until l" "validate_id ''resource_key'' key0 = Inr key"
  shows "((owner, rid, opid) \<noteq> (le_owner l, le_run l, le_op l) \<longrightarrow>
           (\<exists>e. acquire_lease now rid owner key0 opid ttl d = (Inl e, d)))
    \<and> ((\<exists>e. reserve_operation_intent now rid owner oid idem sha key0 knd ttl ctx cl d = (Inl e, d))
       \<or> (\<exists>r. op_by_key rid (py_strip idem) d = Some r \<and> \<not> is_pending r
           \<and> reserve_operation_intent now rid owner oid idem sha key0 knd ttl ctx cl d = (Inr (''EXISTING'', the (op_token r)), d)))
    \<and> (owner \<noteq> le_owner l \<or> t \<noteq> le_token l \<longrightarrow>
         (\<exists>e. renew_lease now key owner t ttl d = (Inl e, d)) \<and> (\<exists>e. release_lease now key owner t d = (Inl e, d)))"
proof -
  let ?reserve = "reserve_operation_intent now rid owner oid idem sha key0 knd ttl ctx cl d"
  have "(\<exists>e. ?reserve = (Inl e, d)) \<or> (\<exists>r. op_by_key rid (py_strip idem) d = Some r \<and> \<not> is_pending r
      \<and> ?reserve = (Inr (''EXISTING'', the (op_token r)), d))"
  proof (cases "fst ?reserve")
    case (Inl e)
    then have "?reserve = (Inl e, snd ?reserve)" by (metis prod.collapse)
    with reserve_refuses show ?thesis by (metis refusing_def)
  next
    case (Inr x)
    then have "?reserve = (Inr x, snd ?reserve)" by (metis prod.collapse)
    from reserve_Inr [OF this assms] this show ?thesis by metis
  qed
  moreover have "\<exists>e. renew_lease now key owner t ttl d = (Inl e, d)"
    if "owner \<noteq> le_owner l \<or> t \<noteq> le_token l"
    using that assms by (auto simp: renew_lease_def require_def andthen_run bnd_run)
  moreover have "\<exists>e. release_lease now key owner t d = (Inl e, d)"
    if "owner \<noteq> le_owner l \<or> t \<noteq> le_token l"
    using that assms by (auto simp: release_lease_def bnd_run)
  ultimately show ?thesis using held_acquire [OF assms] by blast
qed

theorem unexpired_lease_is_exclusive_witness:
  "(\<exists>e. acquire_lease 30 ''run-1'' ''alice'' ''desktop'' (Some ''op-9'') 60 leased_db = (Inl e, leased_db))
   \<and> (\<exists>e. reserve_operation_intent 30 ''run-1'' ''alice'' ''op-9'' ''key-9'' digest64 ''desktop'' ''sentra.machine'' 60 [] False leased_db
         = (Inl e, leased_db))"
proof -
  have l: "dget (tb_leases leased_db) ''desktop'' = Some \<lparr>le_key = ''desktop'', le_run = ''run-1'', le_op = None,
      le_owner = ''alice'', le_token = 1, le_until = 80, le_updated = 20\<rparr>"
    by code_simp
  have v: "validate_id ''resource_key'' ''desktop'' = Inr ''desktop''" by code_simp
  have no_key: "op_by_key ''run-1'' (py_strip ''key-9'') leased_db = None" by code_simp
  show ?thesis
    using unexpired_lease_is_exclusive [OF l _ v, of 30 "''alice''" "''run-1''" "Some ''op-9''" 60 "''op-9''" "''key-9''" digest64
        "''sentra.machine''" "[]" False] no_key by simp
qed

section \<open>Idempotency\<close>

lemma op_by_key_found:
  assumes "keys_ok d" "dget (tb_ops d) i = Some r"
  shows "op_by_key (op_run r) (op_key r) d = Some r"
proof (cases "op_by_key (op_run r) (op_key r) d")
  case None
  from op_by_key_None [OF this assms(2)] show ?thesis by simp
next
  case (Some s)
  have s: "op_run s = op_run r" "op_key s = op_key r"
    using Some by (auto simp: op_by_key_def find_Some_iff)
  have "dget (tb_ops d) (op_id s) = Some s" using idempotency.found_row [OF assms(1) Some] .
  with s assms have "op_id s = i"
    using one_per_keyD [of d i r "op_id s" s] by (simp add: keys_ok_def)
  with \<open>dget (tb_ops d) (op_id s) = Some s\<close> assms(2) Some show ?thesis by simp
qed

lemma edge_to_queued: "op_edge s ''QUEUED'' \<Longrightarrow> s = ''QUEUED''"
  by (auto simp: op_edge_def can_move_def row_of_def operation_transitions_def split: if_splits)

lemma never_requeued: "op_edge\<^sup>*\<^sup>* s t \<Longrightarrow> s \<noteq> ''QUEUED'' \<Longrightarrow> t \<noteq> ''QUEUED''"
  by (induction rule: rtranclp_induct) (auto dest: edge_to_queued)

text \<open>The operation of a run and key is still found by them later on.\<close>

lemma later_op:
  assumes "follows d1 d2" "keys_ok d2" "dget (tb_ops d1) i = Some r"
  shows "\<exists>s. op_by_key (op_run r) (op_key r) d2 = Some s \<and> dget (tb_ops d2) i = Some s \<and> op_past r s"
proof -
  obtain s where s: "dget (tb_ops d2) i = Some s" "op_past r s"
    using tracksD [OF follows_ops [OF assms(1)] assms(3)] by blast
  from op_by_key_found [OF assms(2) s(1)] s show ?thesis by (auto simp: op_past_def)
qed

lemma start_reserved_row:
  assumes "keys_ok d" "all_owned d" "map_option ru_owner (dget (tb_runs d) rid) = Some owner"
    and "\<forall>r. op_by_key rid idem d = Some r \<longrightarrow> is_pending r \<and> op_id r = oid"
    and "fst (start_reserved now rid owner oid idem sha key knd ctx (op_by_key rid idem d \<noteq> None) t d) = Inr ()"
  shows "\<exists>r. dget (tb_ops (snd (start_reserved now rid owner oid idem sha key knd ctx
      (op_by_key rid idem d \<noteq> None) t d))) oid = Some r \<and> op_run r = rid \<and> op_key r = idem \<and> op_state r = ''STARTING''"
proof (cases "op_by_key rid idem d")
  case None
  with assms(5) show ?thesis
    by (auto simp: start_reserved_def insert_op_def new_op_def split: option.splits)
next
  case (Some r)
  have r: "op_run r = rid" "op_key r = idem" using Some by (auto simp: op_by_key_def find_Some_iff)
  have at: "dget (tb_ops d) oid = Some r" "is_pending r"
    using idempotency.found_row [OF assms(1) Some] assms(4) Some by auto
  have "op_owner r = owner"
    using all_ownedD [OF assms(2) at(1)] assms(3) r by (simp add: owned_by_run_def)
  with Some at r show ?thesis by (simp add: start_reserved_def)
qed

lemma reserved_row:
  assumes "reachable_db d"
    and "reserve_operation_intent now rid owner oid0 idem0 sha key0 knd0 ttl ctx cl d = (Inr (''RESERVED'', t), d')"
  shows "\<exists>i r. dget (tb_ops d') i = Some r \<and> op_run r = rid \<and> op_key r = py_strip idem0 \<and> op_state r = ''STARTING''"
proof -
  have ok: "keys_ok d" "all_owned d"
    using reachable_onward(4,6) [OF assms(1) rtranclp.rtrancl_refl] by (simp_all add: owners_ok_def)
  show ?thesis
    using reserved_Inr [OF assms(2)] start_reserved_row [OF ok] by metis
qed

lemma known_intent:
  assumes "op_by_key rid (py_strip idem0) d = Some r" "\<not> is_pending r"
  shows "snd (reserve_operation_intent now rid owner oid0 idem0 sha key0 knd0 ttl ctx cl d) = d"
  using assms unfolding reserve_operation_intent_def row_defs Let_def
  by (intro at_rules [where P = "\<lambda>x. x = d"] refl) simp

text \<open>
  C2: an intent is reserved at most once: after a reservation has been granted for a run and
  an idempotency key, no later call with that run and key is granted a reservation, whoever
  makes it and with whatever other arguments, and it changes nothing.
\<close>

theorem intent_is_reserved_once:
  assumes "reachable_db d"
    and "reserve_operation_intent now rid owner oid idem sha key knd ttl ctx cl d = (Inr (''RESERVED'', t), d1)"
    and "db_step\<^sup>*\<^sup>* d1 d2" "py_strip idem' = py_strip idem"
  shows "fst (reserve_operation_intent now' rid owner' oid' idem' sha' key' knd' ttl' ctx' cl' d2) \<noteq> Inr (''RESERVED'', t')
    \<and> snd (reserve_operation_intent now' rid owner' oid' idem' sha' key' knd' ttl' ctx' cl' d2) = d2"
proof -
  let ?again = "reserve_operation_intent now' rid owner' oid' idem' sha' key' knd' ttl' ctx' cl' d2"
  obtain i r where r: "dget (tb_ops d1) i = Some r" "op_run r = rid" "op_key r = py_strip idem'" "op_state r = ''STARTING''"
    using reserved_row [OF assms(1,2)] assms(4) by auto
  have "db_step d d1"
    using db_step.Reserve [of d now rid owner oid idem sha key knd ttl ctx cl] assms(2) by simp
  note after = reachable_onward [OF reach_step [OF assms(1) this] assms(3)]
  obtain s where s: "op_by_key rid (py_strip idem') d2 = Some s" "op_past r s"
    using later_op [OF after(5,4) r(1)] r(2,3) by auto
  then have new: "\<not> is_pending s"
    using r(4) never_requeued [of "''STARTING''" "op_state s"] by (auto simp: op_past_def is_pending_def)
  have "fst ?again \<noteq> Inr (''RESERVED'', t')"
  proof
    assume "fst ?again = Inr (''RESERVED'', t')"
    then have "?again = (Inr (''RESERVED'', t'), snd ?again)" by (metis prod.collapse)
    from reserved_Inr [OF this] s(1) new show False by auto
  qed
  with known_intent [OF s(1) new] show ?thesis by simp
qed

lemma reserved_at:
  "reserve_operation_intent 100 ''run-1'' ''alice'' ''op-1'' ''click'' digest64 ''desktop''
     ''sentra.machine.click'' 60 [] False leased_db = (Inr (''RESERVED'', 2), reserved_db)" (is "?c = _")
proof -
  have "fst ?c = Inr (''RESERVED'', 2)" by code_simp
  then show ?thesis unfolding reserved_db_def by (metis prod.collapse)
qed

theorem intent_is_reserved_once_witness:
  "fst (reserve_operation_intent 300 ''run-1'' ''alice'' ''op-2'' '' click '' digest64 ''browser'' ''sentra.machine.click'' 60
     [] False effect_db) \<noteq> Inr (''RESERVED'', 3)"
proof -
  have k: "py_strip '' click '' = py_strip ''click''" by code_simp
  show ?thesis using intent_is_reserved_once [OF reach_leased reserved_at two_steps k] by simp
qed

lemma create_operation_Inr:
  assumes "create_operation now gen rid owner knd idem oid cleanup initial d = (Inr (r, b), d')" "keys_ok d"
  shows "\<exists>i. dget (tb_ops d') i = Some r \<and> op_run r = rid \<and> op_key r = py_strip idem"
    "map_option ru_owner (dget (tb_runs d) rid) = Some owner" "py_strip idem \<noteq> []" "length (py_strip idem) \<le> 240"
proof -
  have "\<exists>i. dget (tb_ops d) i = Some r \<and> op_run r = rid \<and> op_key r = py_strip idem"
    if "op_by_key rid (py_strip idem) d = Some r"
    using that idempotency.found_row [OF assms(2) that] by (auto simp: op_by_key_def find_Some_iff)
  with assms(1) show "\<exists>i. dget (tb_ops d') i = Some r \<and> op_run r = rid \<and> op_key r = py_strip idem"
    unfolding create_operation_def row_defs
    by (auto simp: call_Inr then_Inr [where m = "insert_op _"] then_Inr [where m = "append_event _ _ _ _ _ _"]
        insert_op_def new_op_def split: option.splits dest!: event_ops)
  show "map_option ru_owner (dget (tb_runs d) rid) = Some owner" "py_strip idem \<noteq> []" "length (py_strip idem) \<le> 240"
    using assms(1) unfolding create_operation_def row_defs by (auto simp: call_Inr)
qed

lemma create_operation_known:
  assumes "op_by_key rid (py_strip idem) d = Some r" "map_option ru_owner (dget (tb_runs d) rid) = Some owner"
    and "initial \<in> set operation_states" "cleanup \<in> set cleanup_policies"
    and "py_strip knd \<noteq> []" "length (py_strip knd) \<le> 120" "py_strip idem \<noteq> []" "length (py_strip idem) \<le> 240"
  shows "create_operation now gen rid owner knd idem oid cleanup initial d = (Inr (r, True), d)"
  using assms by (auto simp: create_operation_def require_def row_defs lookup_def bnd_run andthen_run)

lemma later_owner:
  assumes "follows d1 d2" "map_option ru_owner (dget (tb_runs d1) i) = Some owner"
  shows "map_option ru_owner (dget (tb_runs d2) i) = Some owner"
proof -
  have "tracks run_past (tb_runs d1) (tb_runs d2)" using assms(1) by (simp add: follows_def)
  with assms(2) show ?thesis by (auto simp: run_past_def dest: tracksD)
qed

text \<open>
  creating an operation is idempotent: once a call has returned for a run and a key, every
  later well-formed call with them reports the same operation as a replay, whatever kind,
  identifier or initial state it asks for, and changes nothing.
\<close>

theorem operation_creation_is_idempotent:
  assumes "reachable_db d"
    and "create_operation now gen rid owner knd idem oid cleanup initial d = (Inr (r, b), d1)"
    and "db_step\<^sup>*\<^sup>* d1 d2"
    and "initial' \<in> set operation_states" "cleanup' \<in> set cleanup_policies"
    and "py_strip knd' \<noteq> []" "length (py_strip knd') \<le> 120"
  shows "\<exists>s. create_operation now' gen' rid owner knd' idem oid' cleanup' initial' d2 = (Inr (s, True), d2) \<and> op_past r s"
proof -
  have ok: "keys_ok d" using reachable_onward(4) [OF assms(1) rtranclp.rtrancl_refl] .
  have step: "db_step d d1"
    using db_step.CreateOperation [of d now gen rid owner knd idem oid cleanup initial] assms(2) by simp
  note after = reachable_onward [OF reach_step [OF assms(1) step] assms(3)]
  obtain i where i: "dget (tb_ops d1) i = Some r" "op_run r = rid" "op_key r = py_strip idem"
    using create_operation_Inr(1) [OF assms(2) ok] by blast
  obtain s where s: "op_by_key rid (py_strip idem) d2 = Some s" "op_past r s"
    using later_op [OF after(5,4) i(1)] i(2,3) by auto
  have "follows d d1" using reachable_onward(5) [OF assms(1) r_into_rtranclp [where r = db_step, OF step]] .
  from later_owner [OF after(5) later_owner [OF this]] create_operation_Inr(2-4) [OF assms(2) ok]
  show ?thesis using create_operation_known [OF s(1)] assms(4-7) s(2) by blast
qed

lemma created_at:
  "\<exists>r. create_operation 30 ''op-a'' ''run-1'' ''alice'' ''build'' ''job'' None ''manual'' ''QUEUED'' leased_db
     = (Inr (r, False), snd (create_operation 30 ''op-a'' ''run-1'' ''alice'' ''build'' ''job'' None ''manual'' ''QUEUED'' leased_db))"
  (is "\<exists>r. ?c = _")
proof -
  have "case fst ?c of Inr (r, False) \<Rightarrow> True | _ \<Rightarrow> False" by code_simp
  then obtain r where "fst ?c = Inr (r, False)" by (auto split: sum.splits prod.splits bool.splits)
  then show ?thesis by (metis prod.collapse)
qed

theorem operation_creation_is_idempotent_witness:
  "let d = snd (create_operation 30 ''op-a'' ''run-1'' ''alice'' ''build'' ''job'' None ''manual'' ''QUEUED'' leased_db) in
   \<exists>s. create_operation 40 ''op-b'' ''run-1'' ''alice'' ''test'' ''job'' None ''preserve'' ''RUNNING'' d = (Inr (s, True), d)"
proof -
  obtain r where r: "create_operation 30 ''op-a'' ''run-1'' ''alice'' ''build'' ''job'' None ''manual'' ''QUEUED'' leased_db
     = (Inr (r, False), snd (create_operation 30 ''op-a'' ''run-1'' ''alice'' ''build'' ''job'' None ''manual'' ''QUEUED'' leased_db))"
    using created_at by blast
  have v: "''RUNNING'' \<in> set operation_states" "''preserve'' \<in> set cleanup_policies"
    "py_strip ''test'' \<noteq> []" "length (py_strip ''test'') \<le> 120"
    by code_simp+
  show ?thesis
    using operation_creation_is_idempotent [OF reach_leased r rtranclp.rtrancl_refl v, of 40 "''op-b''" None]
    unfolding Let_def by blast
qed

section \<open>Lifecycles and the event log\<close>

lemma op_edge_terminal: "op_edge s t \<Longrightarrow> s \<in> set terminal_states \<Longrightarrow> t = s"
  using operations.final_absorbs [of s t] by (auto simp: op_edge_def ends_def terminal_states_def)

lemma op_path_terminal: "op_edge\<^sup>*\<^sup>* s t \<Longrightarrow> s \<in> set terminal_states \<Longrightarrow> t = s"
  by (induction rule: rtranclp_induct) (auto dest: op_edge_terminal)

lemma run_path_terminal: "(can_move (row_of run_transitions))\<^sup>*\<^sup>* s t \<Longrightarrow> s \<in> set terminal_states \<Longrightarrow> t = s"
proof (induction rule: rtranclp_induct)
  case base
  then show ?case by simp
next
  case (step t u)
  with runs.final_absorbs [of s u] show ?case by (auto simp: ends_def)
qed

text \<open>
  C6: an operation never disappears and never changes its run, owner, key, intent or resource;
  its state only moves along the operation table (reconciliation adds QUEUED to UNCERTAIN), so a
  terminal state is final and an operation that has left QUEUED never returns to it.
\<close>

theorem operations_follow_their_table:
  assumes "reachable_db d0" "db_step\<^sup>*\<^sup>* d0 d" "dget (tb_ops d0) i = Some r"
  shows "\<exists>s. dget (tb_ops d) i = Some s \<and> op_run s = op_run r \<and> op_owner s = op_owner r \<and> op_key s = op_key r
    \<and> op_intent s = op_intent r \<and> op_resource s = op_resource r
    \<and> op_edge\<^sup>*\<^sup>* (op_state r) (op_state s)
    \<and> (op_state r \<in> set terminal_states \<longrightarrow> op_state s = op_state r)
    \<and> (op_state r \<noteq> ''QUEUED'' \<longrightarrow> op_state s \<noteq> ''QUEUED'')"
proof -
  obtain s where "dget (tb_ops d) i = Some s" "op_past r s"
    using tracksD [OF follows_ops [OF reachable_onward(5) [OF assms(1,2)]] assms(3)] by blast
  then show ?thesis
    using op_path_terminal [of "op_state r" "op_state s"] never_requeued [of "op_state r" "op_state s"]
    by (auto simp: op_past_def)
qed

theorem operations_follow_their_table_witness:
  "\<exists>s. dget (tb_ops effect_db) ''op-1'' = Some s \<and> op_edge\<^sup>*\<^sup>* ''STARTING'' (op_state s)"
proof -
  have "map_option op_state (dget (tb_ops reserved_db) ''op-1'') = Some ''STARTING''" by code_simp
  then obtain r where r: "dget (tb_ops reserved_db) ''op-1'' = Some r" "op_state r = ''STARTING''" by auto
  from operations_follow_their_table [OF reach_reserved two_steps r(1)] r(2) show ?thesis by auto
qed

text \<open>
  C7: the event log is append-only and has no gaps: the events of an earlier state are a
  prefix of the later log, and every run's events are numbered 1, 2, 3, ... up to the run's
  counter; a run that does not exist has none. Runs keep their owner and key and move along
  the run table, and a terminal state is final.
\<close>

theorem event_log_is_append_only:
  assumes "reachable_db d0" "db_step\<^sup>*\<^sup>* d0 d"
  shows "(\<exists>es. tb_events d = tb_events d0 @ es)
    \<and> (\<forall>i. map ev_seq (run_events i d) = (case dget (tb_runs d) i of None \<Rightarrow> [] | Some q \<Rightarrow> [1..ru_seq q]))
    \<and> (\<forall>i q. dget (tb_runs d0) i = Some q \<longrightarrow> (\<exists>q'. dget (tb_runs d) i = Some q' \<and> ru_owner q' = ru_owner q
        \<and> ru_key q' = ru_key q \<and> ru_seq q \<le> ru_seq q' \<and> (can_move (row_of run_transitions))\<^sup>*\<^sup>* (ru_state q) (ru_state q')
        \<and> (ru_state q \<in> set terminal_states \<longrightarrow> ru_state q' = ru_state q)))"
proof -
  note after = reachable_onward [OF assms]
  have num: "map ev_seq (run_events i d) = (case dget (tb_runs d) i of None \<Rightarrow> [] | Some q \<Rightarrow> [1..ru_seq q])" for i
    using after(3) by (auto simp: log_ok_def numbered_def run_log_def last_seq_def run_events_def split: option.splits)
  have trk: "tracks run_past (tb_runs d0) (tb_runs d)" and pre: "\<exists>es. tb_events d = tb_events d0 @ es"
    using after(5) by (simp_all add: follows_def)
  have "\<exists>q'. dget (tb_runs d) i = Some q' \<and> ru_owner q' = ru_owner q \<and> ru_key q' = ru_key q \<and> ru_seq q \<le> ru_seq q'
      \<and> (can_move (row_of run_transitions))\<^sup>*\<^sup>* (ru_state q) (ru_state q')
      \<and> (ru_state q \<in> set terminal_states \<longrightarrow> ru_state q' = ru_state q)"
    if "dget (tb_runs d0) i = Some q" for i q
    using tracksD [OF trk that] run_path_terminal by (auto simp: run_past_def)
  with num pre show ?thesis by blast
qed

theorem event_log_is_append_only_witness:
  "\<exists>es. tb_events effect_db = tb_events reserved_db @ es"
  using event_log_is_append_only [OF reach_reserved two_steps] by blast

section \<open>Owners\<close>

named_theorems refusals \<open>computations that raise and change nothing\<close>

definition refused :: "('s, 'a) sx \<Rightarrow> 's \<Rightarrow> bool" where
  "refused m s \<longleftrightarrow> (\<exists>e. m s = (Inl e, s))"

lemma refused_require [refusals]: "refused n s \<Longrightarrow> refused (andthen (require b e) n) s"
  by (auto simp: refused_def require_def andthen_run)

lemma refused_lift_sum [refusals]: "(\<And>a. refused (f a) s) \<Longrightarrow> refused (bnd (lift_sum r) f) s"
  by (cases r) (auto simp: refused_def lift_sum_def bnd_run)

lemma refused_lift_sum_then [refusals]: "refused n s \<Longrightarrow> refused (andthen (lift_sum r) n) s"
  by (cases r) (auto simp: refused_def lift_sum_def andthen_run)

lemma refused_verify [refusals]: "refused n s \<Longrightarrow> refused (andthen (verify_fence now key t) n) s"
  by (auto simp: refused_def verify_fence_def andthen_run bnd_run split: option.split)

lemma refused_atomically [refusals]: "refused m s \<Longrightarrow> refused (atomically m) s"
  by (auto simp: refused_def atomically_def)

lemma refused_bnd [refusals]: "refused m s \<Longrightarrow> refused (bnd m f) s"
  by (auto simp: refused_def bnd_run)

lemma refused_lookup:
  "dget (tb d) i = Some r \<Longrightarrow> own r \<noteq> owner \<Longrightarrow> refused (lookup what tb own i (Some owner)) d"
  by (auto simp: refused_def lookup_def)

lemma refused_then: "refused m s \<Longrightarrow> refused (andthen m n) s"
  by (auto simp: refused_def andthen_run)

text \<open>
  a run and an operation are their owner's alone: every call that names a run of another
  owner (state changes, goals, operations, reservations, leases, resources, checkpoints,
  reconciliation, and reading the log), and every call that names an operation of another
  owner, raises and changes nothing.
\<close>

theorem foreign_calls_are_refused:
  assumes "dget (tb_runs d) rid = Some r" "ru_owner r \<noteq> owner"
    and "dget (tb_ops d) oid = Some p" "op_owner p \<noteq> owner"
  shows "refused (transition_run now rid owner st reason res rb) d
    \<and> refused (record_capabilities_used now rid owner caps) d
    \<and> refused (create_goal now gen rid owner txt crit lims prt bud dl par gid ext md) d
    \<and> refused (create_operation now gen rid owner knd idem oid' cleanup initial) d
    \<and> refused (pending_operation_intent now rid owner oid2 idem sha key ctx) d
    \<and> refused (reserve_operation_intent now rid owner oid2 idem sha key knd ttl ctx2 cl) d
    \<and> refused (acquire_lease now rid owner key opid ttl) d
    \<and> refused (attach_resource now rid owner typ i st opid md) d
    \<and> refused (checkpoint sz now rid owner data label) d
    \<and> refused (reconcile os now rid owner stale) d
    \<and> refused (events_after rid owner seen amount) d
    \<and> refused (update_operation now oid owner st' rdy pg et res' er rb' key' tok) d
    \<and> refused (begin_machine_effect now oid owner sha key tok') d"
proof -
  note run = refused_lookup [where tb = tb_runs and own = ru_owner, OF assms(1,2)]
  note opr = refused_lookup [where tb = tb_ops and own = op_owner, OF assms(3,4)]
  note rules = refusals refused_then [OF run] run opr
  show ?thesis
    unfolding transition_run_def record_capabilities_used_def create_goal_def create_operation_def
      pending_operation_intent_def reserve_operation_intent_def acquire_lease_def attach_resource_def
      checkpoint_def reconcile_def events_after_def update_operation_def begin_machine_effect_def
      row_defs Let_def
    by (intro conjI rules)
qed

theorem foreign_calls_are_refused_witness:
  "refused (transition_run 200 ''run-1'' ''mallory'' ''CANCELLED'' [] None None) effect_db
    \<and> refused (update_operation 200 ''op-1'' ''mallory'' (Some ''SUCCEEDED'') None None ''OPERATION_UPDATED''
        None None None None None) effect_db"
proof -
  have "map_option ru_owner (dget (tb_runs effect_db) ''run-1'') = Some ''alice''"
    "map_option op_owner (dget (tb_ops effect_db) ''op-1'') = Some ''alice''"
    by code_simp+
  then obtain r p where "dget (tb_runs effect_db) ''run-1'' = Some r" "ru_owner r \<noteq> ''mallory''"
    "dget (tb_ops effect_db) ''op-1'' = Some p" "op_owner p \<noteq> ''mallory''"
    by auto
  note foreign = foreign_calls_are_refused [OF this]
  show ?thesis
    by (rule conjI) (rule foreign [THEN conjunct1], intro foreign [THEN conjunct2, THEN conjunct2, THEN conjunct2,
      THEN conjunct2, THEN conjunct2, THEN conjunct2, THEN conjunct2, THEN conjunct2, THEN conjunct2,
      THEN conjunct2, THEN conjunct2, THEN conjunct1])
qed

end
