(* ===== verification/Durable_Recovery.thy ===== *)
theory Durable_Recovery
  imports Durable_Properties
begin

text \<open>
  What reconciliation does to operations, and what a reader that polls the event log sees
  while the log grows.
\<close>

section \<open>Reconciliation, row by row\<close>

text \<open>
  An operation of the run with a stale heartbeat for which the tables hold no evidence of
  life (the agent and the chat its progress names are looked up in the run's rows).
\<close>

definition stalled :: "rat \<Rightarrow> string \<Rightarrow> rat \<Rightarrow> op_row \<Rightarrow> db \<Rightarrow> bool" where
  "stalled now rid stale r d \<longleftrightarrow> op_run r = rid \<and> \<not> reconciled_already r \<and> stale < now - op_heartbeat r
     \<and> \<not> recent_artifact (op_id r) (now - stale) d \<and> \<not> fresh_lease (op_id r) now (now - stale) d
     \<and> \<not> agent_fresh now stale (linked_agent (filter (\<lambda>x. ag_run x = rid) (rows (tb_agents d))) r)
     \<and> \<not> chat_fresh now stale (linked_chat (filter (\<lambda>x. ch_run x = rid) (rows (tb_chats d))) r)"

text \<open>The tables reconciliation reads and never writes.\<close>

definition evidence_kept :: "db \<Rightarrow> db \<Rightarrow> bool" where
  "evidence_kept d0 d \<longleftrightarrow> tb_leases d = tb_leases d0 \<and> tb_artifacts d = tb_artifacts d0"

definition untouched :: "db \<Rightarrow> string \<Rightarrow> db \<Rightarrow> bool" where
  "untouched d0 j d \<longleftrightarrow> evidence_kept d0 d \<and> dget (tb_ops d) j = dget (tb_ops d0) j"

definition reconciled :: "rat \<Rightarrow> string \<Rightarrow> rat \<Rightarrow> db \<Rightarrow> string \<Rightarrow> db \<Rightarrow> bool" where
  "reconciled now rid stale d0 j d \<longleftrightarrow> evidence_kept d0 d \<and> (dget (tb_ops d) j = dget (tb_ops d0) j
     \<or> (\<exists>r. dget (tb_ops d0) j = Some r \<and> stalled now rid stale r d0
          \<and> dget (tb_ops d) j = Some (r\<lparr>op_state := ''UNCERTAIN'', op_updated := now\<rparr>)))"

lemma untouched_reconciled: "untouched d0 j d \<Longrightarrow> reconciled now rid stale d0 j d"
  by (simp add: untouched_def reconciled_def)

lemma event_frame:
  "tb_leases (snd (append_event now rid typ opid st pl d)) = tb_leases d"
  "tb_artifacts (snd (append_event now rid typ opid st pl d)) = tb_artifacts d"
  "tb_ops (snd (append_event now rid typ opid st pl d)) = tb_ops d"
  by (simp_all add: append_event_def fetch_run_row_def lookup_def bnd_run andthen_run Let_def split: option.split)

text \<open>A predicate on the leases, the artifacts and the operations alone.\<close>

definition on_ops :: "(db \<Rightarrow> bool) \<Rightarrow> bool" where
  "on_ops P \<longleftrightarrow> (\<forall>d d'. tb_leases d' = tb_leases d \<longrightarrow> tb_artifacts d' = tb_artifacts d \<longrightarrow> tb_ops d' = tb_ops d
     \<longrightarrow> P d \<longrightarrow> P d')"

lemma on_opsD:
  "on_ops P \<Longrightarrow> P d \<Longrightarrow> tb_leases d' = tb_leases d \<Longrightarrow> tb_artifacts d' = tb_artifacts d \<Longrightarrow> tb_ops d' = tb_ops d \<Longrightarrow> P d'"
  unfolding on_ops_def by blast

lemma on_ops_untouched: "on_ops (untouched d0 j)"
  by (simp add: on_ops_def untouched_def evidence_kept_def)

lemma on_ops_reconciled: "on_ops (reconciled now rid stale d0 j)"
  by (simp add: on_ops_def reconciled_def evidence_kept_def)

lemma on_ops_event: "on_ops P \<Longrightarrow> keep P (append_event now rid typ opid st pl)"
  by (rule keepI) (auto intro: on_opsD simp: event_frame)

lemma on_ops_exited: "on_ops P \<Longrightarrow> keep P (mark_exited now rid oid r)"
  unfolding mark_exited_def by (intro keeps keep_modify on_ops_event) (auto intro: on_opsD)

lemma on_ops_chat: "on_ops P \<Longrightarrow> keep P (disconnect_chat now stale rid x)"
  unfolding disconnect_chat_def by (intro keeps keep_modify on_ops_event) (auto intro: on_opsD)

lemma on_ops_agent: "on_ops P \<Longrightarrow> keep P (suspect_agent now rid oid x)"
  unfolding suspect_agent_def by (intro keeps keep_modify on_ops_event) (auto intro: on_opsD)

lemma uncertain_other:
  assumes "op_id r \<noteq> j"
  shows "keep (untouched d0 j) (mark_uncertain now rid' des r)"
    "keep (reconciled now rid stale d0 j) (mark_uncertain now rid' des r)"
  unfolding mark_uncertain_def using assms
  by (intro keeps keep_modify on_ops_event on_ops_untouched on_ops_reconciled,
      simp add: untouched_def reconciled_def evidence_kept_def)+

lemma reconcile_op_else:
  assumes "op_id r \<noteq> j"
  shows "keep (untouched d0 j) (reconcile_op os now stale rid' des ags chs r)"
    "keep (reconciled now rid stale d0 j) (reconcile_op os now stale rid' des ags chs r)"
  unfolding reconcile_op_def using assms
  by (intro keeps on_ops_exited on_ops_chat on_ops_agent on_ops_untouched on_ops_reconciled uncertain_other, assumption)+

lemma at_through:
  "Q s \<Longrightarrow> keep Q m \<Longrightarrow> (\<And>t. Q t \<Longrightarrow> P t) \<Longrightarrow> (\<And>t. Q t \<Longrightarrow> P (snd (n t))) \<Longrightarrow> P (snd (andthen m n s))"
  by (cases "m s") (auto simp: andthen_run split: sum.split dest: keep_run)

lemma at_through_bnd:
  "Q s \<Longrightarrow> keep Q m \<Longrightarrow> (\<And>t. Q t \<Longrightarrow> P t) \<Longrightarrow> (\<And>a t. Q t \<Longrightarrow> P (snd (f a t))) \<Longrightarrow> P (snd (bnd m f s))"
  by (cases "m s") (auto simp: bnd_run split: sum.split dest: keep_run)

lemma no_evidence:
  assumes "evidence os now stale ags chs r res d = []" "evidence_kept d0 d"
  shows "\<not> recent_artifact (op_id r) (now - stale) d0" "\<not> fresh_lease (op_id r) now (now - stale) d0"
    "\<not> agent_fresh now stale (linked_agent ags r)" "\<not> chat_fresh now stale (linked_chat chs r)"
  using assms by (auto simp: evidence_def evidence_kept_def recent_artifact_def fresh_lease_def split: if_splits)

lemma reconcile_op_this:
  assumes u: "untouched d0 (op_id r) d" and r: "dget (tb_ops d0) (op_id r) = Some r" "op_run r = rid"
    and ags: "ags = filter (\<lambda>x. ag_run x = rid) (rows (tb_agents d0))"
    and chs: "chs = filter (\<lambda>x. ch_run x = rid) (rows (tb_chats d0))"
  shows "reconciled now rid stale d0 (op_id r) (snd (reconcile_op os now stale rid des ags chs r d))"
proof (cases "reconciled_already r \<or> now - op_heartbeat r \<le> stale")
  case True
  with untouched_reconciled [OF u] show ?thesis by (auto simp: reconcile_op_def)
next
  case False
  let ?R = "reconciled now rid stale d0 (op_id r)"
  note on = on_ops_reconciled [of now rid stale d0 "op_id r"]
  have un: "?R (snd (mark_uncertain now rid des r t))"
    if t: "untouched d0 (op_id r) t" and ev: "evidence os now stale ags chs r res t = []" for t res
  proof -
    from t have k: "evidence_kept d0 t" by (simp add: untouched_def)
    have "stalled now rid stale r d0"
      using no_evidence [OF ev k] False r(2) by (simp add: stalled_def ags chs)
    with t r have "?R (t\<lparr>tb_ops := upd_row (op_id r) (\<lambda>x. x\<lparr>op_state := ''UNCERTAIN'', op_updated := now\<rparr>) (tb_ops t)\<rparr>)"
      by (simp add: reconciled_def untouched_def evidence_kept_def)
    then show ?thesis
      unfolding mark_uncertain_def andthen_modify
      by (rule keepD [OF keep_andthen [OF on_ops_event [OF on] keep_ret]])
  qed
  have rest: "?R (snd (andthen (mark_uncertain now rid des r) (andthen (disconnect_chat now stale rid (linked_chat chs r))
               (andthen (suspect_agent now rid (op_id r) (linked_agent ags r)) (ret [MarkUncertain (op_id r)]))) t))"
    if t: "untouched d0 (op_id r) t" and ev: "evidence os now stale ags chs r res t = []" for t res
  proof (cases "mark_uncertain now rid des r t")
    case (Pair y t')
    have "?R t'" using un [OF that] Pair by simp
    moreover have "keep ?R (andthen (disconnect_chat now stale rid (linked_chat chs r))
               (andthen (suspect_agent now rid (op_id r) (linked_agent ags r)) (ret [MarkUncertain (op_id r)])))"
      by (intro keeps on_ops_chat on_ops_agent on)
    ultimately show ?thesis
      using Pair by (auto simp: andthen_run [where m = "mark_uncertain _ _ _ _"] split: sum.split dest: keepD)
  qed
  have "?R (snd (andthen (foreach (filter (gone_process os now stale) res) (mark_exited now rid (op_id r)))
        (bnd (gets (evidence os now stale ags chs r res)) (\<lambda>ev.
          if ev \<noteq> [] then ret [NoAction (op_id r) ev]
          else andthen (mark_uncertain now rid des r) (andthen (disconnect_chat now stale rid (linked_chat chs r))
               (andthen (suspect_agent now rid (op_id r) (linked_agent ags r)) (ret [MarkUncertain (op_id r)]))))) d))" for res
    by (rule at_through [OF u keep_foreach [OF on_ops_exited [OF on_ops_untouched]] untouched_reconciled])
      (auto simp: bnd_run untouched_reconciled rest)
  with False show ?thesis by (simp add: reconcile_op_def bnd_run)
qed

lemma at_reconciled:
  assumes "reconciled now rid stale d0 j d" "\<forall>r \<in> set rs. op_id r \<noteq> j"
  shows "reconciled now rid stale d0 j (snd (reconcile_ops os now stale rid' des ags chs rs d))"
proof -
  have "keep (reconciled now rid stale d0 j) (reconcile_ops os now stale rid' des ags chs rs)"
    using assms(2) by (induction rs) (simp_all add: keeps reconcile_op_else del: bnd_def)
  from keepD [OF this assms(1)] show ?thesis .
qed

lemma reconcile_ops_rows:
  assumes "untouched d0 j d" "distinct (map op_id rs)"
    and "\<forall>r \<in> set rs. dget (tb_ops d0) (op_id r) = Some r \<and> op_run r = rid"
    and "ags = filter (\<lambda>x. ag_run x = rid) (rows (tb_agents d0))"
    and "chs = filter (\<lambda>x. ch_run x = rid) (rows (tb_chats d0))"
  shows "reconciled now rid stale d0 j (snd (reconcile_ops os now stale rid des ags chs rs d))"
  using assms(1-3)
proof (induction rs arbitrary: d)
  case Nil
  then show ?case by (simp add: untouched_reconciled)
next
  case (Cons r rs)
  let ?R = "reconciled now rid stale d0 j" and ?one = "reconcile_op os now stale rid des ags chs r"
  obtain y t where one: "?one d = (y, t)" by fastforce
  have "?R t \<and> ?R (snd (reconcile_ops os now stale rid des ags chs rs t))"
  proof (cases "op_id r = j")
    case True
    have "?R t"
      using reconcile_op_this [of d0 r d rid ags chs now stale os des] Cons.prems assms(4,5) one True by simp
    moreover have "\<forall>x \<in> set rs. op_id x \<noteq> j" using Cons.prems(2) True by (auto simp: image_iff)
    ultimately show ?thesis by (simp add: at_reconciled)
  next
    case False
    have "untouched d0 j t"
      using keep_run [OF reconcile_op_else(1) [OF False] Cons.prems(1) one] .
    with Cons show ?thesis by (simp add: untouched_reconciled)
  qed
  with one show ?case by (auto simp: bnd_run split: sum.split prod.split)
qed

lemma reconcile_rows:
  assumes "fencing_ok d0"
  shows "reconciled now rid stale d0 j (snd (reconcile os now rid owner stale d0))"
proof -
  let ?R = "reconciled now rid stale d0 j"
  note on = on_ops_reconciled [of now rid stale d0 j]
  have u: "untouched d0 j d0" by (simp add: untouched_def evidence_kept_def)
  have R: "?R d0" by (rule untouched_reconciled [OF u])
  note snap = fencing.snapshot_rows [OF assms, where f = "\<lambda>x. op_run x = rid"]
  have tail: "keep ?R (bnd (gets g) (\<lambda>soft. andthen (if c acts soft
         then andthen (modify (\<lambda>d. d\<lparr>tb_runs := f (tb_runs d)\<rparr>)) (andthen (append_event now rid ty opid est pl) (ret ()))
         else ret ()) (bnd (lookup w tb own i ow) (\<lambda>r. gets (h acts soft r)))))" for g c f ty opid est pl w tb own i ow h and acts :: "recon_action list"
    by (intro keeps keep_modify on_ops_event on) (auto intro: on_opsD [OF on])
  have "?R (snd (bnd (reconcile_ops os now stale rid des (filter (\<lambda>x. ag_run x = rid) (rows (tb_agents d0)))
      (filter (\<lambda>x. ch_run x = rid) (rows (tb_chats d0))) (filter (\<lambda>x. op_run x = rid) (rows (tb_ops d0)))) k d0))"
    if "\<And>acts. keep ?R (k acts)" for des and k :: "recon_action list \<Rightarrow> (db, 'z) sx"
    using reconcile_ops_rows [OF u snap(2) _ refl refl, of rid now stale os des] snap(1)
    by (auto simp: bnd_run split: sum.split prod.split intro: keepD [OF that])
  note step = this [OF tail]
  show ?thesis
    unfolding reconcile_def row_defs
    by (intro at_require [where P = ?R] at_lookup [where P = ?R] at_gets [where P = ?R] R, simp only: prod.case, rule step)
qed


text \<open>
  C13: reconciliation fails closed and nothing else: it writes an operation's row only to make
  it UNCERTAIN, and only an operation of the run that has not ended, whose heartbeat is older
  than the limit, with no recent artifact, no fresh lease, no fresh agent and no fresh chat;
  every other operation's row and all leases and artifacts stay as they are.
\<close>

theorem reconcile_only_suspects_the_stalled:
  assumes "reachable_db d"
  shows "tb_leases (snd (reconcile os now rid owner stale d)) = tb_leases d
    \<and> tb_artifacts (snd (reconcile os now rid owner stale d)) = tb_artifacts d
    \<and> (dget (tb_ops (snd (reconcile os now rid owner stale d))) j \<noteq> dget (tb_ops d) j \<longrightarrow>
        (\<exists>r. dget (tb_ops d) j = Some r \<and> stalled now rid stale r d
          \<and> dget (tb_ops (snd (reconcile os now rid owner stale d))) j
              = Some (r\<lparr>op_state := ''UNCERTAIN'', op_updated := now\<rparr>)))"
  using reconcile_rows [OF reachable_onward(1) [OF assms rtranclp.rtrancl_refl], of now rid stale j os owner]
  by (auto simp: reconciled_def evidence_kept_def)

theorem reconcile_only_suspects_the_stalled_witness:
  "\<exists>r. dget (tb_ops effect_db) ''op-1'' = Some r \<and> stalled 5000 ''run-1'' 60 r effect_db
     \<and> dget (tb_ops (snd (reconcile (\<lambda>p. False) 5000 ''run-1'' ''alice'' 60 effect_db))) ''op-1''
         = Some (r\<lparr>op_state := ''UNCERTAIN'', op_updated := 5000\<rparr>)"
proof -
  have "map_option op_state (dget (tb_ops (snd (reconcile (\<lambda>p. False) 5000 ''run-1'' ''alice'' 60 effect_db))) ''op-1'')
      = Some ''UNCERTAIN''" "map_option op_state (dget (tb_ops effect_db) ''op-1'') = Some ''RUNNING''"
    by code_simp+
  then have "dget (tb_ops (snd (reconcile (\<lambda>p. False) 5000 ''run-1'' ''alice'' 60 effect_db))) ''op-1''
      \<noteq> dget (tb_ops effect_db) ''op-1''" by auto
  then show ?thesis
    using reconcile_only_suspects_the_stalled [OF reach_effect, of "\<lambda>p. False" 5000 "''run-1''" "''alice''" 60 "''op-1''"]
    by blast
qed

section \<open>Polling the event log\<close>

lemma upto_cut: "i - 1 \<le> j \<Longrightarrow> j \<le> k \<Longrightarrow> [i..k] = [i..j] @ [j + 1..k]" for i j k :: int
  using upto_split1 [of i "j + 1" k] by (cases "j = k") auto

lemma filter_upto: "0 \<le> a \<Longrightarrow> filter (\<lambda>x. a < x) [1..n] = [a + 1..n]" for a n :: int
proof (cases "a \<le> n")
  case True
  assume "0 \<le> a"
  with True have "[1..n] = [1..a] @ [a + 1..n]" by (intro upto_cut) auto
  then show ?thesis by (simp add: filter_empty_conv filter_id_conv)
next
  case False
  then show ?thesis by (simp add: filter_empty_conv)
qed

lemma take_upto: "0 \<le> k \<Longrightarrow> take (nat k) [a + 1..n] = [a + 1..min (a + k) n]" for a k n :: int
proof (cases "a + k \<le> n")
  case True
  assume "0 \<le> k"
  with True have "[a + 1..n] = [a + 1..a + k] @ [a + k + 1..n]" by (intro upto_cut) auto
  with True \<open>0 \<le> k\<close> show ?thesis by simp
next
  case False
  then show ?thesis by (simp add: min_def)
qed

lemma strict_upto: "sorted_wrt (<) [a..n]" for a n :: int
  by (simp add: strict_sorted_iff)

lemma page_of_log:
  assumes "log_ok d" "dget (tb_runs d) rid = Some r" "ru_owner r = owner" "page_ok after limit"
  shows "\<exists>p. fst (events_after rid owner after limit d) = Inr p
    \<and> map ev_seq (cu_items p) = [after + 1..min (after + limit) (ru_seq r)]
    \<and> cu_items p = filter (\<lambda>e. after < ev_seq e \<and> ev_seq e \<le> cu_next p) (run_events rid d)
    \<and> cu_next p = max after (min (after + limit) (ru_seq r))"
proof -
  let ?F = "filter (\<lambda>e. after < ev_seq e) (run_events rid d)" and ?m = "min (after + limit) (ru_seq r)"
  let ?I = "take (nat limit) ?F"
  have n: "0 \<le> after" "1 \<le> limit" using assms(4) by (auto simp: page_ok_def)
  have log: "map ev_seq (run_events rid d) = [1..ru_seq r]"
    using assms(1,2) by (auto simp: log_ok_def numbered_def run_log_def last_seq_def run_events_def split: option.splits)
  have F: "map ev_seq ?F = [after + 1..ru_seq r]"
    using filter_upto [OF n(1), of "ru_seq r"] by (simp add: log [symmetric] filter_map o_def)
  then have same: "sort_key ev_seq ?F = ?F" by (intro sort_key_id_if_sorted) simp
  have I: "map ev_seq ?I = [after + 1..?m]"
    using take_upto [of limit after "ru_seq r"] n(2) by (simp only: take_map [symmetric] F)
  have nxt: "(if ?I = [] then after else ev_seq (last ?I)) = max after ?m"
  proof (cases "after < ?m")
    case True
    then have "[after + 1..?m] = [after + 1..?m - 1] @ [?m]" by (intro upto_rec2) auto
    with I have "last (map ev_seq ?I) = ?m" "?I \<noteq> []" by auto
    with True show ?thesis by (simp add: last_map del: take_map)
  next
    case False
    with I have "?I = []" by (metis Nil_is_map_conv add.commute add_le_same_cancel2 not_one_le_zero upto_Nil linorder_not_less zle_add1_eq_le)
    moreover have "max after ?m = after" using False by linarith
    ultimately show ?thesis by (simp only: if_True simp_thms)
  qed
  have "?I = filter (\<lambda>e. ev_seq e \<le> max after ?m) ?F"
  proof -
    have "map ev_seq (drop (nat limit) ?F) = drop (nat limit) [after + 1..ru_seq r]" by (simp add: F drop_map [symmetric])
    have hi: "max after ?m < ev_seq e" if "e \<in> set (drop (nat limit) ?F)" for e
    proof -
      have "sorted_wrt (<) (map ev_seq ?I @ map ev_seq (drop (nat limit) ?F))"
        by (simp only: map_append [symmetric] append_take_drop_id F strict_upto)
      then have "\<forall>x \<in> set (map ev_seq ?I). x < ev_seq e" using that by (simp add: sorted_wrt_append)
      moreover have "after < ev_seq e" using in_set_dropD [OF that] by simp
      ultimately show ?thesis using I by (cases "after < ?m") auto
    qed
    have lo: "ev_seq e \<le> max after ?m" if "e \<in> set ?I" for e
      using that I by (metis atLeastAtMost_iff image_eqI le_max_iff_disj set_map set_upto)
    have "filter (\<lambda>e. ev_seq e \<le> max after ?m) ?I = ?I" by (rule filter_True) (use lo in blast)
    moreover have "filter (\<lambda>e. ev_seq e \<le> max after ?m) (drop (nat limit) ?F) = []"
      by (rule filter_False) (use hi in \<open>blast dest: leD\<close>)
    ultimately have "filter (\<lambda>e. ev_seq e \<le> max after ?m) (?I @ drop (nat limit) ?F) = ?I"
      by (simp only: filter_append append_Nil2)
    then show ?thesis by (simp only: append_take_drop_id)
  qed
  then have items: "?I = filter (\<lambda>e. after < ev_seq e \<and> ev_seq e \<le> max after ?m) (run_events rid d)"
    by (simp add: conj_commute)
  have "fst (events_after rid owner after limit d) = Inr (let items = take (nat limit) (sort_key ev_seq ?F);
      nxt = (if items = [] then after else ev_seq (last items))
      in \<lparr>cu_items = items, cu_next = nxt, cu_last = ru_seq r, cu_caught_up = ru_seq r \<le> nxt\<rparr>)"
    using assms(2-4) by (simp add: events_after_def require_def andthen_run bnd_run fetch_run_row_def lookup_def
        del: take_eq_Nil2 filter_False)
  then have "fst (events_after rid owner after limit d) = Inr \<lparr>cu_items = ?I, cu_next = max after ?m,
      cu_last = ru_seq r, cu_caught_up = ru_seq r \<le> max after ?m\<rparr>"
    by (simp only: same nxt Let_def)
  then show ?thesis
    by (intro exI conjI, assumption) (simp_all only: cursor.simps I items [symmetric])
qed


text \<open>
  A reader that polls: the \<open>i\<close>-th poll reads the state \<open>s i\<close> from the cursor the one before
  returned; a refused poll leaves the cursor.
\<close>

primrec poll :: "(nat \<Rightarrow> db) \<Rightarrow> string \<Rightarrow> string \<Rightarrow> int \<Rightarrow> int \<Rightarrow> nat \<Rightarrow> event list \<times> int" where
  "poll s rid owner limit after 0 = ([], after)"
| "poll s rid owner limit after (Suc k) = (case poll s rid owner limit after k of (es, c) \<Rightarrow>
     (case fst (events_after rid owner c limit (s k)) of
        Inl e \<Rightarrow> (es, c) | Inr p \<Rightarrow> (es @ cu_items p, cu_next p)))"

lemma states_follow: "(\<And>i. db_step\<^sup>*\<^sup>* (s i) (s (Suc i))) \<Longrightarrow> db_step\<^sup>*\<^sup>* (s 0) (s k)"
  by (induction k) (auto intro: rtranclp_trans)

lemma later_events:
  assumes "log_ok d" "tb_events d' = tb_events d @ es" "log_ok d'" "dget (tb_runs d) rid = Some r" "c \<le> ru_seq r"
  shows "filter (\<lambda>e. a < ev_seq e \<and> ev_seq e \<le> c) (run_events rid d') = filter (\<lambda>e. a < ev_seq e \<and> ev_seq e \<le> c) (run_events rid d)"
proof -
  have log: "map ev_seq (run_events rid d) = [1..ru_seq r]" "0 \<le> ru_seq r"
    using assms(1,4) by (auto simp: log_ok_def numbered_def run_log_def last_seq_def run_events_def split: option.splits)
  have log': "\<exists>n. map ev_seq (run_events rid d') = [1..n]"
    using assms(3) by (auto simp: log_ok_def numbered_def run_log_def run_events_def)
  have split: "run_events rid d' = run_events rid d @ filter (\<lambda>e. ev_run e = rid) es"
    by (simp add: run_events_def assms(2))
  have "ru_seq r < ev_seq e" if e: "e \<in> set es" "ev_run e = rid" for e
  proof (rule ccontr)
    assume "\<not> ru_seq r < ev_seq e"
    moreover have "sorted_wrt (<) (map ev_seq (run_events rid d'))"
      using log' by (auto simp: strict_upto)
    ultimately have "\<forall>x \<in> set [1..ru_seq r]. x < ev_seq e" "ev_seq e \<le> ru_seq r"
      using e by (auto simp: split sorted_wrt_append log(1))
    moreover have "1 \<le> ev_seq e"
    proof -
      obtain n where "map ev_seq (run_events rid d') = [1..n]" using log' by blast
      then have "set (map ev_seq (run_events rid d')) = {1..n}" by simp
      with e show ?thesis by (auto simp: split)
    qed
    ultimately show False using e by auto
  qed
  with assms(5) show ?thesis by (force simp: split filter_empty_conv)
qed

lemma filter_adjoin:
  "sorted_wrt (<) (map ev_seq xs) \<Longrightarrow> a \<le> b \<Longrightarrow> b \<le> c \<Longrightarrow>
     filter (\<lambda>e. a < ev_seq e \<and> ev_seq e \<le> b) xs @ filter (\<lambda>e. b < ev_seq e \<and> ev_seq e \<le> c) xs
       = filter (\<lambda>e. a < ev_seq e \<and> ev_seq e \<le> c) xs"
proof (induction xs)
  case Nil
  then show ?case by simp
next
  case (Cons x xs)
  show ?case
  proof (cases "ev_seq x \<le> b")
    case True
    with Cons show ?thesis by auto
  next
    case False
    with Cons.prems(1) have "filter (\<lambda>e. a < ev_seq e \<and> ev_seq e \<le> b) xs = []" by (auto simp: filter_empty_conv)
    with False Cons show ?thesis by auto
  qed
qed

lemma log_sorted: "log_ok d \<Longrightarrow> sorted_wrt (<) (map ev_seq (run_events rid d))"
  by (simp add: log_ok_def numbered_def run_log_def run_events_def strict_upto)

lemma poll_inv:
  assumes reach: "reachable_db (s 0)" and grow: "\<And>i. db_step\<^sup>*\<^sup>* (s i) (s (Suc i))"
    and r: "dget (tb_runs (s 0)) rid = Some r" "ru_owner r = owner" and page: "page_ok after limit" "after \<le> ru_seq r"
    and p: "poll s rid owner limit after k = (es, c)"
  shows "after \<le> c \<and> min (after + int k) (ru_seq r) \<le> c \<and> map ev_seq es = [after + 1..c]
    \<and> es = filter (\<lambda>e. after < ev_seq e \<and> ev_seq e \<le> c) (run_events rid (s k))
    \<and> (\<exists>q. dget (tb_runs (s k)) rid = Some q \<and> c \<le> ru_seq q)"
  using p
proof (induction k arbitrary: es c)
  case 0
  then show ?case using r page by (auto simp: filter_empty_conv)
next
  case (Suc k)
  obtain es0 c0 where p0: "poll s rid owner limit after k = (es0, c0)" by fastforce
  from Suc.IH [OF p0] obtain q where IH: "after \<le> c0" "min (after + int k) (ru_seq r) \<le> c0"
    "map ev_seq es0 = [after + 1..c0]" "es0 = filter (\<lambda>e. after < ev_seq e \<and> ev_seq e \<le> c0) (run_events rid (s k))"
    and q: "dget (tb_runs (s k)) rid = Some q" "c0 \<le> ru_seq q" by blast
  have rk: "reachable_db (s k)" using reach states_follow [of s k, OF grow] by (auto simp: reachable_db_def)
  note now = reachable_onward [OF reach states_follow [of s k, OF grow]] and nxt = reachable_onward [OF rk grow [of k]]
  have "tracks run_past (tb_runs (s 0)) (tb_runs (s k))" using now(5) by (simp add: follows_def)
  from tracksD [OF this r(1)] q(1) r(2) have q': "ru_owner q = owner" "ru_seq r \<le> ru_seq q" by (auto simp: run_past_def)
  have ok: "page_ok c0 limit" using page(1) IH(1) by (simp add: page_ok_def)
  from page_of_log [OF now(3) q(1) q'(1) ok] obtain pg where pg: "fst (events_after rid owner c0 limit (s k)) = Inr pg"
    "map ev_seq (cu_items pg) = [c0 + 1..min (c0 + limit) (ru_seq q)]"
    "cu_items pg = filter (\<lambda>e. c0 < ev_seq e \<and> ev_seq e \<le> cu_next pg) (run_events rid (s k))"
    "cu_next pg = max c0 (min (c0 + limit) (ru_seq q))" by blast
  have new: "es = es0 @ cu_items pg" "c = cu_next pg" using Suc.prems p0 pg(1) by simp_all
  have lim1: "1 \<le> limit" using page(1) by (simp add: page_ok_def)
  have c: "c = min (c0 + limit) (ru_seq q)" using pg(4) new(2) q(2) lim1 by simp
  have cc: "c0 \<le> c" "c \<le> ru_seq q" using c q(2) lim1 by auto
  have nums: "map ev_seq es = [after + 1..c]"
    using upto_cut [of "after + 1" c0 c] IH(1,3) cc pg(2) c new(1) by simp
  have "es = filter (\<lambda>e. after < ev_seq e \<and> ev_seq e \<le> c) (run_events rid (s k))"
    using filter_adjoin [of "run_events rid (s k)", OF _ IH(1) cc(1)] log_sorted [OF now(3)] IH(4) pg(3) new by simp
  moreover obtain new_evs where "tb_events (s (Suc k)) = tb_events (s k) @ new_evs"
    using nxt(5) by (auto simp: follows_def)
  ultimately have here: "es = filter (\<lambda>e. after < ev_seq e \<and> ev_seq e \<le> c) (run_events rid (s (Suc k)))"
    using later_events [OF now(3) _ nxt(3) q(1) cc(2)] by simp
  have "tracks run_past (tb_runs (s k)) (tb_runs (s (Suc k)))" using nxt(5) by (simp add: follows_def)
  from tracksD [OF this q(1)] cc(2) have "\<exists>q. dget (tb_runs (s (Suc k))) rid = Some q \<and> c \<le> ru_seq q"
    by (auto simp: run_past_def)
  moreover have "min (after + int (Suc k)) (ru_seq r) \<le> c" using IH(2) c q'(2) lim1 by auto
  ultimately show ?case using nums here IH(1) cc(1) by simp
qed


text \<open>
  C14: a reader that polls a run's event log misses nothing: however the database moves on
  between its polls, what it has read after \<open>k\<close> polls is exactly the run's events numbered from
  its first cursor to its current one, each once and in order, and after \<open>k\<close> polls it is \<open>k\<close>
  events on or past everything that was in the log when it began.
\<close>

theorem polling_reads_the_whole_log:
  assumes "reachable_db (s 0)" "\<forall>i. db_step\<^sup>*\<^sup>* (s i) (s (Suc i))"
    and "dget (tb_runs (s 0)) rid = Some r" "ru_owner r = owner" "page_ok after limit" "after \<le> ru_seq r"
  shows "\<exists>es c. poll s rid owner limit after k = (es, c) \<and> map ev_seq es = [after + 1..c]
    \<and> es = filter (\<lambda>e. after < ev_seq e \<and> ev_seq e \<le> c) (run_events rid (s k))
    \<and> min (after + int k) (ru_seq r) \<le> c"
proof -
  obtain es c where "poll s rid owner limit after k = (es, c)" by fastforce
  with poll_inv [of s rid r owner after limit k es c] assms show ?thesis by blast
qed

definition growing :: "nat \<Rightarrow> db" where
  "growing i = (if i = 0 then reserved_db else effect_db)"

theorem polling_reads_the_whole_log_witness:
  "\<exists>es c. poll growing ''run-1'' ''alice'' 2 0 3 = (es, c) \<and> map ev_seq es = [1..c] \<and> 3 \<le> c"
proof -
  have "\<forall>i. db_step\<^sup>*\<^sup>* (growing i) (growing (Suc i))" using two_steps by (simp add: growing_def)
  moreover have "reachable_db (growing 0)" using reach_reserved by (simp add: growing_def)
  moreover have "map_option (\<lambda>r. (ru_owner r, ru_seq r)) (dget (tb_runs (growing 0)) ''run-1'') = Some (''alice'', 4)"
    by code_simp
  then obtain r where "dget (tb_runs (growing 0)) ''run-1'' = Some r" "ru_owner r = ''alice''" "ru_seq r = 4" by auto
  ultimately show ?thesis
    using polling_reads_the_whole_log [of growing "''run-1''" r "''alice''" 0 2 3] by (auto simp: page_ok_def)
qed

end
