(* ===== verification/Queue_Invariants.thy ===== *)
theory Queue_Invariants
  imports Task_Queue
begin

text \<open>
  Invariants of the queue under every sequence of its methods. The locale
  \<open>queue_invariant\<close> names the elementary state changes the methods are made of and derives
  that every method keeps an invariant that these keep; it is interpreted for the resource
  locks (mutual exclusion), for the task index (idempotency) and for the identity of an
  admitted task.
\<close>

section \<open>From elementary changes to methods\<close>

locale queue_invariant =
  fixes P :: "'m queue \<Rightarrow> bool"
  assumes lm_step: "\<And>q s. P q \<Longrightarrow> P (q\<lparr>q_lm := s\<rparr>)"
    and guard_step: "\<And>q digest k p. P q \<Longrightarrow>
        P (q\<lparr>q_guard := snd (register_task digest k p (q_guard q))\<rparr>)"
    and index_step: "\<And>q a b c d e f g h n. P q \<Longrightarrow> P (q\<lparr>q_ready := a, q_blocked := b, q_running := c,
        q_done := d, q_cancelled := e, q_failed := f, q_dlq := g, q_leases := h, q_dropped := n\<rparr>)"
    and task_step: "\<And>q i k k'. P q \<Longrightarrow> dget (q_all q) i = Some k \<Longrightarrow> task_intent k' = task_intent k \<Longrightarrow>
        P (q\<lparr>q_all := dset i k' (q_all q)\<rparr>)"
    and all_step: "\<And>q f. P q \<Longrightarrow> (\<And>k. task_intent (f k) = task_intent k) \<Longrightarrow>
        P (q\<lparr>q_all := map (\<lambda>(i, k). (i, f k)) (q_all q)\<rparr>)"
    and new_step: "\<And>q k. P q \<Longrightarrow> existing_for_replay k q = Inr None \<Longrightarrow> P (index_task k q)"
    and acquire_step: "\<And>q i k. P q \<Longrightarrow> dget (q_all q) i = Some k \<Longrightarrow>
        \<not> resource_conflict (dkeys (q_holders q)) (resources_for_task k) \<Longrightarrow>
        P (q\<lparr>q_holders := hold_all i (resources_for_task k) (q_holders q),
             q_locks := dset i (resources_for_task k) (q_locks q)\<rparr>)"
    and release_step: "\<And>q i. P q \<Longrightarrow>
        P (q\<lparr>q_holders := drop_holders i (case dget (q_locks q) i of None \<Rightarrow> [] | Some rs \<Rightarrow> rs)
               (q_holders q),
             q_locks := ddel i (q_locks q)\<rparr>)"
    and reset_step: "\<And>q. P q \<Longrightarrow> P (q\<lparr>q_holders := [], q_locks := []\<rparr>)"
begin

lemma ready_step: "P q \<Longrightarrow> P (q\<lparr>q_ready := x\<rparr>)"
  using index_step [where q = q and a = x and b = "q_blocked q" and c = "q_running q" and d = "q_done q" and e = "q_cancelled q" and f = "q_failed q" and g = "q_dlq q" and h = "q_leases q" and n = "q_dropped q"]
  by simp

lemma blocked_step: "P q \<Longrightarrow> P (q\<lparr>q_blocked := x\<rparr>)"
  using index_step [where q = q and a = "q_ready q" and b = x and c = "q_running q" and d = "q_done q" and e = "q_cancelled q" and f = "q_failed q" and g = "q_dlq q" and h = "q_leases q" and n = "q_dropped q"]
  by simp

lemma running_step: "P q \<Longrightarrow> P (q\<lparr>q_running := x\<rparr>)"
  using index_step [where q = q and a = "q_ready q" and b = "q_blocked q" and c = x and d = "q_done q" and e = "q_cancelled q" and f = "q_failed q" and g = "q_dlq q" and h = "q_leases q" and n = "q_dropped q"]
  by simp

lemma done_step: "P q \<Longrightarrow> P (q\<lparr>q_done := x\<rparr>)"
  using index_step [where q = q and a = "q_ready q" and b = "q_blocked q" and c = "q_running q" and d = x and e = "q_cancelled q" and f = "q_failed q" and g = "q_dlq q" and h = "q_leases q" and n = "q_dropped q"]
  by simp

lemma cancelled_step: "P q \<Longrightarrow> P (q\<lparr>q_cancelled := x\<rparr>)"
  using index_step [where q = q and a = "q_ready q" and b = "q_blocked q" and c = "q_running q" and d = "q_done q" and e = x and f = "q_failed q" and g = "q_dlq q" and h = "q_leases q" and n = "q_dropped q"]
  by simp

lemma failed_step: "P q \<Longrightarrow> P (q\<lparr>q_failed := x\<rparr>)"
  using index_step [where q = q and a = "q_ready q" and b = "q_blocked q" and c = "q_running q" and d = "q_done q" and e = "q_cancelled q" and f = x and g = "q_dlq q" and h = "q_leases q" and n = "q_dropped q"]
  by simp

lemma dlq_step: "P q \<Longrightarrow> P (q\<lparr>q_dlq := x\<rparr>)"
  using index_step [where q = q and a = "q_ready q" and b = "q_blocked q" and c = "q_running q" and d = "q_done q" and e = "q_cancelled q" and f = "q_failed q" and g = x and h = "q_leases q" and n = "q_dropped q"]
  by simp

lemma leases_step: "P q \<Longrightarrow> P (q\<lparr>q_leases := x\<rparr>)"
  using index_step [where q = q and a = "q_ready q" and b = "q_blocked q" and c = "q_running q" and d = "q_done q" and e = "q_cancelled q" and f = "q_failed q" and g = "q_dlq q" and h = x and n = "q_dropped q"]
  by simp

lemma dropped_step: "P q \<Longrightarrow> P (q\<lparr>q_dropped := x\<rparr>)"
  using index_step [where q = q and a = "q_ready q" and b = "q_blocked q" and c = "q_running q" and d = "q_done q" and e = "q_cancelled q" and f = "q_failed q" and g = "q_dlq q" and h = "q_leases q" and n = x]
  by simp

lemma upd_step: "P q \<Longrightarrow> (\<And>k. task_intent (f k) = task_intent k) \<Longrightarrow> P (upd_task i f q)"
  by (auto simp: upd_task_def split: option.split intro: task_step)

lemma push_ready_step: "P q \<Longrightarrow> P (push_ready i q)"
  by (simp add: push_ready_def ready_step)

lemma drop_blocked_step: "P q \<Longrightarrow> P (drop_blocked i q)"
  by (simp add: drop_blocked_def blocked_step)

lemma drop_running_step: "P q \<Longrightarrow> P (drop_running i q)"
  by (simp add: drop_running_def running_step)

lemma add_failed_step: "P q \<Longrightarrow> P (add_failed i q)"
  by (simp add: add_failed_def failed_step)

lemma push_dlq_step: "P q \<Longrightarrow> P (push_dlq i e n q)"
  by (simp add: push_dlq_def dlq_step split: option.split)

lemma intent_transition: "transition k t r = Inr k' \<Longrightarrow> task_intent k' = task_intent k"
  by (auto simp: transition_def Let_def task_intent_def log_move_def split: if_splits)

lemma force_failed_step: "P q \<Longrightarrow> P (force_failed i r q)"
  unfolding force_failed_def
  by (erule upd_step) (auto simp: task_intent_def dest!: intent_transition split: sum.splits)

lemmas steps = ready_step blocked_step running_step done_step cancelled_step failed_step
  dlq_step leases_step dropped_step push_ready_step drop_blocked_step drop_running_step
  add_failed_step push_dlq_step force_failed_step

lemma lift_lm_keeps: "keep P (lift_lm m)"
  by (auto simp: keep_def lift_lm_def lm_step split: prod.splits)

lemma the_task_keeps: "keep P (the_task i)"
  by (auto simp: keep_def the_task_def split: option.splits)

lemma sync_keeps: "keep P (sync_task api i)"
  unfolding sync_task_def
  by (auto split: option.split intro: keeps lift_lm_keeps the_task_keeps)

lemma move_keeps: "keep P (move i t r)"
  by (auto simp: keep_def move_def split: option.splits sum.splits
      intro: task_step dest: intent_transition)

lemma sort_ready_keeps: "keep P sort_ready"
  by (auto simp: keep_def sort_ready_def split: option.splits intro: ready_step)

lemma release_keeps: "keep P (release_resources api i)"
proof -
  have "keep P (modify (drop_locks i))"
    by (rule keep_modify) (auto simp: drop_locks_def task_intent_def intro!: upd_step release_step)
  then show ?thesis
    unfolding release_resources_def
    by (auto split: option.split intro!: keeps lift_lm_keeps keep_modify leases_step)
qed

lemma record_locks_step:
  assumes "P q" "dget (q_all q) i = Some k"
    "\<not> resource_conflict (dkeys (q_holders q)) (resources_for_task k)"
  shows "P (record_locks i (resources_for_task k) ls q)"
proof -
  have "P (q\<lparr>q_holders := hold_all i (resources_for_task k) (q_holders q),
             q_locks := dset i (resources_for_task k) (q_locks q)\<rparr>)"
    using assms by (rule acquire_step)
  from leases_step [OF this, of "if ls \<noteq> [] then dset i ls (q_leases q) else q_leases q"]
  show ?thesis
    unfolding record_locks_def
    by (intro upd_step) (auto simp: task_intent_def split: if_splits)
qed

lemma try_acquire_keeps: "keep P (try_acquire api i)"
proof (rule keepI)
  fix q assume P: "P q"
  show "P (snd (try_acquire api i q))"
  proof (cases "dget (q_all q) i")
    case None
    with P show ?thesis by (simp add: try_acquire_def the_task_def bnd_def)
  next
    case (Some k)
    let ?c = "resource_conflict (dkeys (q_holders q)) (resources_for_task k)"
    have rec: "P (record_locks i (resources_for_task k) ls (q\<lparr>q_lm := s\<rparr>))" if "\<not> ?c" for ls s
      using record_locks_step [of "q\<lparr>q_lm := s\<rparr>" i k ls] P Some that by (simp add: lm_step)
    then have "P (record_locks i (resources_for_task k) ls q)" if "\<not> ?c" for ls
      using record_locks_step [of q i k ls] P Some that by simp
    with rec P Some show ?thesis
      by (auto simp: try_acquire_def the_task_def bnd_def andthen_def Let_def lift_lm_def lm_step
          split: option.splits sum.splits prod.splits)
  qed
qed

lemma foreach_keeps: "(\<And>x. keep P (f x)) \<Longrightarrow> keep P (foreach xs f)"
  by (rule keep_foreach)

lemma select_keeps: "keep P (select_ready api caps n is)"
  by (induction "is" arbitrary: n)
    (auto intro!: keeps the_task_keeps try_acquire_keeps split: if_splits)

lemma pop_keeps: "keep P (pop_ready_task api caps node)"
proof (rule keepI)
  fix q assume P: "P q"
  have note_keeps: "keep P (modify (note_dispatch i cs node))" for i cs
    by (rule keep_modify) (auto simp: note_dispatch_def task_intent_def intro!: upd_step)
  have "keep P (bnd (select_ready api (map_option clean_caps caps) 0 xs) (\<lambda>sel. case sel of
            None \<Rightarrow> ret None
          | Some (n, tid) \<Rightarrow>
              andthen (modify (note_dispatch tid (map_option clean_caps caps) node))
              (andthen (modify (\<lambda>q. q\<lparr>q_ready := take n (q_ready q) @ drop (Suc n) (q_ready q)\<rparr>))
              (andthen (move tid RUNNING ''Dispatched to worker'')
              (andthen (modify (\<lambda>q. q\<lparr>q_running := ladd tid (q_running q)\<rparr>))
              (andthen (sync_task api tid) (ret (Some tid))))))))" for xs
    by (auto intro!: keeps select_keeps note_keeps move_keeps sync_keeps keep_modify ready_step
        running_step split: option.split)
  with P show "P (snd (pop_ready_task api caps node q))"
    by (auto simp: pop_ready_task_def Let_def dest: keepD)
qed

lemma insert_new_keeps:
  assumes "P q" "existing_for_replay k q = Inr None"
  shows "P (snd (insert_new api k q))"
proof -
  have "P (index_task k q)" using assms by (rule new_step)
  moreover have "keep P (bnd (gets (unfulfilled k)) (\<lambda>missing.
       andthen
         (if missing = [] then
            andthen (move (t_id k) QUEUED ''All dependencies satisfied'')
              (andthen (modify (push_ready (t_id k))) sort_ready)
          else
            modify (\<lambda>q. upd_task (t_id k) (\<lambda>t. t\<lparr>status := PENDING\<rparr>)
              (q\<lparr>q_blocked := dset (t_id k) missing (q_blocked q)\<rparr>)))
         (andthen (sync_task api (t_id k)) (ret True))))"
    by (intro keeps keep_modify)
      (auto intro!: move_keeps sort_ready_keeps sync_keeps steps upd_step simp: task_intent_def)
  ultimately show ?thesis
    by (simp add: insert_new_def keepD)
qed

lemma add_keeps: "keep P (add_task api digest k parent block)"
proof (rule keepI)
  fix q assume P: "P q"
  obtain r g where rg: "register_task digest k parent (q_guard q) = (r, g)" by fastforce
  have g: "P (q\<lparr>q_guard := g\<rparr>)"
    using guard_step [OF P, of digest k parent] rg by simp
  then have "P (snd (insert_new api k (q\<lparr>q_guard := g\<rparr>)))" if "existing_for_replay k q = Inr None"
    using that by (intro insert_new_keeps) simp_all
  with P g rg show "P (snd (add_task api digest k parent block q))"
    by (auto simp: add_task_def lift_guard_def dropped_step split: sum.splits option.splits)
qed

lemma release_dependents_keeps: "keep P (release_dependents api i)"
proof (rule keepI)
  fix q assume P: "P q"
  obtain newly b where u: "unblock i (q_blocked q) = (newly, b)" by fastforce
  have "keep P (andthen (foreach newly (\<lambda>i.
          andthen (move i QUEUED ''All dependencies completed'')
            (andthen (modify (push_ready i)) (sync_task api i))))
        (if newly \<noteq> [] then sort_ready else ret ()))"
    by (intro keeps keep_modify move_keeps sync_keeps sort_ready_keeps steps)
  then show "P (snd (release_dependents api i q))"
    using blocked_step [OF P, of b] by (simp add: release_dependents_def u keepD)
qed

lemma when_known_keeps: "keep P m \<Longrightarrow> keep P (when_known i a m)"
  by (auto simp: keep_def when_known_def split: option.splits)

lemma completed_keeps: "keep P (mark_completed api i)"
  unfolding mark_completed_def
  by (intro when_known_keeps keeps keep_modify steps release_keeps move_keeps sync_keeps
      release_dependents_keeps)

lemma fail_pass_keeps: "keep P (fail_pass api now i r bs)"
proof (rule keepI)
  fix q assume "P q"
  then show "P (snd (fail_pass api now i r bs q))"
  proof (induction bs arbitrary: q)
    case Nil
    then show ?case by simp
  next
    case (Cons x bs)
    obtain b deps where x: "x = (b, deps)" by (cases x)
    note IH = Cons.IH
    have P1: "P (drop_blocked b q)" using Cons.prems by (rule steps)
    have P2: "P (snd (sync_task api b (add_failed b (force_failed b r (drop_blocked b q)))))"
      by (intro keepD [OF sync_keeps] steps P1)
    show ?case
      using IH [OF Cons.prems] IH [OF P1] P2
      by (auto simp: x split: option.splits prod.splits sum.splits)
        (metis IH push_dlq_step snd_conv)+
  qed
qed

lemma fail_dependents_keeps: "keep P (fail_dependents api now i r)"
proof (rule keepI)
  fix q assume "P q"
  then show "P (snd (fail_dependents api now i r q))"
  proof (induction api now i r q rule: fail_dependents.induct)
    case (1 api now i r q)
    have "P (snd (fail_pass api now i r (q_blocked q) q))"
      using "1.prems" by (rule keepD [OF fail_pass_keeps])
    with "1.IH" show ?case
      by (subst fail_dependents.simps) (auto split: prod.splits sum.splits)
  qed
qed

lemma failed_keeps: "keep P (mark_failed api now i e rt)"
  unfolding mark_failed_def
  by (intro when_known_keeps keeps keep_modify steps release_keeps move_keeps sync_keeps
      sort_ready_keeps fail_dependents_keeps the_task_keeps upd_step)
    (simp_all add: task_intent_def)

lemma escalated_keeps: "keep P (mark_escalated api now i r)"
  unfolding mark_escalated_def
  by (intro when_known_keeps keeps keep_modify steps release_keeps move_keeps
      fail_dependents_keeps)

lemma cancelled_keeps: "keep P (mark_cancelled api now i r)"
proof (rule keepI)
  fix q assume P: "P q"
  have "keep P (andthen (modify (drop_running i))
          (andthen (release_resources api i)
          (andthen (modify (\<lambda>q. drop_blocked i (q\<lparr>q_ready := remove1 i (q_ready q)\<rparr>)))
          (andthen (move i CANCELLED r)
          (andthen (modify (\<lambda>q. q\<lparr>q_cancelled := ladd i (q_cancelled q)\<rparr>))
          (andthen (fail_dependents api now i (''dependency '' @ i @ '' cancelled''))
            (ret True)))))))"
    by (intro keeps keep_modify steps release_keeps move_keeps fail_dependents_keeps)
  with P show "P (snd (mark_cancelled api now i r q))"
    by (auto simp: mark_cancelled_def dest: keepD split: option.splits)
qed

lemma cancel_each_keeps: "keep P (cancel_each api now r is n)"
  by (induction "is" arbitrary: n) (auto intro!: keeps cancelled_keeps)

lemma cancel_all_keeps: "keep P (cancel_all api now r)"
  unfolding cancel_all_def by (intro keeps cancel_each_keeps)

lemma unfulfillable_loop_keeps: "keep P (unfulfillable_loop api now bs)"
proof (induction bs)
  case Nil
  then show ?case by (simp add: keep_def)
next
  case (Cons x bs)
  obtain b deps where x: "x = (b, deps)" by (cases x)
  have forced: "keep P (\<lambda>q. if dget (q_blocked q) b = None then (Inr [], q)
           else case dget (q_all q) b of
             None \<Rightarrow> (Inr [], drop_blocked b q)
           | Some k \<Rightarrow> andthen (sync_task api b) (ret [b])
               (add_failed b (force_failed b ''unfulfillable dependencies'' (drop_blocked b q))))"
  proof (rule keepI)
    fix q assume P: "P q"
    have "P (snd (andthen (sync_task api b) (ret [b])
               (add_failed b (force_failed b ''unfulfillable dependencies'' (drop_blocked b q)))))"
      by (rule keepD [OF keep_andthen [OF sync_keeps keep_ret]]) (intro steps P)
    with P show "P (snd (if dget (q_blocked q) b = None then (Inr [], q)
           else case dget (q_all q) b of
             None \<Rightarrow> (Inr [], drop_blocked b q)
           | Some k \<Rightarrow> andthen (sync_task api b) (ret [b])
               (add_failed b (force_failed b ''unfulfillable dependencies'' (drop_blocked b q)))))"
      by (auto split: option.split intro: steps)
  qed
  note loop = keep_bnd [OF fail_dependents_keeps keep_bnd [OF forced keep_bnd [OF Cons.IH keep_ret]]]
  show ?case
    by (rule keepI) (auto simp: x intro: keepD [OF loop] keepD [OF Cons.IH])
qed

lemma unfulfillable_keeps: "keep P (fail_unfulfillable_blocked api now)"
  by (rule keepI) (simp add: fail_unfulfillable_blocked_def keepD [OF unfulfillable_loop_keeps])

lemma recover_indexed_keeps: "P q \<Longrightarrow> P (recover_indexed q)"
proof -
  assume P: "P q"
  have "P (q\<lparr>q_all := map (\<lambda>(i, k). (i, recover_task k)) (q_all q)\<rparr>)"
    by (rule all_step [OF P]) (simp add: recover_task_def task_intent_def log_move_def)
  from reset_step [OF leases_step [OF running_step [OF failed_step [OF this,
      of "q_failed (recover_indexed q)"], of "q_running (recover_indexed q)"], of "[]"]]
  show ?thesis
    by (cases q) (simp add: recover_indexed_def Let_def)
qed

lemma requeue_keeps: "P q \<Longrightarrow> P (requeue_step x q)"
  by (cases x) (auto simp: requeue_step_def Let_def task_intent_def
      intro!: upd_step push_ready_step blocked_step)

lemma fold_requeue_keeps: "P q \<Longrightarrow> P (fold requeue_step xs q)"
  by (induction xs arbitrary: q) (auto intro: requeue_keeps)

lemma recover_keeps: "keep P recover_incomplete_tasks"
proof (rule keepI)
  fix q assume P: "P q"
  have "P (fold requeue_step (q_all q1) q1)"
    if "q1 = (recover_indexed q)\<lparr>q_ready := [], q_blocked := []\<rparr>" for q1
    unfolding that by (intro fold_requeue_keeps blocked_step ready_step recover_indexed_keeps P)
  then show "P (snd (recover_incomplete_tasks q))"
    unfolding recover_incomplete_tasks_def Let_def
    by (intro keepD [OF keep_andthen [OF sort_ready_keeps keep_ret]]) blast
qed

lemma restore_index_keeps: "P q \<Longrightarrow> P (restore_index k q)"
  by (auto simp: restore_index_def Let_def intro: steps)

lemma restore_keeps: "keep P (restore_task k)"
  by (rule keepI)
    (auto simp: restore_task_def split: sum.splits option.splits
      intro!: keepD [OF sort_ready_keeps] restore_index_keeps new_step)

end

section \<open>Reachable queues\<close>

text \<open>
  One call of a method, or a change of a shared task object by the engine, which never
  touches what identifies the task (\<open>engine.py\<close> moves its status and edits its metadata).
\<close>

inductive queue_step ::
  "'m lease_api option \<Rightarrow> (string \<Rightarrow> string) \<Rightarrow> 'm queue \<Rightarrow> 'm queue \<Rightarrow> bool"
  for api digest where
  Add: "queue_step api digest q (snd (add_task api digest k parent block q))"
| Pop: "queue_step api digest q (snd (pop_ready_task api caps node q))"
| Complete: "queue_step api digest q (snd (mark_completed api i q))"
| Fail: "queue_step api digest q (snd (mark_failed api now i err retryable q))"
| Escalate: "queue_step api digest q (snd (mark_escalated api now i reason q))"
| Cancel: "queue_step api digest q (snd (mark_cancelled api now i reason q))"
| CancelAll: "queue_step api digest q (snd (cancel_all api now reason q))"
| Unfulfillable: "queue_step api digest q (snd (fail_unfulfillable_blocked api now q))"
| Recover: "queue_step api digest q (snd (recover_incomplete_tasks q))"
| Restore: "queue_step api digest q (snd (restore_task k q))"
| Engine: "dget (q_all q) i = Some k \<Longrightarrow> task_intent k' = task_intent k \<Longrightarrow>
    queue_step api digest q (q\<lparr>q_all := dset i k' (q_all q)\<rparr>)"

definition reachable_queue ::
  "'m lease_api option \<Rightarrow> (string \<Rightarrow> string) \<Rightarrow> 'm queue \<Rightarrow> bool" where
  "reachable_queue api digest q \<longleftrightarrow>
     (\<exists>g mx m. guard_ok g \<and> (queue_step api digest)\<^sup>*\<^sup>* (new_queue g mx m) q)"

context queue_invariant
begin

lemma step_keeps: "queue_step api digest q q' \<Longrightarrow> P q \<Longrightarrow> P q'"
  by (induction rule: queue_step.induct)
    (blast intro: keepD [OF add_keeps] keepD [OF pop_keeps] keepD [OF completed_keeps]
      keepD [OF failed_keeps] keepD [OF escalated_keeps] keepD [OF cancelled_keeps]
      keepD [OF cancel_all_keeps] keepD [OF unfulfillable_keeps] keepD [OF recover_keeps]
      keepD [OF restore_keeps] task_step)+

lemma steps_keep: "(queue_step api digest)\<^sup>*\<^sup>* q q' \<Longrightarrow> P q \<Longrightarrow> P q'"
  by (induction rule: rtranclp_induct) (auto intro: step_keeps)

lemma reachable_keeps:
  "reachable_queue api digest q \<Longrightarrow> (\<And>g mx m. P (new_queue g mx m)) \<Longrightarrow> P q"
  by (auto simp: reachable_queue_def intro: steps_keep)

end

end
