(* ===== verification/Queue_Locks.thy ===== *)
theory Queue_Locks
  imports Queue_Invariants
begin

text \<open>
  Three interpretations of \<open>queue_invariant\<close>: the resource locks (two tasks never hold
  conflicting resources), the task index (one task per id and per idempotency key), and the
  explosion guard (never more admitted tasks than the budget).
\<close>

section \<open>Resource locks\<close>

text \<open>What a task holding \<open>A\<close> excludes for another one that wants \<open>B\<close>.\<close>

definition excludes :: "string list \<Rightarrow> string list \<Rightarrow> bool" where
  "excludes A B \<longleftrightarrow> set A \<inter> set B \<noteq> {}
     \<or> (run_exclusive \<in> set A \<and> B \<noteq> [])
     \<or> (whole_workspace \<in> set A \<and> (\<exists>r \<in> set B. touches_workspace r))"

definition compatible :: "string list \<Rightarrow> string list \<Rightarrow> bool" where
  "compatible A B \<longleftrightarrow> \<not> excludes A B \<and> \<not> excludes B A"

lemma compatible_sym: "compatible A B \<longleftrightarrow> compatible B A"
  by (auto simp: compatible_def)

lemma no_conflict_compatible:
  "\<not> resource_conflict held res \<Longrightarrow> set B \<subseteq> set held \<Longrightarrow> compatible res B"
  by (auto simp: compatible_def excludes_def resource_conflict_def split: if_splits)

definition holders_match :: "(string, string) dict \<Rightarrow> (string, string list) dict \<Rightarrow> bool" where
  "holders_match h l \<longleftrightarrow> (\<forall>r t. dget h r = Some t \<longleftrightarrow> (\<exists>R. dget l t = Some R \<and> r \<in> set R))"

definition locks_ok :: "'m queue \<Rightarrow> bool" where
  "locks_ok q \<longleftrightarrow> holders_match (q_holders q) (q_locks q)
     \<and> (\<forall>a b A B. a \<noteq> b \<longrightarrow> dget (q_locks q) a = Some A \<longrightarrow> dget (q_locks q) b = Some B \<longrightarrow>
          compatible A B)
     \<and> (\<forall>t R. dget (q_locks q) t = Some R \<longrightarrow>
          (\<exists>k. dget (q_all q) t = Some k \<and> R = resources_for_task k))"

lemma intent_same:
  assumes "task_intent k' = task_intent k"
  shows "t_id k' = t_id k" "idem_key k' = idem_key k" "dependencies k' = dependencies k"
    "scope k' = scope k" "max_retries k' = max_retries k" "resource_locks k' = resource_locks k"
    "target_files k' = target_files k" "required_caps k' = required_caps k"
    "priority k' = priority k"
  using arg_cong [OF assms, where f = "\<lambda>k. (t_id k, idem_key k, dependencies k, scope k,
    max_retries k, resource_locks k, target_files k, required_caps k, priority k)"]
  by (simp_all add: task_intent_def)

lemma resources_intent: "task_intent k' = task_intent k \<Longrightarrow> resources_for_task k' = resources_for_task k"
  using intent_same [of k' k] by (simp add: resources_for_task_def scope_of_def cong del: if_weak_cong)

lemma dget_hold_all: "dget (hold_all t R h) r = (if r \<in> set R then Some t else dget h r)"
  unfolding hold_all_def by (induction R arbitrary: h) auto

lemma dget_drop_holders:
  "dget (drop_holders t R h) r = (if r \<in> set R \<and> dget h r = Some t then None else dget h r)"
  unfolding drop_holders_def by (induction R arbitrary: h) auto

lemma holders_match_keys:
  "holders_match h l \<Longrightarrow> dget l t = Some R \<Longrightarrow> set R \<subseteq> set (dkeys h)"
proof
  assume m: "holders_match h l" and l: "dget l t = Some R"
  fix r assume "r \<in> set R"
  with m l have "dget h r = Some t" unfolding holders_match_def by blast
  then show "r \<in> set (dkeys h)" by (auto dest: dget_Some_key)
qed

lemma locks_ok_acquire:
  assumes ok: "locks_ok q" and k: "dget (q_all q) i = Some k"
    and free: "\<not> resource_conflict (dkeys (q_holders q)) (resources_for_task k)"
  shows "locks_ok (q\<lparr>q_holders := hold_all i (resources_for_task k) (q_holders q),
             q_locks := dset i (resources_for_task k) (q_locks q)\<rparr>)"
proof -
  let ?R = "resources_for_task k"
  have m: "holders_match (q_holders q) (q_locks q)" using ok by (simp add: locks_ok_def)
  have comp: "compatible ?R B" if "dget (q_locks q) b = Some B" for b B
    using free holders_match_keys [OF m that] by (rule no_conflict_compatible)
  have same: "R = ?R" if "dget (q_locks q) i = Some R" for R
    using ok that k unfolding locks_ok_def by (metis option.inject)
  have disj: "r \<notin> set B" if "dget (q_locks q) b = Some B" "r \<in> set ?R" for b B r
    using comp [OF that(1)] that(2) by (auto simp: compatible_def excludes_def)
  have "holders_match (hold_all i ?R (q_holders q)) (dset i ?R (q_locks q))"
    unfolding holders_match_def dget_hold_all dget_dset
  proof (intro allI)
    fix r t
    show "((if r \<in> set ?R then Some i else dget (q_holders q) r) = Some t) \<longleftrightarrow>
        (\<exists>R. (if t = i then Some ?R else dget (q_locks q) t) = Some R \<and> r \<in> set R)"
      using m disj same by (auto simp: holders_match_def)
  qed
  then show ?thesis
    using ok comp k by (auto simp: locks_ok_def compatible_sym)
qed

lemma holders_match_drop:
  assumes m: "holders_match h l"
  shows "holders_match (drop_holders i (case dget l i of None \<Rightarrow> [] | Some rs \<Rightarrow> rs) h) (ddel i l)"
    (is "holders_match (drop_holders i ?R h) _")
  unfolding holders_match_def dget_drop_holders dget_ddel
proof (intro allI)
  fix r t
  have h: "dget h r = Some t \<longleftrightarrow> (\<exists>R. dget l t = Some R \<and> r \<in> set R)" for t
    using m by (simp add: holders_match_def)
  show "((if r \<in> set ?R \<and> dget h r = Some i then None else dget h r) = Some t) \<longleftrightarrow>
      (\<exists>R. (if t = i then None else dget l t) = Some R \<and> r \<in> set R)"
    using h [of i] h [of t] by (cases "t = i") (auto split: option.splits)
qed

lemma locks_ok_release:
  assumes ok: "locks_ok q"
  shows "locks_ok (q\<lparr>q_holders := drop_holders i
        (case dget (q_locks q) i of None \<Rightarrow> [] | Some rs \<Rightarrow> rs) (q_holders q),
      q_locks := ddel i (q_locks q)\<rparr>)"
  using ok by (simp add: locks_ok_def holders_match_drop)

lemma locks_ok_task:
  "locks_ok q \<Longrightarrow> dget (q_locks q) t = Some R \<Longrightarrow>
     \<exists>k. dget (q_all q) t = Some k \<and> R = resources_for_task k"
  by (rule locks_ok_def [THEN iffD1, THEN conjunct2, THEN conjunct2, rule_format])

lemma locks_ok_tasks:
  assumes "locks_ok q"
    and "\<And>t k. dget (q_all q) t = Some k \<Longrightarrow>
      \<exists>k'. dget A t = Some k' \<and> resources_for_task k' = resources_for_task k"
  shows "locks_ok (q\<lparr>q_all := A\<rparr>)"
proof -
  have "\<exists>k. dget A t = Some k \<and> R = resources_for_task k" if l: "dget (q_locks q) t = Some R" for t R
  proof -
    obtain k where "dget (q_all q) t = Some k" "R = resources_for_task k"
      using locks_ok_task [OF assms(1) l] by blast
    with assms(2) show ?thesis by metis
  qed
  with assms(1) show ?thesis
    unfolding locks_ok_def by simp
qed

interpretation resource_lock: queue_invariant locks_ok
proof unfold_locales
  fix q :: "'a queue" and i k k'
  assume "locks_ok q" "dget (q_all q) i = Some k" "task_intent k' = task_intent k"
  then show "locks_ok (q\<lparr>q_all := dset i k' (q_all q)\<rparr>)"
    using resources_intent [of k' k] by (intro locks_ok_tasks) auto
next
  fix q :: "'a queue" and f :: "task \<Rightarrow> task"
  assume ok: "locks_ok q" and "\<And>k. task_intent (f k) = task_intent k"
  then have "resources_for_task (f k) = resources_for_task k" for k
    by (intro resources_intent)
  with ok show "locks_ok (q\<lparr>q_all := map (\<lambda>(i, k). (i, f k)) (q_all q)\<rparr>)"
    by (intro locks_ok_tasks) (simp_all add: map_of_map)
next
  fix q :: "'a queue" and k
  assume ok: "locks_ok q" and new: "existing_for_replay k q = Inr None"
  then have "dget (q_all q) (t_id k) = None"
    by (auto simp: existing_for_replay_def Let_def split: option.splits if_splits)
  with ok have "locks_ok (q\<lparr>q_all := dset (t_id k) k (q_all q)\<rparr>)"
    by (intro locks_ok_tasks) auto
  then show "locks_ok (index_task k q)"
    by (simp add: locks_ok_def index_task_def)
next
  fix q :: "'a queue" and i k
  assume "locks_ok q" "dget (q_all q) i = Some k"
    "\<not> resource_conflict (dkeys (q_holders q)) (resources_for_task k)"
  then show "locks_ok (q\<lparr>q_holders := hold_all i (resources_for_task k) (q_holders q),
             q_locks := dset i (resources_for_task k) (q_locks q)\<rparr>)"
    by (rule locks_ok_acquire)
next
  fix q :: "'a queue" and i
  assume "locks_ok q"
  then show "locks_ok (q\<lparr>q_holders := drop_holders i
        (case dget (q_locks q) i of None \<Rightarrow> [] | Some rs \<Rightarrow> rs) (q_holders q),
      q_locks := ddel i (q_locks q)\<rparr>)"
    by (rule locks_ok_release)
qed (simp_all add: locks_ok_def holders_match_def)

lemma locks_ok_new: "locks_ok (new_queue g mx m)"
  by (simp add: locks_ok_def holders_match_def new_queue_def)

section \<open>The task index\<close>

text \<open>
  Every task is filed under its own id, and its idempotency key leads back to it (for ids
  that are not empty: the look-up takes an empty id for no id).
\<close>

definition index_ok :: "'m queue \<Rightarrow> bool" where
  "index_ok q \<longleftrightarrow>
     (\<forall>i k. dget (q_all q) i = Some k \<longrightarrow> t_id k = i)
     \<and> (\<forall>key i. dget (q_idem q) key = Some i \<longrightarrow>
          (\<exists>k. dget (q_all q) i = Some k \<and> idem_key k = key))
     \<and> (\<forall>i k. dget (q_all q) i = Some k \<longrightarrow> i \<noteq> [] \<longrightarrow> dget (q_idem q) (idem_key k) = Some i)"

lemma index_okD:
  assumes "index_ok q"
  shows "dget (q_all q) i = Some k \<Longrightarrow> t_id k = i"
    "dget (q_idem q) key = Some i \<Longrightarrow> \<exists>k. dget (q_all q) i = Some k \<and> idem_key k = key"
    "dget (q_all q) i = Some k \<Longrightarrow> i \<noteq> [] \<Longrightarrow> dget (q_idem q) (idem_key k) = Some i"
  using assms by (simp_all add: index_ok_def)

lemma index_ok_new_task:
  assumes ok: "index_ok q" and new: "existing_for_replay k q = Inr None"
  shows "index_ok (index_task k q)"
proof -
  have none: "dget (q_all q) (t_id k) = None"
    using new by (auto simp: existing_for_replay_def Let_def split: option.splits if_splits)
  have key: "dget (q_idem q) (idem_key k) = None \<or> dget (q_idem q) (idem_key k) = Some []"
    using new ok none
    by (auto simp: existing_for_replay_def index_ok_def Let_def split: option.splits if_splits)
      (metis option.distinct(1))+
  have fresh: "t_id k \<noteq> j" if "dget (q_idem q) key = Some j" for key j
    using ok that none by (auto simp: index_ok_def) (metis option.distinct(1))
  show ?thesis
    unfolding index_ok_def index_task_def
    using ok key none fresh by (auto simp: index_ok_def) (metis option.inject option.distinct(1))+
qed

lemma index_ok_tasks:
  assumes ok: "index_ok q"
    and same: "\<And>i. rel_option (\<lambda>k k'. t_id k' = t_id k \<and> idem_key k' = idem_key k)
      (dget (q_all q) i) (dget A i)"
  shows "index_ok (q\<lparr>q_all := A\<rparr>)"
proof -
  have backward: "\<exists>k. dget (q_all q) i = Some k \<and> t_id k' = t_id k \<and> idem_key k' = idem_key k"
    if "dget A i = Some k'" for i k'
    using same [of i] that by (auto simp: option_rel_Some2)
  have forth: "\<exists>k'. dget A i = Some k' \<and> idem_key k' = idem_key k"
    if "dget (q_all q) i = Some k" for i k
    using same [of i] that by (auto simp: option_rel_Some1)
  have key: "\<exists>k. dget A i = Some k \<and> idem_key k = key" if key: "dget (q_idem q) key = Some i" for i key
  proof -
    obtain k where "dget (q_all q) i = Some k" "idem_key k = key"
      using index_okD(2) [OF ok key] by blast
    with forth [of i k] show ?thesis by simp
  qed
  have "t_id k' = i" if "dget A i = Some k'" for i k'
    using backward [OF that] index_okD(1) [OF ok] by auto
  moreover have "dget (q_idem q) (idem_key k') = Some i" if "dget A i = Some k'" "i \<noteq> []" for i k'
    using backward [OF that(1)] index_okD(3) [OF ok _ that(2)] by auto
  ultimately show ?thesis
    unfolding index_ok_def using key by simp
qed

interpretation task_index: queue_invariant index_ok
proof unfold_locales
  fix q :: "'a queue" and i k k'
  assume "index_ok q" "dget (q_all q) i = Some k" "task_intent k' = task_intent k"
  then show "index_ok (q\<lparr>q_all := dset i k' (q_all q)\<rparr>)"
    using intent_same(1,2) [of k' k] by (intro index_ok_tasks) (auto simp: option.rel_refl)
next
  fix q :: "'a queue" and f :: "task \<Rightarrow> task"
  assume ok: "index_ok q" and "\<And>k. task_intent (f k) = task_intent k"
  then have "t_id (f k) = t_id k" "idem_key (f k) = idem_key k" for k
    by (intro intent_same(1,2); simp)+
  with ok show "index_ok (q\<lparr>q_all := map (\<lambda>(i, k). (i, f k)) (q_all q)\<rparr>)"
    by (intro index_ok_tasks) (simp_all add: map_of_map option.rel_map option.rel_refl)
next
  fix q :: "'a queue" and k
  assume "index_ok q" "existing_for_replay k q = Inr None"
  then show "index_ok (index_task k q)" by (rule index_ok_new_task)
qed (simp_all add: index_ok_def)

lemma index_ok_empty: "index_ok (new_queue g mx m)"
  by (simp add: index_ok_def new_queue_def)

section \<open>The explosion guard of the queue\<close>

interpretation queue_guard: queue_invariant "\<lambda>q. guard_ok (q_guard q)"
  by unfold_locales (auto simp: index_task_def intro: keepD [OF register_keeps])

end
