(* ===== verification/Queue_Dependencies.thy ===== *)
theory Queue_Dependencies
  imports Queue_Invariants
begin

text \<open>
  The dependency DAG: a task is ready or running only when every one of its dependencies is
  among the completed tasks, and a blocked task lists every dependency that is not. The
  invariant is kept by the methods as the scheduler calls them: a failure is reported for a
  task that was dispatched.
\<close>

section \<open>The invariant\<close>

definition deps_done :: "'m queue \<Rightarrow> string \<Rightarrow> bool" where
  "deps_done q i \<longleftrightarrow> (\<exists>k. dget (q_all q) i = Some k \<and> set (dependencies k) \<subseteq> set (q_done q))"

definition deps_listed :: "'m queue \<Rightarrow> string \<times> string list \<Rightarrow> bool" where
  "deps_listed q p \<longleftrightarrow> (\<exists>k. dget (q_all q) (fst p) = Some k
     \<and> set (dependencies k) \<subseteq> set (q_done q) \<union> set (snd p))"

definition deps_ok :: "'m queue \<Rightarrow> bool" where
  "deps_ok q \<longleftrightarrow> (\<forall>i \<in> set (q_ready q) \<union> set (q_running q). deps_done q i)
     \<and> (\<forall>p \<in> set (q_blocked q). deps_listed q p)"

text \<open>
  A change that keeps tasks and completions and adds nothing to the three work collections.
\<close>

definition deps_kept :: "(string, task) dict \<Rightarrow> (string, task) dict \<Rightarrow> bool" where
  "deps_kept A A' \<longleftrightarrow> (\<forall>i k. dget A i = Some k \<longrightarrow>
     (\<exists>k'. dget A' i = Some k' \<and> dependencies k' = dependencies k))"

lemma deps_kept_trans: "deps_kept A B \<Longrightarrow> deps_kept B C \<Longrightarrow> deps_kept A C"
  unfolding deps_kept_def by metis

lemma deps_kept_refl [simp]: "deps_kept A A"
  by (simp add: deps_kept_def)

definition shrinks :: "'m queue \<Rightarrow> 'm queue \<Rightarrow> bool" where
  "shrinks q q' \<longleftrightarrow>
     deps_kept (q_all q) (q_all q') \<and> set (q_done q) \<subseteq> set (q_done q') \<and> set (q_ready q') \<subseteq> set (q_ready q)
     \<and> set (q_running q') \<subseteq> set (q_running q) \<and> set (q_blocked q') \<subseteq> set (q_blocked q)"

lemma shrinks_refl: "shrinks q q"
  by (simp add: shrinks_def)

lemma shrinks_trans: "shrinks q r \<Longrightarrow> shrinks r s \<Longrightarrow> shrinks q s"
  unfolding shrinks_def by (meson subset_trans deps_kept_trans)

lemma shrinks_done: "shrinks q q' \<Longrightarrow> deps_done q i \<Longrightarrow> deps_done q' i"
  unfolding shrinks_def deps_done_def deps_kept_def by fastforce

lemma shrinks_listed: "shrinks q q' \<Longrightarrow> deps_listed q p \<Longrightarrow> deps_listed q' p"
  unfolding shrinks_def deps_listed_def deps_kept_def by fastforce

text \<open>The invariant together with tasks known to be free to run.\<close>

definition deps_free :: "string set \<Rightarrow> 'm queue \<Rightarrow> bool" where
  "deps_free I q \<longleftrightarrow> deps_ok q \<and> (\<forall>i \<in> I. deps_done q i)"

lemma shrinks_free: "shrinks q q' \<Longrightarrow> deps_free I q \<Longrightarrow> deps_free I q'"
proof -
  assume s: "shrinks q q'" and ok: "deps_free I q"
  have "set (q_ready q') \<subseteq> set (q_ready q)" "set (q_running q') \<subseteq> set (q_running q)"
    "set (q_blocked q') \<subseteq> set (q_blocked q)"
    using s by (simp_all add: shrinks_def)
  with ok show ?thesis
    unfolding deps_free_def deps_ok_def
    by (blast intro: shrinks_done [OF s] shrinks_listed [OF s])
qed

lemma deps_free_ok: "deps_free I q \<Longrightarrow> deps_ok q"
  by (simp add: deps_free_def)

lemma deps_free_empty: "deps_free {} q = deps_ok q"
  by (simp add: deps_free_def)

text \<open>Computations all of whose changes are of this kind.\<close>

definition shrinking :: "('m queue, 'a) sx \<Rightarrow> bool" where
  "shrinking m \<longleftrightarrow> (\<forall>q0. keep (shrinks q0) m)"

lemma shrinkingI: "(\<And>q. shrinks q (snd (m q))) \<Longrightarrow> shrinking m"
  by (auto simp: shrinking_def keep_def intro: shrinks_trans)

lemma shrinkingD: "shrinking m \<Longrightarrow> shrinks q (snd (m q))"
  by (simp add: shrinking_def keep_def shrinks_refl)

lemma shrinking_keep: "shrinking m \<Longrightarrow> keep (deps_free I) m"
  by (auto simp: keep_def intro: shrinks_free dest: shrinkingD)

lemma shrinking_bnd: "shrinking m \<Longrightarrow> (\<And>a. shrinking (f a)) \<Longrightarrow> shrinking (bnd m f)"
  by (simp add: shrinking_def keep_bnd)

lemma shrinking_andthen: "shrinking m \<Longrightarrow> shrinking n \<Longrightarrow> shrinking (andthen m n)"
  by (simp add: shrinking_def keep_andthen)

lemma shrinking_catch: "shrinking m \<Longrightarrow> (\<And>e. shrinking (h e)) \<Longrightarrow> shrinking (catch m h)"
  by (simp add: shrinking_def keep_catch)

lemma shrinking_ret: "shrinking (ret a)"
  by (simp add: shrinking_def keep_ret)

lemma shrinking_throw: "shrinking (throw e)"
  by (simp add: shrinking_def keep_throw)

lemma shrinking_gets: "shrinking (gets f)"
  by (simp add: shrinking_def keep_gets)

lemma shrinking_modify: "(\<And>q. shrinks q (f q)) \<Longrightarrow> shrinking (modify f)"
  by (rule shrinkingI) simp

lemma shrinking_option: "shrinking m \<Longrightarrow> (\<And>x. shrinking (f x)) \<Longrightarrow>
    shrinking (case v of None \<Rightarrow> m | Some x \<Rightarrow> f x)"
  by (simp split: option.split)

lemma shrinking_if: "shrinking m \<Longrightarrow> shrinking n \<Longrightarrow> shrinking (if b then m else n)"
  by simp

lemma shrinking_when_known: "shrinking m \<Longrightarrow> shrinking (when_known i a m)"
  by (auto simp: shrinking_def keep_def when_known_def split: option.splits)

lemmas shrinking_rules = shrinking_bnd shrinking_andthen shrinking_catch shrinking_ret
  shrinking_throw shrinking_gets shrinking_option shrinking_if shrinking_when_known

section \<open>Primitive steps\<close>

lemma shrinks_upd: "(\<And>k. dependencies (f k) = dependencies k) \<Longrightarrow> shrinks q (upd_task i f q)"
  by (auto simp: shrinks_def deps_kept_def)

lemma shrinks_lm: "shrinks q (q\<lparr>q_lm := s\<rparr>)"
  by (simp add: shrinks_def)

lemma shrinking_lift_lm: "shrinking (lift_lm m)"
  by (rule shrinkingI) (simp add: lift_lm_def shrinks_lm split: prod.split)

lemma shrinking_the_task: "shrinking (the_task i)"
  by (rule shrinkingI) (simp add: the_task_def shrinks_refl split: option.split)

lemma shrinking_sync: "shrinking (sync_task api i)"
  unfolding sync_task_def
  by (intro shrinking_rules shrinking_lift_lm shrinking_the_task)

lemma shrinking_move: "shrinking (move i t r)"
  by (rule shrinkingI)
    (auto simp: move_def shrinks_def deps_kept_def dest!: transition_frame split: option.split sum.split)

lemma shrinking_sort: "shrinking sort_ready"
  by (rule shrinkingI) (auto simp: sort_ready_def shrinks_def split: option.split)

lemma shrinks_drops:
  "shrinks q (drop_running i q)" "shrinks q (drop_blocked i q)"
  "shrinks q (q\<lparr>q_ready := remove1 i (q_ready q)\<rparr>)" "shrinks q (add_failed i q)"
  "shrinks q (q\<lparr>q_cancelled := c\<rparr>)" "shrinks q (q\<lparr>q_leases := l\<rparr>)"
  "shrinks q (q\<lparr>q_done := ladd i (q_done q)\<rparr>)" "shrinks q (push_dlq i e n q)"
  "shrinks q (q\<lparr>q_dropped := d\<rparr>)" "shrinks q (q\<lparr>q_guard := g\<rparr>)"
  using set_remove1_subset [of i "q_ready q"]
  by (auto simp: shrinks_def drop_running_def drop_blocked_def add_failed_def set_ddel)

lemma shrinks_force: "shrinks q (force_failed i r q)"
  unfolding force_failed_def
  by (rule shrinks_upd) (auto dest!: transition_frame split: sum.split)

lemma shrinks_drop_locks: "shrinks q (drop_locks i q)"
  by (auto simp: drop_locks_def shrinks_def deps_kept_def)

lemma shrinking_release: "shrinking (release_resources api i)"
  unfolding release_resources_def
  by (intro shrinking_rules shrinking_modify shrinking_lift_lm shrinks_drops shrinks_drop_locks)

lemma shrinks_record: "shrinks q (record_locks i res ls q)"
  by (auto simp: record_locks_def shrinks_def deps_kept_def)

lemma shrinking_acquire: "shrinking (try_acquire api i)"
  unfolding try_acquire_def Let_def
  by (intro shrinking_rules shrinking_the_task shrinking_lift_lm shrinking_modify shrinks_record)

lemma shrinking_select: "shrinking (select_ready api caps n is)"
  by (induction "is" arbitrary: n)
    (auto intro!: shrinking_rules shrinking_the_task shrinking_acquire)

lemma shrinking_fail_pass: "shrinking (fail_pass api now i r bs)"
proof (rule shrinkingI)
  fix q show "shrinks q (snd (fail_pass api now i r bs q))"
  proof (induction bs arbitrary: q)
    case Nil
    then show ?case by (simp add: shrinks_refl)
  next
    case (Cons x bs)
    obtain b deps where x: "x = (b, deps)" by (cases x)
    let ?q1 = "add_failed b (force_failed b r (drop_blocked b q))"
    have s1: "shrinks q ?q1"
      by (intro shrinks_trans [OF shrinks_trans [OF shrinks_drops(2) shrinks_force] shrinks_drops(4)])
    have s2: "shrinks q (snd (sync_task api b ?q1))"
      by (rule shrinks_trans [OF s1 shrinkingD [OF shrinking_sync]])
    note d = shrinks_trans [OF shrinks_drops(2) Cons.IH]
    note p = shrinks_trans [OF shrinks_trans [OF s2 shrinks_drops(8)] Cons.IH]
    show ?case
      using Cons.IH [of q] d [of q b] p s2
      by (auto simp: x split: option.split prod.split sum.split) (metis snd_conv)+
  qed
qed

lemma shrinking_fail_dependents: "shrinking (fail_dependents api now i r)"
proof (rule shrinkingI)
  fix q show "shrinks q (snd (fail_dependents api now i r q))"
  proof (induction api now i r q rule: fail_dependents.induct)
    case (1 api now i r q)
    have "shrinks q (snd (fail_pass api now i r (q_blocked q) q))"
      by (rule shrinkingD [OF shrinking_fail_pass])
    with "1.IH" show ?case
      by (subst fail_dependents.simps)
        (auto split: prod.split sum.split elim: shrinks_trans)
  qed
qed

section \<open>Methods\<close>

lemmas free_rules = keep_bnd keep_andthen keep_catch keep_ret keep_throw keep_gets keep_if keep_option

lemma free_push_ready: "deps_free I q \<Longrightarrow> i \<in> I \<Longrightarrow> deps_free I (push_ready i q)"
  by (auto simp: deps_free_def deps_ok_def push_ready_def deps_done_def deps_listed_def)

lemma free_running: "deps_free I q \<Longrightarrow> i \<in> I \<Longrightarrow> deps_free I (q\<lparr>q_running := ladd i (q_running q)\<rparr>)"
  by (auto simp: deps_free_def deps_ok_def deps_done_def deps_listed_def)

lemma keep_free_run: "deps_free I q \<Longrightarrow> keep (deps_free I) m \<Longrightarrow> deps_free I (snd (m q))"
  by (rule keepD)

lemma free_when_known: "keep (deps_free I) m \<Longrightarrow> keep (deps_free I) (when_known i a m)"
  by (auto simp: keep_def when_known_def split: option.splits)

lemma free_mono: "deps_free I q \<Longrightarrow> J \<subseteq> I \<Longrightarrow> deps_free J q"
  by (auto simp: deps_free_def)

text \<open>Admission: a task whose dependencies are complete is ready, any other is blocked.\<close>

lemma index_shrinks: "dget (q_all q) (t_id k) = None \<Longrightarrow> shrinks q (index_task k q)"
  by (auto simp: shrinks_def deps_kept_def index_task_def)

lemma free_blocked:
  assumes "deps_free I q" "dget (q_all q) i = Some k"
  shows "deps_free I (q\<lparr>q_blocked := dset i (unfulfilled k q) (q_blocked q)\<rparr>)"
proof -
  have "deps_listed q (i, unfulfilled k q)"
    using assms(2) by (auto simp: deps_listed_def unfulfilled_def)
  then show ?thesis
    using assms(1) set_dset_subset [of i "unfulfilled k q" "q_blocked q"]
    by (auto simp: deps_free_def deps_ok_def deps_done_def deps_listed_def)
qed

lemma insert_new_free:
  assumes ok: "deps_ok q" and new: "dget (q_all q) (t_id k) = None"
  shows "deps_ok (snd (insert_new api k q))"
proof -
  let ?q = "index_task k q"
  have f: "deps_free {} ?q"
    using ok by (intro shrinks_free [OF index_shrinks [OF new]]) (simp add: deps_free_empty)
  have k: "dget (q_all ?q) (t_id k) = Some k" by (simp add: index_task_def)
  have tail: "keep (deps_free I) (andthen (sync_task api (t_id k)) (ret True))" for I
    by (intro free_rules shrinking_keep shrinking_sync)
  have "deps_free {} (snd (insert_new api k q))"
  proof (cases "unfulfilled k ?q = []")
    case True
    then have "set (dependencies k) \<subseteq> set (q_done ?q)"
      by (auto simp: unfulfilled_def filter_empty_conv)
    with k f have "deps_free {t_id k} ?q"
      by (auto simp: deps_free_def deps_done_def)
    moreover have "keep (deps_free {t_id k})
        (andthen (move (t_id k) QUEUED ''All dependencies satisfied'')
              (andthen (modify (push_ready (t_id k))) sort_ready))"
      by (intro free_rules keep_modify shrinking_keep shrinking_move shrinking_sort)
        (simp add: free_push_ready)
    ultimately have "deps_free {t_id k} (snd (insert_new api k q))"
      using True keepD [OF keep_andthen [OF _ tail]]
      by (simp add: insert_new_def bnd_run [where m = "gets _"])
    then show ?thesis by (rule free_mono) simp
  next
    case False
    let ?r = "upd_task (t_id k) (\<lambda>t. t\<lparr>status := PENDING\<rparr>)
              (?q\<lparr>q_blocked := dset (t_id k) (unfulfilled k ?q) (q_blocked ?q)\<rparr>)"
    have "deps_free {} ?r"
      by (rule shrinks_free [OF shrinks_upd free_blocked [OF f k]]) simp
    with False show ?thesis
      by (simp add: insert_new_def bnd_run [where m = "gets _"] keepD [OF tail])
  qed
  then show ?thesis by (simp add: deps_free_empty)
qed

lemma add_deps:
  fixes api :: "'m lease_api option"
  shows "keep deps_ok (add_task api digest k parent block)"
proof (rule keepI)
  fix q :: "'m queue" assume ok: "deps_ok q"
  have fr: "deps_ok (q\<lparr>q_guard := g\<rparr>)" "deps_ok (q\<lparr>q_dropped := n\<rparr>)" for g n
    using ok by (simp_all add: deps_ok_def deps_done_def deps_listed_def)
  have "deps_ok (snd (insert_new api k (q\<lparr>q_guard := g\<rparr>)))" if "existing_for_replay k q = Inr None" for g
    using that by (intro insert_new_free fr)
      (auto simp: existing_for_replay_def Let_def split: option.splits if_splits)
  with ok fr show "deps_ok (snd (add_task api digest k parent block q))"
    by (auto simp: add_task_def lift_guard_def split: sum.splits option.splits prod.splits)
qed

text \<open>Dispatch: the selected task was ready.\<close>

lemma select_in:
  "select_ready api caps n is q = (Inr (Some (m, i)), q') \<Longrightarrow> i \<in> set is"
  by (induction "is" arbitrary: n q)
    (auto simp: bnd_def split: if_splits prod.splits sum.splits)

lemma pop_deps:
  fixes api :: "'m lease_api option"
  shows "keep deps_ok (pop_ready_task api caps node)"
proof (rule keepI)
  fix q :: "'m queue" assume ok: "deps_ok q"
  let ?c = "map_option clean_caps caps"
  obtain r q1 where sel: "select_ready api ?c 0 (q_ready q) q = (r, q1)" by fastforce
  have free: "deps_free I q1" if "deps_free I q" for I
    using keepD [OF shrinking_keep [OF shrinking_select] that, of api ?c 0 "q_ready q"] sel by simp
  show "deps_ok (snd (pop_ready_task api caps node q))"
  proof (cases "\<exists>n i. r = Inr (Some (n, i))")
    case False
    have "deps_ok q1" using ok free [of "{}"] by (simp add: deps_free_empty)
    with ok sel False show ?thesis
      by (auto simp: pop_ready_task_def Let_def bnd_def split: option.splits sum.splits)
  next
    case True
    then obtain n i where r: "r = Inr (Some (n, i))" by blast
    then have "i \<in> set (q_ready q)" using sel select_in by blast
    with ok have f: "deps_free {i} q1" by (intro free) (simp add: deps_free_def deps_ok_def)
    have cut: "shrinks q (q\<lparr>q_ready := take n (q_ready q) @ drop (Suc n) (q_ready q)\<rparr>)" for q :: "'m queue"
      by (auto simp: shrinks_def dest: in_set_takeD in_set_dropD)
    have noted: "shrinks q (note_dispatch i ?c node q)" for q :: "'m queue"
      by (auto simp: note_dispatch_def intro: shrinks_upd)
    have K: "keep (deps_free {i})
              (andthen (modify (note_dispatch i ?c node))
              (andthen (modify (\<lambda>q. q\<lparr>q_ready := take n (q_ready q) @ drop (Suc n) (q_ready q)\<rparr>))
              (andthen (move i RUNNING ''Dispatched to worker'')
              (andthen (modify (\<lambda>q. q\<lparr>q_running := ladd i (q_running q)\<rparr>))
              (andthen (sync_task api i) (ret (Some i)))))))"
      by (intro free_rules keep_modify shrinking_keep shrinking_move shrinking_sync
          shrinks_free [OF noted] shrinks_free [OF cut] free_running) auto
    from deps_free_ok [OF keepD [OF K f]] ok sel r show ?thesis
      by (simp add: pop_ready_task_def Let_def bnd_run [where m = "select_ready _ _ _ _"])
  qed
qed

text \<open>Completion releases exactly the tasks whose last missing dependency this was.\<close>

lemma unblock_listed:
  assumes dn: "i \<in> set (q_done q)" and l: "\<forall>p \<in> set b. deps_listed q p"
    and u: "unblock i b = (newly, b')"
  shows "\<forall>p \<in> set b'. deps_listed q p" "\<forall>j \<in> set newly. deps_done q j"
proof -
  have step: "deps_listed q (j, removeAll i ds)" if "(j, ds) \<in> set b" for j ds
    using l that dn by (fastforce simp: deps_listed_def)
  show "\<forall>p \<in> set b'. deps_listed q p"
    using u step by (auto simp: unblock_def Let_def)
  have "deps_done q j" if "(j, ds) \<in> set b" "removeAll i ds = []" for j ds
    using step [OF that(1)] that(2) by (auto simp: deps_listed_def deps_done_def)
  then show "\<forall>j \<in> set newly. deps_done q j"
    using u by (auto simp: unblock_def Let_def)
qed

lemma release_free:
  assumes ok: "deps_ok q" and dn: "i \<in> set (q_done q)"
  shows "deps_ok (snd (release_dependents api i q))"
proof -
  obtain newly b where u: "unblock i (q_blocked q) = (newly, b)" by fastforce
  have l: "\<forall>p \<in> set (q_blocked q). deps_listed q p" using ok by (simp add: deps_ok_def)
  have f: "deps_free (set newly) (q\<lparr>q_blocked := b\<rparr>)"
    using ok unblock_listed [OF dn l u]
    by (auto simp: deps_free_def deps_ok_def deps_done_def deps_listed_def)
  have each: "keep (deps_free (set newly)) (foreach js (\<lambda>i.
          andthen (move i QUEUED ''All dependencies completed'')
            (andthen (modify (push_ready i)) (sync_task api i))))" if "set js \<subseteq> set newly" for js
    using that
  proof (induction js)
    case Nil
    then show ?case by (simp add: keep_def)
  next
    case (Cons j js)
    have "keep (deps_free (set newly)) (modify (push_ready j))"
      using Cons.prems by (intro keep_modify free_push_ready) auto
    moreover have "keep (deps_free (set newly)) (foreach js (\<lambda>i.
          andthen (move i QUEUED ''All dependencies completed'')
            (andthen (modify (push_ready i)) (sync_task api i))))"
      by (rule Cons.IH) (use Cons.prems in auto)
    ultimately show ?case
      unfolding foreach.simps
      by (intro keep_andthen shrinking_keep [OF shrinking_move] shrinking_keep [OF shrinking_sync])
  qed
  have "keep (deps_free (set newly)) (andthen (foreach newly (\<lambda>i.
          andthen (move i QUEUED ''All dependencies completed'')
            (andthen (modify (push_ready i)) (sync_task api i))))
        (if newly \<noteq> [] then sort_ready else ret ()))"
    by (intro free_rules each shrinking_keep shrinking_sort subset_refl)
  from keepD [OF this f] show ?thesis
    by (simp add: release_dependents_def u deps_free_def)
qed

definition done_ok :: "string \<Rightarrow> 'm queue \<Rightarrow> bool" where
  "done_ok i q \<longleftrightarrow> deps_ok q \<and> i \<in> set (q_done q)"

lemma shrinking_done:
  fixes m :: "('m queue, 'a) sx"
  assumes m: "shrinking m"
  shows "keep (done_ok i) m"
proof (rule keepI)
  fix q :: "'m queue" assume q: "done_ok i q"
  have "deps_ok (snd (m q))"
    using q keepD [OF shrinking_keep [OF m], of "{}" q] by (simp add: done_ok_def deps_free_empty)
  with shrinkingD [OF m, of q] q show "done_ok i (snd (m q))"
    by (auto simp: done_ok_def shrinks_def)
qed

lemma keep_then:
  assumes "keep P m" "\<And>s a t. P s \<Longrightarrow> m s = (Inr a, t) \<Longrightarrow> P (snd (n t))"
  shows "keep P (andthen m n)"
  unfolding keep_def
proof (intro allI impI)
  fix s assume "P s"
  with assms(1) have "P (snd (m s))" by (rule keepD)
  with assms(2) [OF \<open>P s\<close>] show "P (snd (andthen m n s))"
    by (auto simp: andthen_run split: prod.split sum.split)
qed

lemma completed_deps:
  fixes api :: "'m lease_api option"
  shows "keep deps_ok (mark_completed api i)"
proof -
  let ?d = "modify (\<lambda>q. q\<lparr>q_done := ladd i (q_done q)\<rparr>) :: ('m queue, unit) sx"
  have tail: "deps_ok (snd (andthen ?d (andthen (sync_task api i) (release_dependents api i)) q))"
    if q: "deps_ok q" for q :: "'m queue"
  proof -
    have d: "done_ok i (q\<lparr>q_done := ladd i (q_done q)\<rparr>)"
      using q shrinks_free [OF shrinks_drops(7), of "{}" q i]
      by (simp add: done_ok_def deps_free_empty)
    have "deps_ok (snd (andthen (sync_task api i) (release_dependents api i) p))"
      if p: "done_ok i p" for p :: "'m queue"
    proof -
      have "done_ok i (snd (sync_task api i p))"
        by (rule keepD [OF shrinking_done [OF shrinking_sync] p])
      then show ?thesis
        by (auto simp: andthen_run done_ok_def release_free split: prod.split sum.split)
    qed
    from this [OF d] show ?thesis by simp
  qed
  have "keep deps_ok (andthen ?d (andthen (sync_task api i) (release_dependents api i)))"
    by (rule keepI) (rule tail)
  then have "keep (deps_free {}) (andthen ?d (andthen (sync_task api i) (release_dependents api i)))"
    by (simp add: keep_def deps_free_empty)
  then have "keep (deps_free {}) (mark_completed api i)"
    unfolding mark_completed_def
    by (rule free_when_known [OF keep_andthen
          [OF shrinking_keep [OF shrinking_modify [OF shrinks_drops(1)]] keep_andthen
          [OF shrinking_keep [OF shrinking_release] keep_andthen
          [OF shrinking_keep [OF shrinking_move]]]]])
  then show ?thesis by (simp add: keep_def deps_free_empty)
qed

text \<open>Failure of a dispatched task; escalation, cancellation and the sweep only remove work.\<close>

lemma failed_deps:
  assumes ok: "deps_ok q" and run: "i \<in> set (q_running q)"
  shows "deps_ok (snd (mark_failed api now i err rt q))"
proof -
  have f: "deps_free {i} q" using ok run by (simp add: deps_free_def deps_ok_def)
  have "keep (deps_free {i}) (mark_failed api now i err rt)"
    unfolding mark_failed_def
    by (intro free_when_known free_rules keep_modify shrinking_keep shrinking_release shrinking_move
        shrinking_sync shrinking_the_task shrinking_sort shrinking_fail_dependents
        shrinks_free [OF shrinks_drops(1)] shrinks_free [OF shrinks_drops(4)]
        shrinks_free [OF shrinks_drops(8)] shrinks_free [OF shrinks_upd] free_push_ready) auto
  from keepD [OF this f] show ?thesis by (rule deps_free_ok)
qed

lemma shrinks_unready: "shrinks q (drop_blocked i (q\<lparr>q_ready := remove1 i (q_ready q)\<rparr>))"
  by (rule shrinks_trans [OF shrinks_drops(3) shrinks_drops(2)])

lemma shrinking_escalated: "shrinking (mark_escalated api now i r)"
  unfolding mark_escalated_def
  by (intro shrinking_rules shrinking_modify shrinking_release shrinking_move
      shrinking_fail_dependents shrinks_drops shrinks_unready)

lemma shrinking_cancelled:
  fixes api :: "'m lease_api option"
  shows "shrinking (mark_cancelled api now i r)"
proof (rule shrinkingI)
  fix q :: "'m queue"
  have "shrinking (andthen (modify (drop_running i))
          (andthen (release_resources api i)
          (andthen (modify (\<lambda>q. drop_blocked i (q\<lparr>q_ready := remove1 i (q_ready q)\<rparr>)))
          (andthen (move i CANCELLED r)
          (andthen (modify (\<lambda>q. q\<lparr>q_cancelled := ladd i (q_cancelled q)\<rparr>))
          (andthen (fail_dependents api now i (''dependency '' @ i @ '' cancelled''))
            (ret True)))))))"
    by (intro shrinking_rules shrinking_modify shrinking_release shrinking_move
        shrinking_fail_dependents shrinks_drops shrinks_unready)
  from shrinkingD [OF this, of q] show "shrinks q (snd (mark_cancelled api now i r q))"
    by (simp add: mark_cancelled_def shrinks_refl split: option.split)
qed

lemma shrinking_cancel_each: "shrinking (cancel_each api now r is n)"
  by (induction "is" arbitrary: n) (auto intro!: shrinking_rules shrinking_cancelled)

lemma shrinking_cancel_all: "shrinking (cancel_all api now r)"
  unfolding cancel_all_def by (intro shrinking_rules shrinking_cancel_each)

lemma shrinking_unfulfillable: "shrinking (unfulfillable_loop api now bs)"
proof (induction bs)
  case Nil
  then show ?case by (auto intro: shrinkingI simp: shrinks_refl)
next
  case (Cons x bs)
  obtain b deps where x: "x = (b, deps)" by (cases x)
  have forced: "shrinking (\<lambda>q. if dget (q_blocked q) b = None then (Inr [], q)
           else case dget (q_all q) b of
             None \<Rightarrow> (Inr [], drop_blocked b q)
           | Some k \<Rightarrow> andthen (sync_task api b) (ret [b])
               (add_failed b (force_failed b ''unfulfillable dependencies'' (drop_blocked b q))))"
  proof (rule shrinkingI)
    fix q :: "'a queue"
    let ?f = "add_failed b (force_failed b ''unfulfillable dependencies'' (drop_blocked b q))"
    have "shrinks q ?f"
      by (intro shrinks_trans [OF shrinks_trans [OF shrinks_drops(2) shrinks_force] shrinks_drops(4)])
    moreover have "shrinks ?f (snd (andthen (sync_task api b) (ret [b]) ?f))"
      by (intro shrinkingD shrinking_rules shrinking_sync)
    ultimately have "shrinks q (snd (andthen (sync_task api b) (ret [b]) ?f))"
      by (rule shrinks_trans)
    then show "shrinks q (snd (if dget (q_blocked q) b = None then (Inr [], q)
           else case dget (q_all q) b of
             None \<Rightarrow> (Inr [], drop_blocked b q)
           | Some k \<Rightarrow> andthen (sync_task api b) (ret [b]) ?f))"
      by (auto simp: shrinks_refl shrinks_drops split: option.split)
  qed
  note loop = shrinking_bnd [OF shrinking_fail_dependents
      shrinking_bnd [OF forced shrinking_bnd [OF Cons.IH shrinking_ret]]]
  show ?case
    by (rule shrinkingI) (auto simp: x intro: shrinkingD [OF loop] shrinkingD [OF Cons.IH])
qed

lemma unfulfillable_deps: "shrinking (fail_unfulfillable_blocked api now)"
  by (rule shrinkingI) (simp add: fail_unfulfillable_blocked_def shrinkingD [OF shrinking_unfulfillable])

text \<open>Recovery rebuilds both indexes from the tasks and the completed set.\<close>

lemma deps_recover_task [simp]: "dependencies (recover_task k) = dependencies k"
  by (simp add: recover_task_def log_move_def)

lemma requeue_free:
  assumes ok: "deps_ok q" and k: "dget (q_all q) i = Some k'" "dependencies k' = dependencies k"
  shows "deps_ok (requeue_step (i, k) q)"
proof -
  have un: "unfulfilled k q = unfulfilled k' q" using k(2) by (simp add: unfulfilled_def)
  have f: "deps_free {} q" using ok by (simp add: deps_free_empty)
  have b: "deps_ok (upd_task i (\<lambda>t. t\<lparr>status := PENDING\<rparr>)
      (q\<lparr>q_blocked := dset i (unfulfilled k q) (q_blocked q)\<rparr>))"
    unfolding un
    by (rule deps_free_ok, rule shrinks_free [OF shrinks_upd free_blocked [OF f k(1)]]) simp
  have r: "deps_ok (push_ready i (upd_task i (\<lambda>t. t\<lparr>status := QUEUED\<rparr>) q))"
    if "unfulfilled k q = []"
  proof -
    have "deps_done q i"
      using that k by (auto simp: deps_done_def unfulfilled_def filter_empty_conv)
    with ok have "deps_free {i} q" by (simp add: deps_free_def)
    then show ?thesis
      by (intro deps_free_ok free_push_ready shrinks_free [OF shrinks_upd]) auto
  qed
  show ?thesis
    using ok b r by (simp add: requeue_step_def Let_def)
qed

lemma requeue_known:
  "dget (q_all q) j = Some k \<Longrightarrow>
     \<exists>k'. dget (q_all (requeue_step p q)) j = Some k' \<and> dependencies k' = dependencies k"
  by (cases p) (auto simp: requeue_step_def Let_def push_ready_def)

lemma fold_requeue_free:
  assumes "deps_ok q"
    and "\<forall>(i, k) \<in> set xs. \<exists>k'. dget (q_all q) i = Some k' \<and> dependencies k' = dependencies k"
  shows "deps_ok (fold requeue_step xs q)"
  using assms
proof (induction xs arbitrary: q)
  case Nil
  then show ?case by simp
next
  case (Cons p xs)
  obtain i k where p: "p = (i, k)" by (cases p)
  from Cons.prems(2) p obtain k' where "dget (q_all q) i = Some k'" "dependencies k' = dependencies k"
    by auto
  then have "deps_ok (requeue_step p q)"
    unfolding p using Cons.prems(1) by (intro requeue_free)
  moreover have "\<forall>(j, l) \<in> set xs. \<exists>k'. dget (q_all (requeue_step p q)) j = Some k' \<and>
      dependencies k' = dependencies l"
    using Cons.prems(2) requeue_known [of q _ _ p] by fastforce
  ultimately show ?case
    using Cons.IH by simp
qed

lemma recover_deps: "dict_ok (q_all q) \<Longrightarrow> deps_ok q \<Longrightarrow> deps_ok (snd (recover_incomplete_tasks q))"
proof -
  assume d: "dict_ok (q_all q)" and ok: "deps_ok q"
  let ?q1 = "(recover_indexed q)\<lparr>q_ready := [], q_blocked := []\<rparr>"
  have all: "q_all ?q1 = map (\<lambda>(i, k). (i, recover_task k)) (q_all q)"
    by (simp add: recover_indexed_def Let_def)
  have "shrinks q ?q1"
    by (auto simp: shrinks_def deps_kept_def recover_indexed_def Let_def map_of_map)
  then have "deps_ok ?q1"
    using ok shrinks_free [of q ?q1 "{}"] by (simp add: deps_free_empty)
  moreover have "dict_ok (q_all ?q1)"
    unfolding all using d by (simp add: comp_def case_prod_unfold)
  then have "\<forall>(i, k) \<in> set (q_all ?q1). \<exists>k'. dget (q_all ?q1) i = Some k' \<and>
      dependencies k' = dependencies k"
    by (auto simp del: recover_indexed_def)
  ultimately have "deps_ok (fold requeue_step (q_all ?q1) ?q1)"
    by (rule fold_requeue_free)
  then have "deps_free {} (fold requeue_step (q_all ?q1) ?q1)"
    by (simp add: deps_free_empty)
  from keepD [OF keep_andthen [OF shrinking_keep [OF shrinking_sort] keep_ret] this] show ?thesis
    by (simp add: recover_incomplete_tasks_def Let_def deps_free_empty)
qed

section \<open>The scheduler's use of the queue\<close>

text \<open>
  The calls as the engine makes them: a failure is reported for a task it was given, and the
  snapshot of a crashed run is restored before the run starts, not in its middle.
\<close>

inductive scheduler_step ::
  "'m lease_api option \<Rightarrow> (string \<Rightarrow> string) \<Rightarrow> 'm queue \<Rightarrow> 'm queue \<Rightarrow> bool"
  for api digest where
  Add: "scheduler_step api digest q (snd (add_task api digest k parent block q))"
| Pop: "scheduler_step api digest q (snd (pop_ready_task api caps node q))"
| Complete: "scheduler_step api digest q (snd (mark_completed api i q))"
| Fail: "i \<in> set (q_running q) \<Longrightarrow>
    scheduler_step api digest q (snd (mark_failed api now i err retryable q))"
| Escalate: "scheduler_step api digest q (snd (mark_escalated api now i reason q))"
| Cancel: "scheduler_step api digest q (snd (mark_cancelled api now i reason q))"
| CancelAll: "scheduler_step api digest q (snd (cancel_all api now reason q))"
| Unfulfillable: "scheduler_step api digest q (snd (fail_unfulfillable_blocked api now q))"
| Recover: "scheduler_step api digest q (snd (recover_incomplete_tasks q))"
| Engine: "dget (q_all q) i = Some k \<Longrightarrow> task_intent k' = task_intent k \<Longrightarrow>
    scheduler_step api digest q (q\<lparr>q_all := dset i k' (q_all q)\<rparr>)"

lemma scheduler_is_queue_step: "scheduler_step api digest q q' \<Longrightarrow> queue_step api digest q q'"
  by (induction rule: scheduler_step.induct) (blast intro: queue_step.intros)+

interpretation task_dict: queue_invariant "\<lambda>q. dict_ok (q_all q)"
  by unfold_locales (simp_all add: index_task_def comp_def case_prod_unfold)

lemma intent_dependencies: "task_intent k' = task_intent k \<Longrightarrow> dependencies k' = dependencies k"
  by (drule arg_cong [where f = dependencies]) (simp add: task_intent_def)

lemma shrinking_ok: "shrinking m \<Longrightarrow> deps_ok q \<Longrightarrow> deps_ok (snd (m q))"
  using shrinks_free [OF shrinkingD, of m "{}" q] by (simp add: deps_free_empty)

lemma scheduler_step_deps:
  "scheduler_step api digest q q' \<Longrightarrow> dict_ok (q_all q) \<Longrightarrow> deps_ok q \<Longrightarrow> deps_ok q'"
proof (induction rule: scheduler_step.induct)
  case (Engine q i k k')
  have "shrinks q (q\<lparr>q_all := dset i k' (q_all q)\<rparr>)"
    using Engine.hyps intent_dependencies [of k' k] by (simp add: shrinks_def deps_kept_def)
  with Engine.prems(2) show ?case
    using shrinks_free [of q _ "{}"] by (simp add: deps_free_empty)
qed (auto intro: keepD [OF add_deps] keepD [OF pop_deps] keepD [OF completed_deps] failed_deps
    shrinking_ok [OF shrinking_escalated] shrinking_ok [OF shrinking_cancelled]
    shrinking_ok [OF shrinking_cancel_all] shrinking_ok [OF unfulfillable_deps] recover_deps)

lemma scheduler_steps_deps:
  "(scheduler_step api digest)\<^sup>*\<^sup>* q q' \<Longrightarrow> dict_ok (q_all q) \<Longrightarrow> deps_ok q \<Longrightarrow>
     dict_ok (q_all q') \<and> deps_ok q'"
  by (induction rule: rtranclp_induct)
    (auto intro: scheduler_step_deps task_dict.step_keeps [OF scheduler_is_queue_step])

end
