(* ===== verification/Queue_Settlement.thy ===== *)
theory Queue_Settlement
  imports Queue_Locks Queue_Dependencies
begin

text \<open>
  What the settling methods of the queue do: the cascade of a permanent failure to exactly
  the tasks that wait for it, retries and dead letters, escalation, cancellation, recovery
  and backpressure. Statements about the result of a call without a lease manager are for
  \<open>None\<close>; the others hold for any.
\<close>

section \<open>The cascade\<close>

text \<open>A pass that reports no change found nothing to do.\<close>

lemma fail_pass_unchanged:
  "fail_pass api now i r bs q = (Inr (ids, False), q') \<Longrightarrow>
     q' = q \<and> ids = [] \<and> (\<forall>p \<in> set bs. \<not> doomed i (q_all q) (snd p))"
proof (induction bs arbitrary: ids)
  case Nil
  then show ?case by simp
next
  case (Cons x bs)
  obtain b deps where "x = (b, deps)" by (cases x)
  with Cons show ?case
    by (auto split: if_splits option.splits prod.splits sum.splits)
qed

lemma fail_dependents_fixpoint:
  "fail_dependents api now i r q = (Inr ids, q') \<Longrightarrow>
     \<forall>p \<in> set (q_blocked q'). \<not> doomed i (q_all q') (snd p)"
proof (induction api now i r q arbitrary: ids rule: fail_dependents.induct)
  case (1 api now i r q)
  obtain res q1 where pass: "fail_pass api now i r (q_blocked q) q = (res, q1)" by fastforce
  note run = "1.prems" [unfolded fail_dependents.simps [of api now i r q] pass]
  then obtain ids1 ch where res: "res = Inr (ids1, ch)" by (cases res) auto
  show ?case
  proof (cases ch)
    case True
    with run res obtain rest where "fail_dependents api now i r q1 = (Inr rest, q')"
      by (auto split: prod.splits sum.splits)
    with "1.IH" pass res True show ?thesis by simp
  next
    case False
    with run res pass fail_pass_unchanged show ?thesis by fastforce
  qed
qed

text \<open>
  The tasks a failure of \<open>i\<close> reaches: those blocked on \<open>i\<close>, on a task that will not
  complete, or on a task reached before.
\<close>

inductive tainted :: "string \<Rightarrow> 'm queue \<Rightarrow> string \<Rightarrow> bool" for i q where
  direct: "(b, ds) \<in> set (q_blocked q) \<Longrightarrow> doomed i (q_all q) ds \<Longrightarrow> tainted i q b"
| chained: "(b, ds) \<in> set (q_blocked q) \<Longrightarrow> d \<in> set ds \<Longrightarrow> tainted i q d \<Longrightarrow> tainted i q b"

text \<open>Relative to \<open>q0\<close>, only reached tasks have changed or left the blocked set.\<close>

definition isolated :: "string \<Rightarrow> 'm queue \<Rightarrow> 'm queue \<Rightarrow> bool" where
  "isolated i q0 q \<longleftrightarrow> set (q_blocked q) \<subseteq> set (q_blocked q0)
     \<and> (\<forall>p \<in> set (q_blocked q0). \<not> tainted i q0 (fst p) \<longrightarrow> p \<in> set (q_blocked q))
     \<and> (\<forall>j. \<not> tainted i q0 j \<longrightarrow> dget (q_all q) j = dget (q_all q0) j)"

lemma isolated_refl: "isolated i q q"
  by (simp add: isolated_def)

lemma isolated_doomed:
  assumes iso: "isolated i q0 q" and b: "(b, ds) \<in> set (q_blocked q0)" and d: "doomed i (q_all q) ds"
  shows "tainted i q0 b"
proof (cases "i \<in> set ds")
  case True
  with b show ?thesis by (auto simp: doomed_def intro: direct)
next
  case False
  with d obtain e where e: "e \<in> set ds" "dep_dead (q_all q) e" by (auto simp: doomed_def)
  show ?thesis
  proof (cases "tainted i q0 e")
    case True
    with b e show ?thesis by (auto intro: chained)
  next
    case False
    with iso have "dget (q_all q) e = dget (q_all q0) e" by (simp add: isolated_def)
    with e have "doomed i (q_all q0) ds" by (auto simp: doomed_def dep_dead_def)
    with b show ?thesis by (rule direct)
  qed
qed

lemma isolated_drop: "isolated i q0 q \<Longrightarrow> tainted i q0 b \<Longrightarrow> isolated i q0 (drop_blocked b q)"
  by (auto simp: isolated_def drop_blocked_def set_ddel)

lemma isolated_sync: "isolated i q0 q \<Longrightarrow> isolated i q0 (snd (sync_task api b q))"
proof -
  assume iso: "isolated i q0 q"
  obtain r q' where run: "sync_task api b q = (r, q')" by fastforce
  then obtain s where "q' = q\<lparr>q_lm := s\<rparr>" using sync_task_frame by blast
  with iso run show ?thesis by (simp add: isolated_def)
qed

lemma isolated_force: "isolated i q0 q \<Longrightarrow> tainted i q0 b \<Longrightarrow>
    isolated i q0 (add_failed b (force_failed b r q))"
  by (auto simp: isolated_def add_failed_def force_failed_def)

lemma fail_pass_isolated:
  assumes "isolated i q0 q" and "set bs \<subseteq> set (q_blocked q0)"
  shows "isolated i q0 (snd (fail_pass api now i r bs q))"
  using assms
proof (induction bs arbitrary: q)
  case Nil
  then show ?case by simp
next
  case (Cons x bs)
  obtain b deps where x: "x = (b, deps)" by (cases x)
  show ?case
  proof (cases "doomed i (q_all q) deps")
    case False
    with Cons x show ?thesis by simp
  next
    case True
    have t: "tainted i q0 b"
      by (rule isolated_doomed [OF Cons.prems(1) _ True]) (use Cons.prems x in auto)
    let ?q1 = "add_failed b (force_failed b r (drop_blocked b q))"
    have d: "isolated i q0 (drop_blocked b q)"
      using Cons.prems(1) t by (rule isolated_drop)
    have s: "isolated i q0 (snd (sync_task api b ?q1))"
      by (intro isolated_sync isolated_force d t)
    then have "isolated i q0 (push_dlq b e now (snd (sync_task api b ?q1)))" for e
      by (simp add: isolated_def)
    then have p: "isolated i q0 (snd (fail_pass api now i r bs (push_dlq b e now (snd (sync_task api b ?q1)))))" for e
      using Cons by auto
    have "isolated i q0 (snd (fail_pass api now i r bs (drop_blocked b q)))"
      using Cons d by auto
    with True p [of "''[DEPENDENCY_ERROR] '' @ r"] s show ?thesis
      by (auto simp: x split: option.split prod.split sum.split)
  qed
qed

lemma fail_dependents_isolated_from:
  "isolated i q0 q \<Longrightarrow> isolated i q0 (snd (fail_dependents api now i r q))"
proof (induction api now i r q rule: fail_dependents.induct)
  case (1 api now i r q)
  then have "set (q_blocked q) \<subseteq> set (q_blocked q0)" by (simp add: isolated_def)
  with "1.prems" have "isolated i q0 (snd (fail_pass api now i r (q_blocked q) q))"
    by (rule fail_pass_isolated)
  with "1.IH" show ?case
    by (subst fail_dependents.simps) (auto split: prod.split sum.split)
qed

lemma fail_dependents_isolated: "isolated i q (snd (fail_dependents api now i r q))"
  by (rule fail_dependents_isolated_from [OF isolated_refl])

section \<open>Evaluation without a lease manager\<close>

lemma sync_None [simp]: "sync_task None i = ret ()"
  by (simp add: sync_task_def)

lemma release_None: "release_resources None i q = (Inr (), drop_locks i (q\<lparr>q_leases := ddel i (q_leases q)\<rparr>))"
  by (simp add: release_resources_def bnd_run andthen_run)

lemma drop_locks_frame [simp]:
  "q_ready (drop_locks i q) = q_ready q" "q_running (drop_locks i q) = q_running q"
  "q_blocked (drop_locks i q) = q_blocked q" "q_done (drop_locks i q) = q_done q"
  "q_failed (drop_locks i q) = q_failed q" "q_dlq (drop_locks i q) = q_dlq q"
  "q_cancelled (drop_locks i q) = q_cancelled q" "q_idem (drop_locks i q) = q_idem q"
  by (simp_all add: drop_locks_def)

text \<open>The task object after its locks have been released.\<close>

definition unlocked :: "task \<Rightarrow> task" where
  "unlocked k = k\<lparr>meta := (meta k)\<lparr>m_locks_held := None, m_leases := None\<rparr>\<rparr>"

lemma dget_drop_locks [simp]:
  "dget (q_all (drop_locks i q)) j =
     (if j = i then map_option unlocked (dget (q_all q) i) else dget (q_all q) j)"
  by (simp add: drop_locks_def unlocked_def [abs_def])

lemma unlocked_simps [simp]:
  "status (unlocked k) = status k" "retry_count (unlocked k) = retry_count k"
  "max_retries (unlocked k) = max_retries k"
  "admit_effect_retry (Some (meta (unlocked k))) = admit_effect_retry (Some (meta k))"
  "dependencies (unlocked k) = dependencies k"
  by (simp_all add: unlocked_def admit_effect_retry_def)

text \<open>
  The common prefix of the settling methods: the task leaves the running set and its locks
  are dropped.
\<close>

definition settled :: "string \<Rightarrow> 'm queue \<Rightarrow> 'm queue" where
  "settled i q = (let q1 = drop_running i q in drop_locks i (q1\<lparr>q_leases := ddel i (q_leases q1)\<rparr>))"

lemma settled_frame [simp]:
  "q_ready (settled i q) = q_ready q" "q_running (settled i q) = removeAll i (q_running q)"
  "q_blocked (settled i q) = q_blocked q" "q_done (settled i q) = q_done q"
  "q_failed (settled i q) = q_failed q" "q_dlq (settled i q) = q_dlq q"
  "q_cancelled (settled i q) = q_cancelled q"
  "dget (q_all (settled i q)) j =
     (if j = i then map_option unlocked (dget (q_all q) i) else dget (q_all q) j)"
  by (simp_all add: settled_def Let_def drop_running_def)

lemma settle_run [simp]:
  "andthen (release_resources None i) m (drop_running i q) = m (settled i q)"
  by (simp add: andthen_run release_None settled_def Let_def)

lemma move_ok:
  assumes "dget (q_all q) i = Some k" "can_transition (status k) t"
    "t = RETRYING \<Longrightarrow> admit_effect_retry (Some (meta k))"
  shows "move i t r q = (Inr (), q\<lparr>q_all := dset i (log_move (status k) t r (k\<lparr>status := t\<rparr>)) (q_all q)\<rparr>)"
  using assms by (simp add: move_def transition_def)

lemma move_refused:
  assumes "dget (q_all q) i = Some k" "\<not> can_transition (status k) t \<or>
    t = RETRYING \<and> \<not> admit_effect_retry (Some (meta k))"
  shows "move i t r q = (Inl InvalidTransition, q)"
  using assms by (auto simp: move_def transition_def Let_def)

definition known_ready :: "'m queue \<Rightarrow> bool" where
  "known_ready q \<longleftrightarrow> (\<forall>j \<in> set (q_ready q). dget (q_all q) j \<noteq> None)"

lemma sort_ready_run:
  "known_ready q \<Longrightarrow> sort_ready q = (Inr (), q\<lparr>q_ready := sort_key (ready_key (q_all q)) (q_ready q)\<rparr>)"
  by (auto simp: sort_ready_def known_ready_def find_None_iff split: option.split)

section \<open>Failure, retry and the dead-letter queue\<close>

text \<open>
  A running task that fails is queued again exactly while retries are left and its effect may
  be repeated. Out of retries it is a permanent failure with a dead letter, and its dependents
  fail. A retry the effect forbids raises and leaves the task FAILED outside every collection.
\<close>

definition fail_outcome :: "bool \<Rightarrow> task \<Rightarrow> exn + bool" where
  "fail_outcome retryable k =
     (if retryable \<and> retry_count k + 1 \<le> max_retries k
      then (if admit_effect_retry (Some (meta k)) then Inr True else Inl InvalidTransition)
      else Inr False)"

lemma fail_moves [simp]:
  "can_transition RUNNING FAILED" "can_transition FAILED RETRYING" "can_transition RETRYING QUEUED"
  by (simp_all add: can_transition_def can_move_def)

lemma admit_log_move [simp]:
  "admit_effect_retry (Some (meta (log_move a b r k))) = admit_effect_retry (Some (meta k))"
  by (simp add: log_move_def admit_effect_retry_def)

lemma the_task_run: "dget (q_all q) i = Some k \<Longrightarrow> the_task i q = (Inr k, q)"
  by (simp add: the_task_def)

lemma failed_start:
  assumes k: "dget (q_all q) i = Some k"
  shows "mark_failed None now i err rt q =
    (let q2 = upd_task i (\<lambda>k. k\<lparr>retry_count := retry_count k + 1\<rparr>) (settled i q) in
       if rt \<and> retry_count k + 1 \<le> max_retries k
       then andthen (move i FAILED err)
         (andthen (move i RETRYING (''Attempt '' @ str_of_int (retry_count k + 1) @ ''/''
             @ str_of_int (max_retries k)))
         (andthen (move i QUEUED ''Re-queued for retry'')
         (andthen (modify (push_ready i)) (andthen sort_ready (ret True))))) q2
       else andthen (move i FAILED (''Max retries exceeded: '' @ err))
         (andthen (modify (push_dlq i err now))
         (andthen (modify (add_failed i))
         (andthen (fail_dependents None now i (''dependency '' @ i @ '' failed permanently''))
           (ret False)))) q2)"
proof -
  have skip: "andthen (ret ()) m = m" for m :: "('a queue, 'b) sx"
    by (rule ext) (simp add: andthen_run)
  show ?thesis
    using k by (simp add: mark_failed_def when_known_def bnd_run [where m = "the_task _"]
        the_task_run Let_def skip)
qed

text \<open>The queue and the task object once the attempt has been counted, and once it has failed.\<close>

definition counted :: "string \<Rightarrow> 'm queue \<Rightarrow> 'm queue" where
  "counted i q = upd_task i (\<lambda>k. k\<lparr>retry_count := retry_count k + 1\<rparr>) (settled i q)"

definition failed_once :: "string \<Rightarrow> task \<Rightarrow> task" where
  "failed_once r k = log_move (status k) FAILED r ((unlocked k)\<lparr>retry_count := retry_count k + 1, status := FAILED\<rparr>)"

lemma failed_once_simps [simp]:
  "status (failed_once r k) = FAILED" "retry_count (failed_once r k) = retry_count k + 1"
  "admit_effect_retry (Some (meta (failed_once r k))) = admit_effect_retry (Some (meta k))"
  by (simp_all add: failed_once_def unlocked_def admit_effect_retry_def log_move_def)

lemma counted_frame [simp]:
  "q_ready (counted i q) = q_ready q" "q_running (counted i q) = removeAll i (q_running q)"
  "q_blocked (counted i q) = q_blocked q" "q_done (counted i q) = q_done q"
  "q_failed (counted i q) = q_failed q" "q_dlq (counted i q) = q_dlq q"
  "j \<noteq> i \<Longrightarrow> dget (q_all (counted i q)) j = dget (q_all q) j"
  by (simp_all add: counted_def)

lemma first_move:
  assumes "dget (q_all q) i = Some k" "can_transition (status k) FAILED"
  shows "move i FAILED r (counted i q) =
    (Inr (), (counted i q)\<lparr>q_all := dset i (failed_once r k) (q_all (counted i q))\<rparr>)"
proof -
  have "dget (q_all (counted i q)) i = Some ((unlocked k)\<lparr>retry_count := retry_count k + 1\<rparr>)"
    using assms(1) by (simp add: counted_def)
  from move_ok [OF this, of FAILED r] assms(2) show ?thesis
    by (simp add: failed_once_def)
qed

lemma retry_runs:
  assumes k: "dget (q_all q) i = Some k" "can_transition (status k) FAILED" and kr: "known_ready q"
    and rt: "rt" "retry_count k + 1 \<le> max_retries k" and adm: "admit_effect_retry (Some (meta k))"
  shows "\<exists>q'. mark_failed None now i err rt q = (Inr True, q') \<and> i \<in> set (q_ready q')
     \<and> (\<exists>k'. dget (q_all q') i = Some k' \<and> status k' = QUEUED \<and> retry_count k' = retry_count k + 1)
     \<and> q_failed q' = q_failed q \<and> q_dlq q' = q_dlq q \<and> q_blocked q' = q_blocked q"
proof -
  let ?m = "''Attempt '' @ str_of_int (retry_count k + 1) @ ''/'' @ str_of_int (max_retries k)"
  let ?k1 = "failed_once err k"
  let ?k2 = "log_move FAILED RETRYING ?m (?k1\<lparr>status := RETRYING\<rparr>)"
  let ?k3 = "log_move RETRYING QUEUED ''Re-queued for retry'' (?k2\<lparr>status := QUEUED\<rparr>)"
  let ?q1 = "(counted i q)\<lparr>q_all := dset i ?k1 (q_all (counted i q))\<rparr>"
  let ?q2 = "(counted i q)\<lparr>q_all := dset i ?k2 (q_all (counted i q))\<rparr>"
  let ?q3 = "(counted i q)\<lparr>q_all := dset i ?k3 (q_all (counted i q))\<rparr>"
  have m1: "move i FAILED err (counted i q) = (Inr (), ?q1)"
    using k by (rule first_move)
  have m2: "move i RETRYING ?m ?q1 = (Inr (), ?q2)"
    using move_ok [of ?q1 i ?k1 RETRYING ?m] adm by simp
  have m3: "move i QUEUED ''Re-queued for retry'' ?q2 = (Inr (), ?q3)"
    using move_ok [of ?q2 i ?k2 QUEUED] by simp
  have "known_ready (push_ready i ?q3)"
    using kr by (auto simp: known_ready_def push_ready_def)
  note srt = sort_ready_run [OF this]
  have "mark_failed None now i err rt q =
      (Inr True, (push_ready i ?q3)\<lparr>q_ready := sort_key (ready_key (q_all (push_ready i ?q3)))
         (q_ready (push_ready i ?q3))\<rparr>)"
    using rt by (simp add: failed_start [OF k(1)] Let_def counted_def [symmetric] andthen_run m1 m2 m3 srt
        del: append.simps)
  then show ?thesis
    by (auto simp: push_ready_def)
qed

lemma retry_refused:
  assumes k: "dget (q_all q) i = Some k" "can_transition (status k) FAILED"
    and rt: "rt" "retry_count k + 1 \<le> max_retries k" and adm: "\<not> admit_effect_retry (Some (meta k))"
  shows "\<exists>q'. mark_failed None now i err rt q = (Inl InvalidTransition, q')
     \<and> (\<exists>k'. dget (q_all q') i = Some k' \<and> status k' = FAILED)
     \<and> q_failed q' = q_failed q \<and> q_dlq q' = q_dlq q \<and> q_blocked q' = q_blocked q
     \<and> q_ready q' = q_ready q \<and> i \<notin> set (q_running q')"
proof -
  let ?m = "''Attempt '' @ str_of_int (retry_count k + 1) @ ''/'' @ str_of_int (max_retries k)"
  let ?k1 = "failed_once err k"
  let ?q1 = "(counted i q)\<lparr>q_all := dset i ?k1 (q_all (counted i q))\<rparr>"
  have m1: "move i FAILED err (counted i q) = (Inr (), ?q1)"
    using k by (rule first_move)
  have m2: "move i RETRYING ?m ?q1 = (Inl InvalidTransition, ?q1)"
    using adm by (intro move_refused [where k = ?k1]) simp_all
  have "mark_failed None now i err rt q = (Inl InvalidTransition, ?q1)"
    using rt by (simp add: failed_start [OF k(1)] Let_def counted_def [symmetric] andthen_run m1 m2
        del: append.simps)
  then show ?thesis by simp
qed

lemma push_dlq_run:
  "dget (q_all q) i = Some k \<Longrightarrow> q_dlq (push_dlq i e now q) = q_dlq q @ [\<lparr>dl_task_id = i,
     dl_task = k, dl_error = e, dl_attempts = retry_count k, dl_time = now\<rparr>]"
  by (simp add: push_dlq_def)

text \<open>Without a lease manager the cascade never raises.\<close>

lemma fail_pass_None: "\<exists>ids ch q'. fail_pass None now i r bs q = (Inr (ids, ch), q')"
proof (induction bs arbitrary: q)
  case Nil
  show ?case by (intro exI) (rule fail_pass.simps(1))
next
  case (Cons x bs)
  obtain b deps where x: "x = (b, deps)" by (cases x)
  obtain ids ch q1 where 1: "fail_pass None now i r bs (drop_blocked b q) = (Inr (ids, ch), q1)"
    using Cons [of "drop_blocked b q"] by auto
  let ?p = "push_dlq b (''[DEPENDENCY_ERROR] '' @ r) now
      (add_failed b (force_failed b r (drop_blocked b q)))"
  obtain ids2 ch2 q2 where 2: "fail_pass None now i r bs ?p = (Inr (ids2, ch2), q2)"
    using Cons [of ?p] by auto
  from 1 2 Cons [of q] show ?case
    by (auto simp: x split: option.split simp del: append.simps)
qed

lemma fail_dependents_None:
  fixes q :: "'m queue"
  shows "\<exists>ids q'. fail_dependents None now i r q = (Inr ids, q')"
proof (induction "length (q_blocked q)" arbitrary: q rule: less_induct)
  case less
  obtain ids ch q1 where p: "fail_pass None now i r (q_blocked q) q = (Inr (ids, ch), q1)"
    using fail_pass_None [of now i r "q_blocked q" q] by blast
  show ?case
  proof (cases ch)
    case True
    with p have "length (q_blocked q1) < length (q_blocked q)"
      by (intro fail_pass_decreases [of None now i r "q_blocked q" q ids]) simp_all
    from less [OF this] p True show ?thesis
      by (subst fail_dependents.simps) auto
  next
    case False
    with p show ?thesis by (subst fail_dependents.simps) simp
  qed
qed

text \<open>A settled task that is FAILED stays FAILED and recorded through the cascade.\<close>

definition failed_for_good :: "string \<Rightarrow> dead_letter \<Rightarrow> 'm queue \<Rightarrow> bool" where
  "failed_for_good i d q \<longleftrightarrow> (\<exists>k. dget (q_all q) i = Some k \<and> status k = FAILED)
     \<and> i \<in> set (q_failed q) \<and> d \<in> set (q_dlq q)"

lemma force_failed_status:
  "dget (q_all (force_failed b r q)) j = (if j = b then
     map_option (\<lambda>k. case transition k FAILED r of Inl e \<Rightarrow> k\<lparr>status := FAILED\<rparr> | Inr k' \<Rightarrow> k')
       (dget (q_all q) b) else dget (q_all q) j)"
  by (simp add: force_failed_def)

lemma forced_is_failed [simp]:
  "status (case transition k FAILED r of Inl e \<Rightarrow> k\<lparr>status := FAILED\<rparr> | Inr k' \<Rightarrow> k') = FAILED"
  by (auto split: sum.split dest: transition_InrD)

lemma good_sync: "failed_for_good i d q \<Longrightarrow> failed_for_good i d (snd (sync_task api b q))"
proof -
  assume g: "failed_for_good i d q"
  obtain r q' where run: "sync_task api b q = (r, q')" by fastforce
  then obtain s where "q' = q\<lparr>q_lm := s\<rparr>" using sync_task_frame by blast
  with g run show ?thesis by (simp add: failed_for_good_def)
qed

lemma good_drop: "failed_for_good i d q \<Longrightarrow> failed_for_good i d (drop_blocked b q)"
  by (simp add: failed_for_good_def drop_blocked_def)

lemma good_force: "failed_for_good i d q \<Longrightarrow> failed_for_good i d (add_failed b (force_failed b r q))"
  by (auto simp: failed_for_good_def add_failed_def force_failed_status)
    (simp_all add: force_failed_def upd_task_def split: option.split)

lemma good_dlq: "failed_for_good i d q \<Longrightarrow> failed_for_good i d (push_dlq b e now q)"
  by (auto simp: failed_for_good_def push_dlq_def split: option.split)

lemma good_pass: "failed_for_good i d q \<Longrightarrow> failed_for_good i d (snd (fail_pass api now j r bs q))"
proof (induction bs arbitrary: q)
  case Nil
  then show ?case by simp
next
  case (Cons x bs)
  obtain b deps where x: "x = (b, deps)" by (cases x)
  note s = good_sync [OF good_force [OF good_drop [OF Cons.prems]], of api b]
  show ?case
    using Cons.IH [OF Cons.prems] Cons.IH [OF good_drop [OF Cons.prems]] Cons.IH [OF good_dlq [OF s]] s
    by (auto simp: x split: option.split prod.split sum.split) (metis snd_conv)+
qed

lemma good_cascade:
  "failed_for_good i d q \<Longrightarrow> failed_for_good i d (snd (fail_dependents api now j r q))"
proof (induction api now j r q rule: fail_dependents.induct)
  case (1 api now j r q)
  have "failed_for_good i d (snd (fail_pass api now j r (q_blocked q) q))"
    using "1.prems" by (rule good_pass)
  with "1.IH" show ?case
    by (subst fail_dependents.simps) (auto split: prod.split sum.split)
qed

lemma permanent_runs:
  assumes k: "dget (q_all q) i = Some k" "can_transition (status k) FAILED"
    and rt: "\<not> (rt \<and> retry_count k + 1 \<le> max_retries k)"
  shows "\<exists>q' d. mark_failed None now i err rt q = (Inr False, q') \<and> failed_for_good i d q'
     \<and> dl_task_id d = i \<and> dl_error d = err \<and> dl_attempts d = retry_count k + 1
     \<and> (\<forall>p \<in> set (q_blocked q'). \<not> doomed i (q_all q') (snd p))"
proof -
  let ?r = "''Max retries exceeded: '' @ err"
  let ?k1 = "failed_once ?r k"
  let ?q1 = "(counted i q)\<lparr>q_all := dset i ?k1 (q_all (counted i q))\<rparr>"
  let ?d = "\<lparr>dl_task_id = i, dl_task = ?k1, dl_error = err, dl_attempts = retry_count ?k1, dl_time = now\<rparr>"
  let ?q2 = "add_failed i (push_dlq i err now ?q1)"
  let ?c = "''dependency '' @ i @ '' failed permanently''"
  have m1: "move i FAILED ?r (counted i q) = (Inr (), ?q1)"
    using k by (rule first_move)
  have "failed_for_good i ?d ?q2"
    by (simp add: failed_for_good_def add_failed_def push_dlq_run [where k = ?k1])
  note g = good_cascade [OF this, of None now i ?c]
  obtain ids q' where c: "fail_dependents None now i ?c ?q2 = (Inr ids, q')"
    using fail_dependents_None by blast
  have "mark_failed None now i err rt q = (Inr False, q')"
    unfolding failed_start [OF k(1)] Let_def if_not_P [OF rt] counted_def [symmetric]
    by (simp add: andthen_run m1 c del: append.simps)
  then show ?thesis
    using g fail_dependents_fixpoint [OF c] unfolding c
    by (intro exI [of _ q'] exI [of _ ?d]) (simp del: append.simps)
qed

section \<open>Escalation and cancellation\<close>

definition escalate_ok :: "task_status \<Rightarrow> bool" where
  "escalate_ok s \<longleftrightarrow> s \<notin> {QUEUED, READY, READY_FOR_MASTER, COMPLETED, CANCELLED}"

lemma escalate_direct: "can_transition s ESCALATED \<longleftrightarrow>
    s \<in> {REJECTED, REPAIRING, DISPUTED, QUALITY_GATE, FAILED, ESCALATED}"
  by (cases s) (auto simp: can_transition_def can_move_def)

lemma escalate_indirect: "can_transition s FAILED \<longleftrightarrow>
    s \<in> {PENDING, RUNNING, VALIDATING, REJECTED, REPAIRING, QUALITY_GATE, MASTER_REVIEW, RETRYING,
      ESCALATED, FAILED}"
  by (cases s) (auto simp: can_transition_def can_move_def)

definition unqueued :: "string \<Rightarrow> 'm queue \<Rightarrow> 'm queue" where
  "unqueued i q = drop_blocked i (q\<lparr>q_ready := remove1 i (q_ready q)\<rparr>)"

lemma unqueued_all [simp]: "q_all (unqueued i q) = q_all q"
  by (simp add: unqueued_def drop_blocked_def)

lemma escalated_raises:
  assumes k: "dget (q_all q) i = Some k"
  shows "(\<exists>q'. mark_escalated None now i r q = (Inl InvalidTransition, q')) \<longleftrightarrow> \<not> escalate_ok (status k)"
    and "escalate_ok (status k) \<Longrightarrow> \<exists>q'. mark_escalated None now i r q = (Inr (), q')"
    and "\<not> escalate_ok (status k) \<Longrightarrow>
      mark_escalated None now i r q = (Inl InvalidTransition, unqueued i (settled i q))"
proof -
  let ?q = "unqueued i (settled i q)"
  let ?m = "catch (move i ESCALATED r)
          (\<lambda>e. if e = InvalidTransition
             then andthen (move i FAILED (''escalating: '' @ r)) (move i ESCALATED r)
             else throw e)"
  have start: "mark_escalated None now i r q =
      andthen ?m (andthen (fail_dependents None now i (''dependency '' @ i @ '' escalated'')) (ret ())) ?q"
    using k by (simp add: mark_escalated_def when_known_def unqueued_def)
  have k1: "dget (q_all ?q) i = Some (unlocked k)" using k by simp
  have good: "\<exists>q'. ?m ?q = (Inr (), q')" if "escalate_ok (status k)"
  proof (cases "can_transition (status k) ESCALATED")
    case True
    with move_ok [OF k1, of ESCALATED r] show ?thesis by (simp add: catch_run)
  next
    case False
    with that have f: "can_transition (status k) FAILED"
      by (cases "status k") (auto simp: escalate_ok_def escalate_direct escalate_indirect)
    let ?k = "log_move (status k) FAILED (''escalating: '' @ r) ((unlocked k)\<lparr>status := FAILED\<rparr>)"
    let ?q1 = "?q\<lparr>q_all := dset i ?k (q_all ?q)\<rparr>"
    have "move i ESCALATED r ?q = (Inl InvalidTransition, ?q)"
      using False by (intro move_refused [OF k1]) simp
    moreover have "move i FAILED (''escalating: '' @ r) ?q = (Inr (), ?q1)"
      using move_ok [OF k1, of FAILED] f by (simp del: append.simps)
    moreover have "\<exists>q'. move i ESCALATED r ?q1 = (Inr (), q')"
      using move_ok [of ?q1 i ?k ESCALATED r] by (simp add: escalate_direct del: append.simps)
    ultimately show ?thesis by (auto simp: catch_run andthen_run)
  qed
  have bad: "?m ?q = (Inl InvalidTransition, ?q)" if "\<not> escalate_ok (status k)"
  proof -
    have "\<not> can_transition (status k) ESCALATED" "\<not> can_transition (status k) FAILED"
      using that by (cases "status k"; simp add: escalate_ok_def escalate_direct escalate_indirect)+
    then have "move i ESCALATED r ?q = (Inl InvalidTransition, ?q)"
      "move i FAILED (''escalating: '' @ r) ?q = (Inl InvalidTransition, ?q)"
      by (intro move_refused [OF k1]; simp)+
    then show ?thesis by (simp add: catch_run andthen_run del: append.simps)
  qed
  show ok: "\<exists>q'. mark_escalated None now i r q = (Inr (), q')" if e: "escalate_ok (status k)"
  proof -
    obtain q1 where "?m ?q = (Inr (), q1)" using good [OF e] by blast
    moreover obtain ids q2 where "fail_dependents None now i (''dependency '' @ i @ '' escalated'') q1 = (Inr ids, q2)"
      using fail_dependents_None by blast
    ultimately show ?thesis unfolding start by (simp add: andthen_run del: append.simps)
  qed
  show no: "mark_escalated None now i r q = (Inl InvalidTransition, ?q)" if "\<not> escalate_ok (status k)"
    unfolding start using bad [OF that] by (simp add: andthen_run del: append.simps)
  show "(\<exists>q'. mark_escalated None now i r q = (Inl InvalidTransition, q')) \<longleftrightarrow> \<not> escalate_ok (status k)"
    using ok no by fastforce
qed

lemma cancel_direct: "\<not> task_final s \<Longrightarrow> can_transition s CANCELLED"
  by (cases s) (auto simp: can_transition_def can_move_def task_final_def)

text \<open>Cancelling a live task always succeeds; its dependents cannot un-cancel it.\<close>

lemma cancelled_runs:
  assumes k: "dget (q_all q) i = Some k" "\<not> task_final (status k)"
  obtains q1 ids q' where "mark_cancelled None now i r q = (Inr True, q')"
    "fail_dependents None now i (''dependency '' @ i @ '' cancelled'') q1 = (Inr ids, q')"
    "\<exists>k'. dget (q_all q1) i = Some k' \<and> status k' = CANCELLED"
    "\<And>j. j \<noteq> i \<Longrightarrow> dget (q_all q1) j = dget (q_all q) j"
    "q_blocked q1 = ddel i (q_blocked q)" "i \<notin> set (q_running q1)" "i \<in> set (q_cancelled q1)"
proof -
  let ?q = "unqueued i (settled i q)"
  let ?k = "log_move (status k) CANCELLED r ((unlocked k)\<lparr>status := CANCELLED\<rparr>)"
  let ?q1 = "?q\<lparr>q_all := dset i ?k (q_all ?q), q_cancelled := ladd i (q_cancelled ?q)\<rparr>"
  let ?c = "''dependency '' @ i @ '' cancelled''"
  have k1: "dget (q_all ?q) i = Some (unlocked k)" using k by simp
  obtain ids q' where c: "fail_dependents None now i ?c ?q1 = (Inr ids, q')"
    using fail_dependents_None by blast
  have m: "move i CANCELLED r ?q = (Inr (), ?q\<lparr>q_all := dset i ?k (q_all ?q)\<rparr>)"
    using move_ok [OF k1, of CANCELLED r] cancel_direct [OF k(2)] by simp
  have "mark_cancelled None now i r q =
      andthen (move i CANCELLED r) (andthen (modify (\<lambda>q. q\<lparr>q_cancelled := ladd i (q_cancelled q)\<rparr>))
          (andthen (fail_dependents None now i ?c) (ret True))) ?q"
    using k by (auto simp: mark_cancelled_def task_final_def unqueued_def simp del: append.simps)
  also have "\<dots> = (Inr True, q')"
    using m c by (simp add: andthen_run del: append.simps)
  finally show ?thesis
    by (rule that [OF _ c]) (simp_all add: unqueued_def drop_blocked_def)
qed

lemma fail_pass_untouched:
  "fail_pass None now i r bs q = (x, q') \<Longrightarrow> j \<notin> fst ` set bs \<Longrightarrow> dget (q_all q') j = dget (q_all q) j"
proof (induction bs arbitrary: q x)
  case Nil
  then show ?case by simp
next
  case (Cons y bs)
  obtain b deps where y: "y = (b, deps)" by (cases y)
  with Cons.prems(2) have j: "j \<noteq> b" "j \<notin> fst ` set bs" by auto
  have same: "dget (q_all (push_dlq b e now (add_failed b (force_failed b r (drop_blocked b q))))) j =
      dget (q_all q) j" "dget (q_all (drop_blocked b q)) j = dget (q_all q) j" for e
    using j(1) by (simp_all add: add_failed_def force_failed_status drop_blocked_def)
  show ?case
    using Cons.prems(1) Cons.IH [OF _ j(2)] same
    by (auto simp: y split: if_splits option.splits prod.splits sum.splits)
qed

text \<open>A task that is dead and not blocked is not touched by a cascade, whatever starts it.\<close>

lemma cascade_untouched:
  "j \<notin> fst ` set (q_blocked q) \<Longrightarrow> dget (q_all (snd (fail_dependents None now i r q))) j = dget (q_all q) j"
proof (induction "length (q_blocked q)" arbitrary: q rule: less_induct)
  case less
  obtain ids ch q1 where p: "fail_pass None now i r (q_blocked q) q = (Inr (ids, ch), q1)"
    using fail_pass_None [of now i r "q_blocked q" q] by blast
  have same: "dget (q_all q1) j = dget (q_all q) j"
    using fail_pass_untouched [OF p less.prems] .
  show ?case
  proof (cases ch)
    case True
    with p have sm: "length (q_blocked q1) < length (q_blocked q)"
      by (intro fail_pass_decreases [of None now i r "q_blocked q" q ids]) simp_all
    have "shrinks q q1"
      using shrinkingD [OF shrinking_fail_pass, of q None now i r "q_blocked q"] p by simp
    then have "j \<notin> fst ` set (q_blocked q1)"
      using less.prems by (auto simp: shrinks_def)
    from less.hyps [OF sm this] p same True show ?thesis
      by (subst fail_dependents.simps) (auto split: prod.split sum.split)
  next
    case False
    with p same show ?thesis by (subst fail_dependents.simps) simp
  qed
qed

section \<open>Cancelling everything\<close>

text \<open>
  What one cancellation may change in another task: nothing, or its status to FAILED. So a
  task never comes back to life, and \<open>cancel_all\<close> leaves none alive.
\<close>

definition no_revival :: "'m queue \<Rightarrow> 'm queue \<Rightarrow> bool" where
  "no_revival q q' \<longleftrightarrow> (\<forall>j k'. dget (q_all q') j = Some k' \<longrightarrow>
     (\<exists>k. dget (q_all q) j = Some k \<and> (live_status (status k') \<longrightarrow> live_status (status k))))"

lemma no_revival_trans: "no_revival q r \<Longrightarrow> no_revival r s \<Longrightarrow> no_revival q s"
  unfolding no_revival_def by metis

lemma no_revival_refl: "no_revival q q"
  by (simp add: no_revival_def)

lemma no_revival_force: "no_revival q (force_failed b r q)"
  by (auto simp: no_revival_def force_failed_status live_status_def)

lemma no_revival_pass: "no_revival q (snd (fail_pass None now i r bs q))"
proof (induction bs arbitrary: q)
  case Nil
  then show ?case by (simp add: no_revival_refl)
next
  case (Cons x bs)
  obtain b deps where x: "x = (b, deps)" by (cases x)
  have 1: "no_revival q (drop_blocked b q)" by (simp add: no_revival_def drop_blocked_def)
  have 2: "no_revival q (push_dlq b e now (add_failed b (force_failed b r (drop_blocked b q))))" for e
    using no_revival_trans [OF 1 no_revival_force [of "drop_blocked b q" b r]]
    by (simp add: no_revival_def add_failed_def)
  show ?case
    using Cons.IH [of q] no_revival_trans [OF 1 Cons.IH] no_revival_trans [OF 2 Cons.IH]
    by (auto simp: x split: option.split prod.split sum.split) (metis snd_conv)+
qed

lemma no_revival_cascade: "no_revival q (snd (fail_dependents None now i r q))"
proof (induction "length (q_blocked q)" arbitrary: q rule: less_induct)
  case less
  obtain ids ch q1 where p: "fail_pass None now i r (q_blocked q) q = (Inr (ids, ch), q1)"
    using fail_pass_None [of now i r "q_blocked q" q] by blast
  have one: "no_revival q q1" using no_revival_pass [of q now i r "q_blocked q"] p by simp
  show ?case
  proof (cases ch)
    case True
    with p have "length (q_blocked q1) < length (q_blocked q)"
      by (intro fail_pass_decreases [of None now i r "q_blocked q" q ids]) simp_all
    from no_revival_trans [OF one less [OF this]] p True show ?thesis
      by (subst fail_dependents.simps) (auto split: prod.split sum.split)
  next
    case False
    with p one show ?thesis by (subst fail_dependents.simps) simp
  qed
qed

lemma cancelled_final:
  assumes k: "dget (q_all q) i = Some k" "\<not> task_final (status k)"
  obtains q' where "mark_cancelled None now i r q = (Inr True, q')"
    "\<exists>k'. dget (q_all q') i = Some k' \<and> status k' = CANCELLED" "no_revival q q'"
    "\<forall>p \<in> set (q_blocked q'). \<not> doomed i (q_all q') (snd p)"
proof -
  obtain q1 ids q' where
    run: "mark_cancelled None now i r q = (Inr True, q')"
    and c: "fail_dependents None now i (''dependency '' @ i @ '' cancelled'') q1 = (Inr ids, q')"
    and k1: "\<exists>k'. dget (q_all q1) i = Some k' \<and> status k' = CANCELLED"
    and others: "\<And>j. j \<noteq> i \<Longrightarrow> dget (q_all q1) j = dget (q_all q) j"
    and b: "q_blocked q1 = ddel i (q_blocked q)"
    by (rule cancelled_runs [OF k, of now r]) (rule that)
  have "i \<notin> fst ` set (q_blocked q1)" unfolding b by simp
  from cascade_untouched [OF this, of now i "''dependency '' @ i @ '' cancelled''"] c k1
  have k': "\<exists>k'. dget (q_all q') i = Some k' \<and> status k' = CANCELLED"
    by (simp del: append.simps)
  have "no_revival q q1"
    unfolding no_revival_def
  proof (intro allI impI)
    fix j l assume l: "dget (q_all q1) j = Some l"
    show "\<exists>k. dget (q_all q) j = Some k \<and> (live_status (status l) \<longrightarrow> live_status (status k))"
      using l k k1 others [of j] by (cases "j = i") (auto simp: live_status_def)
  qed
  moreover have "no_revival q1 q'"
    using no_revival_cascade [of q1 now i "''dependency '' @ i @ '' cancelled''"] c
    by (simp del: append.simps)
  ultimately have "no_revival q q'" by (rule no_revival_trans)
  with run k' show ?thesis using fail_dependents_fixpoint [OF c] by (rule that)
qed

lemma mark_cancelled_settles:
  assumes "dget (q_all q) i \<noteq> None"
  obtains b q' where "mark_cancelled None now i r q = (Inr b, q')" "no_revival q q'"
    "\<exists>k'. dget (q_all q') i = Some k' \<and> \<not> live_status (status k')"
proof -
  obtain k where k: "dget (q_all q) i = Some k" using assms by blast
  show ?thesis
  proof (cases "task_final (status k)")
    case True
    with k have "mark_cancelled None now i r q = (Inr False, q)"
      by (auto simp: mark_cancelled_def task_final_def)
    then show ?thesis
      using k True by (intro that) (auto simp: no_revival_refl task_final_def live_status_def)
  next
    case False
    obtain q' where q': "mark_cancelled None now i r q = (Inr True, q')" "no_revival q q'"
      and "\<exists>k'. dget (q_all q') i = Some k' \<and> status k' = CANCELLED"
      by (rule cancelled_final [OF k False, of now r]) (rule that)
    then have "\<exists>k'. dget (q_all q') i = Some k' \<and> \<not> live_status (status k')"
      by (auto simp: live_status_def)
    with q' show ?thesis by (rule that)
  qed
qed

lemma mark_cancelled_known: "dget (q_all q) j \<noteq> None \<Longrightarrow>
    dget (q_all (snd (mark_cancelled api now i r q))) j \<noteq> None"
proof -
  assume "dget (q_all q) j \<noteq> None"
  moreover have "deps_kept (q_all q) (q_all (snd (mark_cancelled api now i r q)))"
    using shrinkingD [OF shrinking_cancelled, of q api now i r] by (simp add: shrinks_def)
  ultimately show ?thesis unfolding deps_kept_def by fastforce
qed

lemma cancel_each_settles:
  assumes "\<forall>i \<in> set is. dget (q_all q) i \<noteq> None"
  shows "\<exists>m q'. cancel_each None now r is n q = (Inr m, q') \<and> no_revival q q'
     \<and> (\<forall>i \<in> set is. \<forall>k. dget (q_all q') i = Some k \<longrightarrow> \<not> live_status (status k))"
  using assms
proof (induction "is" arbitrary: q n)
  case Nil
  then show ?case by (simp add: no_revival_refl)
next
  case (Cons i "is")
  then have "dget (q_all q) i \<noteq> None" by simp
  then obtain b q1 where 1: "mark_cancelled None now i r q = (Inr b, q1)" "no_revival q q1"
    "\<exists>k'. dget (q_all q1) i = Some k' \<and> \<not> live_status (status k')"
    by (rule mark_cancelled_settles)
  have "\<forall>j \<in> set is. dget (q_all q1) j \<noteq> None"
    using Cons.prems mark_cancelled_known [of q _ None now i r] 1(1) by fastforce
  from Cons.IH [OF this, of "if b then Suc n else n"] obtain m q' where
    2: "cancel_each None now r is (if b then Suc n else n) q1 = (Inr m, q')" "no_revival q1 q'"
    "\<forall>i \<in> set is. \<forall>k. dget (q_all q') i = Some k \<longrightarrow> \<not> live_status (status k)"
    by blast
  have "\<not> live_status (status k)" if k: "dget (q_all q') i = Some k" for k
  proof -
    obtain k1 where "dget (q_all q1) i = Some k1" "live_status (status k) \<longrightarrow> live_status (status k1)"
      using 2(2) k unfolding no_revival_def by blast
    with 1(3) show ?thesis by auto
  qed
  with 1 2 show ?case
    by (auto simp: bnd_run intro: no_revival_trans)
qed

lemma cancel_all_settles:
  assumes d: "dict_ok (q_all q)"
  shows "\<exists>m q'. cancel_all None now r q = (Inr m, q')
     \<and> (\<forall>i k. dget (q_all q') i = Some k \<longrightarrow> \<not> live_status (status k))"
proof -
  let ?is = "map fst (filter (\<lambda>(i, k). live_status (status k)) (q_all q))"
  have "\<forall>i \<in> set ?is. dget (q_all q) i \<noteq> None"
    by (auto simp: dget_None rev_image_eqI)
  from cancel_each_settles [OF this, of now r 0] obtain m q' where
    run: "cancel_each None now r ?is 0 q = (Inr m, q')" "no_revival q q'"
    and dead: "\<forall>i \<in> set ?is. \<forall>k. dget (q_all q') i = Some k \<longrightarrow> \<not> live_status (status k)"
    by blast
  have "\<not> live_status (status k')" if k': "dget (q_all q') i = Some k'" for i k'
  proof
    assume live: "live_status (status k')"
    with run(2) k' obtain k where "dget (q_all q) i = Some k" "live_status (status k)"
      unfolding no_revival_def by blast
    then have "i \<in> set ?is" by (auto dest!: map_of_SomeD intro: rev_image_eqI)
    with dead k' live show False by blast
  qed
  with run(1) show ?thesis by (auto simp: cancel_all_def bnd_run)
qed

section \<open>Recovery\<close>

definition queueable :: "task \<Rightarrow> bool" where
  "queueable k \<longleftrightarrow> status k = QUEUED \<or> status k = PENDING"

lemma requeue_done [simp]: "q_done (requeue_step p q) = q_done q"
  by (cases p) (simp add: requeue_step_def Let_def push_ready_def)

lemma unfulfilled_done: "q_done q = q_done q' \<Longrightarrow> unfulfilled k q = unfulfilled k q'"
  by (simp add: unfulfilled_def)

lemma fold_requeue_ready:
  "q_ready (fold requeue_step xs q) =
     q_ready q @ map fst (filter (\<lambda>(i, k). queueable k \<and> unfulfilled k q = []) xs)"
proof (induction xs arbitrary: q)
  case Nil
  then show ?case by simp
next
  case (Cons p xs)
  obtain i k where p: "p = (i, k)" by (cases p)
  have "unfulfilled l (requeue_step p q) = unfulfilled l q" for l
    by (rule unfulfilled_done) simp
  then show ?case
    using Cons by (simp add: p requeue_step_def queueable_def Let_def push_ready_def)
qed

lemma requeue_other: "j \<noteq> fst p \<or> \<not> queueable (snd p) \<Longrightarrow>
    dget (q_all (requeue_step p q)) j = dget (q_all q) j"
  by (cases p) (auto simp: requeue_step_def queueable_def Let_def push_ready_def)

lemma fold_requeue_other:
  "(\<And>k. (j, k) \<in> set xs \<Longrightarrow> \<not> queueable k) \<Longrightarrow>
     dget (q_all (fold requeue_step xs q)) j = dget (q_all q) j"
proof (induction xs arbitrary: q)
  case Nil
  then show ?case by simp
next
  case (Cons p xs)
  have "j \<noteq> fst p \<or> \<not> queueable (snd p)" using Cons.prems [of "snd p"] by (cases p) auto
  from requeue_other [OF this] Cons show ?case by simp
qed

lemma requeue_blocked_keys:
  "fst ` set (q_blocked (requeue_step p q)) \<subseteq> fst ` set (q_blocked q) \<union> (if queueable (snd p) then {fst p} else {})"
  by (cases p) (auto simp: requeue_step_def queueable_def Let_def push_ready_def)

lemma fold_requeue_blocked:
  "j \<in> fst ` set (q_blocked (fold requeue_step xs q)) \<Longrightarrow>
     j \<in> fst ` set (q_blocked q) \<or> (\<exists>k. (j, k) \<in> set xs \<and> queueable k)"
proof (induction xs arbitrary: q)
  case Nil
  then show ?case by simp
next
  case (Cons p xs)
  then have "j \<in> fst ` set (q_blocked (requeue_step p q)) \<or> (\<exists>k. (j, k) \<in> set xs \<and> queueable k)"
    by simp
  then show ?case using requeue_blocked_keys [of p q] by (cases p) (auto split: if_splits)
qed

lemma fold_ladd_set: "set (fold ladd xs ys) = set xs \<union> set ys"
  by (induction xs arbitrary: ys) auto

lemma fold_requeue_failed: "q_failed (fold requeue_step xs q) = q_failed q"
proof (induction xs arbitrary: q)
  case (Cons p xs)
  have "q_failed (requeue_step p q) = q_failed q"
    by (cases p) (simp add: requeue_step_def Let_def push_ready_def)
  with Cons show ?case by simp
qed simp

text \<open>The indexes after recovery and before the final sort.\<close>

definition rebuilt :: "'m queue \<Rightarrow> 'm queue" where
  "rebuilt q = (let q1 = (recover_indexed q)\<lparr>q_ready := [], q_blocked := []\<rparr> in fold requeue_step (q_all q1) q1)"

lemma recovered_all: "q_all (recover_indexed q) = map (\<lambda>(i, k). (i, recover_task k)) (q_all q)"
  by (simp add: recover_indexed_def Let_def)

lemma rebuilt_ready: "set (q_ready (rebuilt q)) \<subseteq> {i. \<exists>k. (i, k) \<in> set (q_all q) \<and> queueable (recover_task k)}"
  unfolding rebuilt_def Let_def fold_requeue_ready by (auto simp: recovered_all)

lemma fold_requeue_kept: "deps_kept (q_all p) (q_all (fold requeue_step xs p))"
proof (induction xs arbitrary: p)
  case Nil
  then show ?case by simp
next
  case (Cons x xs)
  have "deps_kept (q_all p) (q_all (requeue_step x p))"
    unfolding deps_kept_def using requeue_known by blast
  from deps_kept_trans [OF this Cons.IH] show ?case by simp
qed

lemma recover_returns:
  "\<exists>q'. recover_incomplete_tasks q = (Inr (map fst (filter (\<lambda>(i, k). in_progress (status k) \<and>
       \<not> may_have_effects k) (q_all q))), q')
     \<and> set (q_ready q') = set (q_ready (rebuilt q)) \<and> q_all q' = q_all (rebuilt q)
     \<and> q_blocked q' = q_blocked (rebuilt q) \<and> q_failed q' = q_failed (rebuilt q)"
proof -
  have "known_ready (rebuilt q)"
    unfolding known_ready_def
  proof
    fix j assume "j \<in> set (q_ready (rebuilt q))"
    then obtain k where "(j, k) \<in> set (q_all q)" using rebuilt_ready by blast
    then have "dget (q_all (recover_indexed q)) j \<noteq> None"
      by (auto simp: recovered_all map_of_map dget_None intro: rev_image_eqI)
    with fold_requeue_kept [of "(recover_indexed q)\<lparr>q_ready := [], q_blocked := []\<rparr>"]
    show "dget (q_all (rebuilt q)) j \<noteq> None"
      unfolding rebuilt_def Let_def deps_kept_def by fastforce
  qed
  from sort_ready_run [OF this] show ?thesis
    by (simp add: recover_incomplete_tasks_def rebuilt_def Let_def andthen_run)
qed

lemma recover_safe:
  assumes d: "dict_ok (q_all q)" and k: "dget (q_all q) i = Some k" "in_progress (status k)"
    and eff: "may_have_effects k"
    and run: "recover_incomplete_tasks q = (r, q')"
  shows "i \<notin> set (q_ready q')" "i \<notin> fst ` set (q_blocked q')" "i \<in> set (q_failed q')"
    "\<exists>k'. dget (q_all q') i = Some k' \<and> status k' = ESCALATED"
proof -
  have unique: "l = k" if "(i, l) \<in> set (q_all q)" for l
    using d k(1) that by simp
  have nq: "\<not> queueable (recover_task k)" and esc: "status (recover_task k) = ESCALATED"
    using k(2) eff by (auto simp: recover_task_def queueable_def)
  have q': "set (q_ready q') = set (q_ready (rebuilt q))" "q_all q' = q_all (rebuilt q)"
    "q_blocked q' = q_blocked (rebuilt q)" "q_failed q' = q_failed (rebuilt q)"
    using recover_returns [of q] run by auto
  show "i \<notin> set (q_ready q')"
    using rebuilt_ready [of q] unique nq unfolding q' by blast
  show "i \<notin> fst ` set (q_blocked q')"
    using unique nq
    by (auto simp: q' rebuilt_def Let_def recovered_all dest!: fold_requeue_blocked [OF imageI])
  show "i \<in> set (q_failed q')"
    using map_of_SomeD [OF k(1)] k(2) eff
    by (auto simp: q' rebuilt_def Let_def fold_requeue_failed recover_indexed_def fold_ladd_set
        intro: rev_image_eqI)
  have "dget (q_all (rebuilt q)) i = dget (q_all (recover_indexed q)) i"
    unfolding rebuilt_def Let_def using unique nq
    by (subst fold_requeue_other) (auto simp: recovered_all)
  then show "\<exists>k'. dget (q_all q') i = Some k' \<and> status k' = ESCALATED"
    using k(1) esc by (simp add: q' recovered_all map_of_map)
qed

end
