(* ===== verification/Queue_Dispatch.thy ===== *)
theory Queue_Dispatch
  imports Queue_Settlement
begin

text \<open>
  Dispatch takes the first ready task whose capabilities are available and whose resources
  are free; admission never lets the queue grow past its bound.
\<close>

section \<open>Dispatch without a lease manager\<close>

definition eligible :: "string list option \<Rightarrow> 'm queue \<Rightarrow> string \<Rightarrow> bool" where
  "eligible caps q i \<longleftrightarrow> (\<exists>k. dget (q_all q) i = Some k \<and> caps_ok caps k
     \<and> \<not> resource_conflict (dkeys (q_holders q)) (resources_for_task k))"

lemma try_acquire_None:
  "dget (q_all q) i = Some k \<Longrightarrow> try_acquire None i q =
     (if resource_conflict (dkeys (q_holders q)) (resources_for_task k) then (Inr False, q)
      else (Inr True, record_locks i (resources_for_task k) [] q))"
  by (simp add: try_acquire_def the_task_run bnd_run andthen_run Let_def)

text \<open>The scan returns the first eligible task, its position and the queue with its locks.\<close>

lemma select_ready_None:
  assumes "\<forall>i \<in> set is. dget (q_all q) i \<noteq> None"
  shows "(\<exists>j k. j < length is \<and> (\<forall>l < j. \<not> eligible caps q (is ! l)) \<and> eligible caps q (is ! j)
       \<and> dget (q_all q) (is ! j) = Some k
       \<and> select_ready None caps n is q =
           (Inr (Some (n + j, is ! j)), record_locks (is ! j) (resources_for_task k) [] q))
     \<or> ((\<forall>i \<in> set is. \<not> eligible caps q i) \<and> select_ready None caps n is q = (Inr None, q))"
  using assms
proof (induction "is" arbitrary: n)
  case Nil
  then show ?case by simp
next
  case (Cons i "is")
  then obtain k where k: "dget (q_all q) i = Some k" by auto
  show ?case
  proof (cases "eligible caps q i")
    case True
    with k show ?thesis
      by (intro disjI1 exI [of _ 0] exI [of _ k])
        (auto simp: eligible_def bnd_run the_task_run try_acquire_None)
  next
    case False
    with k have step: "select_ready None caps n (i # is) q = select_ready None caps (Suc n) is q"
      by (auto simp: eligible_def bnd_run the_task_run try_acquire_None)
    from Cons.prems have "\<forall>i \<in> set is. dget (q_all q) i \<noteq> None" by simp
    from Cons.IH [OF this, of "Suc n"] show ?thesis
    proof
      assume "\<exists>j k. j < length is \<and> (\<forall>l < j. \<not> eligible caps q (is ! l)) \<and> eligible caps q (is ! j)
       \<and> dget (q_all q) (is ! j) = Some k
       \<and> select_ready None caps (Suc n) is q =
           (Inr (Some (Suc n + j, is ! j)), record_locks (is ! j) (resources_for_task k) [] q)"
      then obtain j l where j: "j < length is" "\<forall>l < j. \<not> eligible caps q (is ! l)"
        "eligible caps q (is ! j)" "dget (q_all q) (is ! j) = Some l"
        "select_ready None caps (Suc n) is q =
           (Inr (Some (Suc n + j, is ! j)), record_locks (is ! j) (resources_for_task l) [] q)"
        by blast
      then show ?thesis
        using False step by (intro disjI1 exI [of _ "Suc j"] exI [of _ l]) (auto simp: nth_Cons split: nat.split)
    next
      assume "(\<forall>i \<in> set is. \<not> eligible caps q i) \<and> select_ready None caps (Suc n) is q = (Inr None, q)"
      with False step show ?thesis by (intro disjI2) simp
    qed
  qed
qed

lemma record_locks_all:
  "dget (q_all (record_locks i R ls q)) j = (if j = i then map_option (\<lambda>k. k\<lparr>meta := (meta k)\<lparr>
      m_leases := (if ls \<noteq> [] then Some ls else m_leases (meta k)), m_locks_held := Some (sort R)\<rparr>\<rparr>)
      (dget (q_all q) i) else dget (q_all q) j)"
  by (simp add: record_locks_def)

lemma record_locks_frame [simp]:
  "q_ready (record_locks i R ls q) = q_ready q" "q_running (record_locks i R ls q) = q_running q"
  "q_locks (record_locks i R ls q) = dset i R (q_locks q)"
  by (simp_all add: record_locks_def)

lemma note_dispatch_frame [simp]:
  "q_ready (note_dispatch i c n q) = q_ready q" "q_running (note_dispatch i c n q) = q_running q"
  "q_locks (note_dispatch i c n q) = q_locks q"
  by (simp_all add: note_dispatch_def)

definition dispatchable :: "task_status \<Rightarrow> bool" where
  "dispatchable s \<longleftrightarrow> can_transition s RUNNING"

text \<open>
  A call with ready tasks that may all run either dispatches the first eligible one, or
  finds none eligible and changes nothing.
\<close>

lemma pop_outcome:
  fixes q :: "'m queue" and caps :: "string list option"
  assumes kr: "\<forall>i \<in> set (q_ready q). \<exists>k. dget (q_all q) i = Some k \<and> dispatchable (status k)"
  defines "c \<equiv> map_option clean_caps caps"
  shows "(\<exists>j k q'. j < length (q_ready q) \<and> (\<forall>l < j. \<not> eligible c q (q_ready q ! l))
       \<and> eligible c q (q_ready q ! j) \<and> dget (q_all q) (q_ready q ! j) = Some k
       \<and> pop_ready_task None caps node q = (Inr (Some (q_ready q ! j)), q')
       \<and> q_ready q' = take j (q_ready q) @ drop (Suc j) (q_ready q)
       \<and> q_running q' = ladd (q_ready q ! j) (q_running q)
       \<and> dget (q_locks q') (q_ready q ! j) = Some (resources_for_task k)
       \<and> (\<exists>k'. dget (q_all q') (q_ready q ! j) = Some k' \<and> status k' = RUNNING))
     \<or> ((\<forall>i \<in> set (q_ready q). \<not> eligible c q i) \<and> pop_ready_task None caps node q = (Inr None, q))"
proof -
  have known: "\<forall>i \<in> set (q_ready q). dget (q_all q) i \<noteq> None" using kr by auto
  from select_ready_None [OF known, of c 0] show ?thesis
  proof
    assume "\<exists>j k. j < length (q_ready q) \<and> (\<forall>l < j. \<not> eligible c q (q_ready q ! l))
       \<and> eligible c q (q_ready q ! j) \<and> dget (q_all q) (q_ready q ! j) = Some k
       \<and> select_ready None c 0 (q_ready q) q =
           (Inr (Some (0 + j, q_ready q ! j)), record_locks (q_ready q ! j) (resources_for_task k) [] q)"
    then obtain j k where j: "j < length (q_ready q)" "\<forall>l < j. \<not> eligible c q (q_ready q ! l)"
      "eligible c q (q_ready q ! j)" and k: "dget (q_all q) (q_ready q ! j) = Some k"
      and sel: "select_ready None c 0 (q_ready q) q =
           (Inr (Some (j, q_ready q ! j)), record_locks (q_ready q ! j) (resources_for_task k) [] q)"
      by auto
    let ?i = "q_ready q ! j"
    let ?q1 = "note_dispatch ?i c node (record_locks ?i (resources_for_task k) [] q)"
    let ?q2 = "?q1\<lparr>q_ready := take j (q_ready ?q1) @ drop (Suc j) (q_ready ?q1)\<rparr>"
    obtain k2 where k2: "dget (q_all ?q2) ?i = Some k2" and st: "status k2 = status k"
      using k by (simp add: note_dispatch_def record_locks_all)
    have "?i \<in> set (q_ready q)" using j(1) by simp
    with kr k have ok: "can_transition (status k2) RUNNING" unfolding st dispatchable_def by fastforce
    let ?k3 = "log_move (status k2) RUNNING ''Dispatched to worker'' (k2\<lparr>status := RUNNING\<rparr>)"
    let ?q3 = "?q2\<lparr>q_all := dset ?i ?k3 (q_all ?q2)\<rparr>"
    have m: "move ?i RUNNING ''Dispatched to worker'' ?q2 = (Inr (), ?q3)"
      using move_ok [OF k2 ok, of "''Dispatched to worker''"] by simp
    have ne: "q_ready q \<noteq> []" using j(1) by auto
    have "pop_ready_task None caps node q = (Inr (Some ?i), ?q3\<lparr>q_running := ladd ?i (q_running ?q3)\<rparr>)"
      using ne sel m
      by (simp add: pop_ready_task_def Let_def c_def [symmetric] bnd_run [where m = "select_ready _ _ _ _"]
          andthen_run)
    then show ?thesis
      using j k by (intro disjI1 exI [of _ j] exI [of _ k]) simp
  next
    assume "(\<forall>i \<in> set (q_ready q). \<not> eligible c q i) \<and> select_ready None c 0 (q_ready q) q = (Inr None, q)"
    then show ?thesis
      by (intro disjI2) (simp add: pop_ready_task_def Let_def c_def [symmetric] bnd_run)
  qed
qed

section \<open>Backpressure\<close>

lemma length_dset: "length (dset k v d) \<le> Suc (length d)"
  by (induction d) auto

lemma queue_size_sync: "queue_size (snd (sync_task api i q)) = queue_size q"
proof -
  obtain r q' where run: "sync_task api i q = (r, q')" by fastforce
  then obtain s where "q' = q\<lparr>q_lm := s\<rparr>" using sync_task_frame by blast
  with run show ?thesis by (simp add: queue_size_def)
qed

lemma queue_size_move: "queue_size (snd (move i t r q)) = queue_size q"
  by (simp add: move_def queue_size_def split: option.split sum.split)

lemma queue_size_sort: "queue_size (snd (sort_ready q)) = queue_size q"
  by (simp add: sort_ready_def queue_size_def split: option.split)

definition at_most :: "int \<Rightarrow> 'm queue \<Rightarrow> bool" where
  "at_most n q \<longleftrightarrow> queue_size q \<le> n"

lemma at_most_keeps:
  "keep (at_most n) (sync_task api i)" "keep (at_most n) (move i t r)" "keep (at_most n) sort_ready"
  by (simp_all add: keep_def at_most_def queue_size_sync queue_size_move queue_size_sort)

lemma insert_new_size: "queue_size (snd (insert_new api k q)) \<le> queue_size q + 1"
proof -
  let ?q = "index_task k q"
  have tail: "keep (at_most n) (andthen (sync_task api (t_id k)) (ret True))" for n
    by (intro keep_andthen at_most_keeps keep_ret)
  have sz: "queue_size ?q = queue_size q" by (simp add: index_task_def queue_size_def)
  show ?thesis
  proof (cases "unfulfilled k ?q = []")
    case True
    have "queue_size (snd (andthen (move (t_id k) QUEUED ''All dependencies satisfied'')
              (andthen (modify (push_ready (t_id k))) sort_ready) ?q)) \<le> queue_size q + 1"
    proof (cases "move (t_id k) QUEUED ''All dependencies satisfied'' ?q")
      case (Pair r q1)
      with queue_size_move [of "t_id k" QUEUED "''All dependencies satisfied''" ?q] sz
      have "queue_size q1 = queue_size q" by simp
      moreover have "queue_size (push_ready (t_id k) q1) = queue_size q1 + 1"
        by (simp add: push_ready_def queue_size_def)
      ultimately show ?thesis
        using queue_size_sort [of "push_ready (t_id k) q1"]
        by (simp add: andthen_run Pair split: sum.split)
    qed
    with True keepD [OF tail, of "queue_size q + 1"] show ?thesis
      by (auto simp: insert_new_def bnd_run [where m = "gets _"] at_most_def
          andthen_run [where m = "andthen _ _"] split: prod.split sum.split)
  next
    case False
    have "queue_size (upd_task (t_id k) (\<lambda>t. t\<lparr>status := PENDING\<rparr>)
              (?q\<lparr>q_blocked := dset (t_id k) (unfulfilled k ?q) (q_blocked ?q)\<rparr>)) \<le> queue_size q + 1"
      using length_dset [of "t_id k" "unfulfilled k ?q" "q_blocked ?q"]
      by (simp add: queue_size_def index_task_def)
    with False keepD [OF tail, of "queue_size q + 1"] show ?thesis
      by (simp add: insert_new_def bnd_run [where m = "gets _"] at_most_def)
  qed
qed

lemma replay_known:
  assumes ok: "index_ok q" and ne: "dget (q_all q) [] = None" and known: "known_replay k q"
  shows "existing_for_replay k q \<noteq> Inr None"
proof -
  have "dget (q_all q) (t_id k) \<noteq> None \<or> (\<exists>i e. dget (q_idem q) (idem_key k) = Some i \<and> i \<noteq> []
      \<and> dget (q_all q) i = Some e)"
    using known index_okD(2) [OF ok] ne unfolding known_replay_def by (metis option.distinct(1) option.exhaust)
  then show ?thesis
    by (auto simp: existing_for_replay_def Let_def split: option.split)
qed

lemma add_task_size:
  assumes ok: "index_ok q" and ne: "dget (q_all q) [] = None" and sz: "queue_size q \<le> q_max q"
  shows "queue_size (snd (add_task api digest k parent block q)) \<le> q_max q"
proof (cases "queue_size q \<ge> q_max q")
  case True
  have same: "queue_size (q\<lparr>q_dropped := n\<rparr>) = queue_size q" for n by (simp add: queue_size_def)
  show ?thesis
  proof (cases "known_replay k q")
    case True
    from replay_known [OF ok ne this] sz show ?thesis
      by (auto simp: add_task_def True split: sum.split option.split)
  next
    case False
    with True sz same show ?thesis by (simp add: add_task_def)
  qed
next
  case False
  have g: "queue_size (q\<lparr>q_guard := h\<rparr>) = queue_size q" for h by (simp add: queue_size_def)
  with False insert_new_size [of api k] show ?thesis
    by (auto simp: add_task_def lift_guard_def split: sum.split option.split prod.split)
      (smt (verit, best) g insert_new_size)+
qed

end
