(* ===== verification/Queue_Admission.thy ===== *)
theory Queue_Admission
  imports Queue_Settlement
begin

text \<open>
  Histories of the queue together with the tasks its calls of \<open>add_task\<close> have put into it, whatever the
  explosion guard has written down about them, and what the guard's counters say about these tasks.
\<close>

section \<open>Histories\<close>

inductive other_call :: "'m lease_api option \<Rightarrow> 'm queue \<Rightarrow> 'm queue \<Rightarrow> bool" for api where
  Pop: "other_call api q (snd (pop_ready_task api caps node q))"
| Complete: "other_call api q (snd (mark_completed api i q))"
| Fail: "other_call api q (snd (mark_failed api now i err retryable q))"
| Escalate: "other_call api q (snd (mark_escalated api now i reason q))"
| Cancel: "other_call api q (snd (mark_cancelled api now i reason q))"
| CancelAll: "other_call api q (snd (cancel_all api now reason q))"
| Unfulfillable: "other_call api q (snd (fail_unfulfillable_blocked api now q))"
| Recover: "other_call api q (snd (recover_incomplete_tasks q))"
| Restore: "other_call api q (snd (restore_task k q))"
| Engine: "dget (q_all q) i = Some k \<Longrightarrow> task_intent k' = task_intent k \<Longrightarrow> other_call api q (q\<lparr>q_all := dset i k' (q_all q)\<rparr>)"

lemma other_is_step: "other_call api q q' \<Longrightarrow> queue_step api digest q q'"
  by (induction rule: other_call.induct) (blast intro: queue_step.intros)+

text \<open>A call of \<open>add_task\<close> has admitted its task when the queue holds the task and did not before.\<close>

definition put_in :: "task \<Rightarrow> 'm queue \<Rightarrow> 'm queue \<Rightarrow> bool" where
  "put_in k q q' \<longleftrightarrow> dget (q_all q) (t_id k) = None \<and> dget (q_all q') (t_id k) \<noteq> None"

inductive admissions ::
  "'m lease_api option \<Rightarrow> (string \<Rightarrow> string) \<Rightarrow> guard_config \<Rightarrow> (task \<times> string option) list \<Rightarrow> 'm queue \<Rightarrow> bool"
  for api digest c where
  Begin: "admissions api digest c [] (new_queue (new_guard c) mx m)"
| Add: "admissions api digest c xs q \<Longrightarrow> q' = snd (add_task api digest k parent block q) \<Longrightarrow>
    admissions api digest c (if put_in k q q' then xs @ [(k, parent)] else xs) q'"
| Other: "admissions api digest c xs q \<Longrightarrow> other_call api q q' \<Longrightarrow> admissions api digest c xs q'"

section \<open>What the guard knows of them\<close>

definition children :: "string \<Rightarrow> (task \<times> string option) list \<Rightarrow> (task \<times> string option) list" where
  "children p xs = filter (\<lambda>(k, parent). parent = Some p) xs"

definition recorded_in :: "guard_config \<Rightarrow> (task \<times> string option) list \<Rightarrow> guard \<Rightarrow> bool" where
  "recorded_in c xs g \<longleftrightarrow> g_config g = c \<and> int (length xs) \<le> g_total g \<and> g_total g \<le> max 0 (task_limit c)
     \<and> (\<forall>p. p \<noteq> [] \<longrightarrow> int (length (children p xs)) \<le> children_of g p \<and> children_of g p \<le> max 0 (branching_limit c))
     \<and> (\<forall>(k, parent) \<in> set xs. depth k \<le> max_depth c \<and> word_tokens (objective k) \<in> set (g_tokens g))"

lemma recorded_new: "recorded_in c [] (new_guard c)"
  by (simp add: recorded_in_def new_guard_def children_of_def children_def)

lemma recorded_fewer:
  assumes "recorded_in c (xs @ ys) g"
  shows "recorded_in c xs g"
proof -
  note ok = assms [unfolded recorded_in_def]
  have "int (length (children p xs)) \<le> children_of g p" if "p \<noteq> []" for p
  proof -
    have "length (children p xs) \<le> length (children p (xs @ ys))" by (simp add: children_def)
    moreover have "int (length (children p (xs @ ys))) \<le> children_of g p" using ok that by blast
    ultimately show ?thesis by linarith
  qed
  moreover have "int (length xs) \<le> g_total g" using ok by simp
  moreover have "\<forall>x \<in> set xs. case x of (k, parent) \<Rightarrow> depth k \<le> max_depth c \<and> word_tokens (objective k) \<in> set (g_tokens g)"
    using ok by simp
  ultimately show ?thesis using ok unfolding recorded_in_def by blast
qed

lemma register_result:
  assumes "register_task digest k parent g = (r, g')"
  shows "(\<exists>e. r = Inl e \<and> g' = g) \<or> validate_new_task digest k parent g = Inr () \<and> r = Inr ()
     \<and> g_config g' = g_config g \<and> g_total g' = g_total g + 1 \<and> g_tokens g' = g_tokens g @ [word_tokens (objective k)]
     \<and> (\<forall>p. children_of g' p = children_of g p + (if truthy parent \<and> the parent = p then 1 else 0))"
proof (cases "validate_new_task digest k parent g")
  case (Inl e)
  with assms have "r = Inl e" "g' = g" by (simp_all add: register_task_def)
  then show ?thesis by simp
next
  case (Inr u)
  with assms show ?thesis by (auto simp: register_task_def children_of_def)
qed

lemma validate_Inr:
  "validate_new_task digest k parent g = Inr () \<Longrightarrow> g_total g < task_limit (g_config g) \<and> depth k \<le> max_depth (g_config g)
     \<and> (truthy parent \<longrightarrow> children_of g (the parent) < branching_limit (g_config g))"
  by (auto simp: validate_new_task_def Let_def split: if_splits)

lemma recorded_register:
  assumes "recorded_in c xs g" "register_task digest k parent g = (r, g')"
  shows "recorded_in c xs g'" "r = Inr () \<Longrightarrow> recorded_in c (xs @ [(k, parent)]) g'"
proof -
  note R = register_result [OF assms(2)]
  have grow: "int (length (children p (xs @ [(k, parent)]))) \<le> children_of g p + (if truthy parent \<and> the parent = p then 1 else 0)"
    if "p \<noteq> []" for p
    using assms(1) that by (auto simp: recorded_in_def children_def truthy_def)
  have ok: "recorded_in c (xs @ [(k, parent)]) g'" if "r = Inr ()"
  proof -
    have v: "validate_new_task digest k parent g = Inr ()" and s: "g_config g' = c" "g_total g' = g_total g + 1"
      "g_tokens g' = g_tokens g @ [word_tokens (objective k)]"
      using R that assms(1) by (auto simp: recorded_in_def)
    have ch: "children_of g' p = children_of g p + (if truthy parent \<and> the parent = p then 1 else 0)" for p
      using R that by auto
    note old = assms(1) [unfolded recorded_in_def] and V = validate_Inr [OF v]
    have "children_of g' p \<le> max 0 (branching_limit c)" if "p \<noteq> []" for p
      using old V that unfolding ch by (auto simp: max_def)
    moreover have "int (length (xs @ [(k, parent)])) \<le> g_total g'" "g_total g' \<le> max 0 (task_limit c)"
      using old V s(2) by (auto simp: max_def)
    moreover have "\<forall>(k, parent) \<in> set (xs @ [(k, parent)]). depth k \<le> max_depth c \<and> word_tokens (objective k) \<in> set (g_tokens g')"
      using old V s(3) by auto
    moreover have "int (length (children p (xs @ [(k, parent)]))) \<le> children_of g' p" if "p \<noteq> []" for p
      using grow [OF that] unfolding ch .
    ultimately show ?thesis
      unfolding recorded_in_def using s(1) by (intro conjI allI impI) assumption+
  qed
  then show "r = Inr () \<Longrightarrow> recorded_in c (xs @ [(k, parent)]) g'" .
  show "recorded_in c xs g'"
  proof (cases "r = Inr ()")
    case True
    from recorded_fewer [OF ok [OF True]] show ?thesis .
  next
    case False
    with R assms(1) show ?thesis by auto
  qed
qed

interpretation admitted: queue_invariant "\<lambda>q. recorded_in c xs (q_guard q)" for c xs
  by unfold_locales (auto simp: index_task_def intro: recorded_register(1) [OF _ prod.collapse [symmetric]])

lemma put_in_registered:
  assumes "put_in k q (snd (add_task api digest k parent block q))"
  shows "\<exists>q1. lift_guard (register_task digest k parent) q = (Inr (), q1) \<and> existing_for_replay k q = Inr None
    \<and> snd (add_task api digest k parent block q) = snd (insert_new api k q1)"
  using assms by (auto simp: put_in_def add_task_def lift_guard_def split: if_splits sum.splits option.splits prod.splits)


lemma admissions_recorded: "admissions api digest c xs q \<Longrightarrow> recorded_in c xs (q_guard q)"
proof (induction rule: admissions.induct)
  case (Begin mx m)
  then show ?case by (simp add: new_queue_def recorded_new)
next
  case (Add xs q q' k parent block)
  show ?case
  proof (cases "put_in k q q'")
    case True
    from put_in_registered [OF True [unfolded Add.hyps(2)]] obtain q1 where
      g: "lift_guard (register_task digest k parent) q = (Inr (), q1)" "existing_for_replay k q = Inr None"
        "q' = snd (insert_new api k q1)" using Add.hyps(2) by blast
    then have q1: "q1 = q\<lparr>q_guard := q_guard q1\<rparr>" "register_task digest k parent (q_guard q) = (Inr (), q_guard q1)"
      by (auto simp: lift_guard_def split: prod.splits)
    have "recorded_in c (xs @ [(k, parent)]) (q_guard q1)"
      using recorded_register(2) [OF Add.IH q1(2)] by simp
    moreover have "existing_for_replay k q1 = Inr None" using g(2) q1(1) by (metis existing_for_replay_guard)
    ultimately show ?thesis
      using True g(3) admitted.insert_new_keeps by simp
  next
    case False
    with admitted.add_keeps [THEN keepD, OF Add.IH] Add.hyps(2) show ?thesis by simp
  qed
next
  case (Other xs q q')
  from admitted.step_keeps [OF other_is_step [OF Other.hyps(2)] Other.IH] show ?case .
qed

text \<open>A task with the words of an admitted one is not put in.\<close>

lemma repeated_words_refused:
  assumes "recorded_in c xs (q_guard q)" "(k, parent) \<in> set xs" "word_tokens (objective k') = word_tokens (objective k)"
    and "deduplicate c" "similarity_threshold c \<le> 1"
  shows "\<not> put_in k' q (snd (add_task api digest k' parent' block q))"
proof
  assume "put_in k' q (snd (add_task api digest k' parent' block q))"
  from put_in_registered [OF this] obtain q1 where "lift_guard (register_task digest k' parent') q = (Inr (), q1)" by blast
  then have "validate_new_task digest k' parent' (q_guard q) = Inr ()"
    by (auto simp: lift_guard_def register_task_def split: sum.splits)
  moreover have "1 \<le> find_most_similar (q_guard q) (objective k')"
    using assms(1-3) find_most_similar_bound [of "word_tokens (objective k)" "q_guard q" "objective k'"]
    by (auto simp: recorded_in_def jaccard_self)
  ultimately show False
    using assms(1,4,5) by (auto simp: validate_new_task_def Let_def recorded_in_def split: if_splits)
qed

end
