(* ===== verification/Queue_Failure.thy ===== *)
theory Queue_Failure
  imports Queue_Settlement
begin

text \<open>
  Failure of a task under any lease manager: the ready and blocked tasks of a queue are tasks it holds,
  and up to the exceptions the manager itself raises the queue does what it does without one.
\<close>

section \<open>Ready and blocked tasks are known\<close>

definition work_known :: "string set \<Rightarrow> 'm queue \<Rightarrow> bool" where
  "work_known I q \<longleftrightarrow> (\<forall>i \<in> set (q_ready q) \<union> fst ` set (q_blocked q) \<union> I. dget (q_all q) i \<noteq> None)"

lemma work_known_ready: "work_known I q \<Longrightarrow> known_ready q"
  by (simp add: work_known_def known_ready_def)

lemma shrinks_known: "shrinks q q' \<Longrightarrow> work_known I q \<Longrightarrow> work_known I q'"
proof -
  assume s: "shrinks q q'" and w: "work_known I q"
  have "dget (q_all q') i \<noteq> None" if known: "dget (q_all q) i \<noteq> None" for i
  proof -
    from known obtain k where "dget (q_all q) i = Some k" by blast
    with s have "\<exists>k'. dget (q_all q') i = Some k' \<and> dependencies k' = dependencies k" by (simp add: shrinks_def deps_kept_def)
    then show ?thesis by auto
  qed
  moreover have "set (q_ready q') \<subseteq> set (q_ready q)" "fst ` set (q_blocked q') \<subseteq> fst ` set (q_blocked q)"
    using s by (simp_all add: shrinks_def image_mono)
  ultimately show ?thesis using w unfolding work_known_def by blast
qed

lemma shrinking_known: "shrinking m \<Longrightarrow> keep (work_known I) m"
  by (auto simp: keep_def intro: shrinks_known dest: shrinkingD)

lemma known_push: "i \<in> I \<Longrightarrow> work_known I q \<Longrightarrow> work_known I (push_ready i q)"
  by (auto simp: work_known_def push_ready_def)

lemma known_block: "i \<in> I \<Longrightarrow> work_known I q \<Longrightarrow> work_known I (q\<lparr>q_blocked := dset i ds (q_blocked q)\<rparr>)"
  by (auto simp: work_known_def)

lemma known_more: "work_known I q \<Longrightarrow> dget (q_all q) i \<noteq> None \<Longrightarrow> work_known (insert i I) q"
  by (auto simp: work_known_def)

lemma known_less: "work_known (insert i I) q \<Longrightarrow> work_known I q"
  by (simp add: work_known_def)

lemma known_upd: "work_known I q \<Longrightarrow> work_known I (upd_task i f q)"
  by (auto simp: work_known_def upd_task_def split: option.split)

lemma known_index: "work_known {} q \<Longrightarrow> work_known {t_id k} (index_task k q)"
  by (auto simp: work_known_def index_task_def)

lemma known_insert_new: "work_known {} q \<Longrightarrow> work_known {} (snd (insert_new api k q))"
proof -
  assume "work_known {} q"
  then have q: "work_known {t_id k} (index_task k q)" by (rule known_index)
  have "keep (work_known {t_id k}) (bnd (gets (unfulfilled k)) (\<lambda>missing.
       andthen
         (if missing = [] then
            andthen (move (t_id k) QUEUED ''All dependencies satisfied'')
              (andthen (modify (push_ready (t_id k))) sort_ready)
          else
            modify (\<lambda>q. upd_task (t_id k) (\<lambda>t. t\<lparr>status := PENDING\<rparr>)
              (q\<lparr>q_blocked := dset (t_id k) missing (q_blocked q)\<rparr>)))
         (andthen (sync_task api (t_id k)) (ret True))))"
    by (intro free_rules keep_modify known_upd known_block known_push shrinking_known [OF shrinking_move]
        shrinking_known [OF shrinking_sort] shrinking_known [OF shrinking_sync]) auto
  from known_less [OF keepD [OF this q]] show ?thesis by (simp add: insert_new_def)
qed

lemma known_add: "keep (work_known {}) (add_task api digest k parent block)"
proof (rule keepI)
  fix q :: "'a queue" assume w: "work_known {} q"
  have "work_known {} (q\<lparr>q_guard := g\<rparr>)" "work_known {} (q\<lparr>q_dropped := n\<rparr>)" for g n
    using w by (simp_all add: work_known_def)
  with w show "work_known {} (snd (add_task api digest k parent block q))"
    by (auto simp: add_task_def lift_guard_def known_insert_new split: sum.splits option.splits prod.splits)
qed

lemma known_pop: "keep (work_known {}) (pop_ready_task api caps node)"
proof (rule keepI)
  fix q :: "'a queue" assume w: "work_known {} q"
  have cut: "work_known {} q \<Longrightarrow> work_known {} (q\<lparr>q_ready := take n (q_ready q) @ drop (Suc n) (q_ready q)\<rparr>)" for q :: "'a queue" and n
    by (auto simp: work_known_def dest: in_set_takeD in_set_dropD)
  have run: "work_known {} q \<Longrightarrow> work_known {} (q\<lparr>q_running := x\<rparr>)" for q :: "'a queue" and x
    by (simp add: work_known_def)
  have "keep (work_known {}) (bnd (select_ready api (map_option clean_caps caps) 0 xs) (\<lambda>sel. case sel of
            None \<Rightarrow> ret None
          | Some (n, tid) \<Rightarrow>
              andthen (modify (note_dispatch tid (map_option clean_caps caps) node))
              (andthen (modify (\<lambda>q. q\<lparr>q_ready := take n (q_ready q) @ drop (Suc n) (q_ready q)\<rparr>))
              (andthen (move tid RUNNING ''Dispatched to worker'')
              (andthen (modify (\<lambda>q. q\<lparr>q_running := ladd tid (q_running q)\<rparr>))
              (andthen (sync_task api tid) (ret (Some tid))))))))" for xs
    by (auto intro!: keeps keep_modify cut run shrinking_known [OF shrinking_select] shrinking_known [OF shrinking_move]
        shrinking_known [OF shrinking_sync] known_upd simp: note_dispatch_def split: option.split)
  with w show "work_known {} (snd (pop_ready_task api caps node q))"
    by (auto simp: pop_ready_task_def Let_def dest: keepD)
qed

lemma known_release: "keep (work_known {}) (release_dependents api i)"
proof (rule keepI)
  fix q :: "'a queue" assume w: "work_known {} q"
  obtain newly b where u: "unblock i (q_blocked q) = (newly, b)" by fastforce
  then have sub: "set newly \<subseteq> fst ` set (q_blocked q)" "fst ` set b \<subseteq> fst ` set (q_blocked q)"
    by (force simp: unblock_def Let_def)+
  have "dget (q_all q) j \<noteq> None" if "j \<in> fst ` set (q_blocked q)" for j using w that by (simp add: work_known_def)
  with sub have "\<forall>j \<in> set newly \<union> fst ` set b. dget (q_all q) j \<noteq> None" by blast
  with w have q: "work_known (set newly) (q\<lparr>q_blocked := b\<rparr>)" by (simp add: work_known_def ball_Un)
  have each: "keep (work_known (set newly)) (foreach js (\<lambda>i.
          andthen (move i QUEUED ''All dependencies completed'')
            (andthen (modify (push_ready i)) (sync_task api i))))" if "set js \<subseteq> set newly" for js
    using that
    by (induction js) (auto intro!: keeps keep_modify known_push shrinking_known [OF shrinking_move] shrinking_known [OF shrinking_sync])
  have "keep (work_known (set newly)) (andthen (foreach newly (\<lambda>i.
          andthen (move i QUEUED ''All dependencies completed'')
            (andthen (modify (push_ready i)) (sync_task api i))))
        (if newly \<noteq> [] then sort_ready else ret ()))"
    by (intro free_rules each shrinking_known shrinking_sort subset_refl)
  from keepD [OF this q] show "work_known {} (snd (release_dependents api i q))"
    by (simp add: release_dependents_def u work_known_def)
qed

lemma known_when: "keep (work_known I) m \<Longrightarrow> keep (work_known I) (when_known i a m)"
  by (auto simp: keep_def when_known_def split: option.splits)

lemma known_completed: "keep (work_known {}) (mark_completed api i)"
  unfolding mark_completed_def
  by (intro known_when free_rules known_release shrinking_known shrinking_release shrinking_move shrinking_sync
      shrinking_modify shrinks_drops)

lemma known_failed: "keep (work_known {}) (mark_failed api now i err rt)"
proof (rule keepI)
  fix q :: "'a queue" assume w: "work_known {} q"
  have K: "keep (work_known {i}) (mark_failed api now i err rt :: ('a queue, bool) sx)"
    unfolding mark_failed_def
    by (intro known_when free_rules keep_modify shrinking_known shrinking_release shrinking_move
        shrinking_sync shrinking_the_task shrinking_sort shrinking_fail_dependents
        shrinks_known [OF shrinks_drops(1)] shrinks_known [OF shrinks_drops(4)]
        shrinks_known [OF shrinks_drops(8)] known_upd known_push) auto
  show "work_known {} (snd (mark_failed api now i err rt q))"
  proof (cases "dget (q_all q) i")
    case None
    with w show ?thesis by (simp add: mark_failed_def when_known_def)
  next
    case (Some k)
    with w have "work_known {i} q" by (intro known_more) simp_all
    from known_less [OF keepD [OF K this]] show ?thesis .
  qed
qed

lemma known_requeue: "work_known I q \<Longrightarrow> fst x \<in> I \<Longrightarrow> work_known I (requeue_step x q)"
  by (cases x) (auto simp: requeue_step_def Let_def intro!: known_upd known_block known_push)

lemma known_recover: "keep (work_known {}) recover_incomplete_tasks"
proof (rule keepI)
  fix q :: "'a queue" assume "work_known {} q"
  let ?q = "(recover_indexed q)\<lparr>q_ready := [], q_blocked := []\<rparr>"
  have "work_known (fst ` set (q_all ?q)) ?q" by (auto simp: work_known_def dget_None)
  then have "work_known (fst ` set (q_all ?q)) (fold requeue_step xs ?q)" if "set xs \<subseteq> set (q_all ?q)" for xs
    using that
  proof (induction xs rule: rev_induct)
    case (snoc x xs)
    then show ?case by (auto intro!: known_requeue)
  qed simp
  from this [OF subset_refl] have "work_known {} (fold requeue_step (q_all ?q) ?q)" by (simp add: work_known_def)
  from keepD [OF keep_andthen [OF shrinking_known [OF shrinking_sort] keep_ret] this]
  show "work_known {} (snd (recover_incomplete_tasks q))" by (simp add: recover_incomplete_tasks_def Let_def)
qed

lemma known_restore: "keep (work_known {}) (restore_task k)"
proof (rule keepI)
  fix q :: "'a queue" assume w: "work_known {} q"
  have "work_known {t_id k} (restore_index k (index_task k q))"
    using known_index [OF w, of k] unfolding restore_index_def Let_def
    by (auto intro!: known_push known_block shrinks_known [OF shrinks_drops(4)]) (simp_all add: work_known_def)
  then have "work_known {} (snd (sort_ready (restore_index k (index_task k q))))"
    by (intro known_less [OF keepD [OF shrinking_known [OF shrinking_sort]]])
  with w show "work_known {} (snd (restore_task k q))"
    by (auto simp: restore_task_def split: sum.split option.split)
qed

lemma step_known: "queue_step api digest q q' \<Longrightarrow> work_known {} q \<Longrightarrow> work_known {} q'"
proof (induction rule: queue_step.induct)
  case (Engine q i k k')
  then show ?case by (auto simp: work_known_def)
qed (auto intro: keepD [OF known_add] keepD [OF known_pop] keepD [OF known_completed] keepD [OF known_failed]
    keepD [OF known_recover] keepD [OF known_restore] keepD [OF shrinking_known [OF shrinking_escalated]]
    keepD [OF shrinking_known [OF shrinking_cancelled]] keepD [OF shrinking_known [OF shrinking_cancel_all]]
    keepD [OF shrinking_known [OF unfulfillable_deps]])

lemma reachable_known: "reachable_queue api digest q \<Longrightarrow> work_known {} q"
proof -
  assume "reachable_queue api digest q"
  then obtain g mx m where "(queue_step api digest)\<^sup>*\<^sup>* (new_queue g mx m) q" by (auto simp: reachable_queue_def)
  then show ?thesis
  proof (induction rule: rtranclp_induct)
    case base
    show ?case by (simp add: new_queue_def work_known_def)
  next
    case (step y z)
    then show ?case by (blast intro: step_known)
  qed
qed

section \<open>The queue under a manager\<close>

text \<open>The exceptions a manager can raise when leases are released or a task is synchronised.\<close>

definition manager_raises :: "'m lease_api option \<Rightarrow> exn \<Rightarrow> bool" where
  "manager_raises api e \<longleftrightarrow> (case api of None \<Rightarrow> False
     | Some a \<Rightarrow> (\<exists>ls s. fst (la_release a ls s) = Inl e) \<or> (\<exists>f k b s. la_sync a = Some f \<and> fst (f k b s) = Inl e))"

text \<open>
  One computation follows another when from queues that differ in the manager's state at most it raises
  an exception of the manager, or both end alike, in queues that differ in that state at most.
\<close>

definition follows_at :: "'m lease_api option \<Rightarrow> ('m queue, 'a) sx \<Rightarrow> ('m queue, 'a) sx \<Rightarrow> 'm queue \<Rightarrow> 'm \<Rightarrow> bool" where
  "follows_at api m n q s \<longleftrightarrow> (\<exists>e. fst (m q) = Inl e \<and> manager_raises api e)
     \<or> (\<exists>s'. n (q\<lparr>q_lm := s\<rparr>) = (fst (m q), (snd (m q))\<lparr>q_lm := s'\<rparr>))"

definition follows :: "'m lease_api option \<Rightarrow> ('m queue, 'a) sx \<Rightarrow> ('m queue, 'a) sx \<Rightarrow> bool" where
  "follows api m n \<longleftrightarrow> (\<forall>q s. follows_at api m n q s)"

lemma follows_cong: "m q = m' q' \<Longrightarrow> n (q\<lparr>q_lm := s\<rparr>) = n' (q'\<lparr>q_lm := s'\<rparr>) \<Longrightarrow> follows_at api m' n' q' s' \<Longrightarrow> follows_at api m n q s"
  by (simp add: follows_at_def)

lemma followsI: "(\<And>q s. follows_at api m n q s) \<Longrightarrow> follows api m n"
  by (simp add: follows_def)

lemma followsD:
  assumes "follows api m n" "m q = (r, q')"
  obtains e where "r = Inl e" "manager_raises api e" | s' where "n (q\<lparr>q_lm := s\<rparr>) = (r, q'\<lparr>q_lm := s'\<rparr>)"
  using assms unfolding follows_def follows_at_def by (metis fst_conv snd_conv)

lemma follows_bnd:
  assumes "follows api m n" "\<And>a. follows api (f a) (g a)"
  shows "follows api (bnd m f) (bnd n g)"
proof (rule followsI)
  fix q s
  obtain r q1 where run: "m q = (r, q1)" by fastforce
  show "follows_at api (bnd m f) (bnd n g) q s"
  proof (rule followsD [OF assms(1) run, where s = s])
    fix e assume "r = Inl e" "manager_raises api e"
    then show ?thesis using run by (simp add: bnd_run follows_at_def)
  next
    fix s1 assume n: "n (q\<lparr>q_lm := s\<rparr>) = (r, q1\<lparr>q_lm := s1\<rparr>)"
    show ?thesis
    proof (cases r)
      case (Inl e)
      then show ?thesis using run n by (auto simp: bnd_run follows_at_def)
    next
      case (Inr a)
      then show ?thesis using run n assms(2) [of a, unfolded follows_def follows_at_def, rule_format, of q1 s1] by (simp add: bnd_run follows_at_def)
    qed
  qed
qed

lemma follows_andthen: "follows api m n \<Longrightarrow> follows api m' n' \<Longrightarrow> follows api (andthen m m') (andthen n n')"
  unfolding andthen_def by (rule follows_bnd)

lemma follows_basic: "follows api (ret a) (ret a)" "follows api (throw e) (throw e)"
  by (auto simp: follows_def follows_at_def)

lemma follows_modify: "(\<And>q s. f (q\<lparr>q_lm := s\<rparr>) = (f q)\<lparr>q_lm := s\<rparr>) \<Longrightarrow> follows api (modify f) (modify f)"
  by (auto simp: follows_def follows_at_def)

text \<open>A computation that does not look at the manager's state follows itself.\<close>

lemma follows_self: "(\<And>q s. m (q\<lparr>q_lm := s\<rparr>) = (fst (m q), (snd (m q))\<lparr>q_lm := s\<rparr>)) \<Longrightarrow> follows api m m"
  by (auto simp: follows_def follows_at_def)

lemma follows_if: "follows api m n \<Longrightarrow> follows api m' n' \<Longrightarrow> follows api (if b then m else m') (if b then n else n')"
  by simp

lemma follows_when: "follows api m n \<Longrightarrow> follows api (when_known i a m) (when_known i a n)"
  unfolding follows_def follows_at_def when_known_def by (auto split: option.split)

lemma lm_frames:
  "upd_task i f (q\<lparr>q_lm := s\<rparr>) = (upd_task i f q)\<lparr>q_lm := s\<rparr>" "drop_running i (q\<lparr>q_lm := s\<rparr>) = (drop_running i q)\<lparr>q_lm := s\<rparr>"
  "push_ready i (q\<lparr>q_lm := s\<rparr>) = (push_ready i q)\<lparr>q_lm := s\<rparr>" "drop_blocked i (q\<lparr>q_lm := s\<rparr>) = (drop_blocked i q)\<lparr>q_lm := s\<rparr>"
  "add_failed i (q\<lparr>q_lm := s\<rparr>) = (add_failed i q)\<lparr>q_lm := s\<rparr>" "push_dlq i e now (q\<lparr>q_lm := s\<rparr>) = (push_dlq i e now q)\<lparr>q_lm := s\<rparr>"
  "drop_locks i (q\<lparr>q_lm := s\<rparr>) = (drop_locks i q)\<lparr>q_lm := s\<rparr>" "force_failed i r (q\<lparr>q_lm := s\<rparr>) = (force_failed i r q)\<lparr>q_lm := s\<rparr>"
  by (auto simp: upd_task_def drop_running_def push_ready_def drop_blocked_def add_failed_def push_dlq_def drop_locks_def force_failed_def
      split: option.split)

lemma lm_commutes: "q\<lparr>q_leases := l, q_lm := s\<rparr> = q\<lparr>q_lm := s, q_leases := l\<rparr>"
  by simp

lemma follows_the_task: "follows api (the_task i) (the_task i)"
  by (rule follows_self) (auto simp: the_task_def split: option.split)

lemma follows_move: "follows api (move i t r) (move i t r)"
  by (rule follows_self) (auto simp: move_def split: option.split sum.split)

lemma follows_sort: "follows api sort_ready sort_ready"
  by (rule follows_self) (auto simp: sort_ready_def split: option.split)

lemma sync_known:
  assumes "dget (q_all q) i = Some k"
  shows "(\<exists>e. fst (sync_task api i q) = Inl e \<and> manager_raises api e) \<or> (\<exists>s. sync_task api i q = (Inr (), q\<lparr>q_lm := s\<rparr>))"
proof (cases api)
  case None
  then show ?thesis by (intro disjI2 exI [of _ "q_lm q"]) simp
next
  case (Some a)
  show ?thesis
  proof (cases "la_sync a")
    case None
    then show ?thesis using Some by (intro disjI2 exI [of _ "q_lm q"]) (simp add: sync_task_def)
  next
    case (Some f)
    obtain r s where run: "f k False (q_lm q) = (r, s)" by fastforce
    have "sync_task api i q = (r, q\<lparr>q_lm := s\<rparr>)"
      using \<open>api = Some a\<close> Some run assms by (simp add: sync_task_def the_task_def lift_lm_def bnd_run)
    then show ?thesis
      using \<open>api = Some a\<close> Some run by (cases r) (auto simp: manager_raises_def, metis fst_conv)
  qed
qed

lemma sync_then:
  assumes "dget (q_all q) i = Some k" "follows api m n"
  shows "follows_at api (andthen (sync_task api i) m) (andthen (sync_task None i) n) q s"
  using sync_known [OF assms(1), of api]
proof (elim disjE exE conjE)
  fix e assume "fst (sync_task api i q) = Inl e" "manager_raises api e"
  then show ?thesis by (cases "sync_task api i q") (simp add: andthen_run follows_at_def)
next
  fix s1 assume "sync_task api i q = (Inr (), q\<lparr>q_lm := s1\<rparr>)"
  then show ?thesis
    using assms(2) [unfolded follows_def follows_at_def, rule_format, of "q\<lparr>q_lm := s1\<rparr>" s] by (simp add: andthen_run follows_at_def)
qed

lemma follows_move_sync:
  fixes m n :: "('m queue, 'a) sx"
  assumes "follows api m n"
  shows "follows api (andthen (move i t r) (andthen (sync_task api i) m)) (andthen (move i t r) (andthen (sync_task None i) n))"
proof (rule followsI)
  fix q :: "'m queue" and s
  obtain x q1 where run: "move i t r q = (x, q1)" by fastforce
  then have other: "move i t r (q\<lparr>q_lm := s\<rparr>) = (x, q1\<lparr>q_lm := s\<rparr>)"
    by (auto simp: move_def split: option.splits sum.splits)
  show "follows_at api (andthen (move i t r) (andthen (sync_task api i) m)) (andthen (move i t r) (andthen (sync_task None i) n)) q s"
  proof (cases x)
    case (Inl e)
    then show ?thesis using run other by (auto simp: andthen_run follows_at_def)
  next
    case (Inr u)
    then obtain k where "dget (q_all q1) i = Some k"
      using run by (auto simp: move_def split: option.splits sum.splits)
    from sync_then [OF this assms, of s] show ?thesis
      by (rule follows_cong [rotated 2]) (simp_all add: andthen_run [where m = "move _ _ _"] run other Inr)
  qed
qed

lemma follows_release: "follows api (release_resources api i) (release_resources None i)"
proof (rule followsI)
  fix q :: "'a queue" and s
  let ?ls = "case dget (q_leases q) i of None \<Rightarrow> [] | Some ls \<Rightarrow> ls"
  show "follows_at api (release_resources api i) (release_resources None i) q s"
  proof (cases "\<exists>a. api = Some a \<and> ?ls \<noteq> []")
    case False
    then have "release_resources api i q = (Inr (), drop_locks i (q\<lparr>q_leases := ddel i (q_leases q)\<rparr>))"
      by (cases api) (auto simp: release_resources_def bnd_run andthen_run)
    then show ?thesis
      unfolding follows_at_def by (intro disjI2 exI [of _ s]) (simp add: release_None lm_frames(7) [symmetric] lm_commutes)
  next
    case True
    then obtain a where a: "api = Some a" "?ls \<noteq> []" by blast
    obtain r t where run: "la_release a ?ls (q_lm q) = (r, t)" by fastforce
    show ?thesis
    proof (cases r)
      case (Inl e)
      then have "fst (release_resources api i q) = Inl e"
        using a run by (simp add: release_resources_def bnd_run andthen_run lift_lm_def)
      moreover have "manager_raises api e" using a run Inl by (auto simp: manager_raises_def) (metis fst_conv)
      ultimately show ?thesis unfolding follows_at_def by blast
    next
      case (Inr u)
      then have "release_resources api i q = (Inr (), drop_locks i (q\<lparr>q_leases := ddel i (q_leases q), q_lm := t\<rparr>))"
        using a run by (simp add: release_resources_def bnd_run andthen_run lift_lm_def)
      then show ?thesis
        unfolding follows_at_def by (intro disjI2 exI [of _ s]) (simp add: release_None lm_frames(7) [symmetric] lm_commutes)
    qed
  qed
qed


text \<open>A pass of the cascade, in the notation of computations.\<close>

lemma fail_pass_run:
  "fail_pass api now i r ((b, deps) # bs) q =
     (if \<not> doomed i (q_all q) deps then fail_pass api now i r bs q
      else case dget (q_all q) b of
        None \<Rightarrow> bnd (fail_pass api now i r bs) (\<lambda>p. ret (fst p, True)) (drop_blocked b q)
      | Some k \<Rightarrow> andthen (sync_task api b) (andthen (modify (push_dlq b (''[DEPENDENCY_ERROR] '' @ r) now))
          (bnd (fail_pass api now i r bs) (\<lambda>p. ret (b # fst p, True)))) (add_failed b (force_failed b r (drop_blocked b q))))"
  by (auto simp: bnd_run andthen_run split: option.split sum.split prod.split)

lemma follows_fail_pass:
  fixes api :: "'m lease_api option"
  shows "follows api (fail_pass api now i r bs) (fail_pass None now i r bs)"
proof (induction bs)
  case Nil
  show ?case by (auto simp: follows_def follows_at_def)
next
  case (Cons x bs)
  obtain b deps where x: "x = (b, deps)" by (cases x)
  show ?case
  proof (rule followsI)
    fix q :: "'m queue" and s
    let ?q = "add_failed b (force_failed b r (drop_blocked b q))"
    note run = fail_pass_run [where api = api and q = q and b = b and deps = deps and bs = bs and i = i and r = r and now = now]
      fail_pass_run [where api = None and q = "q\<lparr>q_lm := s\<rparr>" and b = b and deps = deps and bs = bs and i = i and r = r and now = now]
    consider "\<not> doomed i (q_all q) deps" | "doomed i (q_all q) deps" "dget (q_all q) b = None"
      | k where "doomed i (q_all q) deps" "dget (q_all q) b = Some k" by (cases "dget (q_all q) b") auto
    then show "follows_at api (fail_pass api now i r (x # bs)) (fail_pass None now i r (x # bs)) q s"
    proof cases
      case 1
      have "follows_at api (fail_pass api now i r bs) (fail_pass None now i r bs) q s" using Cons.IH by (simp add: follows_def)
      then show ?thesis by (rule follows_cong [rotated 2]) (use 1 in \<open>simp_all add: x run del: fail_pass.simps(2)\<close>)
    next
      case 2
      have "follows_at api (bnd (fail_pass api now i r bs) (\<lambda>p. ret (fst p, True))) (bnd (fail_pass None now i r bs) (\<lambda>p. ret (fst p, True)))
          (drop_blocked b q) s"
        by (rule follows_bnd [OF Cons.IH follows_basic(1), unfolded follows_def, rule_format])
      then show ?thesis by (rule follows_cong [rotated 2]) (use 2 in \<open>simp_all add: x run lm_frames del: fail_pass.simps(2)\<close>)
    next
      case (3 k)
      have known: "\<exists>k'. dget (q_all ?q) b = Some k'"
        using 3(2) by (simp add: force_failed_status add_failed_def drop_blocked_def)
      then obtain k' where "dget (q_all ?q) b = Some k'" by blast
      from sync_then [OF this follows_andthen [OF follows_modify follows_bnd [OF Cons.IH follows_basic(1)]], of "push_dlq b (''[DEPENDENCY_ERROR] '' @ r) now"]
      show ?thesis by (rule follows_cong [rotated 2]) (use 3 in \<open>simp_all add: x run lm_frames del: fail_pass.simps(2)\<close>)
    qed
  qed
qed

lemma fail_dependents_run:
  "fail_dependents api now i r q = bnd (fail_pass api now i r (q_blocked q)) (\<lambda>p. if snd p then
      bnd (fail_dependents api now i r) (\<lambda>rest. ret (fst p @ rest)) else ret (fst p)) q"
  by (subst fail_dependents.simps) (auto simp: bnd_run split: sum.split prod.split)

lemma follows_fail_dependents:
  fixes api :: "'m lease_api option" and q :: "'m queue"
  shows "follows_at api (fail_dependents api now i r) (fail_dependents None now i r) q s"
proof (induction "length (q_blocked q)" arbitrary: q s rule: less_induct)
  case (less q s)
  obtain x q1 where run: "fail_pass api now i r (q_blocked q) q = (x, q1)" by fastforce
  show ?case
  proof (rule followsD [OF follows_fail_pass run, where s = s])
    fix e assume "x = Inl e" "manager_raises api e"
    then show ?thesis by (auto simp: follows_at_def fail_dependents_run [of api] bnd_run run)
  next
    fix s1 assume other: "fail_pass None now i r (q_blocked q) (q\<lparr>q_lm := s\<rparr>) = (x, q1\<lparr>q_lm := s1\<rparr>)"
    note unf = fail_dependents_run [of api now i r q] fail_dependents_run [of None now i r "q\<lparr>q_lm := s\<rparr>"]
    show ?thesis
    proof (cases x)
      case (Inl e)
      then show ?thesis using run other by (auto simp: follows_at_def unf bnd_run)
    next
      case (Inr p)
      show ?thesis
      proof (cases "snd p")
        case False
        then show ?thesis using run other Inr by (auto simp: follows_at_def unf bnd_run)
      next
        case True
        then have "length (q_blocked q1) < length (q_blocked q)"
          using run Inr by (intro fail_pass_decreases [of api now i r "q_blocked q" q "fst p"]) (cases p, simp_all)
        from less [OF this, of s1] have
          "follows_at api (bnd (fail_dependents api now i r) (\<lambda>rest. ret (fst p @ rest))) (bnd (fail_dependents None now i r) (\<lambda>rest. ret (fst p @ rest))) q1 s1"
          by (auto simp: follows_at_def bnd_run split: prod.splits sum.splits)
        then show ?thesis
          by (rule follows_cong [rotated 2])
            (simp_all add: unf bnd_run [where m = "fail_pass _ _ _ _ _"] run other Inr True)
      qed
    qed
  qed
qed

lemma follows_failed: "follows api (mark_failed api now i err rt) (mark_failed None now i err rt)"
  unfolding mark_failed_def
  by (intro follows_when follows_andthen [OF follows_modify] follows_andthen [OF follows_release] follows_bnd [OF follows_the_task]
      follows_if follows_move_sync follows_andthen [OF follows_sort] follows_andthen [OF followsI [OF follows_fail_dependents]] follows_basic)
    (simp_all add: lm_frames)

text \<open>What a failure does, whatever the manager answers.\<close>

lemma failed_runs:
  assumes k: "dget (q_all q) i = Some k" "can_transition (status k) FAILED" and kr: "known_ready q"
    and run: "mark_failed None now i err rt q = (r, q')"
  shows "r = fail_outcome rt k
    \<and> (r = Inr True \<longrightarrow> i \<in> set (q_ready q') \<and> (\<exists>k'. dget (q_all q') i = Some k' \<and> status k' = QUEUED \<and> retry_count k' = retry_count k + 1))
    \<and> (r = Inr False \<longrightarrow> (\<exists>d. failed_for_good i d q' \<and> dl_task_id d = i \<and> dl_error d = err \<and> dl_attempts d = retry_count k + 1)
         \<and> (\<forall>p \<in> set (q_blocked q'). \<not> doomed i (q_all q') (snd p)))"
proof (cases "rt \<and> retry_count k + 1 \<le> max_retries k")
  case True
  show ?thesis
  proof (cases "admit_effect_retry (Some (meta k))")
    case True
    with \<open>rt \<and> _\<close> retry_runs [OF k kr, of rt now err] run show ?thesis by (auto simp: fail_outcome_def)
  next
    case False
    with \<open>rt \<and> _\<close> retry_refused [OF k, of rt now err] run show ?thesis by (auto simp: fail_outcome_def)
  qed
next
  case False
  obtain p d where "mark_failed None now i err rt q = (Inr False, p)" and
    fin: "failed_for_good i d p" "dl_task_id d = i" "dl_error d = err" "dl_attempts d = retry_count k + 1"
    "\<forall>x \<in> set (q_blocked p). \<not> doomed i (q_all p) (snd x)"
    using permanent_runs [OF k False, of now err] by blast
  moreover have "fail_outcome rt k = Inr False" using False by (auto simp: fail_outcome_def)
  ultimately show ?thesis using run by auto
qed

lemma off_running: "shrinking m \<Longrightarrow> keep (\<lambda>q. i \<notin> set (q_running q)) m"
  using shrinkingD [of m] by (auto simp: keep_def shrinks_def)

lemma keep_after: "keep P n \<Longrightarrow> P (f q) \<Longrightarrow> P (snd (andthen (modify f) n q))"
  by (simp add: keepD)

lemma failed_not_running:
  assumes "dget (q_all q) i = Some k"
  shows "i \<notin> set (q_running (snd (mark_failed api now i err rt q)))"
proof -
  have shrunk: "i \<notin> set (q_running q') \<Longrightarrow> shrinks q' q'' \<Longrightarrow> i \<notin> set (q_running q'')" for q' q'' :: "'a queue"
    by (auto simp: shrinks_def)
  have "i \<notin> set (q_running (drop_running i q))" by (simp add: drop_running_def)
  then show ?thesis
    unfolding mark_failed_def when_known_def assms option.case
    by (rule keep_after [where P = "\<lambda>q. i \<notin> set (q_running q)", rotated])
      (intro free_rules keep_modify off_running shrinking_release shrinking_move
        shrinking_sync shrinking_the_task shrinking_sort shrinking_fail_dependents
        shrunk [OF _ shrinks_drops(4)] shrunk [OF _ shrinks_drops(8)] shrunk [OF _ shrinks_upd]; simp add: push_ready_def)
qed

end
