(* ===== verification/Queue_Properties.thy ===== *)
theory Queue_Properties
  imports Queue_Dispatch Queue_Admission Queue_Failure
begin

text \<open>
  The properties of the task model, the explosion guard and the queue, each with a concrete
  run of the code's model where it applies.
\<close>

section \<open>Sample runs\<close>

definition sample_task :: "string \<Rightarrow> string list \<Rightarrow> string \<Rightarrow> string list \<Rightarrow> task" where
  "sample_task i deps sc files = \<lparr>t_id = i, t_run = ''run'', objective = i, description = [],
     dependencies = deps, priority = MEDIUM, risk = ''low'', required_caps = [], strategy = [],
     status = PENDING, max_iterations = 3, max_repairs = 2, repair_round = 0, token_budget = 0,
     retry_count = 0, max_retries = 1, depth = 0, created_at = 0, updated_at = 0,
     target_files = files, scope = sc, resource_locks = [], timeout_s = 60, heartbeat_s = 30,
     idem_key = CHR ''k'' # i, candidate = None, meta = no_meta\<rparr>"

definition empty_queue :: "unit queue" where
  "empty_queue = new_queue (new_guard default_guard_config) 3 ()"

definition added :: "task \<Rightarrow> unit queue \<Rightarrow> unit queue" where
  "added k q = snd (add_task None (\<lambda>s. s) k None False q)"

definition popped :: "unit queue \<Rightarrow> unit queue" where
  "popped q = snd (pop_ready_task None None None q)"

text \<open>Two writers of different files, both running; then \<open>b\<close> waits for \<open>a\<close>.\<close>

definition two_writers :: "unit queue" where
  "two_writers = popped (popped (added (sample_task ''b'' [] ''WORKSPACE_WRITE'' [''y''])
     (added (sample_task ''a'' [] ''WORKSPACE_WRITE'' [''x'']) empty_queue)))"

definition waiting :: "unit queue" where
  "waiting = popped (added (sample_task ''b'' [''a''] ''ISOLATED'' [])
     (added (sample_task ''a'' [] ''ISOLATED'' []) empty_queue))"

lemma guard_ok_default: "guard_ok (new_guard c)"
  by (rule guard_ok_new)

lemma reachable_empty: "reachable_queue None (\<lambda>s. s) empty_queue"
  unfolding reachable_queue_def empty_queue_def using guard_ok_default by blast

lemma reachable_add: "reachable_queue None (\<lambda>s. s) q \<Longrightarrow> reachable_queue None (\<lambda>s. s) (added k q)"
  unfolding reachable_queue_def added_def
  by (meson queue_step.Add rtranclp.rtrancl_into_rtrancl)

lemma reachable_pop: "reachable_queue None (\<lambda>s. s) q \<Longrightarrow> reachable_queue None (\<lambda>s. s) (popped q)"
  unfolding reachable_queue_def popped_def
  by (meson queue_step.Pop rtranclp.rtrancl_into_rtrancl)

lemma reachable_two_writers: "reachable_queue None (\<lambda>s. s) two_writers"
  unfolding two_writers_def by (intro reachable_pop reachable_add reachable_empty)

section \<open>Tasks\<close>

text \<open>
  Along any sequence of accepted transitions the recorded history is a chain of moves of
  the transition table that ends in the task's status, the old history is its prefix, and a
  completed or cancelled task does not change status any more.
\<close>

theorem history_is_a_run_of_the_table:
  assumes "transitions k ms = Inr k'" and "m_history (meta k) = []"
  shows "chain task_moves (status k) (hist k') (status k')
     \<and> map (\<lambda>(a, b, r). (b, r)) (m_history (meta k')) = ms
     \<and> (task_final (status k) \<longrightarrow> status k' = status k)"
proof -
  have "chain task_moves (status k) (hist k) (status k)"
    using assms(2) by (simp add: hist_def)
  from transitions_chain [OF assms(1) this] have c: "chain task_moves (status k) (hist k') (status k')" .
  moreover have "map (\<lambda>(a, b, r). (b, r)) (m_history (meta k')) = ms"
    using transitions_history_grows [OF assms(1)] assms(2) by auto
  ultimately show ?thesis
    using tasks.chain_from_final by blast
qed

theorem history_is_a_run_of_the_table_witness:
  "\<exists>k'. transitions (sample_task ''a'' [] ''ISOLATED'' [])
       [(QUEUED, ''q''), (RUNNING, ''r''), (COMPLETED, ''c'')] = Inr k'
     \<and> chain task_moves PENDING (hist k') COMPLETED"
proof -
  let ?k = "sample_task ''a'' [] ''ISOLATED'' []"
  let ?ms = "[(QUEUED, ''q''), (RUNNING, ''r''), (COMPLETED, ''c'')]"
  obtain k' where k': "transitions ?k ?ms = Inr k'" "status k' = COMPLETED"
    by (simp add: transition_def can_transition_def can_move_def sample_task_def)
  have "m_history (meta ?k) = []" by (simp add: sample_task_def no_meta_def)
  from history_is_a_run_of_the_table [OF k'(1) this] k' show ?thesis
    by (auto simp: sample_task_def)
qed

section \<open>Resource locks\<close>

text \<open>
  C4: in every reachable queue, whatever lease manager it uses, two tasks that hold their
  locks at the same time hold exactly the resources their scope asks for, and these are
  compatible: no common resource, nothing beside a run-exclusive holder, no file beside a
  whole-workspace writer.
\<close>

theorem concurrent_holders_compatible:
  assumes "reachable_queue api digest q" and "a \<noteq> b"
    and "dget (q_locks q) a = Some A" and "dget (q_locks q) b = Some B"
  shows "compatible A B
     \<and> (\<exists>k. dget (q_all q) a = Some k \<and> A = resources_for_task k)"
proof -
  have ok: "locks_ok q"
    using resource_lock.reachable_keeps [OF assms(1)] locks_ok_new by blast
  then show ?thesis
    using assms(2-4) locks_ok_task [OF ok assms(3)] unfolding locks_ok_def by blast
qed

theorem concurrent_holders_compatible_witness:
  "compatible [''file:x''] [''file:y'']"
proof -
  have "dget (q_locks two_writers) ''a'' = Some [''file:x'']"
    "dget (q_locks two_writers) ''b'' = Some [''file:y'']"
    by code_simp+
  from concurrent_holders_compatible [OF reachable_two_writers _ this] show ?thesis by simp
qed

section \<open>Dependencies\<close>

text \<open>
  C5: under the scheduler's calls every ready or running task has all of its dependencies
  among the completed tasks, and a blocked task lists every dependency that is not.
\<close>

theorem ready_tasks_have_their_dependencies:
  assumes "(scheduler_step api digest)\<^sup>*\<^sup>* (new_queue g mx m) q"
  shows "(\<forall>i. i \<in> set (q_ready q) \<union> set (q_running q) \<longrightarrow>
       (\<exists>k. dget (q_all q) i = Some k \<and> set (dependencies k) \<subseteq> set (q_done q)))
     \<and> (\<forall>b ds. (b, ds) \<in> set (q_blocked q) \<longrightarrow>
       (\<exists>k. dget (q_all q) b = Some k \<and> set (dependencies k) \<subseteq> set (q_done q) \<union> set ds))"
proof -
  have "deps_ok q"
    using scheduler_steps_deps [OF assms] by (simp add: new_queue_def deps_ok_def)
  then show ?thesis
    by (auto simp: deps_ok_def deps_done_def deps_listed_def)
qed

lemma scheduled_waiting:
  "(scheduler_step None (\<lambda>s. s))\<^sup>*\<^sup>* (new_queue (new_guard default_guard_config) 3 ())
     (snd (mark_completed None ''a'' waiting))"
proof -
  let ?s = "scheduler_step None (\<lambda>s. s) :: unit queue \<Rightarrow> unit queue \<Rightarrow> bool"
  have add: "?s q (added k q)" for k q unfolding added_def by (rule scheduler_step.Add)
  have pop: "?s q (popped q)" for q unfolding popped_def by (rule scheduler_step.Pop)
  have fin: "?s q (snd (mark_completed None ''a'' q))" for q by (rule scheduler_step.Complete)
  have more: "?s\<^sup>*\<^sup>* p (f q)" if "\<And>q. ?s q (f q)" "?s\<^sup>*\<^sup>* p q" for p q f
    using that by (meson rtranclp.rtrancl_into_rtrancl)
  show ?thesis
    unfolding waiting_def empty_queue_def [symmetric]
    by (rule more [OF fin], rule more [OF pop], rule more [OF add], rule more [OF add],
        rule rtranclp.rtrancl_refl)
qed

theorem ready_tasks_have_their_dependencies_witness:
  "\<exists>k. dget (q_all (snd (mark_completed None ''a'' waiting))) ''b'' = Some k
     \<and> set (dependencies k) \<subseteq> {''a''}"
proof -
  let ?q = "snd (mark_completed None ''a'' waiting)"
  have "q_ready ?q = [''b'']" "q_done ?q = [''a'']" by code_simp+
  with ready_tasks_have_their_dependencies [OF scheduled_waiting] show ?thesis by simp
qed

section \<open>Dispatch\<close>

text \<open>
  without a lease manager, dispatch takes the first task of the ready queue whose
  capabilities are available and whose resources are free, makes it RUNNING and records
  exactly its resources as held; when there is none it returns nothing and changes nothing.
\<close>

theorem dispatch_takes_the_first_eligible:
  assumes "\<forall>i \<in> set (q_ready q). \<exists>k. dget (q_all q) i = Some k \<and> can_transition (status k) RUNNING"
  shows "(\<exists>j k q'. j < length (q_ready q) \<and> (\<forall>l < j. \<not> eligible (map_option clean_caps caps) q (q_ready q ! l))
       \<and> eligible (map_option clean_caps caps) q (q_ready q ! j) \<and> dget (q_all q) (q_ready q ! j) = Some k
       \<and> pop_ready_task None caps node q = (Inr (Some (q_ready q ! j)), q')
       \<and> q_ready q' = take j (q_ready q) @ drop (Suc j) (q_ready q)
       \<and> q_running q' = ladd (q_ready q ! j) (q_running q)
       \<and> dget (q_locks q') (q_ready q ! j) = Some (resources_for_task k)
       \<and> (\<exists>k'. dget (q_all q') (q_ready q ! j) = Some k' \<and> status k' = RUNNING))
     \<or> ((\<forall>i \<in> set (q_ready q). \<not> eligible (map_option clean_caps caps) q i)
       \<and> pop_ready_task None caps node q = (Inr None, q))"
  using pop_outcome [of q caps node] assms by (simp add: dispatchable_def)

text \<open>A second writer of the same file is passed over for a third task.\<close>

definition contended :: "unit queue" where
  "contended = added (sample_task ''c'' [] ''ISOLATED'' [])
     (added (sample_task ''b'' [] ''WORKSPACE_WRITE'' [''x''])
       (popped (added (sample_task ''a'' [] ''WORKSPACE_WRITE'' [''x'']) empty_queue)))"

theorem dispatch_takes_the_first_eligible_witness:
  "\<not> eligible None contended ''b'' \<and> fst (pop_ready_task None None None contended) = Inr (Some ''c'')"
proof -
  have r: "q_ready contended = [''b'', ''c'']" by code_simp
  have "\<forall>i \<in> set (q_ready contended). case dget (q_all contended) i of None \<Rightarrow> False
      | Some k \<Rightarrow> can_transition (status k) RUNNING" by code_simp
  then have ok: "\<forall>i \<in> set (q_ready contended). \<exists>k. dget (q_all contended) i = Some k
      \<and> can_transition (status k) RUNNING" by (auto split: option.splits)
  have e: "\<not> eligible None contended ''b''"
  proof -
    have "case dget (q_all contended) ''b'' of None \<Rightarrow> False
      | Some k \<Rightarrow> resource_conflict (dkeys (q_holders contended)) (resources_for_task k)" by code_simp
    then show ?thesis by (auto simp: eligible_def split: option.splits)
  qed
  have c: "eligible None contended ''c''"
  proof -
    have "case dget (q_all contended) ''c'' of None \<Rightarrow> False
      | Some k \<Rightarrow> \<not> resource_conflict (dkeys (q_holders contended)) (resources_for_task k)" by code_simp
    then show ?thesis by (auto simp: eligible_def caps_ok_def split: option.splits)
  qed
  from dispatch_takes_the_first_eligible [OF ok, of None None] r e c show ?thesis
    by (auto simp: less_Suc_eq)
qed

section \<open>Failure\<close>



text \<open>
  C10: when a task whose status admits a failure fails, with a lease manager or without one, the call
  returns or raises what the retry rule says (\<open>fail_outcome\<close>: queued again when the failure is retryable,
  attempts are left and the effect may be repeated; refused when only the last is missing; otherwise
  buried), or it raises an exception of the lease manager's release or synchronisation. In every case
  the task is not running any more. When the call returns that the task is queued again it is QUEUED
  and ready with its attempt counted; when it returns that it is not, the task is FAILED for good: in the
  failed set, in the dead-letter queue with the number of its attempts, and no blocked task waits for it.
\<close>

theorem failure_is_retried_or_buried:
  assumes "reachable_queue api digest q" "dget (q_all q) i = Some k" "can_transition (status k) FAILED"
    and "mark_failed api now i err rt q = (r, q')"
  shows "(r = fail_outcome rt k \<or> (\<exists>e. r = Inl e \<and> manager_raises api e))
     \<and> i \<notin> set (q_running q')
     \<and> (r = Inr True \<longrightarrow> retry_count k + 1 \<le> max_retries k \<and> i \<in> set (q_ready q')
          \<and> (\<exists>k'. dget (q_all q') i = Some k' \<and> status k' = QUEUED \<and> retry_count k' = retry_count k + 1))
     \<and> (r = Inr False \<longrightarrow>
          (\<exists>d. failed_for_good i d q' \<and> dl_task_id d = i \<and> dl_error d = err \<and> dl_attempts d = retry_count k + 1)
          \<and> (\<forall>p \<in> set (q_blocked q'). \<not> doomed i (q_all q') (snd p)))"
proof -
  have kr: "known_ready q" using reachable_known [OF assms(1)] by (rule work_known_ready)
  have off: "i \<notin> set (q_running q')" using failed_not_running [OF assms(2), of api now err rt] assms(4) by simp
  show ?thesis
  proof (rule followsD [OF follows_failed assms(4), where s = "q_lm q"])
    fix e assume "r = Inl e" "manager_raises api e"
    with off show ?thesis by blast
  next
    fix s' assume "mark_failed None now i err rt (q\<lparr>q_lm := q_lm q\<rparr>) = (r, q'\<lparr>q_lm := s'\<rparr>)"
    then have run: "mark_failed None now i err rt q = (r, q'\<lparr>q_lm := s'\<rparr>)" by simp
    have "r = Inr True \<Longrightarrow> retry_count k + 1 \<le> max_retries k"
      using failed_runs [OF assms(2,3) kr run] by (auto simp: fail_outcome_def split: if_splits)
    with failed_runs [OF assms(2,3) kr run] off show ?thesis by (simp add: failed_for_good_def)
  qed
qed

text \<open>A manager that keeps no state and answers every call.\<close>

definition demo_api :: "unit lease_api" where
  "demo_api = \<lparr>la_acquire = (\<lambda>k rs s. (Inr (Some []), s)), la_release = (\<lambda>ls s. (Inr (), s)), la_sync = Some (\<lambda>k b s. (Inr (), s))\<rparr>"

definition managed :: "unit queue" where
  "managed = snd (pop_ready_task (Some demo_api) None None
     (snd (add_task (Some demo_api) (\<lambda>s. s) (sample_task ''a'' [] ''WORKSPACE_WRITE'' [''x'']) None False empty_queue)))"

lemma reachable_managed: "reachable_queue (Some demo_api) (\<lambda>s. s) managed"
proof -
  have "(queue_step (Some demo_api) (\<lambda>s. s))\<^sup>*\<^sup>* empty_queue managed"
    unfolding managed_def
    by (rule rtranclp.rtrancl_into_rtrancl, rule r_into_rtranclp, rule queue_step.Add, rule queue_step.Pop)
  then show ?thesis unfolding reachable_queue_def empty_queue_def using guard_ok_default by blast
qed

theorem failure_is_retried_or_buried_witness:
  "\<exists>q'. mark_failed (Some demo_api) 0 ''a'' ''boom'' True managed = (Inr True, q') \<and> ''a'' \<in> set (q_ready q') \<and> ''a'' \<notin> set (q_running q')"
proof -
  let ?run = "mark_failed (Some demo_api) 0 ''a'' ''boom'' True managed"
  have "case dget (q_all managed) ''a'' of None \<Rightarrow> False | Some k \<Rightarrow> can_transition (status k) FAILED" by code_simp
  then obtain k where k: "dget (q_all managed) ''a'' = Some k" "can_transition (status k) FAILED" by (auto split: option.splits)
  have "case fst ?run of Inl e \<Rightarrow> False | Inr b \<Rightarrow> b" by code_simp
  then obtain q' where run: "?run = (Inr True, q')" by (cases ?run) (auto split: sum.splits)
  from failure_is_retried_or_buried [OF reachable_managed k run] run show ?thesis by simp
qed

text \<open>
  when a retry is due but the task's effect may already have happened, the queue raises
  InvalidTransition half-way: the task is FAILED and out of the running set, but neither in
  the failed set nor in the dead-letter queue, and the tasks that wait for it stay blocked.
\<close>

theorem unrepeatable_failure_is_lost:
  assumes "dget (q_all q) i = Some k" and "can_transition (status k) FAILED"
    and "retry_count k + 1 \<le> max_retries k" and "\<not> admit_effect_retry (Some (meta k))"
  shows "\<exists>q'. mark_failed None now i err True q = (Inl InvalidTransition, q')
     \<and> (\<exists>k'. dget (q_all q') i = Some k' \<and> status k' = FAILED) \<and> i \<notin> set (q_running q')
     \<and> q_failed q' = q_failed q \<and> q_dlq q' = q_dlq q \<and> q_blocked q' = q_blocked q"
  using retry_refused [OF assms(1,2) TrueI assms(3,4), of now err] by auto

definition uncertain_run :: "unit queue" where
  "uncertain_run = upd_task ''a''
     (\<lambda>k. k\<lparr>meta := (meta k)\<lparr>m_effect_state := Some ''UNCERTAIN''\<rparr>\<rparr>) waiting"

theorem unrepeatable_failure_is_lost_witness:
  "\<exists>q'. mark_failed None 0 ''a'' ''timeout'' True uncertain_run = (Inl InvalidTransition, q')
     \<and> q_failed q' = [] \<and> q_dlq q' = [] \<and> q_blocked q' = [(''b'', [''a''])]"
proof -
  obtain k where k: "dget (q_all uncertain_run) ''a'' = Some k" "can_transition (status k) FAILED"
    "retry_count k + 1 \<le> max_retries k" "\<not> admit_effect_retry (Some (meta k))"
  proof -
    have "case dget (q_all uncertain_run) ''a'' of None \<Rightarrow> False
      | Some k \<Rightarrow> can_transition (status k) FAILED \<and> retry_count k + 1 \<le> max_retries k
          \<and> \<not> admit_effect_retry (Some (meta k))" by code_simp
    then show ?thesis by (auto intro: that split: option.splits)
  qed
  have "q_failed uncertain_run = []" "q_dlq uncertain_run = []"
    "q_blocked uncertain_run = [(''b'', [''a''])]" by code_simp+
  with unrepeatable_failure_is_lost [OF k, of 0 "''timeout''"] show ?thesis by auto
qed

section \<open>Escalation, cancellation, recovery\<close>

text \<open>
  escalating a task raises InvalidTransition for exactly the statuses QUEUED, READY,
  READY_FOR_MASTER, COMPLETED and CANCELLED, and by then the task has been taken off the
  ready queue, the blocked set, the running set and its locks, with its status unchanged. The
  engine escalates ready tasks that no node can run, and a ready task is QUEUED.
\<close>

theorem escalation_raises_for_queued_tasks:
  assumes "dget (q_all q) i = Some k"
  shows "((\<exists>q'. mark_escalated None now i r q = (Inl InvalidTransition, q')) \<longleftrightarrow>
        status k \<in> {QUEUED, READY, READY_FOR_MASTER, COMPLETED, CANCELLED})
     \<and> (status k = QUEUED \<longrightarrow> (\<exists>q'. mark_escalated None now i r q = (Inl InvalidTransition, q')
          \<and> q_ready q' = remove1 i (q_ready q) \<and> i \<notin> set (q_running q') \<and> i \<notin> fst ` set (q_blocked q')
          \<and> (\<exists>k'. dget (q_all q') i = Some k' \<and> status k' = QUEUED)))"
proof -
  have "mark_escalated None now i r q = (Inl InvalidTransition, unqueued i (settled i q))"
    if "status k = QUEUED"
    using that by (intro escalated_raises(3) [OF assms]) (simp add: escalate_ok_def)
  then show ?thesis
    using escalated_raises(1) [OF assms, of now r] assms
    by (auto simp: escalate_ok_def unqueued_def drop_blocked_def)
qed

definition one_ready :: "unit queue" where
  "one_ready = added (sample_task ''a'' [] ''ISOLATED'' []) empty_queue"

theorem escalation_raises_for_queued_tasks_witness:
  "\<exists>q'. mark_escalated None 0 ''a'' ''no node'' one_ready = (Inl InvalidTransition, q') \<and> q_ready q' = []
     \<and> q_failed q' = []"
proof -
  obtain k where k: "dget (q_all one_ready) ''a'' = Some k" "status k = QUEUED"
  proof -
    have "case dget (q_all one_ready) ''a'' of None \<Rightarrow> False | Some k \<Rightarrow> status k = QUEUED" by code_simp
    then show ?thesis by (auto intro: that split: option.splits)
  qed
  have "q_ready one_ready = [''a'']" "q_failed (snd (mark_escalated None 0 ''a'' ''no node'' one_ready)) = []"
    by code_simp+
  with escalation_raises_for_queued_tasks [OF k(1), of 0 "''no node''"] k(2) show ?thesis by auto
qed

text \<open>
  cancelling a task that is neither completed nor cancelled always succeeds without a
  lease manager, leaves it CANCELLED and no blocked task waiting for it, and revives nothing;
  cancelling everything returns and leaves no live task.
\<close>

theorem cancellation_is_final:
  assumes "dict_ok (q_all q)"
  shows "(\<forall>i k. dget (q_all q) i = Some k \<and> \<not> task_final (status k) \<longrightarrow>
       (\<exists>q'. mark_cancelled None now i r q = (Inr True, q')
         \<and> (\<exists>k'. dget (q_all q') i = Some k' \<and> status k' = CANCELLED)
         \<and> (\<forall>p \<in> set (q_blocked q'). i \<notin> set (snd p)) \<and> no_revival q q'))
     \<and> (\<exists>n q'. cancel_all None now r q = (Inr n, q')
         \<and> (\<forall>i k. dget (q_all q') i = Some k \<longrightarrow> \<not> live_status (status k)))"
proof (intro conjI allI impI)
  fix i k assume k: "dget (q_all q) i = Some k \<and> \<not> task_final (status k)"
  obtain q' where q': "mark_cancelled None now i r q = (Inr True, q')"
    "\<exists>k'. dget (q_all q') i = Some k' \<and> status k' = CANCELLED" "no_revival q q'"
    "\<forall>p \<in> set (q_blocked q'). \<not> doomed i (q_all q') (snd p)"
    by (rule cancelled_final [OF k [THEN conjunct1] k [THEN conjunct2], of now r])
  then show "\<exists>q'. mark_cancelled None now i r q = (Inr True, q')
         \<and> (\<exists>k'. dget (q_all q') i = Some k' \<and> status k' = CANCELLED)
         \<and> (\<forall>p \<in> set (q_blocked q'). i \<notin> set (snd p)) \<and> no_revival q q'"
    by (auto simp: doomed_def)
qed (rule cancel_all_settles [OF assms])

theorem cancellation_is_final_witness:
  "fst (cancel_all None 0 ''stop'' waiting) = Inr 2
     \<and> \<not> live_status (status (the (dget (q_all (snd (cancel_all None 0 ''stop'' waiting))) ''b'')))"
proof -
  have "dict_ok (q_all waiting)" by code_simp
  from cancellation_is_final [OF this, of 0 "''stop''"]
  have dead: "\<forall>i k. dget (q_all (snd (cancel_all None 0 ''stop'' waiting))) i = Some k \<longrightarrow> \<not> live_status (status k)"
    by auto
  have "dget (q_all (snd (cancel_all None 0 ''stop'' waiting))) ''b'' \<noteq> None" by code_simp
  moreover have "fst (cancel_all None 0 ''stop'' waiting) = Inr 2" by code_simp
  ultimately show ?thesis using dead by auto
qed

text \<open>
  C11: crash recovery always returns; a task that was under way with external or exclusive
  scope, or after an uncertain timeout, is then ESCALATED and in the failed set, and it is
  neither ready nor blocked, so no later completion can start it again.
\<close>

theorem recovery_never_reruns_nonlocal_effects:
  assumes "dict_ok (q_all q)" and "dget (q_all q) i = Some k"
    and "in_progress (status k)" and "may_have_effects k"
  shows "\<exists>ids q'. recover_incomplete_tasks q = (Inr ids, q') \<and> i \<notin> set ids
     \<and> i \<notin> set (q_ready q') \<and> i \<notin> fst ` set (q_blocked q') \<and> i \<in> set (q_failed q')
     \<and> (\<exists>k'. dget (q_all q') i = Some k' \<and> status k' = ESCALATED)"
proof -
  obtain q' where run: "recover_incomplete_tasks q = (Inr (map fst (filter (\<lambda>(i, k). in_progress (status k) \<and>
       \<not> may_have_effects k) (q_all q))), q')"
    using recover_returns by blast
  have "i \<notin> fst ` set (filter (\<lambda>(i, k). in_progress (status k) \<and> \<not> may_have_effects k) (q_all q))"
  proof -
    have "l = k" if "(i, l) \<in> set (q_all q)" for l
      using dget_Some_iff [OF assms(1), of i l] that assms(2) by simp
    with assms(4) show ?thesis by auto
  qed
  with run recover_safe [OF assms run] show ?thesis by auto
qed

definition external_run :: "unit queue" where
  "external_run = popped (added (sample_task ''a'' [] ''EXTERNAL'' []) empty_queue)"

theorem recovery_never_reruns_nonlocal_effects_witness:
  "\<exists>q'. recover_incomplete_tasks external_run = (Inr [], q') \<and> q_ready q' = [] \<and> ''a'' \<in> set (q_failed q')"
proof -
  obtain k where k: "dget (q_all external_run) ''a'' = Some k" "in_progress (status k)" "may_have_effects k"
  proof -
    have "case dget (q_all external_run) ''a'' of None \<Rightarrow> False
      | Some k \<Rightarrow> in_progress (status k) \<and> may_have_effects k" by code_simp
    then show ?thesis by (auto intro: that split: option.splits)
  qed
  have "dict_ok (q_all external_run)" by code_simp
  from recovery_never_reruns_nonlocal_effects [OF this k] obtain ids q' where
    run: "recover_incomplete_tasks external_run = (Inr ids, q')" and f: "''a'' \<in> set (q_failed q')"
    by blast
  have "fst (recover_incomplete_tasks external_run) = Inr []"
    "q_ready (snd (recover_incomplete_tasks external_run)) = []" by code_simp+
  with run f show ?thesis by auto
qed

section \<open>Admission\<close>

text \<open>
  in a reachable queue without a task of empty id, admission keeps the number of ready,
  running and blocked tasks within the bound; at the bound an unknown task is refused with
  QueueFull and only the drop counter changes.
\<close>

theorem admission_is_bounded:
  assumes "reachable_queue api0 digest0 q" and "dget (q_all q) [] = None"
    and "queue_size q \<le> q_max q"
  shows "queue_size (snd (add_task api digest k parent block q)) \<le> q_max q
     \<and> (queue_size q = q_max q \<and> \<not> known_replay k q \<longrightarrow>
          add_task api digest k parent False q = (Inl QueueFull, q\<lparr>q_dropped := Suc (q_dropped q)\<rparr>))"
proof -
  have "index_ok q"
    using task_index.reachable_keeps [OF assms(1)] index_ok_empty by blast
  from add_task_size [OF this assms(2,3)] show ?thesis
    by (simp add: add_task_def)
qed

theorem admission_is_bounded_witness:
  "queue_size contended = 3 \<and> q_max contended = 3
     \<and> fst (add_task None (\<lambda>s. s) (sample_task ''d'' [] ''ISOLATED'' []) None False contended) = Inl QueueFull"
proof -
  have r: "reachable_queue None (\<lambda>s. s) contended"
    unfolding contended_def by (intro reachable_pop reachable_add reachable_empty)
  have n: "dget (q_all contended) [] = None" by code_simp
  have s: "queue_size contended = 3" "q_max contended = 3" by code_simp+
  have u: "\<not> known_replay (sample_task ''d'' [] ''ISOLATED'' []) contended" by code_simp
  from admission_is_bounded [OF r n, of None "\<lambda>s. s" "sample_task ''d'' [] ''ISOLATED'' []" None False] s u
  show ?thesis by simp
qed

text \<open>
  in a reachable queue an idempotency key leads to one task (of non-empty id), a task is
  filed under its own id, and adding a task again with the same intent answers True and
  changes nothing, even when the queue is full; with another intent it raises ValueError and
  changes nothing.
\<close>

theorem admission_is_idempotent:
  assumes "reachable_queue api0 digest0 q" and "dget (q_all q) i = Some e" and "i \<noteq> []"
  shows "t_id e = i
     \<and> (\<forall>j e'. dget (q_all q) j = Some e' \<longrightarrow> j \<noteq> [] \<longrightarrow> idem_key e' = idem_key e \<longrightarrow> j = i)
     \<and> (\<forall>k. task_intent k = task_intent e \<longrightarrow> add_task api digest k parent block q = (Inr True, q))
     \<and> (\<forall>k. t_id k = i \<longrightarrow> task_intent k \<noteq> task_intent e \<longrightarrow>
          (\<exists>w. add_task api digest k parent block q = (Inl (ValueError w), q)))"
proof -
  have ok: "index_ok q"
    using task_index.reachable_keeps [OF assms(1)] index_ok_empty by blast
  have id: "t_id e = i" by (rule index_okD(1) [OF ok assms(2)])
  have key: "dget (q_idem q) (idem_key e) = Some i" by (rule index_okD(3) [OF ok assms(2,3)])
  have one: "j = i" if "dget (q_all q) j = Some e'" "j \<noteq> []" "idem_key e' = idem_key e" for j e'
    using index_okD(3) [OF ok that(1,2)] key that(3) by simp
  have same: "add_task api digest k parent block q = (Inr True, q)" if "task_intent k = task_intent e" for k
    using that intent_same(1,2) [OF that] id assms(2)
    by (simp add: add_task_def known_replay_def existing_for_replay_def)
  have other: "\<exists>w. add_task api digest k parent block q = (Inl (ValueError w), q)"
    if "t_id k = i" "task_intent k \<noteq> task_intent e" for k
    using that assms(2) by (auto simp: add_task_def known_replay_def existing_for_replay_def)
  from id one same other show ?thesis by blast
qed

theorem admission_is_idempotent_witness:
  "add_task None (\<lambda>s. s) (sample_task ''a'' [] ''ISOLATED'' []) None False waiting = (Inr True, waiting)"
proof -
  have r: "reachable_queue None (\<lambda>s. s) waiting"
    unfolding waiting_def by (intro reachable_pop reachable_add reachable_empty)
  obtain e where e: "dget (q_all waiting) ''a'' = Some e"
    "task_intent (sample_task ''a'' [] ''ISOLATED'' []) = task_intent e"
  proof -
    have "case dget (q_all waiting) ''a'' of None \<Rightarrow> False
      | Some e \<Rightarrow> task_intent (sample_task ''a'' [] ''ISOLATED'' []) = task_intent e" by code_simp
    then show ?thesis by (auto intro: that split: option.splits)
  qed
  from admission_is_idempotent [OF r e(1)] e(2) show ?thesis by blast
qed

section \<open>The explosion guard\<close>

text \<open>
  C12: task explosion is bounded: in every history of the queue the tasks its add_task has put in are
  at most as many as the task budget, those with one parent at most as many as the branching
  limit, and none is deeper than the depth limit; and with deduplication on (threshold at most 1) a
  further task with the words of one of them is not put in.
\<close>

theorem explosion_is_bounded:
  assumes "admissions api digest c xs q"
  shows "int (length xs) \<le> max 0 (task_limit c)
     \<and> (p \<noteq> [] \<longrightarrow> int (length (filter (\<lambda>(k, parent). parent = Some p) xs)) \<le> max 0 (branching_limit c))
     \<and> (\<forall>(k, parent) \<in> set xs. depth k \<le> max_depth c)
     \<and> (deduplicate c \<longrightarrow> similarity_threshold c \<le> 1 \<longrightarrow>
          (\<exists>(k, parent) \<in> set xs. word_tokens (objective k') = word_tokens (objective k)) \<longrightarrow>
          \<not> put_in k' q (snd (add_task api digest k' parent' block q)))"
proof -
  note ok = admissions_recorded [OF assms]
  have "int (length (filter (\<lambda>(k, parent). parent = Some p) xs)) \<le> max 0 (branching_limit c)" if "p \<noteq> []"
    using ok that unfolding recorded_in_def children_def by force
  moreover have "int (length xs) \<le> max 0 (task_limit c)" "\<forall>(k, parent) \<in> set xs. depth k \<le> max_depth c"
    using ok by (auto simp: recorded_in_def)
  ultimately show ?thesis using repeated_words_refused [OF ok] by blast
qed

lemma waiting_admissions:
  "admissions None (\<lambda>s. s) default_guard_config [(sample_task ''a'' [] ''ISOLATED'' [], None), (sample_task ''b'' [''a''] ''ISOLATED'' [], None)] waiting"
proof -
  let ?a = "sample_task ''a'' [] ''ISOLATED'' []" and ?b = "sample_task ''b'' [''a''] ''ISOLATED'' []"
  let ?q1 = "added ?a empty_queue" let ?q2 = "added ?b ?q1"
  have p: "put_in ?a empty_queue ?q1" "put_in ?b ?q1 ?q2"
    unfolding put_in_def by code_simp+
  have "admissions None (\<lambda>s. s) default_guard_config [(?a, None)] ?q1"
    using admissions.Add [OF admissions.Begin [of None "\<lambda>s. s" default_guard_config 3 "()"], of ?q1 ?a None False] p(1)
    by (simp add: added_def empty_queue_def)
  from admissions.Add [OF this, of ?q2 ?b None False] p(2)
  have "admissions None (\<lambda>s. s) default_guard_config [(?a, None), (?b, None)] ?q2" by (simp add: added_def)
  then show ?thesis
    unfolding waiting_def popped_def by (rule admissions.Other) (rule other_call.Pop)
qed

theorem explosion_is_bounded_witness:
  "\<not> put_in (sample_task ''b'' [] ''ISOLATED'' []) waiting
     (snd (add_task None (\<lambda>s. s) (sample_task ''b'' [] ''ISOLATED'' []) None False waiting))
   \<and> (2 :: int) \<le> max 0 (task_limit default_guard_config)"
proof -
  have "word_tokens (objective (sample_task ''b'' [] ''ISOLATED'' [])) = word_tokens (objective (sample_task ''b'' [''a''] ''ISOLATED'' []))"
    by (simp add: sample_task_def)
  with explosion_is_bounded [OF waiting_admissions, of "[]" "sample_task ''b'' [] ''ISOLATED'' []" None False]
  show ?thesis by (simp add: default_guard_config_def)
qed

end
