(* ===== verification/Ledger_Properties.thy ===== *)
theory Ledger_Properties
  imports Task_Dict
begin

text \<open>
  The invariants of the task ledger. The locale \<open>ledger_invariant\<close> names the two writes
  \<open>sync\<close> is made of; it is interpreted for the shape of the table, for the idempotency keys,
  for the journal, and for what may become of an earlier ledger.
\<close>

section \<open>Inversion\<close>

lemma normalize_Inr:
  assumes "normalize_task t = Inr d"
  shows "ld_state d \<in> set task_states" "ld_task d = py_strip (either_or (in_id t) (in_task_id t) [])"
    "ld_state d = py_upper (either_or (in_status t) (in_state t) ''PENDING'')" "ld_task d \<noteq> []" "ld_key d \<noteq> []"
  using assms by (auto simp: normalize_task_def Let_def scheck_Inr sbind_Inr)

lemma data_intent_eq:
  "data_intent a = data_intent b \<longleftrightarrow> ld_objective a = ld_objective b \<and> ld_priority a = ld_priority b
     \<and> ld_key a = ld_key b \<and> ld_deps a = ld_deps b \<and> ld_caps a = ld_caps b \<and> ld_files a = ld_files b
     \<and> ld_locks a = ld_locks b \<and> ld_scope a = ld_scope b"
  by (cases a; cases b) (auto simp: data_intent_def)

definition rows_keyed :: "'m ledger \<Rightarrow> bool" where
  "rows_keyed l \<longleftrightarrow> (\<forall>rid tid r. dget (lg_tasks l) (rid, tid) = Some r \<longrightarrow>
     tr_run r = rid \<and> ld_task (tr_data r) = tid \<and> ld_state (tr_data r) \<in> set task_states)"

lemma rows_keyedD:
  "rows_keyed l \<Longrightarrow> dget (lg_tasks l) (rid, tid) = Some r \<Longrightarrow>
     tr_run r = rid \<and> ld_task (tr_data r) = tid \<and> ld_state (tr_data r) \<in> set task_states"
  unfolding rows_keyed_def by blast

lemma refreshed_simps [simp]:
  "tr_run (refreshed now d r) = tr_run r" "tr_owner (refreshed now d r) = tr_owner r"
  "tr_created (refreshed now d r) = tr_created r" "ld_task (tr_data (refreshed now d r)) = ld_task (tr_data r)"
  "ld_key (tr_data (refreshed now d r)) = ld_key (tr_data r)" "ld_state (tr_data (refreshed now d r)) = ld_state d"
  "ld_node (tr_data (refreshed now d r)) = ld_node d" "ld_retry (tr_data (refreshed now d r)) = ld_retry d"
  "data_intent (tr_data (refreshed now d r)) = data_intent (tr_data r)"
  by (simp_all add: refreshed_def data_intent_def)

lemma put_task_simps [simp]:
  "lg_tasks (put_task r l) = dset (tr_run r, ld_task (tr_data r)) r (lg_tasks l)"
  "lg_events (put_task r l) = lg_events l" "lg_seq (put_task r l) = lg_seq l"
  by (simp_all add: put_task_def)

lemma journal_simps [simp]:
  "lg_tasks (journal now rid owner d from ty l) = lg_tasks l"
  "lg_seq (journal now rid owner d from ty l) = lg_seq l + 1"
  by (simp_all add: journal_def)

definition new_row :: "rat \<Rightarrow> string \<Rightarrow> string \<Rightarrow> 'm ledger_data \<Rightarrow> 'm ledger_row" where
  "new_row now rid owner d = \<lparr>tr_run = rid, tr_owner = owner, tr_data = d, tr_created = now, tr_updated = now\<rparr>"

lemma new_row_simps [simp]:
  "tr_run (new_row now rid owner d) = rid" "tr_owner (new_row now rid owner d) = owner"
  "tr_data (new_row now rid owner d) = d"
  by (simp_all add: new_row_def)

text \<open>The transaction, by cases.\<close>

lemma sync_row_cases:
  obtains (Refused) e where "sync_row now rid owner d recovery l = (Inl e, l)"
  | (Registered) "dget (lg_tasks l) (rid, ld_task d) = None" "row_by_key rid (ld_key d) l = None"
      "sync_row now rid owner d recovery l
         = (Inr (), journal now rid owner d None ''TASK_REGISTERED'' (put_task (new_row now rid owner d) l))"
  | (Refreshed) e where "dget (lg_tasks l) (rid, ld_task d) = Some e" "tr_owner e = owner"
      "data_intent (tr_data e) = data_intent d" "ledger_allows recovery (ld_state (tr_data e)) (ld_state d)"
      "sync_row now rid owner d recovery l
         = (Inr (), journal now rid owner d (Some (ld_state (tr_data e)))
             (sync_event_type recovery (ld_state (tr_data e)) (ld_state d)) (put_task (refreshed now d e) l))"
proof -
  let ?old = "dget (lg_tasks l) (rid, ld_task d)" and ?key = "row_by_key rid (ld_key d) l"
  let ?clash = "\<not> (case ?key of None \<Rightarrow> True
           | Some b \<Rightarrow> (case ?old of None \<Rightarrow> False | Some e \<Rightarrow> ld_task (tr_data b) = ld_task (tr_data e)))"
  show thesis
  proof (cases ?clash)
    case True
    then have "sync_row now rid owner d recovery l = (Inl (LedgerConflict ''task idempotency key already belongs to another task''), l)"
      by (simp add: sync_row_def bnd_run andthen_run require_def)
    then show thesis by (rule Refused)
  next
    case ok: False
    show thesis
    proof (cases ?old)
      case None
      with ok have "?key = None" by (simp split: option.splits)
      moreover from this None have "sync_row now rid owner d recovery l
         = (Inr (), journal now rid owner d None ''TASK_REGISTERED'' (put_task (new_row now rid owner d) l))"
        by (simp add: sync_row_def bnd_run andthen_run require_def new_row_def)
      ultimately show thesis using None Registered by blast
    next
      case (Some e)
      show thesis
      proof (cases "tr_owner e = owner \<and> data_intent (tr_data e) = data_intent d
          \<and> ledger_allows recovery (ld_state (tr_data e)) (ld_state d)")
        case True
        with Some ok have "sync_row now rid owner d recovery l
         = (Inr (), journal now rid owner d (Some (ld_state (tr_data e)))
             (sync_event_type recovery (ld_state (tr_data e)) (ld_state d)) (put_task (refreshed now d e) l))"
          by (auto simp: sync_row_def bnd_run andthen_run require_def Let_def split: option.splits)
        with True Some Refreshed show thesis by blast
      next
        case False
        with Some ok have "\<exists>x. sync_row now rid owner d recovery l = (Inl x, l)"
          by (auto simp: sync_row_def bnd_run andthen_run require_def Let_def split: option.splits)
        with Refused show thesis by blast
      qed
    qed
  qed
qed

section \<open>What every call keeps\<close>

text \<open>One call of the ledger; reads change nothing.\<close>

inductive ledger_step :: "'m ledger \<Rightarrow> 'm ledger \<Rightarrow> bool" where
  Sync: "ledger_step l (snd (sync now rid owner t recovery l))"

inductive_cases ledger_stepE: "ledger_step l l'"

definition reachable_ledger :: "'m ledger \<Rightarrow> bool" where
  "reachable_ledger l \<longleftrightarrow> ledger_step\<^sup>*\<^sup>* empty_ledger l"

locale ledger_invariant =
  fixes P :: "'m ledger \<Rightarrow> bool"
  assumes register_step: "\<And>l now rid owner d. P l \<Longrightarrow> dget (lg_tasks l) (rid, ld_task d) = None \<Longrightarrow>
        row_by_key rid (ld_key d) l = None \<Longrightarrow> ld_state d \<in> set task_states \<Longrightarrow>
        P (journal now rid owner d None ''TASK_REGISTERED'' (put_task (new_row now rid owner d) l))"
    and refresh_step: "\<And>l now rid owner d e recovery ty. P l \<Longrightarrow> dget (lg_tasks l) (rid, ld_task d) = Some e \<Longrightarrow>
        tr_owner e = owner \<Longrightarrow> data_intent (tr_data e) = data_intent d \<Longrightarrow>
        ledger_allows recovery (ld_state (tr_data e)) (ld_state d) \<Longrightarrow> ld_state d \<in> set task_states \<Longrightarrow>
        P (journal now rid owner d (Some (ld_state (tr_data e))) ty (put_task (refreshed now d e) l))"
begin

lemma sync_row_keeps: "P l \<Longrightarrow> ld_state d \<in> set task_states \<Longrightarrow> P (snd (sync_row now rid owner d recovery l))"
  by (rule sync_row_cases [of now rid owner d recovery l]) (auto intro: register_step refresh_step)

lemma sync_keeps: "P l \<Longrightarrow> P (snd (sync now rid owner t recovery l))"
proof -
  assume P: "P l"
  show ?thesis
  proof (cases "normalize_task t")
    case (Inr d)
    let ?m = "atomically (sync_row now (py_strip rid) (py_strip owner) d recovery)"
    obtain y l' where m: "?m l = (y, l')" by fastforce
    have "P l'"
      using sync_row_keeps [OF P normalize_Inr(1) [OF Inr], of now "py_strip rid" "py_strip owner" recovery] P m
      by (auto simp: atomically_def split: prod.splits sum.splits)
    then have "P (snd (fetch_task_row r i l'))" for r i
      by (simp add: fetch_task_row_def split: option.split)
    with P Inr m \<open>P l'\<close> show ?thesis
      by (auto simp: sync_def Let_def require_def lift_sum_def bnd_run andthen_run split: sum.split)
  qed (use P in \<open>simp add: sync_def Let_def require_def lift_sum_def bnd_run andthen_run\<close>)
qed

lemma steps_keep: "ledger_step\<^sup>*\<^sup>* l l' \<Longrightarrow> P l \<Longrightarrow> P l'"
  by (induction rule: rtranclp_induct) (auto elim!: ledger_stepE intro: sync_keeps)

end


section \<open>Rows and keys\<close>

definition table_ok :: "'m ledger \<Rightarrow> bool" where
  "table_ok l \<longleftrightarrow> dict_ok (lg_tasks l) \<and> rows_keyed l"

lemma table_okD: "table_ok l \<Longrightarrow> dict_ok (lg_tasks l)" "table_ok l \<Longrightarrow> rows_keyed l"
  by (simp_all add: table_ok_def)

interpretation ledger_table: ledger_invariant table_ok
proof unfold_locales
  fix l :: "'a ledger" and now rid owner and d :: "'a ledger_data"
  assume "table_ok l" "ld_state d \<in> set task_states"
  then show "table_ok (journal now rid owner d None ''TASK_REGISTERED'' (put_task (new_row now rid owner d) l))"
    by (auto simp: table_ok_def rows_keyed_def)
next
  fix l :: "'a ledger" and e and now rid owner and d :: "'a ledger_data"
    and ty
  assume *: "table_ok l" "dget (lg_tasks l) (rid, ld_task d) = Some e" "ld_state d \<in> set task_states"
  from rows_keyedD [OF table_okD(2) [OF *(1)] *(2)] * 
  show "table_ok (journal now rid owner d (Some (ld_state (tr_data e))) ty (put_task (refreshed now d e) l))"
    by (auto simp: table_ok_def rows_keyed_def)
qed

text \<open>One task per idempotency key of a run.\<close>

definition task_keys_ok :: "'m ledger \<Rightarrow> bool" where
  "task_keys_ok l \<longleftrightarrow> table_ok l \<and> (\<forall>i j r s. dget (lg_tasks l) i = Some r \<longrightarrow> dget (lg_tasks l) j = Some s \<longrightarrow>
     tr_run r = tr_run s \<longrightarrow> ld_key (tr_data r) = ld_key (tr_data s) \<longrightarrow> i = j)"

lemma task_keys_okD:
  "task_keys_ok l \<Longrightarrow> dget (lg_tasks l) i = Some r \<Longrightarrow> dget (lg_tasks l) j = Some s \<Longrightarrow> tr_run r = tr_run s \<Longrightarrow>
     ld_key (tr_data r) = ld_key (tr_data s) \<Longrightarrow> i = j"
  unfolding task_keys_ok_def by blast

lemma task_keys_okI:
  "table_ok l \<Longrightarrow> (\<And>i j r s. dget (lg_tasks l) i = Some r \<Longrightarrow> dget (lg_tasks l) j = Some s \<Longrightarrow> tr_run r = tr_run s \<Longrightarrow>
     ld_key (tr_data r) = ld_key (tr_data s) \<Longrightarrow> i = j) \<Longrightarrow> task_keys_ok l"
  unfolding task_keys_ok_def by blast

lemma row_by_key_None:
  "row_by_key rid key l = None \<Longrightarrow> dget (lg_tasks l) i = Some r \<Longrightarrow> tr_run r = rid \<Longrightarrow> ld_key (tr_data r) \<noteq> key"
  by (force simp: row_by_key_def rows_def find_None_iff dest: map_of_SomeD)

lemma row_by_key_Some:
  assumes "task_keys_ok l" "dget (lg_tasks l) (rid, tid) = Some r"
  shows "row_by_key rid (ld_key (tr_data r)) l = Some r"
proof -
  have ok: "dict_ok (lg_tasks l)" "tr_run r = rid"
    using assms table_okD rows_keyedD unfolding task_keys_ok_def by blast+
  have "row_by_key rid (ld_key (tr_data r)) l \<noteq> None"
    using row_by_key_None [OF _ assms(2) ok(2)] by blast
  then obtain b where b: "row_by_key rid (ld_key (tr_data r)) l = Some b" by blast
  then have "b \<in> set (rows (lg_tasks l))" "tr_run b = rid" "ld_key (tr_data b) = ld_key (tr_data r)"
    by (auto simp: row_by_key_def find_Some_iff)
  then obtain i where "dget (lg_tasks l) i = Some b"
    using ok(1) by (auto simp: rows_def)
  moreover have "i = (rid, tid)"
    using task_keys_okD [OF assms(1) calculation assms(2)] \<open>tr_run b = rid\<close> ok(2)
      \<open>ld_key (tr_data b) = ld_key (tr_data r)\<close> by simp
  ultimately show ?thesis using b assms(2) by simp
qed

interpretation ledger_keys: ledger_invariant task_keys_ok
proof unfold_locales
  fix l :: "'a ledger" and now rid owner and d :: "'a ledger_data"
  assume *: "task_keys_ok l" "dget (lg_tasks l) (rid, ld_task d) = None" "row_by_key rid (ld_key d) l = None"
    "ld_state d \<in> set task_states"
  show "task_keys_ok (journal now rid owner d None ''TASK_REGISTERED'' (put_task (new_row now rid owner d) l))"
  proof (rule task_keys_okI)
    show "table_ok (journal now rid owner d None ''TASK_REGISTERED'' (put_task (new_row now rid owner d) l))"
      using * by (intro ledger_table.register_step) (auto simp: task_keys_ok_def)
    fix i j r s
    assume "dget (lg_tasks (journal now rid owner d None ''TASK_REGISTERED'' (put_task (new_row now rid owner d) l))) i = Some r"
      "dget (lg_tasks (journal now rid owner d None ''TASK_REGISTERED'' (put_task (new_row now rid owner d) l))) j = Some s"
      "tr_run r = tr_run s" "ld_key (tr_data r) = ld_key (tr_data s)"
    then show "i = j"
      using task_keys_okD [OF *(1), of i r j s] row_by_key_None [OF *(3), of i r] row_by_key_None [OF *(3), of j s]
      by (auto split: if_splits)
  qed
next
  fix l :: "'a ledger" and e and now rid owner and d :: "'a ledger_data"
    and recovery ty
  assume *: "task_keys_ok l" "dget (lg_tasks l) (rid, ld_task d) = Some e" "tr_owner e = owner"
    "data_intent (tr_data e) = data_intent d" "ledger_allows recovery (ld_state (tr_data e)) (ld_state d)"
    "ld_state d \<in> set task_states"
  let ?l = "journal now rid owner d (Some (ld_state (tr_data e))) ty (put_task (refreshed now d e) l)"
  have keyed: "tr_run e = rid \<and> ld_task (tr_data e) = ld_task d"
    using rows_keyedD [OF table_okD(2) *(2)] *(1) by (auto simp: task_keys_ok_def)
  show "task_keys_ok ?l"
  proof (rule task_keys_okI)
    show "table_ok ?l" using * by (intro ledger_table.refresh_step) (auto simp: task_keys_ok_def)
    have old: "\<exists>q. dget (lg_tasks l) i = Some q \<and> tr_run q = tr_run r \<and> ld_key (tr_data q) = ld_key (tr_data r)"
      if "dget (lg_tasks ?l) i = Some r" for i r
      using that *(2) keyed by (cases "i = (rid, ld_task d)") auto
    fix i j r s
    assume "dget (lg_tasks ?l) i = Some r" "dget (lg_tasks ?l) j = Some s" "tr_run r = tr_run s"
      "ld_key (tr_data r) = ld_key (tr_data s)"
    then show "i = j"
      using old [of i r] old [of j s] task_keys_okD [OF *(1), of i _ j] by metis
  qed
qed

section \<open>The journal\<close>

type_synonym task_view = "string \<times> string option \<times> int"

definition row_view :: "'m ledger_row \<Rightarrow> task_view" where
  "row_view r = (ld_state (tr_data r), ld_node (tr_data r), ld_retry (tr_data r))"

text \<open>
  The reference: a task's state is what its journal, read from the beginning, leads to. An
  entry that does not start where the one before ended, or a move no call may make, has no
  replay.
\<close>

fun replay :: "task_view option \<Rightarrow> ledger_event list \<Rightarrow> task_view option option" where
  "replay cur [] = Some cur"
| "replay cur (e # es) =
     (if te_from e = map_option fst cur \<and> (case cur of None \<Rightarrow> True | Some (s, v) \<Rightarrow> ledger_allows True s (te_to e))
      then replay (Some (te_to e, te_node e, te_retry e)) es else None)"

lemma replay_snoc: "replay cur (es @ [e]) = (case replay cur es of None \<Rightarrow> None | Some c \<Rightarrow> replay c [e])"
  by (induction cur es rule: replay.induct) auto

definition task_journal :: "string \<Rightarrow> string \<Rightarrow> 'm ledger \<Rightarrow> ledger_event list" where
  "task_journal rid tid l = filter (\<lambda>e. te_run e = rid \<and> te_task e = tid) (lg_events l)"

lemma task_journal_snoc:
  "task_journal r i (journal now rid owner d from ty l) =
     task_journal r i l @ (if r = rid \<and> i = ld_task d then
       [\<lparr>te_seq = lg_seq l + 1, te_run = rid, te_task = ld_task d, te_owner = owner, te_type = ty,
         te_from = from, te_to = ld_state d, te_node = ld_node d, te_retry = ld_retry d, te_ts = now\<rparr>] else [])"
  by (auto simp: task_journal_def journal_def)

lemma task_journal_put [simp]: "task_journal r i (put_task x l) = task_journal r i l"
  by (simp add: task_journal_def)

lemma allows_recovery: "ledger_allows b s t \<Longrightarrow> ledger_allows True s t"
  by (auto simp: ledger_allows_def)

definition journal_ok :: "'m ledger \<Rightarrow> bool" where
  "journal_ok l \<longleftrightarrow> rows_keyed l \<and> map te_seq (lg_events l) = [1..<Suc (lg_seq l)]
     \<and> (\<forall>rid tid. replay None (task_journal rid tid l) = Some (map_option row_view (dget (lg_tasks l) (rid, tid))))
     \<and> (\<forall>rid tid r. dget (lg_tasks l) (rid, tid) = Some r \<longrightarrow> (\<forall>e \<in> set (task_journal rid tid l). te_owner e = tr_owner r))"

lemma journal_okD:
  assumes "journal_ok l"
  shows "rows_keyed l" "map te_seq (lg_events l) = [1..<Suc (lg_seq l)]"
    "replay None (task_journal rid tid l) = Some (map_option row_view (dget (lg_tasks l) (rid, tid)))"
    "dget (lg_tasks l) (rid, tid) = Some r \<Longrightarrow> e \<in> set (task_journal rid tid l) \<Longrightarrow> te_owner e = tr_owner r"
  using assms by (simp_all add: journal_ok_def)

lemma numbers_snoc:
  "map te_seq (lg_events l) = [1..<Suc (lg_seq l)] \<Longrightarrow>
     map te_seq (lg_events (journal now rid owner d from ty (put_task r l))) = [1..<Suc (Suc (lg_seq l))]"
  by (simp add: journal_def)

lemma replay_empty_journal: "replay None es = Some None \<Longrightarrow> es = []"
proof (induction es rule: rev_induct)
  case (snoc e es)
  then show ?case by (auto simp: replay_snoc split: option.splits if_splits)
qed simp

interpretation ledger_journal: ledger_invariant journal_ok
proof unfold_locales
  fix l :: "'a ledger" and now rid owner and d :: "'a ledger_data"
  assume *: "journal_ok l" "dget (lg_tasks l) (rid, ld_task d) = None" "ld_state d \<in> set task_states"
  let ?l = "journal now rid owner d None ''TASK_REGISTERED'' (put_task (new_row now rid owner d) l)"
  have "task_journal rid (ld_task d) l = []"
    using journal_okD(3) [OF *(1), of rid "ld_task d"] *(2) replay_empty_journal by simp
  with * journal_okD(2) [OF *(1)] show "journal_ok ?l"
    by (auto simp: journal_ok_def rows_keyed_def numbers_snoc task_journal_snoc row_view_def)
next
  fix l :: "'a ledger" and e and now rid owner and d :: "'a ledger_data"
    and recovery ty
  assume *: "journal_ok l" "dget (lg_tasks l) (rid, ld_task d) = Some e" "tr_owner e = owner"
    "ledger_allows recovery (ld_state (tr_data e)) (ld_state d)" "ld_state d \<in> set task_states"
  let ?l = "journal now rid owner d (Some (ld_state (tr_data e))) ty (put_task (refreshed now d e) l)"
  have "replay None (task_journal rid (ld_task d) l) = Some (Some (row_view e))"
    using journal_okD(3) [OF *(1), of rid "ld_task d"] *(2) by simp
  with * journal_okD(2) [OF *(1)] rows_keyedD [OF journal_okD(1) [OF *(1)] *(2)] allows_recovery [OF *(4)] show "journal_ok ?l"
    by (auto simp: journal_ok_def rows_keyed_def numbers_snoc task_journal_snoc row_view_def replay_snoc)
qed


lemma empty_ledger_simps [simp]: "lg_tasks empty_ledger = []" "lg_events empty_ledger = []" "lg_seq empty_ledger = 0"
  by (simp_all add: empty_ledger_def)

lemma reachable_ledger_ok:
  assumes "reachable_ledger l"
  shows "table_ok l" "task_keys_ok l" "journal_ok l"
proof -
  have "table_ok (empty_ledger :: 'a ledger)" by (simp add: table_ok_def rows_keyed_def)
  moreover from this have "task_keys_ok (empty_ledger :: 'a ledger)" by (simp add: task_keys_ok_def)
  moreover have "journal_ok (empty_ledger :: 'a ledger)" by (simp add: journal_ok_def rows_keyed_def task_journal_def)
  ultimately show "table_ok l" "task_keys_ok l" "journal_ok l"
    using assms ledger_table.steps_keep ledger_keys.steps_keep ledger_journal.steps_keep
    unfolding reachable_ledger_def by blast+
qed

section \<open>What becomes of a task\<close>

definition row_past :: "'m ledger_row \<Rightarrow> 'm ledger_row \<Rightarrow> bool" where
  "row_past r r' \<longleftrightarrow> tr_owner r' = tr_owner r \<and> data_intent (tr_data r') = data_intent (tr_data r)
     \<and> tr_created r' = tr_created r \<and> (ledger_allows True)\<^sup>*\<^sup>* (ld_state (tr_data r)) (ld_state (tr_data r'))"

definition ledger_follows :: "'m ledger \<Rightarrow> 'm ledger \<Rightarrow> bool" where
  "ledger_follows l0 l \<longleftrightarrow> rows_keyed l \<and> (\<exists>es. lg_events l = lg_events l0 @ es)
     \<and> (\<forall>i r. dget (lg_tasks l0) i = Some r \<longrightarrow> (\<exists>r'. dget (lg_tasks l) i = Some r' \<and> row_past r r'))"

lemma row_past_refreshed:
  "row_past r e \<Longrightarrow> data_intent (tr_data e) = data_intent d \<Longrightarrow> ledger_allows b (ld_state (tr_data e)) (ld_state d) \<Longrightarrow>
     row_past r (refreshed now d e)"
  by (auto simp: row_past_def intro: rtranclp.rtrancl_into_rtrancl allows_recovery)

interpretation ledger_past: ledger_invariant "ledger_follows l0" for l0
proof unfold_locales
  fix l :: "'a ledger" and now rid owner and d :: "'a ledger_data"
  assume "ledger_follows l0 l" "dget (lg_tasks l) (rid, ld_task d) = None" "ld_state d \<in> set task_states"
  then show "ledger_follows l0 (journal now rid owner d None ''TASK_REGISTERED'' (put_task (new_row now rid owner d) l))"
    by (fastforce simp: ledger_follows_def rows_keyed_def journal_def)
next
  fix l :: "'a ledger" and e and now rid owner and d :: "'a ledger_data"
    and recovery ty
  assume *: "ledger_follows l0 l" "dget (lg_tasks l) (rid, ld_task d) = Some e"
    "data_intent (tr_data e) = data_intent d" "ledger_allows recovery (ld_state (tr_data e)) (ld_state d)"
    "ld_state d \<in> set task_states"
  have keyed: "tr_run e = rid \<and> ld_task (tr_data e) = ld_task d"
    using rows_keyedD [OF _ *(2)] *(1) by (simp add: ledger_follows_def)
  let ?l = "journal now rid owner d (Some (ld_state (tr_data e))) ty (put_task (refreshed now d e) l)"
  have "\<exists>r'. dget (lg_tasks ?l) i = Some r' \<and> row_past r r'" if "dget (lg_tasks l0) i = Some r" for i r
  proof -
    from that *(1) obtain q where q: "dget (lg_tasks l) i = Some q" "row_past r q"
      unfolding ledger_follows_def by blast
    show ?thesis
      using q *(2) keyed row_past_refreshed [OF _ *(3,4), of r] by (cases "i = (rid, ld_task d)") auto
  qed
  with *(1,5) keyed show "ledger_follows l0 ?l"
    by (auto simp: ledger_follows_def rows_keyed_def journal_def)
qed

lemma row_past_refl: "row_past r r"
  by (simp add: row_past_def)

lemma ledger_terminal_stays:
  "(ledger_allows True)\<^sup>*\<^sup>* s t \<Longrightarrow> s \<in> set terminal_task_states \<Longrightarrow> t = s"
proof (induction rule: rtranclp_induct)
  case (step t u)
  then show ?case
    by (auto simp: ledger_allows_def terminal_task_states_def recoverable_to_queued_def row_of_def
        ledger_transitions_def)
qed simp


section \<open>Accepted and refused calls\<close>

text \<open>When a call is accepted.\<close>

definition sync_accepts :: "string \<Rightarrow> string \<Rightarrow> 'm ledger_data \<Rightarrow> bool \<Rightarrow> 'm ledger \<Rightarrow> bool" where
  "sync_accepts rid owner d recovery l \<longleftrightarrow> (case dget (lg_tasks l) (rid, ld_task d) of
       None \<Rightarrow> row_by_key rid (ld_key d) l = None
     | Some e \<Rightarrow> tr_owner e = owner \<and> data_intent (tr_data e) = data_intent d
         \<and> ledger_allows recovery (ld_state (tr_data e)) (ld_state d))"

text \<open>The row an accepted call leaves, and the entry it writes.\<close>

definition row_after :: "rat \<Rightarrow> string \<Rightarrow> string \<Rightarrow> 'm ledger_data \<Rightarrow> 'm ledger \<Rightarrow> 'm ledger_row" where
  "row_after now rid owner d l = (case dget (lg_tasks l) (rid, ld_task d) of
      None \<Rightarrow> new_row now rid owner d | Some e \<Rightarrow> refreshed now d e)"

lemma sync_row_accepts:
  assumes ok: "task_keys_ok l" and acc: "sync_accepts rid owner d recovery l"
  shows "\<exists>from ty. from = map_option (\<lambda>e. ld_state (tr_data e)) (dget (lg_tasks l) (rid, ld_task d))
    \<and> sync_row now rid owner d recovery l = (Inr (), journal now rid owner d from ty (put_task (row_after now rid owner d l) l))"
proof (cases "dget (lg_tasks l) (rid, ld_task d)")
  case None
  with acc show ?thesis
    by (auto simp: sync_accepts_def sync_row_def bnd_run andthen_run require_def row_after_def new_row_def)
next
  case (Some e)
  with acc have *: "tr_owner e = owner" "data_intent (tr_data e) = data_intent d"
    "ledger_allows recovery (ld_state (tr_data e)) (ld_state d)" by (simp_all add: sync_accepts_def)
  from * have "ld_key d = ld_key (tr_data e)" by (simp add: data_intent_eq)
  with row_by_key_Some [OF ok Some] have "row_by_key rid (ld_key d) l = Some e" by simp
  with Some * show ?thesis
    by (auto simp: sync_row_def bnd_run andthen_run require_def row_after_def Let_def)
qed

lemma sync_row_refuses:
  assumes "\<not> sync_accepts rid owner d recovery l"
  shows "\<exists>e. sync_row now rid owner d recovery l = (Inl e, l)"
  by (rule sync_row_cases [of now rid owner d recovery l]) (use assms in \<open>auto simp: sync_accepts_def\<close>)

lemma row_after_key:
  "rows_keyed l \<Longrightarrow> tr_run (row_after now rid owner d l) = rid \<and> ld_task (tr_data (row_after now rid owner d l)) = ld_task d"
  by (auto simp: row_after_def split: option.split dest: rows_keyedD)

lemma row_after_simps [simp]:
  "ld_state (tr_data (row_after now rid owner d l)) = ld_state d"
  "row_view (row_after now rid owner d l) = (ld_state d, ld_node d, ld_retry d)"
  by (simp_all add: row_after_def row_view_def split: option.split)

lemma sync_accepted:
  assumes "task_keys_ok l" "py_strip rid \<noteq> []" "py_strip owner \<noteq> []" "normalize_task t = Inr d"
    and "sync_accepts (py_strip rid) (py_strip owner) d recovery l"
  shows "\<exists>l' ev. sync now rid owner t recovery l = (Inr (row_after now (py_strip rid) (py_strip owner) d l), l')
    \<and> lg_tasks l' = dset (py_strip rid, ld_task d) (row_after now (py_strip rid) (py_strip owner) d l) (lg_tasks l)
    \<and> lg_events l' = lg_events l @ [ev] \<and> te_from ev = map_option (\<lambda>e. ld_state (tr_data e)) (dget (lg_tasks l) (py_strip rid, ld_task d))
    \<and> te_to ev = ld_state d"
proof -
  let ?r = "row_after now (py_strip rid) (py_strip owner) d l"
  obtain from0 ty where m: "sync_row now (py_strip rid) (py_strip owner) d recovery l
      = (Inr (), journal now (py_strip rid) (py_strip owner) d from0 ty (put_task ?r l))"
    and f: "from0 = map_option (\<lambda>e. ld_state (tr_data e)) (dget (lg_tasks l) (py_strip rid, ld_task d))"
    using sync_row_accepts [OF assms(1,5), of now] by blast
  have k: "tr_run ?r = py_strip rid" "ld_task (tr_data ?r) = ld_task d"
    using row_after_key [OF table_okD(2), of l] assms(1) by (simp_all add: task_keys_ok_def)
  have "sync now rid owner t recovery l = (Inr ?r, journal now (py_strip rid) (py_strip owner) d from0 ty (put_task ?r l))"
    using assms(2-4) m k
    by (simp add: sync_def Let_def require_def lift_sum_def bnd_run andthen_run atomically_def fetch_task_row_def)
  then show ?thesis using k f by (simp add: journal_def)
qed

lemma sync_refused:
  assumes "\<not> (py_strip rid \<noteq> [] \<and> py_strip owner \<noteq> []
      \<and> (\<exists>d. normalize_task t = Inr d \<and> sync_accepts (py_strip rid) (py_strip owner) d recovery l))"
  shows "\<exists>e. sync now rid owner t recovery l = (Inl e, l)"
proof (cases "py_strip rid \<noteq> [] \<and> py_strip owner \<noteq> []")
  case True
  show ?thesis
  proof (cases "normalize_task t")
    case (Inr d)
    with True assms sync_row_refuses [of "py_strip rid" "py_strip owner" d recovery l now] show ?thesis
      by (auto simp: sync_def Let_def require_def lift_sum_def bnd_run andthen_run atomically_def)
  qed (use True in \<open>simp add: sync_def Let_def require_def lift_sum_def bnd_run andthen_run\<close>)
qed (auto simp: sync_def Let_def require_def lift_sum_def bnd_run andthen_run)


lemma sync_accepts_iff:
  assumes "task_keys_ok l"
  shows "(\<exists>r. fst (sync now rid owner t recovery l) = Inr r) \<longleftrightarrow> py_strip rid \<noteq> [] \<and> py_strip owner \<noteq> []
      \<and> (\<exists>d. normalize_task t = Inr d \<and> sync_accepts (py_strip rid) (py_strip owner) d recovery l)"
  using sync_accepted [OF assms, of rid owner t _ recovery now] sync_refused [of rid owner t recovery l now] by fastforce

section \<open>A concrete ledger\<close>

definition sync_task_row :: "rat \<Rightarrow> string \<Rightarrow> string \<Rightarrow> task \<Rightarrow> bool \<Rightarrow> (task_meta ledger, task_meta ledger_row) sx" where
  "sync_task_row now rid owner k recovery = sync now rid owner (ledger_payload (to_dict k)) recovery"

definition demo_task :: task where
  "demo_task = \<lparr>t_id = ''t1'', t_run = ''run-1'', objective = ''build'', description = [], dependencies = [''t0''],
     priority = HIGH, risk = ''LOW'', required_caps = [], strategy = ''standard'', status = QUEUED,
     max_iterations = 4, max_repairs = 4, repair_round = 0, token_budget = 30000, retry_count = 0,
     max_retries = 3, depth = 0, created_at = 1, updated_at = 1, target_files = [''a.py''],
     scope = ''WORKSPACE_WRITE'', resource_locks = [], timeout_s = 900, heartbeat_s = 120, idem_key = ''k1'',
     candidate = None, meta = no_meta\<rparr>"

definition demo_ledger :: "task_meta ledger" where
  "demo_ledger = snd (sync_task_row 10 ''run-1'' ''alice'' demo_task False empty_ledger)"

definition demo_running :: "task_meta ledger" where
  "demo_running = snd (sync_task_row 11 ''run-1'' ''alice'' (demo_task\<lparr>status := RUNNING\<rparr>) False demo_ledger)"

lemma reach_demo: "reachable_ledger demo_ledger"
  unfolding reachable_ledger_def demo_ledger_def sync_task_row_def by (rule r_into_rtranclp) (rule ledger_step.Sync)

lemma step_demo: "ledger_step demo_ledger demo_running"
  unfolding demo_running_def sync_task_row_def by (rule ledger_step.Sync)

lemma demo_rows:
  "map_option row_view (dget (lg_tasks demo_ledger) (''run-1'', ''t1'')) = Some (''QUEUED'', None, 0)"
  "map_option row_view (dget (lg_tasks demo_running) (''run-1'', ''t1'')) = Some (''RUNNING'', None, 0)"
  by code_simp+

section \<open>The properties\<close>

text \<open>
  C17: serialisation loses nothing: a task that the constructor made is read back from its
  dictionary exactly, whatever the clock and the digest give then.
\<close>

theorem tasks_survive_serialisation:
  "from_dict digest now1 now2 (to_dict (post_init digest' k)) = Inr (post_init digest' k)"
  by (simp add: from_dict_def to_dict_def dflt_def)

text \<open>
  C18: \<open>from_dict\<close> makes a task of every dictionary that has an id, a run and an objective,
  whatever else is missing or misspelt, and refuses every other; the task has an idempotency
  key, and the letter case of the status and priority texts does not matter.
\<close>

theorem from_dict_makes_a_task:
  "(case from_dict digest now1 now2 d of
        Inl e \<Rightarrow> e = TypeError ''missing required argument'' \<and> None \<in> {td_id d, td_run d, td_objective d}
      | Inr k \<Rightarrow> idem_key k \<noteq> [] \<and> td_id d = Some (t_id k) \<and> td_run d = Some (t_run k)
          \<and> td_objective d = Some (objective k))
   \<and> from_dict digest now1 now2 (d\<lparr>td_status := map_option py_upper (td_status d),
        td_priority := map_option py_upper (td_priority d)\<rparr>) = from_dict digest now1 now2 d"
proof -
  have up: "py_upper (py_upper s) = py_upper s" for s
  proof -
    have "upper_char (upper_char c) = upper_char c" for c
    proof (cases "97 \<le> ccode c \<and> ccode c \<le> 122")
      case True
      then have "(of_char c - 32) mod 256 = (of_char c - 32 :: nat)" unfolding ccode_def by (intro mod_less) linarith
      then have "ccode (char_of (ccode c - 32)) = ccode c - 32" by (simp add: ccode_def)
      moreover have "\<not> 97 \<le> ccode c - 32" using True by linarith
      ultimately show ?thesis using True by (simp add: upper_char_def)
    qed (auto simp: upper_char_def)
    then show ?thesis by (simp add: py_upper_def)
  qed
  have "parse_status (py_upper s) = parse_status s" "parse_priority (py_upper s) = parse_priority s" for s
    by (simp_all add: parse_status_def parse_priority_def up)
  then show ?thesis
    by (auto simp: from_dict_def post_init_def split: option.split)
qed

text \<open>
  the ledger's transition table is the scheduler's state machine: the ledger admits a
  state exactly when the state machine allows the move, knows exactly the task statuses, and
  ends where it ends.
\<close>

theorem ledger_table_is_the_state_machine:
  "ledger_allows False (status_name s) (status_name t) = can_transition s t
    \<and> set task_states = range status_name \<and> (status_name s \<in> set terminal_task_states) = task_final s
    \<and> (ledger_allows True (status_name s) (status_name t) =
        (can_transition s t \<or> t = QUEUED \<and> status_name s \<in> set recoverable_to_queued))"
proof -
  have "x \<in> range status_name" if "x \<in> set task_states" for x
    using that by (auto simp: task_states_def image_iff intro: status_name.simps [symmetric])
  then have "set task_states = range status_name" by auto
  moreover have "(status_name s \<in> set terminal_task_states) = task_final s"
    by (cases s) (simp_all add: terminal_task_states_def task_final_def)
  moreover have "(status_name t = ''QUEUED'') = (t = QUEUED)" by (cases t) simp_all
  moreover have "status_name t \<in> status_name ` set (task_moves s) \<longleftrightarrow> t \<in> set (task_moves s)"
    by (auto dest: status_name_inj)
  ultimately show ?thesis
    by (auto simp: ledger_allows_def can_transition_def can_move_def ledger_row_of_status dest: status_name_inj)
qed


text \<open>
  C15: in every reachable ledger the journal is the authority: its entries are numbered without
  gaps, replaying a task's entries from the beginning succeeds (each starts where the one
  before ended and makes a move some call may make) and gives the state, node and retry count
  in the task's row, a task without a row has no entries, and two rows of a run never share an
  idempotency key.
\<close>

theorem journal_replays_to_the_ledger:
  assumes "reachable_ledger l"
  shows "replay None (task_journal rid tid l) = Some (map_option row_view (dget (lg_tasks l) (rid, tid)))
    \<and> map te_seq (lg_events l) = [1..<Suc (lg_seq l)]
    \<and> (\<forall>j r s. dget (lg_tasks l) (rid, tid) = Some r \<longrightarrow> dget (lg_tasks l) (rid, j) = Some s \<longrightarrow>
          ld_key (tr_data r) = ld_key (tr_data s) \<longrightarrow> tid = j)"
proof -
  note ok = reachable_ledger_ok [OF assms]
  have "tid = j" if "dget (lg_tasks l) (rid, tid) = Some r" "dget (lg_tasks l) (rid, j) = Some s"
    "ld_key (tr_data r) = ld_key (tr_data s)" for j r s
    using task_keys_okD [OF ok(2) that(1,2)] that rows_keyedD [OF table_okD(2) [OF ok(1)]] by auto
  then show ?thesis using journal_okD(2,3) [OF ok(3)] by blast
qed

theorem journal_replays_to_the_ledger_witness:
  "replay None (task_journal ''run-1'' ''t1'' demo_ledger) = Some (Some (''QUEUED'', None, 0))"
  using journal_replays_to_the_ledger [OF reach_demo, of "''run-1''" "''t1''"] demo_rows by simp

text \<open>
  a synchronisation is accepted exactly when the run and the owner are named, the task is
  well formed, and either the task is new and its key unused in the run, or it is the owner's
  with the same intent and an admitted state; an accepted call writes the task's row and one
  journal entry and nothing else, a refused call changes nothing.
\<close>

theorem sync_is_exact:
  assumes "reachable_ledger l"
  shows "case sync now rid owner t recovery l of
      (Inl e, l') \<Rightarrow> l' = l \<and> (py_strip rid = [] \<or> py_strip owner = []
        \<or> (\<nexists>d. normalize_task t = Inr d \<and> sync_accepts (py_strip rid) (py_strip owner) d recovery l))
    | (Inr r, l') \<Rightarrow> \<exists>d ev. normalize_task t = Inr d \<and> sync_accepts (py_strip rid) (py_strip owner) d recovery l
        \<and> lg_tasks l' = dset (py_strip rid, ld_task d) r (lg_tasks l) \<and> row_view r = (ld_state d, ld_node d, ld_retry d)
        \<and> lg_events l' = lg_events l @ [ev] \<and> te_to ev = ld_state d
        \<and> te_from ev = map_option (\<lambda>e. ld_state (tr_data e)) (dget (lg_tasks l) (py_strip rid, ld_task d))"
proof (cases "py_strip rid \<noteq> [] \<and> py_strip owner \<noteq> []
      \<and> (\<exists>d. normalize_task t = Inr d \<and> sync_accepts (py_strip rid) (py_strip owner) d recovery l)")
  case True
  then obtain d where d: "normalize_task t = Inr d" "sync_accepts (py_strip rid) (py_strip owner) d recovery l" by blast
  with True sync_accepted [OF reachable_ledger_ok(2) [OF assms] _ _ d, of now] show ?thesis by auto
next
  case False
  with sync_refused [OF False, of now] show ?thesis by auto
qed

theorem sync_is_exact_witness:
  "case sync 12 ''run-1'' ''bob'' (ledger_payload (to_dict demo_task)) False demo_ledger of
     (Inl e, l') \<Rightarrow> l' = demo_ledger | (Inr r, l') \<Rightarrow> False"
proof -
  have "isl (fst (sync 12 ''run-1'' ''bob'' (ledger_payload (to_dict demo_task)) False demo_ledger))"
    by code_simp
  then show ?thesis
    using sync_is_exact [OF reach_demo, where now = 12 and rid = "''run-1''" and owner = "''bob''"
        and t = "ledger_payload (to_dict demo_task)" and recovery = False]
    by (auto split: prod.splits sum.splits)
qed

text \<open>
  a task's record is permanent: later calls keep its owner, intent and creation time, move
  its state only along the table (or back to QUEUED by recovery), never leave COMPLETED or
  CANCELLED, and only append to the journal.
\<close>

theorem ledger_is_permanent:
  assumes "reachable_ledger l0" "ledger_step\<^sup>*\<^sup>* l0 l" "dget (lg_tasks l0) (rid, tid) = Some r"
  shows "(\<exists>es. lg_events l = lg_events l0 @ es)
    \<and> (\<exists>r'. dget (lg_tasks l) (rid, tid) = Some r' \<and> tr_owner r' = tr_owner r
        \<and> data_intent (tr_data r') = data_intent (tr_data r) \<and> tr_created r' = tr_created r
        \<and> (ledger_allows True)\<^sup>*\<^sup>* (ld_state (tr_data r)) (ld_state (tr_data r'))
        \<and> (row_terminal r \<longrightarrow> ld_state (tr_data r') = ld_state (tr_data r)))"
proof -
  have "ledger_follows l0 l0"
    using table_okD(2) [OF reachable_ledger_ok(1) [OF assms(1)]] row_past_refl by (auto simp: ledger_follows_def)
  then have "ledger_follows l0 l" by (rule ledger_past.steps_keep [OF assms(2)])
  with assms(3) obtain r' es where "dget (lg_tasks l) (rid, tid) = Some r'" "row_past r r'" "lg_events l = lg_events l0 @ es"
    unfolding ledger_follows_def by blast
  then show ?thesis by (auto simp: row_past_def row_terminal_def dest: ledger_terminal_stays)
qed


theorem ledger_is_permanent_witness:
  "\<exists>r. dget (lg_tasks demo_running) (''run-1'', ''t1'') = Some r \<and> tr_owner r = ''alice'' \<and> tr_created r = 10"
proof -
  have "map_option (\<lambda>r. (tr_owner r, tr_created r)) (dget (lg_tasks demo_ledger) (''run-1'', ''t1'')) = Some (''alice'', 10)"
    by code_simp
  then obtain r where "dget (lg_tasks demo_ledger) (''run-1'', ''t1'') = Some r" "tr_owner r = ''alice''" "tr_created r = 10"
    by auto
  with ledger_is_permanent [OF reach_demo r_into_rtranclp [where r = ledger_step, OF step_demo] this(1)] show ?thesis by auto
qed

section \<open>The scheduler and the ledger\<close>

text \<open>The row of a task shows the task's status.\<close>

definition mirrors :: "string \<Rightarrow> string \<Rightarrow> task \<Rightarrow> task_meta ledger \<Rightarrow> bool" where
  "mirrors rid owner k l \<longleftrightarrow> task_keys_ok l \<and> py_strip rid \<noteq> [] \<and> py_strip owner \<noteq> []
     \<and> (\<exists>d e. normalize_task (ledger_payload (to_dict k)) = Inr d
          \<and> dget (lg_tasks l) (py_strip rid, ld_task d) = Some e \<and> tr_owner e = py_strip owner
          \<and> data_intent (tr_data e) = data_intent d \<and> ld_state (tr_data e) = status_name (status k))"

lemma payload_state: "normalize_task (ledger_payload (to_dict k)) = Inr d \<Longrightarrow> ld_state d = status_name (status k)"
  by (drule normalize_Inr(3)) (simp add: ledger_payload_def to_dict_def either_or_def or_else_def)

text \<open>A move changes the payload's state and metadata only.\<close>

lemma payload_moved:
  assumes "normalize_task (ledger_payload (to_dict k)) = Inr d" "transition k t why = Inr k'"
  shows "normalize_task (ledger_payload (to_dict k')) = Inr (d\<lparr>ld_state := status_name t, ld_meta := Some (meta k')\<rparr>)"
proof -
  have k': "k' = log_move (status k) t why (k\<lparr>status := t\<rparr>)" using transition_InrD [OF assms(2)] by blast
  show ?thesis
    using assms(1) unfolding k' normalize_task_def Let_def scheck_Inr sbind_Inr
    by (auto simp: ledger_payload_def to_dict_def log_move_def either_or_def or_else_def scheck_def meta_node_def
        meta_value_def)
qed

lemma sync_task_row_mirrors:
  assumes "reachable_ledger l" "sync_task_row now rid owner k recovery l = (Inr r, l')"
  shows "mirrors rid owner k l'" "reachable_ledger l'"
proof -
  show re: "reachable_ledger l'"
    using assms ledger_step.Sync [of l now rid owner "ledger_payload (to_dict k)" recovery]
    by (auto simp: sync_task_row_def reachable_ledger_def intro: rtranclp.rtrancl_into_rtrancl)
  note ok = reachable_ledger_ok(2) [OF assms(1)]
  from sync_accepts_iff [OF ok, of now rid owner "ledger_payload (to_dict k)" recovery] assms(2)
  obtain d where d: "py_strip rid \<noteq> []" "py_strip owner \<noteq> []" "normalize_task (ledger_payload (to_dict k)) = Inr d"
    "sync_accepts (py_strip rid) (py_strip owner) d recovery l" by (auto simp: sync_task_row_def)
  from sync_accepted [OF ok d, of now] assms(2)
  have "lg_tasks l' = dset (py_strip rid, ld_task d) (row_after now (py_strip rid) (py_strip owner) d l) (lg_tasks l)"
    by (auto simp: sync_task_row_def)
  moreover have "tr_owner (row_after now (py_strip rid) (py_strip owner) d l) = py_strip owner"
    "data_intent (tr_data (row_after now (py_strip rid) (py_strip owner) d l)) = data_intent d"
    using d(4) by (auto simp: row_after_def sync_accepts_def split: option.splits)
  ultimately show "mirrors rid owner k l'"
    using reachable_ledger_ok(2) [OF re] d payload_state [OF d(3)] by (auto simp: mirrors_def)
qed

lemma mirrored_move:
  assumes "mirrors rid owner k l" "transition k t why = Inr k'"
  shows "\<exists>r l'. sync_task_row now rid owner k' recovery l = (Inr r, l')"
proof -
  from assms(1) obtain d e where m: "task_keys_ok l" "py_strip rid \<noteq> []" "py_strip owner \<noteq> []"
    "normalize_task (ledger_payload (to_dict k)) = Inr d" "dget (lg_tasks l) (py_strip rid, ld_task d) = Some e"
    "tr_owner e = py_strip owner" "data_intent (tr_data e) = data_intent d" "ld_state (tr_data e) = status_name (status k)"
    unfolding mirrors_def by blast
  let ?d = "d\<lparr>ld_state := status_name t, ld_meta := Some (meta k')\<rparr>"
  have "can_transition (status k) t" using transition_InrD [OF assms(2)] by blast
  then have "ledger_allows recovery (status_name (status k)) (status_name t)"
    by (auto simp: ledger_allows_def can_transition_def can_move_def ledger_row_of_status)
  moreover have "data_intent ?d = data_intent d" by (simp add: data_intent_def)
  ultimately have "sync_accepts (py_strip rid) (py_strip owner) ?d recovery l"
    using m by (simp add: sync_accepts_def)
  from sync_accepted [OF m(1-3) payload_moved [OF m(4) assms(2)] this, of now] show ?thesis
    by (auto simp: sync_task_row_def)
qed

text \<open>The scheduler moves a task and synchronises it after every move.\<close>

fun synced_moves :: "rat \<Rightarrow> string \<Rightarrow> string \<Rightarrow> task \<Rightarrow> (task_status \<times> string) list \<Rightarrow> (task_meta ledger, task) sx" where
  "synced_moves now rid owner k [] = ret k"
| "synced_moves now rid owner k ((t, why) # ms) = (case transition k t why of
      Inl e \<Rightarrow> throw e
    | Inr k' \<Rightarrow> andthen (sync_task_row now rid owner k' False) (synced_moves now rid owner k' ms))"

lemma synced_moves_accepted:
  "mirrors rid owner k l \<Longrightarrow> reachable_ledger l \<Longrightarrow> transitions k ms = Inr k' \<Longrightarrow>
     \<exists>l'. synced_moves now rid owner k ms l = (Inr k', l') \<and> mirrors rid owner k' l'"
proof (induction k ms arbitrary: l rule: transitions.induct)
  case (1 k)
  then show ?case by simp
next
  case (2 k t why ms)
  then obtain k1 where k1: "transition k t why = Inr k1" "transitions k1 ms = Inr k'" by (auto split: sum.splits)
  obtain r l1 where s: "sync_task_row now rid owner k1 False l = (Inr r, l1)"
    using mirrored_move [OF "2.prems"(1) k1(1)] by blast
  from "2.IH" [OF k1(1) sync_task_row_mirrors [OF "2.prems"(2) s] k1(2)] k1(1) s show ?case
    by (simp add: andthen_run)
qed

text \<open>
  C16: the ledger follows the scheduler: once a task has been synchronised, every sequence of
  moves the state machine accepts, synchronised move by move, is accepted by the ledger, and
  the row then shows the task's status: the ledger never refuses what the state machine
  allowed.
\<close>

theorem ledger_follows_the_scheduler:
  assumes "reachable_ledger l" "sync_task_row now rid owner k recovery l = (Inr r, l1)" "transitions k ms = Inr k'"
  shows "\<exists>l' d e. synced_moves now2 rid owner k ms l1 = (Inr k', l')
    \<and> normalize_task (ledger_payload (to_dict k')) = Inr d
    \<and> dget (lg_tasks l') (py_strip rid, ld_task d) = Some e \<and> ld_state (tr_data e) = status_name (status k')"
  using synced_moves_accepted [OF sync_task_row_mirrors [OF assms(1,2)] assms(3), of now2]
  unfolding mirrors_def by blast

theorem ledger_follows_the_scheduler_witness:
  "\<exists>k' l'. transitions demo_task [(RUNNING, ''go''), (COMPLETED, ''ok'')] = Inr k'
     \<and> synced_moves 20 ''run-1'' ''alice'' demo_task [(RUNNING, ''go''), (COMPLETED, ''ok'')] demo_ledger = (Inr k', l')"
proof -
  let ?c = "sync_task_row 10 ''run-1'' ''alice'' demo_task False empty_ledger"
  have "\<not> isl (fst ?c)" by code_simp
  then obtain r where "fst ?c = Inr r" by (auto simp: isl_def) (metis sum.exhaust_sel)
  then have c: "?c = (Inr r, demo_ledger)" by (simp add: demo_ledger_def prod_eq_iff)
  have "\<not> isl (transitions demo_task [(RUNNING, ''go''), (COMPLETED, ''ok'')])" by code_simp
  then obtain k' where k: "transitions demo_task [(RUNNING, ''go''), (COMPLETED, ''ok'')] = Inr k'"
    by (cases "transitions demo_task [(RUNNING, ''go''), (COMPLETED, ''ok'')]") auto
  have "reachable_ledger empty_ledger" by (simp add: reachable_ledger_def)
  from ledger_follows_the_scheduler [OF this c k, of 20] k show ?thesis by blast
qed

end
