(* ===== verification/Lease_Properties.thy ===== *)
theory Lease_Properties
  imports Lease_Manager Durable_Recovery Queue_Properties Ledger_Properties
begin

text \<open>
  The lease manager as the queue's provider: the locale \<open>lease_interface\<close> states what the
  queue relies on and proves what dispatch then guarantees; the manager's operations satisfy
  it. Then what acquisition does to the lease table, on every outcome.
\<close>

section \<open>The queue's side\<close>

lemma resources_same:
  "scope k' = scope k \<Longrightarrow> resource_locks k' = resource_locks k \<Longrightarrow> target_files k' = target_files k \<Longrightarrow>
     resources_for_task k' = resources_for_task k"
  by (simp add: resources_for_task_def scope_of_def cong del: if_weak_cong)

lemma resources_updates [simp]:
  "resources_for_task (log_move c t r k) = resources_for_task k"
  "resources_for_task (k\<lparr>status := s\<rparr>) = resources_for_task k"
  "resources_for_task (k\<lparr>meta := md\<rparr>) = resources_for_task k"
  by (rule resources_same; simp)+

lemma log_move_names [simp]: "t_run (log_move c t r k) = t_run k"
  by (simp add: log_move_def)

locale lease_interface =
  fixes api :: "'m lease_api" and held :: "task \<Rightarrow> string list \<Rightarrow> 'm \<Rightarrow> bool"
  assumes none: "held k [] s"
    and acquired: "la_acquire api k res s = (Inr (Some ls), s') \<Longrightarrow> held k res s'"
    and synced: "la_sync api = Some f \<Longrightarrow> held k res s \<Longrightarrow> held k res (snd (f k' b s))"
    and same_task: "t_id k' = t_id k \<Longrightarrow> t_run k' = t_run k \<Longrightarrow> held k' res s = held k res s"
begin

definition secured :: "string \<Rightarrow> 'm queue \<Rightarrow> bool" where
  "secured i q \<longleftrightarrow> (\<exists>k. dget (q_all q) i = Some k \<and> held k (resources_for_task k) (q_lm q))"

text \<open>Changes to a task that leave its names and resources.\<close>

lemma secured_upd:
  assumes "secured i q" "\<And>k. t_id (f k) = t_id k \<and> t_run (f k) = t_run k \<and> resources_for_task (f k) = resources_for_task k"
    and "q_all q' = q_all q" "q_lm q' = q_lm q"
  shows "secured i (upd_task i f q')"
proof -
  from assms(1,3,4) obtain k where k: "dget (q_all q') i = Some k" "held k (resources_for_task k) (q_lm q')"
    by (auto simp: secured_def)
  then show ?thesis
    using assms(2) same_task [of "f k" k] by (auto simp: secured_def upd_task_def)
qed

lemma try_acquire_secures:
  assumes "try_acquire (Some api) i q = (Inr True, q')"
  shows "secured i q'"
proof -
  from assms obtain k where k: "dget (q_all q) i = Some k"
    by (auto simp: try_acquire_def bnd_run the_task_def split: option.splits)
  let ?res = "resources_for_task k"
  from assms k have free: "\<not> resource_conflict (dkeys (q_holders q)) ?res"
    by (auto simp: try_acquire_def bnd_run the_task_def Let_def split: if_splits)
  obtain ls s where got: "held k ?res s" "q' = record_locks i ?res ls (q\<lparr>q_lm := s\<rparr>)"
  proof (cases "?res = []")
    case True
    with assms k free none that [of "q_lm q" "[]"] show thesis
      by (simp add: try_acquire_def bnd_run the_task_def Let_def andthen_run)
  next
    case False
    with assms k free obtain ls s where "la_acquire api k ?res (q_lm q) = (Inr (Some ls), s)"
      "q' = record_locks i ?res ls (q\<lparr>q_lm := s\<rparr>)"
      by (auto simp: try_acquire_def bnd_run the_task_def Let_def andthen_run lift_lm_def
          split: prod.splits sum.splits option.splits)
    with acquired that show thesis by blast
  qed
  have "secured i (q\<lparr>q_lm := s\<rparr>)" using k got(1) by (auto simp: secured_def)
  then show ?thesis unfolding got(2) record_locks_def by (rule secured_upd) simp_all
qed

lemma select_secures:
  "select_ready (Some api) caps n is q = (Inr (Some (j, i)), q') \<Longrightarrow> secured i q'"
proof (induction "is" arbitrary: n q)
  case (Cons x xs)
  show ?case
  proof (cases "dget (q_all q) x")
    case None
    with Cons.prems show ?thesis by (simp add: bnd_run the_task_def)
  next
    case (Some k)
    show ?thesis
    proof (cases "caps_ok caps k")
      case True
      obtain r q1 where t: "try_acquire (Some api) x q = (r, q1)" by fastforce
      with Cons.prems Some True show ?thesis
        using Cons.IH [of "Suc n" q1] try_acquire_secures [of x q q1]
        by (auto simp: bnd_run the_task_def split: sum.splits if_splits)
    qed (use Cons Some in \<open>simp add: bnd_run the_task_def\<close>)
  qed
qed simp

lemma sync_secures:
  assumes "secured i q"
  shows "secured i (snd (sync_task (Some api) i q))"
proof (cases "la_sync api")
  case None
  with assms show ?thesis by (simp add: sync_task_def)
next
  case (Some f)
  from assms obtain k where k: "dget (q_all q) i = Some k" "held k (resources_for_task k) (q_lm q)"
    by (auto simp: secured_def)
  with synced [OF Some k(2), of k False] Some show ?thesis
    by (auto simp: sync_task_def secured_def bnd_run the_task_def lift_lm_def split: prod.split)
qed

lemma move_secures:
  assumes "secured i q"
  shows "secured i (snd (move i s r q))"
proof -
  from assms obtain k where k: "dget (q_all q) i = Some k" "held k (resources_for_task k) (q_lm q)"
    by (auto simp: secured_def)
  show ?thesis
  proof (cases "transition k s r")
    case (Inr k')
    then have k': "k' = log_move (status k) s r (k\<lparr>status := s\<rparr>)" using transition_InrD by blast
    then have "held k' (resources_for_task k') (q_lm q)"
      using same_task [of k' k] k(2) by simp
    with k(1) Inr show ?thesis by (simp add: move_def secured_def)
  qed (use k assms in \<open>simp add: move_def\<close>)
qed

lemma pop_secures:
  assumes "pop_ready_task (Some api) caps node q = (Inr (Some i), q')"
  shows "secured i q'"
proof -
  from assms obtain n q1 where sel: "select_ready (Some api) (map_option clean_caps caps) 0 (q_ready q) q = (Inr (Some (n, i)), q1)"
    and rest: "andthen (modify (note_dispatch i (map_option clean_caps caps) node))
              (andthen (modify (\<lambda>q. q\<lparr>q_ready := take n (q_ready q) @ drop (Suc n) (q_ready q)\<rparr>))
              (andthen (move i RUNNING ''Dispatched to worker'')
              (andthen (modify (\<lambda>q. q\<lparr>q_running := ladd i (q_running q)\<rparr>))
              (andthen (sync_task (Some api) i) (ret (Some i)))))) q1 = (Inr (Some i), q')"
    by (auto simp: pop_ready_task_def Let_def bnd_run andthen_run [where m = "sync_task _ _"] andthen_run [where m = "move _ _ _"]
        split: if_splits sum.splits option.splits prod.splits)
  let ?q2 = "note_dispatch i (map_option clean_caps caps) node q1"
  have "secured i ?q2"
    unfolding note_dispatch_def by (rule secured_upd [OF select_secures [OF sel]]) simp_all
  then have q3: "secured i (?q2\<lparr>q_ready := take n (q_ready ?q2) @ drop (Suc n) (q_ready ?q2)\<rparr>)" (is "secured i ?q3")
    by (simp add: secured_def)
  obtain a q4 where m: "move i RUNNING ''Dispatched to worker'' ?q3 = (a, q4)" by fastforce
  have "secured i q4" using move_secures [OF q3, of RUNNING "''Dispatched to worker''"] m by simp
  then have q5: "secured i (q4\<lparr>q_running := ladd i (q_running q4)\<rparr>)" by (simp add: secured_def)
  from sync_secures [OF q5] rest m show ?thesis
    by (auto simp: andthen_run split: sum.splits prod.splits)
qed

end

section \<open>The lease table under acquisition\<close>

definition own_lease :: "lease_manager \<Rightarrow> string \<Rightarrow> lease_row \<Rightarrow> bool" where
  "own_lease m opid l \<longleftrightarrow> le_owner l = lm_owner m \<and> le_run l = lm_run m \<and> le_op l = Some opid"

lemma append_event_Inr:
  assumes "append_event now rid ty opid st pl d = (Inr e, d')"
  shows "tb_leases d' = tb_leases d"
  using event_frame(1) [of now rid ty opid st pl d] assms by simp

text \<open>A lease is filed under its key.\<close>

definition leases_keyed :: "db \<Rightarrow> bool" where
  "leases_keyed d \<longleftrightarrow> (\<forall>k l. dget (tb_leases d) k = Some l \<longrightarrow> le_key l = k)"

definition keyed_ok :: "db \<Rightarrow> bool" where
  "keyed_ok d \<longleftrightarrow> ops_ok d \<and> leases_keyed d"

lemma leases_keyed_cong: "leases_keyed d \<Longrightarrow> tb_leases d' = tb_leases d \<Longrightarrow> leases_keyed d'"
  by (simp add: leases_keyed_def)

lemma leases_keyed_grant: "leases_keyed d \<Longrightarrow> leases_keyed (grant_lease now key rid owner opid ttl t d)"
  by (simp add: leases_keyed_def grant_lease_def)

interpretation lease_keys: db_invariant keyed_ok
proof unfold_locales
  fix d i r and r' :: op_row assume "keyed_ok d" "dget (tb_ops d) i = Some r" "op_move r r'"
  then show "keyed_ok (d\<lparr>tb_ops := dset i r' (tb_ops d)\<rparr>)"
    by (auto simp: keyed_ok_def leases_keyed_def intro: op_table.op_step)
next
  fix d key assume "keyed_ok d"
  then show "keyed_ok (d\<lparr>tb_leases := ddel key (tb_leases d)\<rparr>)"
    by (auto simp: keyed_ok_def leases_keyed_def op_table.drop_step)
next
  fix d key l u v assume "keyed_ok d" "dget (tb_leases d) key = Some l"
  then show "keyed_ok (d\<lparr>tb_leases := dset key (l\<lparr>le_until := u, le_updated := v\<rparr>) (tb_leases d)\<rparr>)"
    by (auto simp: keyed_ok_def leases_keyed_def op_table.renew_step)
qed (simp_all add: keyed_ok_def ops_table_steps leases_keyed_grant leases_keyed_cong [of "d\<lparr>tb_ops := _\<rparr>" for d],
    simp_all add: leases_keyed_def put_event_def put_run_def grant_lease_def)

lemma reachable_keyed: "reachable_db d \<Longrightarrow> leases_keyed d"
  using lease_keys.steps_keep [of empty_db d] ops_ok_empty
  by (simp add: reachable_db_def keyed_ok_def leases_keyed_def empty_db_def)

text \<open>A granted or replayed lease.\<close>

lemma acquire_lease_Inr:
  assumes "acquire_lease now rid owner key opid ttl d = (Inr (l, b), d')" "leases_keyed d"
  shows "validate_id ''resource_key'' key = Inr (le_key l)" "tb_leases d' = dset (le_key l) l (tb_leases d)"
    "le_owner l = owner" "le_run l = rid" "le_op l = opid" "now < le_until l"
    "dget (tb_leases d) (le_key l) = Some l \<or> (\<forall>x. dget (tb_leases d) (le_key l) = Some x \<longrightarrow> le_until x \<le> now)"
proof -
  from assms obtain k where k: "validate_id ''resource_key'' key = Inr k" and ttl: "1 \<le> ttl" and
    c: "(case dget (tb_leases d) k of
          Some l \<Rightarrow>
            if le_until l > now
            then (if le_owner l = owner \<and> le_run l = rid \<and> le_op l = opid then ret (l, True)
                  else throw (StateConflict ''resource lease is already held''))
            else grant now k rid owner opid ttl (next_token k d)
        | None \<Rightarrow> grant now k rid owner opid ttl (next_token k d)) d = (Inr (l, b), d')"
    unfolding acquire_lease_def row_defs by (auto simp: call_Inr)
  have g: "le_key l = k \<and> tb_leases d' = dset k l (tb_leases d) \<and> le_owner l = owner \<and> le_run l = rid
      \<and> le_op l = opid \<and> now < le_until l"
    if "grant now k rid owner opid ttl (next_token k d) d = (Inr (l, b), d')"
    using that ttl event_frame(1) [of now rid "''LEASE_ACQUIRED''" opid None "[(''resource_key'', JStr k),
        (''fencing_token'', JNum (of_int (next_token k d))), (''lease_until'', JNum (now + ttl))]"
        "grant_lease now k rid owner opid ttl (next_token k d) d"]
    by (auto simp: grant_def andthen_run grant_lease_def split: sum.splits prod.splits)
  show "validate_id ''resource_key'' key = Inr (le_key l)" "tb_leases d' = dset (le_key l) l (tb_leases d)"
    "le_owner l = owner" "le_run l = rid" "le_op l = opid" "now < le_until l"
    "dget (tb_leases d) (le_key l) = Some l \<or> (\<forall>x. dget (tb_leases d) (le_key l) = Some x \<longrightarrow> le_until x \<le> now)"
    using c g k assms(2) unfolding leases_keyed_def by (auto split: option.splits if_splits simp: dset_same)
qed

lemma acquire_lease_keyed:
  assumes "acquire_lease now rid owner key opid ttl d = (Inr (l, b), d')" "leases_keyed d"
  shows "leases_keyed d'"
  using acquire_lease_Inr(2) [OF assms] assms(2) by (simp add: leases_keyed_def)

lemma acquire_lease_Inl:
  assumes "acquire_lease now rid owner key opid ttl d = (Inl e, d')"
  shows "d' = d"
proof (cases "validate_id ''resource_key'' key")
  case (Inr k)
  have "grant now k rid owner opid ttl (next_token k d) d \<noteq> (Inl e, d'')" if "dget (tb_runs d) rid = Some r" for r d''
    using that by (simp add: grant_def andthen_run append_event_def fetch_run_row_def lookup_def bnd_run Let_def grant_lease_def)
  with assms Inr show ?thesis
    by (auto simp: acquire_lease_def require_def lift_sum_def andthen_run bnd_run fetch_run_row_def lookup_def
        split: if_splits option.splits sum.splits)
qed (use assms in \<open>auto simp: acquire_lease_def require_def lift_sum_def andthen_run bnd_run split: if_splits\<close>)

text \<open>
  What the loop has done: the references stand for the resources taken so far, in order, each
  resource is leased to the operation, no other key changed, and a lease that was replaced was
  expired or the operation's own.
\<close>

definition key_of :: "lease_manager \<Rightarrow> string \<Rightarrow> string option" where
  "key_of m r = (case validate_id ''resource_key'' (resource_key m r) of Inl e \<Rightarrow> None | Inr k \<Rightarrow> Some k)"

definition leased_to :: "lease_manager \<Rightarrow> string \<Rightarrow> string \<Rightarrow> db \<Rightarrow> bool" where
  "leased_to m opid r d \<longleftrightarrow> (\<exists>k l. key_of m r = Some k \<and> dget (tb_leases d) k = Some l \<and> own_lease m opid l)"

definition loop_ok :: "lease_manager \<Rightarrow> string \<Rightarrow> (nat \<Rightarrow> rat) \<Rightarrow> db \<Rightarrow> lease_ref list \<Rightarrow> db \<Rightarrow> bool" where
  "loop_ok m opid clk d0 got d \<longleftrightarrow> leases_keyed d
     \<and> (\<forall>x \<in> set got. key_of m (lr_logical x) = Some (lr_key x)
        \<and> (\<exists>l. dget (tb_leases d) (lr_key x) = Some l \<and> own_lease m opid l
             \<and> (\<exists>y \<in> set got. lr_key y = lr_key x \<and> lr_token y = le_token l)))
     \<and> (\<forall>k. (\<forall>x \<in> set got. lr_key x \<noteq> k) \<longrightarrow> dget (tb_leases d) k = dget (tb_leases d0) k)
     \<and> (\<forall>x \<in> set got. \<forall>l. dget (tb_leases d0) (lr_key x) = Some l \<longrightarrow> own_lease m opid l \<or> (\<exists>i. le_until l \<le> clk i))"

lemma loop_ok_step:
  assumes ok: "loop_ok m opid clk d0 got d"
    and a: "acquire_lease (clk i) (lm_run m) (lm_owner m) (resource_key m r) (Some opid) ttl d = (Inr (l, b), d')"
  shows "loop_ok m opid clk d0 (got @ [lease_ref_of r l]) d'"
proof -
  have keyed: "leases_keyed d" using ok by (simp add: loop_ok_def)
  note g = acquire_lease_Inr [OF a keyed]
  have own: "own_lease m opid l" using g by (simp add: own_lease_def)
  have key: "key_of m r = Some (le_key l)" using g(1) by (simp add: key_of_def)
  have old: "own_lease m opid x \<or> (\<exists>i. le_until x \<le> clk i)" if x: "dget (tb_leases d0) (le_key l) = Some x" for x
  proof (cases "\<exists>y \<in> set got. lr_key y = le_key l")
    case True
    with ok x show ?thesis unfolding loop_ok_def by metis
  next
    case False
    with ok x have "dget (tb_leases d) (le_key l) = Some x" unfolding loop_ok_def by metis
    with g(7) own show ?thesis by auto
  qed
  show ?thesis
    using ok own key old g(2) acquire_lease_keyed [OF a keyed] unfolding loop_ok_def
    by (auto simp: lease_ref_of_def)
qed

lemma acquire_each_ok:
  "acquire_each m clk opid ttl got rs d = (Inr (ls, err), d') \<Longrightarrow> loop_ok m opid clk d0 got d \<Longrightarrow>
     loop_ok m opid clk d0 ls d' \<and> (\<exists>n \<le> length rs. map lr_logical ls = map lr_logical got @ take n rs
       \<and> (err = None \<longrightarrow> n = length rs))"
proof (induction rs arbitrary: got d)
  case Nil
  then show ?case by auto
next
  case (Cons r rs)
  obtain y d1 where a: "acquire_lease (clk (length got)) (lm_run m) (lm_owner m) (resource_key m r) (Some opid) ttl d = (y, d1)"
    by fastforce
  show ?case
  proof (cases y)
    case (Inl e)
    with a Cons.prems acquire_lease_Inl have "ls = got" "d' = d" "err = Some e" by auto
    with Cons.prems(2) show ?thesis by (auto intro: exI [of _ 0])
  next
    case (Inr p)
    then obtain l b where y: "y = Inr (l, b)" by (cases p) auto
    with a Cons.prems(1) have "acquire_each m clk opid ttl (got @ [lease_ref_of r l]) rs d1 = (Inr (ls, err), d')" by simp
    from Cons.IH [OF this loop_ok_step [OF Cons.prems(2) a [unfolded y]]]
    obtain n where "loop_ok m opid clk d0 ls d'" "n \<le> length rs" "err = None \<longrightarrow> n = length rs"
      "map lr_logical ls = map lr_logical (got @ [lease_ref_of r l]) @ take n rs" by blast
    then show ?thesis by (auto simp: lease_ref_of_def intro!: exI [of _ "Suc n"])
  qed
qed

lemma loop_ok_start: "leases_keyed d \<Longrightarrow> loop_ok m opid clk d [] d"
  by (simp add: loop_ok_def)

lemma acquire_each_returns: "\<exists>ls err d'. acquire_each m clk opid ttl got rs d = (Inr (ls, err), d')"
  by (induction rs arbitrary: got d) (auto split: prod.split sum.split)

text \<open>A release drops the manager's lease or changes nothing in the table.\<close>

lemma release_one_leases:
  "tb_leases (snd (release_one m now x d)) = (case dget (tb_leases d) (lr_key x) of
      None \<Rightarrow> tb_leases d
    | Some l \<Rightarrow> if le_owner l = lm_owner m \<and> le_token l = lr_token x then ddel (lr_key x) (tb_leases d) else tb_leases d)"
proof (cases "dget (tb_leases d) (lr_key x)")
  case None
  then show ?thesis by (simp add: release_one_def release_lease_def catch_run andthen_run bnd_run)
next
  case (Some l)
  let ?ev = "append_event now (le_run l) ''LEASE_RELEASED'' (le_op l) None
      [(''resource_key'', JStr (lr_key x)), (''fencing_token'', JNum (of_int (lr_token x)))]"
  let ?d = "d\<lparr>tb_leases := ddel (lr_key x) (tb_leases d)\<rparr>"
  obtain r d' where e: "?ev ?d = (r, d')" by fastforce
  then have "tb_leases d' = tb_leases ?d" by (metis event_frame(1) snd_conv)
  with Some e show ?thesis
    by (cases r) (auto simp: release_one_def release_lease_def catch_run andthen_run bnd_run)
qed

lemma release_one_returns: "fst (release_one m now x d) = Inr ()"
  by (auto simp: release_one_def catch_run split: sum.split prod.split)

lemma release_one_run: "release_one m now x d = (Inr (), snd (release_one m now x d))"
  using release_one_returns [of m now x d] by (metis prod.collapse)

definition drops :: "lease_manager \<Rightarrow> lease_ref list \<Rightarrow> string \<Rightarrow> lease_row \<Rightarrow> bool" where
  "drops m xs k l \<longleftrightarrow> le_owner l = lm_owner m \<and> (\<exists>x \<in> set xs. lr_key x = k \<and> lr_token x = le_token l)"

lemma foreach_release:
  "fst (foreach xs (release_one m now) d) = Inr ()
   \<and> dget (tb_leases (snd (foreach xs (release_one m now) d))) k = (case dget (tb_leases d) k of
        None \<Rightarrow> None | Some l \<Rightarrow> if drops m xs k l then None else Some l)"
proof (induction xs arbitrary: d)
  case Nil
  then show ?case by (simp add: drops_def split: option.split)
next
  case (Cons x xs)
  let ?d = "snd (release_one m now x d)"
  have step: "foreach (x # xs) (release_one m now) d = foreach xs (release_one m now) ?d"
    by (simp add: andthen_run, subst release_one_run) simp
  have "dget (tb_leases ?d) k = (case dget (tb_leases d) k of None \<Rightarrow> None
      | Some l \<Rightarrow> if drops m [x] k l then None else Some l)"
    by (auto simp: release_one_leases drops_def split: option.split)
  with Cons [of ?d] show ?case
    unfolding step by (auto simp: drops_def split: option.split if_splits)
qed

lemma release_all_leases:
  "fst (release_all m now ls d) = Inr ()"
  "dget (tb_leases (snd (release_all m now ls d))) k = (case dget (tb_leases d) k of
        None \<Rightarrow> None | Some l \<Rightarrow> if drops m ls k l then None else Some l)"
  using foreach_release [of "rev ls" m now d k] unfolding release_all_def drops_def set_rev by blast+

lemma release_all_run: "release_all m now ls d = (Inr (), snd (release_all m now ls d))"
  using release_all_leases(1) [of m now ls d] by (metis prod.collapse)

text \<open>The outcomes of \<open>acquire\<close>.\<close>

lemma acquire_outcome:
  assumes keyed: "leases_keyed d"
  obtains (Acquired) ls d' where "acquire m clk k res d = (Inr (Some ls), d')" "map lr_logical ls = named res"
      "loop_ok m (operation_id m k) clk d ls d'"
  | (Refused) r ls d1 d' where "acquire m clk k res d = (r, d')" "\<And>xs. r \<noteq> Inr (Some xs)"
      "loop_ok m (operation_id m k) clk d ls d1" "set (map lr_logical ls) \<subseteq> set (named res)"
      "d' = snd (release_all m (clk (Suc (length ls))) ls d1)"
proof -
  obtain ls err d1 where l: "acquire_each m clk (operation_id m k) (ttl_for k) [] (named res) d = (Inr (ls, err), d1)"
    using acquire_each_returns by blast
  from acquire_each_ok [OF l loop_ok_start [OF keyed]] obtain n where ok: "loop_ok m (operation_id m k) clk d ls d1"
    "map lr_logical ls = take n (named res)" "err = None \<longrightarrow> n = length (named res)" by auto
  show thesis
  proof (cases err)
    case None
    with l ok show thesis by (intro Acquired [of ls d1]) (simp_all add: acquire_def bnd_run)
  next
    case (Some e)
    let ?d = "snd (release_all m (clk (Suc (length ls))) ls d1)"
    have "acquire m clk k res d = ((if is_conflict e then Inr None else Inl e), ?d)"
      using l Some release_all_run [of m "clk (Suc (length ls))" ls d1]
      by (auto simp: acquire_def bnd_run andthen_run split: prod.split)
    moreover have "(if is_conflict e then Inr None else Inl e) \<noteq> Inr (Some xs)" for xs :: "lease_ref list" by simp
    moreover have "set (map lr_logical ls) \<subseteq> set (named res)" using ok(2) set_take_subset by metis
    ultimately show thesis using ok(1) Refused by blast
  qed
qed

lemma set_named [simp]: "set (named res) = {r \<in> set res. r \<noteq> []}"
  by (auto simp: named_def)

lemma loop_okD:
  assumes "loop_ok m opid clk d0 got d"
  shows "x \<in> set got \<Longrightarrow> key_of m (lr_logical x) = Some (lr_key x)"
    "x \<in> set got \<Longrightarrow> \<exists>l. dget (tb_leases d) (lr_key x) = Some l \<and> own_lease m opid l \<and> drops m got (lr_key x) l"
    "(\<And>x. x \<in> set got \<Longrightarrow> lr_key x \<noteq> k) \<Longrightarrow> dget (tb_leases d) k = dget (tb_leases d0) k"
    "x \<in> set got \<Longrightarrow> dget (tb_leases d0) (lr_key x) = Some l \<Longrightarrow> own_lease m opid l \<or> (\<exists>i. le_until l \<le> clk i)"
  using assms unfolding loop_ok_def drops_def own_lease_def by blast+

text \<open>Free resources are granted.\<close>

lemma acquire_lease_free:
  assumes "1 \<le> ttl" "ttl \<le> 3600" "validate_id ''resource_key'' key = Inr k" "dget (tb_runs d) rid = Some q" "ru_owner q = owner"
    and "\<And>l. dget (tb_leases d) k = Some l \<Longrightarrow> (le_owner l = owner \<and> le_run l = rid \<and> le_op l = opid) \<or> le_until l \<le> now"
  shows "\<exists>l b d'. acquire_lease now rid owner key opid ttl d = (Inr (l, b), d')
    \<and> map_option ru_owner (dget (tb_runs d') rid) = Some owner"
proof -
  have g: "\<exists>l d'. grant now k rid owner opid ttl (next_token k d) d = (Inr (l, False), d')
      \<and> map_option ru_owner (dget (tb_runs d') rid) = Some owner"
    using assms(4,5) by (simp add: grant_def andthen_run append_event_def fetch_run_row_def lookup_def bnd_run Let_def grant_lease_def)
  show ?thesis
    using assms g by (auto simp: acquire_lease_def require_def lift_sum_def andthen_run bnd_run fetch_run_row_def lookup_def
        split: option.split)
qed

lemma ttl_bounds: "1 \<le> ttl_for k" "ttl_for k \<le> 3600"
  by (auto simp: ttl_for_def)

definition free_for :: "lease_manager \<Rightarrow> string \<Rightarrow> (nat \<Rightarrow> rat) \<Rightarrow> db \<Rightarrow> string \<Rightarrow> bool" where
  "free_for m opid clk d key \<longleftrightarrow> (\<forall>l. dget (tb_leases d) key = Some l \<longrightarrow> own_lease m opid l \<or> (\<forall>i. le_until l \<le> clk i))"

lemma acquire_each_free:
  assumes "map_option ru_owner (dget (tb_runs d) (lm_run m)) = Some (lm_owner m)" "leases_keyed d" "1 \<le> ttl" "ttl \<le> 3600"
    and "\<forall>r \<in> set rs. \<exists>key. key_of m r = Some key \<and> free_for m opid clk d key"
  shows "\<exists>ls d'. acquire_each m clk opid ttl got rs d = (Inr (ls, None), d')"
  using assms
proof (induction rs arbitrary: got d)
  case Nil
  then show ?case by simp
next
  case (Cons r rs)
  from Cons.prems(5) obtain key where key: "validate_id ''resource_key'' (resource_key m r) = Inr key"
    and free: "free_for m opid clk d key" by (auto simp: key_of_def split: sum.splits)
  from Cons.prems(1) obtain q where q: "dget (tb_runs d) (lm_run m) = Some q" "ru_owner q = lm_owner m" by auto
  obtain l b d1 where a: "acquire_lease (clk (length got)) (lm_run m) (lm_owner m) (resource_key m r) (Some opid) ttl d = (Inr (l, b), d1)"
    and run: "map_option ru_owner (dget (tb_runs d1) (lm_run m)) = Some (lm_owner m)"
    using acquire_lease_free [OF Cons.prems(3,4) key q, of "Some opid" "clk (length got)"] free
    unfolding free_for_def own_lease_def by blast
  note g = acquire_lease_Inr [OF a Cons.prems(2)]
  have "free_for m opid clk d1 j" if "free_for m opid clk d j" for j
    using that g(2-5) by (simp add: free_for_def own_lease_def)
  with Cons.prems(5) have "\<forall>s \<in> set rs. \<exists>key. key_of m s = Some key \<and> free_for m opid clk d1 key"
    by (meson list.set_intros(2))
  from Cons.IH [OF run acquire_lease_keyed [OF a Cons.prems(2)] Cons.prems(3,4) this] a show ?case by simp
qed

section \<open>The provider satisfies the interface\<close>

lemma acquire_lease_at:
  assumes "acquire_lease now rid owner key opid ttl d = (Inr (l, b), d')"
  shows "\<exists>k. validate_id ''resource_key'' key = Inr k \<and> dget (tb_leases d') k = Some l \<and> le_owner l = owner
    \<and> le_run l = rid \<and> le_op l = opid \<and> now < le_until l \<and> (\<forall>j. j \<noteq> k \<longrightarrow> dget (tb_leases d') j = dget (tb_leases d) j)"
proof -
  from assms obtain k where k: "validate_id ''resource_key'' key = Inr k" and ttl: "1 \<le> ttl" and
    c: "(case dget (tb_leases d) k of
          Some l \<Rightarrow>
            if le_until l > now
            then (if le_owner l = owner \<and> le_run l = rid \<and> le_op l = opid then ret (l, True)
                  else throw (StateConflict ''resource lease is already held''))
            else grant now k rid owner opid ttl (next_token k d)
        | None \<Rightarrow> grant now k rid owner opid ttl (next_token k d)) d = (Inr (l, b), d')"
    unfolding acquire_lease_def row_defs by (auto simp: call_Inr)
  have g: "tb_leases d' = dset k l (tb_leases d) \<and> le_owner l = owner \<and> le_run l = rid \<and> le_op l = opid \<and> now < le_until l"
    if "grant now k rid owner opid ttl (next_token k d) d = (Inr (l, b), d')"
    using that ttl event_frame(1) [of now rid "''LEASE_ACQUIRED''" opid None "[(''resource_key'', JStr k),
        (''fencing_token'', JNum (of_int (next_token k d))), (''lease_until'', JNum (now + ttl))]"
        "grant_lease now k rid owner opid ttl (next_token k d) d"]
    by (auto simp: grant_def andthen_run grant_lease_def split: sum.splits prod.splits)
  show ?thesis
  proof (intro exI [of _ k] conjI k)
    show "dget (tb_leases d') k = Some l" "le_owner l = owner" "le_run l = rid" "le_op l = opid" "now < le_until l"
      "\<forall>j. j \<noteq> k \<longrightarrow> dget (tb_leases d') j = dget (tb_leases d) j"
      using c g by (auto split: option.splits if_splits)
  qed
qed

lemma acquire_each_leases:
  "acquire_each m clk opid ttl got rs d = (Inr (ls, None), d') \<Longrightarrow>
     (\<forall>r \<in> set rs. leased_to m opid r d') \<and> (\<forall>r. leased_to m opid r d \<longrightarrow> leased_to m opid r d')"
proof (induction rs arbitrary: got d)
  case Nil
  then show ?case by simp
next
  case (Cons r rs)
  obtain y d1 where a: "acquire_lease (clk (length got)) (lm_run m) (lm_owner m) (resource_key m r) (Some opid) ttl d = (y, d1)"
    by fastforce
  with Cons.prems obtain l b where y: "y = Inr (l, b)" by (cases y) auto
  from acquire_lease_at [OF a [unfolded y]] have new: "leased_to m opid r d1"
    by (auto simp: leased_to_def key_of_def own_lease_def)
  from acquire_lease_at [OF a [unfolded y]] have old: "leased_to m opid s d \<Longrightarrow> leased_to m opid s d1" for s
    unfolding leased_to_def own_lease_def by metis
  from Cons.prems a y have "acquire_each m clk opid ttl (got @ [lease_ref_of r l]) rs d1 = (Inr (ls, None), d')" by simp
  from Cons.IH [OF this] new old show ?case by auto
qed

definition manager_holds :: "lease_manager \<Rightarrow> task \<Rightarrow> string list \<Rightarrow> services \<Rightarrow> bool" where
  "manager_holds m k res s \<longleftrightarrow> (\<forall>r \<in> set res. r \<noteq> [] \<longrightarrow> leased_to m (operation_id m k) r (sv_db s))"

lemma on_ledger_db [simp]: "sv_db (snd (on_ledger f s)) = sv_db s"
  by (simp add: on_ledger_def split: prod.split)

interpretation managed: lease_interface "manager_api m clk" "manager_holds m" for m clk
proof unfold_locales
  fix k res s ls s'
  assume "la_acquire (manager_api m clk) k res s = (Inr (Some ls), s')"
  then obtain d' where a: "acquire m clk k res (sv_db s) = (Inr (Some ls), d')" and s': "sv_db s' = d'"
    by (auto simp: manager_api_def on_db_def split: prod.splits)
  obtain got err d1 where l: "acquire_each m clk (operation_id m k) (ttl_for k) [] (named res) (sv_db s) = (Inr (got, err), d1)"
    using acquire_each_returns by blast
  have e: "err = None"
  proof (cases err)
    case (Some e)
    with a l have False
      by (simp add: acquire_def bnd_run andthen_run) (subst (asm) release_all_run, simp split: if_splits)
    then show ?thesis ..
  qed
  with a l have "d1 = d'" by (simp add: acquire_def bnd_run)
  with acquire_each_leases [OF l [unfolded e]] s' show "manager_holds m k res s'" by (simp add: manager_holds_def)
next
  fix f k res s k' b
  assume "la_sync (manager_api m clk) = Some f" "manager_holds m k res s"
  then show "manager_holds m k res (snd (f k' b s))"
    by (auto simp: manager_api_def manager_sync_def manager_holds_def andthen_run on_ledger_def split: prod.split sum.split)
next
  fix k' k :: task and res s
  assume "t_id k' = t_id k" "t_run k' = t_run k"
  then show "manager_holds m k' res s = manager_holds m k res s"
    by (simp add: manager_holds_def operation_id_def)
qed (simp add: manager_holds_def)


lemma acquisition_outcome_full:
  assumes "reachable_db d"
  shows "(case acquire m clk k res d of
      (Inr (Some ls), d') \<Rightarrow> map lr_logical ls = named res \<and> list_all (\<lambda>r. leased_to m (operation_id m k) r d') (named res)
    | (r, d') \<Rightarrow> \<forall>key. dget (tb_leases d') key = None \<or> dget (tb_leases d') key = dget (tb_leases d) key)
   \<and> (\<forall>key. dget (tb_leases (snd (acquire m clk k res d))) key \<noteq> dget (tb_leases d) key \<longrightarrow>
        (\<exists>r \<in> set res. key_of m r = Some key)
        \<and> (\<forall>l. dget (tb_leases d) key = Some l \<longrightarrow> own_lease m (operation_id m k) l \<or> (\<exists>i. le_until l \<le> clk i)))"
proof -
  let ?op = "operation_id m k"
  have touched: "(\<exists>r \<in> set res. key_of m r = Some key)
      \<and> (\<forall>l. dget (tb_leases d) key = Some l \<longrightarrow> own_lease m ?op l \<or> (\<exists>i. le_until l \<le> clk i))"
    if "loop_ok m ?op clk d ls d1" "lr_logical ` set ls \<subseteq> set res" "x \<in> set ls" "lr_key x = key" for ls d1 x key
    using loop_okD(1,4) [OF that(1) that(3)] that(2,3,4) by blast
  show ?thesis
  proof (rule acquire_outcome [OF reachable_keyed [OF assms], of m clk k res])
    fix ls d' assume a: "acquire m clk k res d = (Inr (Some ls), d')" "map lr_logical ls = named res"
      and ok: "loop_ok m ?op clk d ls d'"
    have sub: "lr_logical ` set ls = {r \<in> set res. r \<noteq> []}" using a(2) by (metis set_map set_named)
    have "leased_to m ?op r d'" if "r \<in> set (named res)" for r
    proof -
      from that sub have "r \<in> lr_logical ` set ls" by simp
      then obtain x where "x \<in> set ls" "lr_logical x = r" by blast
      with loop_okD(1,2) [OF ok] show ?thesis unfolding leased_to_def by blast
    qed
    then have "list_all (\<lambda>r. leased_to m ?op r d') (named res)" by (simp add: list_all_iff)
    moreover have "(\<exists>r \<in> set res. key_of m r = Some key)
      \<and> (\<forall>l. dget (tb_leases d) key = Some l \<longrightarrow> own_lease m ?op l \<or> (\<exists>i. le_until l \<le> clk i))"
      if changed: "dget (tb_leases d') key \<noteq> dget (tb_leases d) key" for key
    proof -
      from loop_okD(3) [OF ok, of key] changed obtain x where "x \<in> set ls" "lr_key x = key" by blast
      moreover have "lr_logical ` set ls \<subseteq> set res" using sub by blast
      ultimately show ?thesis by (intro touched [OF ok])
    qed
    ultimately show ?thesis unfolding a(1) using a(2) by simp
  next
    fix r ls d1 d' assume a: "acquire m clk k res d = (r, d')" "\<And>xs. r \<noteq> Inr (Some xs)"
      and ok: "loop_ok m ?op clk d ls d1" and sub: "set (map lr_logical ls) \<subseteq> set (named res)"
      and d': "d' = snd (release_all m (clk (Suc (length ls))) ls d1)"
    have after: "dget (tb_leases d') key = (if \<exists>x \<in> set ls. lr_key x = key then None else dget (tb_leases d) key)" for key
    proof (cases "\<exists>x \<in> set ls. lr_key x = key")
      case True
      with loop_okD(2) [OF ok] obtain l where "dget (tb_leases d1) key = Some l" "drops m ls key l" by blast
      with True show ?thesis by (simp add: d' release_all_leases)
    next
      case False
      then have "dget (tb_leases d1) key = dget (tb_leases d) key" "\<And>l. \<not> drops m ls key l"
        using loop_okD(3) [OF ok] by (auto simp: drops_def)
      with False show ?thesis by (auto simp: d' release_all_leases split: option.split)
    qed
    have sub': "lr_logical ` set ls \<subseteq> set res" using sub by auto
    have "(\<exists>r \<in> set res. key_of m r = Some key)
      \<and> (\<forall>l. dget (tb_leases d) key = Some l \<longrightarrow> own_lease m ?op l \<or> (\<exists>i. le_until l \<le> clk i))"
      if changed: "dget (tb_leases d') key \<noteq> dget (tb_leases d) key" for key
    proof -
      from after [of key] changed obtain x where "x \<in> set ls" "lr_key x = key" by (auto split: if_splits)
      then show ?thesis by (intro touched [OF ok sub'])
    qed
    moreover have "case r of Inr (Some ls) \<Rightarrow> P ls | _ \<Rightarrow> Q" if Q for P :: "lease_ref list \<Rightarrow> bool" and Q
      using a(2) that by (auto split: sum.split option.split)
    ultimately show ?thesis unfolding a(1) using after a(2) by (auto split: sum.split option.split)
  qed
qed

lemma acquisition_outcome:
  assumes "reachable_db d"
  shows "fst (acquire m clk k res d) = Inr (Some ls) \<Longrightarrow> r \<in> set (named res) \<Longrightarrow>
      leased_to m (operation_id m k) r (snd (acquire m clk k res d))"
    "dget (tb_leases (snd (acquire m clk k res d))) key \<noteq> dget (tb_leases d) key \<Longrightarrow>
      (\<exists>r \<in> set res. key_of m r = Some key)
      \<and> (\<forall>l. dget (tb_leases d) key = Some l \<longrightarrow> own_lease m (operation_id m k) l \<or> (\<exists>i. le_until l \<le> clk i))"
proof -
  note all = acquisition_outcome_full [OF assms, where m = m and clk = clk and k = k and res = res]
  show "leased_to m (operation_id m k) r (snd (acquire m clk k res d))"
    if "fst (acquire m clk k res d) = Inr (Some ls)" "r \<in> set (named res)"
    using all [THEN conjunct1] that by (cases "acquire m clk k res d") (simp add: list_all_iff)
  show "(\<exists>r \<in> set res. key_of m r = Some key)
      \<and> (\<forall>l. dget (tb_leases d) key = Some l \<longrightarrow> own_lease m (operation_id m k) l \<or> (\<exists>i. le_until l \<le> clk i))"
    if "dget (tb_leases (snd (acquire m clk k res d))) key \<noteq> dget (tb_leases d) key"
    using all [THEN conjunct2] that by blast
qed

section \<open>Keys the durable runtime accepts\<close>

lemma strip_clean:
  assumes "s \<noteq> []" "\<not> is_space (hd s)" "\<not> is_space (last s)"
  shows "py_strip s = s"
proof -
  have "dropWhile is_space s = s" using assms(1,2) by (cases s) auto
  moreover have "dropWhile is_space (rev s) = rev s"
    using assms(1,3) by (cases s rule: rev_cases) auto
  ultimately show ?thesis by (simp add: py_strip_def py_lstrip_def)
qed

lemma hex_is_clean: "hex_digit c \<Longrightarrow> id_char c \<and> \<not> is_space c"
  by (auto simp: hex_digit_def id_char_def is_space_def Let_def)

lemma key_chars: "id_char CHR '':''" "id_start CHR ''o''" "\<not> is_space CHR ''o''" "list_all id_char ''ma:''"
  by code_simp+

definition logical_name :: "string \<Rightarrow> string" where
  "logical_name r = py_lower (replace_char (CHR 0x5C) (CHR ''/'') (py_strip r))"

lemma resource_key_valid:
  assumes "\<forall>s. sha_ok (lm_digest m s)"
  shows "validate_id ''resource_key'' (resource_key m r) = (if list_all id_char (resource_prefix (logical_name r))
     then Inr (resource_key m r) else Inl (ValueError ''resource_key''))"
proof -
  let ?p = "resource_prefix (logical_name r)" and ?w = "workspace_key (lm_digest m) (lm_workspace m)"
  let ?h = "take 32 (lm_digest m (logical_name r))"
  have hex: "list_all id_char (take n (lm_digest m s)) \<and> length (lm_digest m s) = 64
      \<and> (\<forall>c \<in> set (take n (lm_digest m s)). \<not> is_space c)" for n s
  proof -
    have d: "length (lm_digest m s) = 64" "\<forall>c \<in> set (lm_digest m s). hex_digit c"
      using assms by (auto simp: sha_ok_def list_all_iff)
    have "id_char c \<and> \<not> is_space c" if "c \<in> set (take n (lm_digest m s))" for c
      using d(2) in_set_takeD [OF that] hex_is_clean by blast
    then show ?thesis using d(1) by (simp add: list_all_iff)
  qed
  have key: "resource_key m r = CHR ''o'' # (''ma:'' @ ?w @ '':'' @ ?p @ '':'' @ ?h)"
    by (simp add: resource_key_def logical_name_def Let_def)
  have "length (lm_digest m (logical_name r)) = 64" using assms by (simp add: sha_ok_def)
  then have h3: "length ?h = 32" by simp
  then have h1: "?h \<noteq> []" by (metis list.size(3) zero_neq_numeral)
  note h = h1 last_in_set [OF h1] h3
  have "last (resource_key m r) = last ?h" using h(1) by (simp add: key)
  then have strip: "py_strip (resource_key m r) = resource_key m r"
    using h hex [of 32 "logical_name r"] key_chars by (intro strip_clean) (simp_all add: key)
  have len: "length (resource_key m r) \<le> 128"
  proof -
    have "length ?w \<le> 24" "length ?p \<le> 24" by (simp_all add: workspace_key_def resource_prefix_def)
    then show ?thesis using h3 by (simp add: key)
  qed
  have "list_all id_char (tl (resource_key m r)) = list_all id_char ?p"
    using hex key_chars by (simp add: key workspace_key_def)
  then show ?thesis
    using strip len key_chars by (simp add: validate_id_def Let_def) (simp add: key)
qed

section \<open>Concrete services\<close>

definition demo_digest :: "string \<Rightarrow> string" where
  "demo_digest s = (if s = ''file:a.py'' then CHR ''b'' else CHR ''a'') # replicate 63 CHR ''c''"

definition demo_manager :: lease_manager where
  "demo_manager = \<lparr>lm_digest = demo_digest, lm_workspace = ''/w'', lm_owner = ''alice'', lm_run = ''run-1''\<rparr>"

definition demo_clock :: "nat \<Rightarrow> rat" where
  "demo_clock n = 300"

definition held_db :: db where
  "held_db = snd (acquire_lease 290 ''run-1'' ''alice'' (resource_key demo_manager ''file:a.py'') (Some ''other'') 60 running_db)"

lemma reach_held: "reachable_db held_db"
  unfolding held_db_def by (rule reach_step [OF reach_running db_step.Acquire])

lemma demo_resources: "resources_for_task demo_task = [''file:a.py'']"
  by code_simp

section \<open>The properties\<close>

text \<open>
  acquisition is all or nothing. When it succeeds, the references name the task's
  resources in order and each resource is leased to the task's operation; when it is refused
  or raises, no lease is left behind: every key has the lease it had before or, for the task's
  own resources, none. Either way only the task's own or expired leases of its own resources
  are touched.
\<close>

theorem acquisition_is_all_or_nothing:
  assumes "reachable_db d"
  shows "(case acquire m clk k res d of
      (Inr (Some ls), d') \<Rightarrow> map lr_logical ls = named res \<and> list_all (\<lambda>r. leased_to m (operation_id m k) r d') (named res)
    | (r, d') \<Rightarrow> \<forall>key. dget (tb_leases d') key = None \<or> dget (tb_leases d') key = dget (tb_leases d) key)
   \<and> (\<forall>key. dget (tb_leases (snd (acquire m clk k res d))) key \<noteq> dget (tb_leases d) key \<longrightarrow>
        (\<exists>r \<in> set res. key_of m r = Some key)
        \<and> (\<forall>l. dget (tb_leases d) key = Some l \<longrightarrow> own_lease m (operation_id m k) l \<or> (\<exists>i. le_until l \<le> clk i)))"
  using assms by (rule acquisition_outcome_full)

theorem acquisition_is_all_or_nothing_witness:
  "\<exists>ls d'. acquire demo_manager demo_clock demo_task [''file:a.py'', ''db''] running_db = (Inr (Some ls), d')
     \<and> map lr_logical ls = [''db'', ''file:a.py'']"
proof -
  let ?c = "acquire demo_manager demo_clock demo_task [''file:a.py'', ''db''] running_db"
  have "(case fst ?c of Inr (Some ls) \<Rightarrow> True | _ \<Rightarrow> False)" by code_simp
  then obtain ls where "fst ?c = Inr (Some ls)" by (auto split: sum.splits option.splits)
  then obtain d' where c: "?c = (Inr (Some ls), d')" by (metis prod.collapse)
  from acquisition_is_all_or_nothing [OF reach_running, where m = demo_manager and clk = demo_clock and k = demo_task
        and res = "[''file:a.py'', ''db'']", THEN conjunct1, unfolded c]
  have "map lr_logical ls = named [''file:a.py'', ''db'']" by simp
  moreover have "named [''file:a.py'', ''db''] = [''db'', ''file:a.py'']" by code_simp
  ultimately show ?thesis using c by simp
qed

text \<open>
  mutual exclusion between processes: while a resource is leased to another operation (of
  any queue, run or process on the workspace) and the lease has not run out, acquisition of a
  set with that resource does not succeed, and the other's lease is still there afterwards.
\<close>

theorem leased_elsewhere_is_refused:
  assumes "reachable_db d" "r \<in> set res" "r \<noteq> []" "key_of m r = Some key" "dget (tb_leases d) key = Some l"
    and "\<not> own_lease m (operation_id m k) l" "\<forall>i. clk i < le_until l"
  shows "fst (acquire m clk k res d) \<noteq> Inr (Some ls) \<and> dget (tb_leases (snd (acquire m clk k res d))) key = Some l"
proof -
  have keep: "dget (tb_leases (snd (acquire m clk k res d))) key = Some l"
    using acquisition_outcome(2) [OF assms(1), of m clk k res key] assms(5-7) by (metis leD)
  moreover have "leased_to m (operation_id m k) r (snd (acquire m clk k res d))" if "fst (acquire m clk k res d) = Inr (Some ls)"
    using acquisition_outcome(1) [OF assms(1) that] assms(2,3) by simp
  ultimately show ?thesis using assms(4,6) by (auto simp: leased_to_def)
qed

theorem leased_elsewhere_is_refused_witness:
  "\<exists>key l. key_of demo_manager ''file:a.py'' = Some key
     \<and> dget (tb_leases (snd (acquire demo_manager demo_clock demo_task [''file:a.py''] held_db))) key = Some l \<and> le_op l = Some ''other''"
proof -
  have "(case key_of demo_manager ''file:a.py'' of None \<Rightarrow> False | Some key \<Rightarrow>
      (case dget (tb_leases held_db) key of None \<Rightarrow> False | Some l \<Rightarrow> le_op l = Some ''other''
        \<and> operation_id demo_manager demo_task \<noteq> ''other'' \<and> 300 < le_until l))"
    by code_simp
  then obtain key l where "key_of demo_manager ''file:a.py'' = Some key" "dget (tb_leases held_db) key = Some l"
    "le_op l = Some ''other''" "operation_id demo_manager demo_task \<noteq> ''other''" "300 < le_until l"
    by (auto split: option.splits)
  then show ?thesis
    using leased_elsewhere_is_refused [OF reach_held, of "''file:a.py''" "[''file:a.py'']" demo_manager key l demo_task demo_clock]
    by (auto simp: own_lease_def demo_clock_def)
qed

text \<open>
  what is free is granted: when the manager's run is there, every resource has a name the
  durable runtime accepts (its part before the first colon is made of letters, digits, dots,
  colons, hyphens and underscores), and no other operation holds an unexpired lease of it,
  acquisition succeeds and leases every resource to the task's operation.
\<close>

theorem free_resources_are_granted:
  assumes "reachable_db d" "dget (tb_runs d) (lm_run m) = Some q" "ru_owner q = lm_owner m" "\<forall>s. sha_ok (lm_digest m s)"
    and "\<forall>r \<in> set (named res). list_all id_char (resource_prefix (logical_name r))
        \<and> free_for m (operation_id m k) clk d (resource_key m r)"
  shows "\<exists>ls d'. acquire m clk k res d = (Inr (Some ls), d')
    \<and> list_all (\<lambda>r. leased_to m (operation_id m k) r d') (named res)"
proof -
  have keys: "\<forall>r \<in> set (named res). \<exists>key. key_of m r = Some key \<and> free_for m (operation_id m k) clk d key"
    using assms(5) resource_key_valid [OF assms(4)] by (simp add: key_of_def)
  obtain ls d' where "acquire_each m clk (operation_id m k) (ttl_for k) [] (named res) d = (Inr (ls, None), d')"
    using acquire_each_free [OF _ reachable_keyed [OF assms(1)] ttl_bounds keys, of k "[]"] assms(2,3) by force
  then have "acquire m clk k res d = (Inr (Some ls), d')" by (simp add: acquire_def bnd_run)
  with acquisition_outcome(1) [OF assms(1), of m clk k res ls] show ?thesis by (auto simp: list_all_iff)
qed

lemma demo_sha: "\<forall>s. sha_ok (lm_digest demo_manager s)"
proof -
  have "sha_ok (CHR ''a'' # replicate 63 CHR ''c'')" "sha_ok (CHR ''b'' # replicate 63 CHR ''c'')" by code_simp+
  then show ?thesis by (simp add: demo_manager_def demo_digest_def)
qed

lemma running_row: "\<exists>q. dget (tb_runs running_db) ''run-1'' = Some q \<and> ru_owner q = ''alice''"
proof -
  have "map_option ru_owner (dget (tb_runs running_db) ''run-1'') = Some ''alice''" by code_simp
  then show ?thesis by auto
qed

theorem free_resources_are_granted_witness:
  "\<exists>ls d'. acquire demo_manager demo_clock demo_task [''file:a.py''] running_db = (Inr (Some ls), d')
     \<and> leased_to demo_manager (operation_id demo_manager demo_task) ''file:a.py'' d'"
proof -
  obtain q where q: "dget (tb_runs running_db) (lm_run demo_manager) = Some q" "ru_owner q = lm_owner demo_manager"
    using running_row by (auto simp: demo_manager_def)
  have "list_all id_char (resource_prefix (logical_name ''file:a.py''))" by code_simp
  moreover have "tb_leases running_db = []" by code_simp
  moreover have "named [''file:a.py''] = [''file:a.py'']" by code_simp
  ultimately show ?thesis
    using free_resources_are_granted [OF reach_running q demo_sha, of "[''file:a.py'']" demo_task demo_clock]
    by (simp add: free_for_def)
qed

text \<open>
  C19: dispatch under the manager: a task that dispatch hands out has, at that moment, every
  one of its resources leased in the durable runtime to its own operation, whatever other
  candidates were tried before it and whatever the ledger answered.
\<close>

theorem dispatched_task_holds_its_leases:
  assumes "pop_ready_task (Some (manager_api m clk)) caps node q = (Inr (Some tid), q')"
  shows "\<exists>k. dget (q_all q') tid = Some k \<and>
    (\<forall>r \<in> set (resources_for_task k). r \<noteq> [] \<longrightarrow> leased_to m (operation_id m k) r (sv_db (q_lm q')))"
  using managed.pop_secures [OF assms] by (simp add: managed.secured_def manager_holds_def)

definition demo_services :: services where
  "demo_services = \<lparr>sv_db = running_db, sv_ledger = empty_ledger\<rparr>"

definition demo_queue :: "task \<Rightarrow> services queue" where
  "demo_queue k = (new_queue (new_guard default_guard_config) 10 demo_services)\<lparr>q_all := [(''t1'', k)], q_ready := [''t1'']\<rparr>"

theorem dispatched_task_holds_its_leases_witness:
  "\<exists>q' k. pop_ready_task (Some (manager_api demo_manager demo_clock)) None None (demo_queue demo_task) = (Inr (Some ''t1''), q')
     \<and> dget (q_all q') ''t1'' = Some k \<and> leased_to demo_manager (operation_id demo_manager k) ''file:a.py'' (sv_db (q_lm q'))"
proof -
  let ?c = "pop_ready_task (Some (manager_api demo_manager demo_clock)) None None (demo_queue demo_task)"
  have "(case fst ?c of Inr (Some i) \<Rightarrow> i = ''t1'' | _ \<Rightarrow> False)
      \<and> map_option resources_for_task (dget (q_all (snd ?c)) ''t1'') = Some [''file:a.py'']"
    by code_simp
  then have c: "fst ?c = Inr (Some ''t1'')" "map_option resources_for_task (dget (q_all (snd ?c)) ''t1'') = Some [''file:a.py'']"
    by (auto split: sum.splits option.splits)
  then obtain q' where q': "?c = (Inr (Some ''t1''), q')" "snd ?c = q'" by (metis prod.collapse)
  with dispatched_task_holds_its_leases [OF q'(1)] c(2) show ?thesis by auto
qed

text \<open>
  A resource name can stop dispatch: when the first ready task's first resource has, before
  its first colon, a character the durable runtime does not accept in a key (a slash, say), and
  its locks are free in the queue, \<open>pop_ready_task\<close> raises ValueError and changes nothing, so
  it raises again on every call, and no task behind it is dispatched.
\<close>

theorem unsafe_resource_name_stops_dispatch:
  assumes "\<forall>s. sha_ok (lm_digest m s)" "q_ready q = tid # is" "dget (q_all q) tid = Some k"
    and "\<not> resource_conflict (dkeys (q_holders q)) (resources_for_task k)"
    and "named (resources_for_task k) = r # rs" "\<not> list_all id_char (resource_prefix (logical_name r))"
  shows "pop_ready_task (Some (manager_api m clk)) None node q = (Inl (ValueError ''resource_key''), q)"
proof -
  have "acquire_lease now (lm_run m) (lm_owner m) (resource_key m r) (Some opid) (ttl_for k) d
      = (Inl (ValueError ''resource_key''), d)" for now opid d
    using resource_key_valid [OF assms(1), of r] assms(6) ttl_bounds [of k]
    by (simp add: acquire_lease_def require_def lift_sum_def andthen_run bnd_run)
  then have "acquire m clk k (resources_for_task k) d = (Inl (ValueError ''resource_key''), d)" for d
    by (simp add: acquire_def bnd_run assms(5) release_all_def andthen_run)
  moreover have "resources_for_task k \<noteq> []" using assms(5) by (auto simp: named_def)
  ultimately have "try_acquire (Some (manager_api m clk)) tid q = (Inl (ValueError ''resource_key''), q)"
    using assms(3,4) by (simp add: try_acquire_def bnd_run the_task_def lift_lm_def manager_api_def on_db_def Let_def)
  then show ?thesis
    using assms(2,3) by (simp add: pop_ready_task_def bnd_run the_task_def caps_ok_def)
qed

theorem unsafe_resource_name_stops_dispatch_witness:
  "pop_ready_task (Some (manager_api demo_manager demo_clock)) None None
      (demo_queue (demo_task\<lparr>scope := ''ISOLATED'', resource_locks := [''src/a:b'']\<rparr>))
    = (Inl (ValueError ''resource_key''), demo_queue (demo_task\<lparr>scope := ''ISOLATED'', resource_locks := [''src/a:b'']\<rparr>))"
proof (rule unsafe_resource_name_stops_dispatch [OF demo_sha])
  let ?k = "demo_task\<lparr>scope := ''ISOLATED'', resource_locks := [''src/a:b'']\<rparr>"
  show "q_ready (demo_queue ?k) = [''t1'']" "dget (q_all (demo_queue ?k)) ''t1'' = Some ?k"
    by (simp_all add: demo_queue_def)
  show "named (resources_for_task ?k) = [''src/a:b'']" "\<not> list_all id_char (resource_prefix (logical_name ''src/a:b''))"
    "\<not> resource_conflict (dkeys (q_holders (demo_queue ?k))) (resources_for_task ?k)"
    by code_simp+
qed

end
