(* ===== verification/Token_Budget.thy ===== *)
theory Token_Budget
  imports Prelude
begin

text \<open>
  Admission budgets for model tokens (\<open>TokenBudget\<close> of \<open>orchestrator/budgets.py\<close>): a call
  reserves its worst case before it is made and settles what it used afterwards; a restart
  counts what was reserved when the process died. The hook \<open>save\<close> is the argument \<open>saves\<close> of
  each operation: \<open>True\<close> when it stores the state it is given, \<open>False\<close> when it raises. A budget
  without a hook is one whose stored copy is never read.
\<close>

section \<open>State\<close>

record reservation =
  rv_id :: string
  rv_bucket :: string
  rv_task :: string
  rv_amount :: int

record token_budget =
  bg_limits :: "(string, int) dict"
  bg_used :: "(string, int) dict"
  bg_task_limits :: "(string, int) dict"
  bg_task_used :: "(string, int) dict"
  bg_reservations :: "(string, reservation) dict"
  bg_accounting :: "(string, int) dict"

text \<open>The budget in memory and the copy the hook stored last.\<close>

record budget_process =
  bp_now :: token_budget
  bp_saved :: "token_budget option"

text \<open>The consumption a provider reports.\<close>

record token_usage =
  us_input :: int
  us_output :: int
  us_reasoning :: int
  us_cached :: int
  us_model :: string
  us_cost :: rat
  us_accounting :: string

definition add_usage :: "token_usage \<Rightarrow> token_usage \<Rightarrow> token_usage" where
  "add_usage a b = \<lparr>us_input = us_input a + us_input b, us_output = us_output a + us_output b,
     us_reasoning = us_reasoning a + us_reasoning b, us_cached = us_cached a + us_cached b,
     us_model = (if us_model b = [] then us_model a else us_model b), us_cost = us_cost a + us_cost b,
     us_accounting = (if us_accounting a = us_accounting b \<and> us_accounting b = ''provider''
       then ''provider'' else ''estimated'')\<rparr>"

text \<open>\<open>contents\<close>: the texts of the messages, \<open>None\<close> where a message has none.\<close>

definition estimate_input_tokens :: "string option list \<Rightarrow> int" where
  "estimate_input_tokens contents =
     (let total = sum_list (map (\<lambda>c. int (length (case c of None \<Rightarrow> [] | Some s \<Rightarrow> s)) + 32) contents) + 128
      in max 1 (total div 4))"

definition dnum :: "(string, int) dict \<Rightarrow> string \<Rightarrow> int" where
  "dnum d k = (case dget d k of None \<Rightarrow> 0 | Some n \<Rightarrow> n)"

definition reserved_in :: "string \<Rightarrow> token_budget \<Rightarrow> int" where
  "reserved_in b t = sum_list (map rv_amount (filter (\<lambda>r. rv_bucket r = b) (map snd (bg_reservations t))))"

definition reserved_for :: "string \<Rightarrow> token_budget \<Rightarrow> int" where
  "reserved_for i t = sum_list (map rv_amount (filter (\<lambda>r. rv_task r = i) (map snd (bg_reservations t))))"

section \<open>Construction and restart\<close>

definition fresh_budget :: "int \<Rightarrow> int \<Rightarrow> token_budget" where
  "fresh_budget master secondary = \<lparr>bg_limits = [(''master'', master), (''secondary'', secondary)],
     bg_used = [(''master'', 0), (''secondary'', 0)], bg_task_limits = [], bg_task_used = [],
     bg_reservations = [], bg_accounting = [(''provider'', 0), (''estimated'', 0), (''uncertain'', 0)]\<rparr>"

text \<open>The reservations of the stored state count as used: the calls may have happened.\<close>

fun charge_crashed :: "reservation list \<Rightarrow> token_budget \<Rightarrow> exn + token_budget" where
  "charge_crashed [] t = Inr t"
| "charge_crashed (r # rs) t = (case dget (bg_used t) (rv_bucket r) of
      None \<Rightarrow> Inl (KeyError (rv_bucket r))
    | Some n \<Rightarrow> charge_crashed rs (t\<lparr>bg_used := dset (rv_bucket r) (n + rv_amount r) (bg_used t),
        bg_task_used := dset (rv_task r) (dnum (bg_task_used t) (rv_task r) + rv_amount r) (bg_task_used t),
        bg_accounting := dset ''uncertain'' (dnum (bg_accounting t) ''uncertain'' + rv_amount r) (bg_accounting t)\<rparr>))"

definition save_budget :: "bool \<Rightarrow> (budget_process, unit) sx" where
  "save_budget saves p = (if saves then (Inr (), p\<lparr>bp_saved := Some (bp_now p)\<rparr>) else (Inl (StateConflict ''save''), p))"

definition new_budget :: "bool \<Rightarrow> int \<Rightarrow> int \<Rightarrow> token_budget option \<Rightarrow> exn + budget_process" where
  "new_budget saves master secondary state =
     scheck (0 < min master secondary) (ValueError ''token budgets must be positive'')
     (case state of
        None \<Rightarrow> Inr \<lparr>bp_now = fresh_budget master secondary, bp_saved = None\<rparr>
      | Some s \<Rightarrow>
          let t = fresh_budget master secondary;
              merged = t\<lparr>bg_limits := map (\<lambda>(k, v). (k, min v (case dget (bg_limits s) k of None \<Rightarrow> v | Some w \<Rightarrow> w))) (bg_limits t),
                bg_used := dupdate (bg_used t) (bg_used s), bg_task_limits := bg_task_limits s,
                bg_task_used := bg_task_used s, bg_accounting := dupdate (bg_accounting t) (bg_accounting s)\<rparr>
          in sbind (charge_crashed (map snd (bg_reservations s)) merged) (\<lambda>t'.
               (case save_budget saves \<lparr>bp_now = t', bp_saved = Some s\<rparr> of
                  (Inl e, p) \<Rightarrow> Inl e | (Inr u, p) \<Rightarrow> Inr p)))"

section \<open>Operations\<close>

definition on_budget :: "(token_budget \<Rightarrow> token_budget) \<Rightarrow> budget_process \<Rightarrow> budget_process" where
  "on_budget f p = p\<lparr>bp_now := f (bp_now p)\<rparr>"

definition register_task_budget :: "bool \<Rightarrow> string \<Rightarrow> int \<Rightarrow> (budget_process, unit) sx" where
  "register_task_budget saves i lmt =
     (if lmt \<le> 0 then throw (ValueError ''task token budget must be positive'')
      else andthen (modify (on_budget (\<lambda>t. t\<lparr>bg_task_limits := dset i
               (min lmt (case dget (bg_task_limits t) i of None \<Rightarrow> lmt | Some n \<Rightarrow> n)) (bg_task_limits t)\<rparr>)))
             (save_budget saves))"

definition bucket_of :: "string \<Rightarrow> string" where
  "bucket_of role = (if takeWhile (\<lambda>c. c \<noteq> CHR ''.'') role = ''master'' then ''master'' else ''secondary'')"

definition reserve_tokens :: "bool \<Rightarrow> string \<Rightarrow> string \<Rightarrow> string \<Rightarrow> int \<Rightarrow> int \<Rightarrow> (budget_process, reservation) sx" where
  "reserve_tokens saves gen role i input_bound output_limit p =
     (let t = bp_now p; b = bucket_of role; amount = input_bound + output_limit;
          r = \<lparr>rv_id = gen, rv_bucket = b, rv_task = i, rv_amount = amount\<rparr> in
      if input_bound < 0 \<or> output_limit \<le> 0 then (Inl (ValueError ''invalid reservation bounds''), p)
      else if dnum (bg_used t) b + reserved_in b t + amount > dnum (bg_limits t) b
        then (Inl (BudgetExceeded ''token admission budget exhausted''), p)
      else if (case dget (bg_task_limits t) i of None \<Rightarrow> False
           | Some m \<Rightarrow> dnum (bg_task_used t) i + reserved_for i t + amount > m)
        then (Inl (BudgetExceeded ''task token admission budget exhausted''), p)
      else andthen (modify (on_budget (\<lambda>t. t\<lparr>bg_reservations := dset gen r (bg_reservations t)\<rparr>)))
             (andthen (save_budget saves) (ret r)) p)"

text \<open>What a settlement charges and how it is accounted for.\<close>

definition settled_amount :: "reservation \<Rightarrow> token_usage option \<Rightarrow> bool \<Rightarrow> int \<times> string" where
  "settled_amount r usage uncertain = (case usage of
       None \<Rightarrow> (rv_amount r, ''uncertain'')
     | Some u \<Rightarrow> if uncertain then (rv_amount r, ''uncertain'')
         else (max 0 (us_input u) + max 0 (us_output u) + max 0 (us_reasoning u),
               if us_accounting u = ''provider'' then ''provider'' else ''estimated''))"

definition charge :: "reservation \<Rightarrow> int \<Rightarrow> string \<Rightarrow> token_budget \<Rightarrow> token_budget" where
  "charge r amount source t = t\<lparr>
     bg_used := dset (rv_bucket r) (dnum (bg_used t) (rv_bucket r) + amount) (bg_used t),
     bg_task_used := dset (rv_task r) (dnum (bg_task_used t) (rv_task r) + amount) (bg_task_used t),
     bg_accounting := dset source (dnum (bg_accounting t) source + amount) (bg_accounting t)\<rparr>"

definition settle :: "bool \<Rightarrow> reservation \<Rightarrow> token_usage option \<Rightarrow> bool \<Rightarrow> (budget_process, unit) sx" where
  "settle saves r usage uncertain p = (case dget (bg_reservations (bp_now p)) (rv_id r) of
      None \<Rightarrow> (Inl (ValueError ''reservation already settled''), p)
    | Some x \<Rightarrow> (case settled_amount r usage uncertain of (amount, source) \<Rightarrow>
        andthen (modify (on_budget (\<lambda>t. t\<lparr>bg_reservations := ddel (rv_id r) (bg_reservations t)\<rparr>)))
        (if dget (bg_used (bp_now p)) (rv_bucket r) = None then throw (KeyError (rv_bucket r)) else
         andthen (modify (on_budget (charge r amount source)))
        (andthen (save_budget saves)
          (if amount > rv_amount r then throw (BudgetExceeded ''provider exceeded reserved output budget'') else ret ()))) p))"

section \<open>What is left\<close>

definition remaining_in :: "string \<Rightarrow> token_budget \<Rightarrow> int" where
  "remaining_in b t = max 0 (dnum (bg_limits t) b - dnum (bg_used t) b - reserved_in b t)"

definition remaining_task :: "string \<Rightarrow> token_budget \<Rightarrow> int option" where
  "remaining_task i t = map_option (\<lambda>m. max 0 (m - dnum (bg_task_used t) i - reserved_for i t)) (dget (bg_task_limits t) i)"

text \<open>\<open>exhausted\<close>: of a task, of a bucket, or of both buckets.\<close>

definition exhausted :: "string option \<Rightarrow> string option \<Rightarrow> token_budget \<Rightarrow> exn + bool" where
  "exhausted bucket task t = (case task of
       Some i \<Rightarrow> Inr (case remaining_task i t of None \<Rightarrow> False | Some n \<Rightarrow> n \<le> 0)
     | None \<Rightarrow> (case bucket of
         Some b \<Rightarrow> if b \<in> set (map fst (bg_limits t)) then Inr (remaining_in b t \<le> 0)
           else Inl (ValueError ''unknown budget bucket'')
       | None \<Rightarrow> Inr (\<forall>b \<in> set (map fst (bg_limits t)). remaining_in b t \<le> 0)))"

end
