(* ===== verification/Budget_Properties.thy ===== *)
theory Budget_Properties
  imports Token_Budget
begin

text \<open>
  The token budget over its whole life: reservations, settlements, failed stores, crashes and
  restarts. What is used and reserved never exceeds a bucket's limit, the accounting adds up,
  and a restart forgets nothing that was reserved.
\<close>

section \<open>Sums over reservations\<close>





section \<open>Sound budgets\<close>



definition a_bucket :: "string \<Rightarrow> bool" where
  "a_bucket b \<longleftrightarrow> b = ''master'' \<or> b = ''secondary''"




lemma dnum_dset [simp]: "dnum (dset k v d) j = (if j = k then v else dnum d j)"
  by (simp add: dnum_def)

lemma bucket_of_bucket [simp]: "a_bucket (bucket_of role)"
  by (simp add: bucket_of_def a_bucket_def)









section \<open>Restart\<close>




lemma dict_ok_dupdate [simp]: "dict_ok d \<Longrightarrow> dict_ok (dupdate d e)"
  unfolding dupdate_def by (induction e arbitrary: d) auto






section \<open>The life of a budget\<close>





lemma save_budget_now [simp]: "bp_now (snd (save_budget saves p)) = bp_now p"
  by (simp add: save_budget_def)






section \<open>Properties\<close>






end
