(* ===== verification/Master_Queue.thy ===== *)
theory Master_Queue
  imports Prelude
begin

text \<open>
  The project queue (\<open>orchestrator/master_queue.py\<close>) and the measured admission it asks
  (\<open>orchestrator/scale_gates.py\<close>): validation of a manifest, the dependency check, frozen
  limits, claims, results, the inbox of verified candidates and closure by the operator. A
  transaction that raises leaves the database as it was. What a run of the engine, the files of
  a run and the clock answer are arguments.
\<close>

section \<open>Values of a manifest\<close>

text \<open>Parsed JSON. Integers and floats are different to \<open>type(x) is int\<close> and equal to \<open>==\<close>.\<close>

datatype mval =
    MNull
  | MBool bool
  | MInt int
  | MFloat rat
  | MStr string
  | MList "mval list"
  | MObj "(string \<times> mval) list"

type_synonym mobj = "(string, mval) dict"

text \<open>The text \<open>json.dumps\<close> makes with sorted keys, up to its injective rendering.\<close>

fun canonical :: "mval \<Rightarrow> mval" where
  "canonical (MList xs) = MList (map canonical xs)"
| "canonical (MObj d) = MObj (sort_key fst (map (\<lambda>(k, v). (k, canonical v)) d))"
| "canonical v = v"

text \<open>Equality of Python: \<open>True == 1 == 1.0\<close>, and the order of keys does not matter.\<close>

definition py_number :: "mval \<Rightarrow> mval" where
  "py_number v = (case v of
      MBool b \<Rightarrow> MInt (if b then 1 else 0)
    | MFloat q \<Rightarrow> if q = of_int \<lfloor>q\<rfloor> then MInt \<lfloor>q\<rfloor> else MFloat q
    | w \<Rightarrow> w)"

fun py_value :: "mval \<Rightarrow> mval" where
  "py_value (MList xs) = MList (map py_value xs)"
| "py_value (MObj d) = MObj (sort_key fst (map (\<lambda>(k, v). (k, py_value v)) d))"
| "py_value v = py_number v"

definition py_eq :: "mval \<Rightarrow> mval \<Rightarrow> bool" where
  "py_eq a b \<longleftrightarrow> py_value a = py_value b"

text \<open>\<open>x.get(...)\<close> needs an object; \<open>{}\<close> is the default of an absent one.\<close>

definition as_object :: "mval option \<Rightarrow> exn + mobj" where
  "as_object v = (case v of None \<Rightarrow> Inr [] | Some (MObj d) \<Rightarrow> Inr d | Some _ \<Rightarrow> Inl (TypeError ''not an object''))"

definition setdefault :: "string \<Rightarrow> mval \<Rightarrow> mobj \<Rightarrow> mobj" where
  "setdefault k v d = (if dget d k = None then d @ [(k, v)] else d)"

section \<open>Checks\<close>

definition job_char :: "char \<Rightarrow> bool" where
  "job_char c \<longleftrightarrow> (let n = ccode c in (48 \<le> n \<and> n \<le> 57) \<or> (65 \<le> n \<and> n \<le> 90) \<or> (97 \<le> n \<and> n \<le> 122) \<or> n = 95 \<or> n = 45)"

definition job_start :: "char \<Rightarrow> bool" where
  "job_start c \<longleftrightarrow> job_char c \<and> c \<noteq> CHR ''_'' \<and> c \<noteq> CHR ''-''"

definition job_id_ok :: "string \<Rightarrow> bool" where
  "job_id_ok s \<longleftrightarrow> (case s of [] \<Rightarrow> False | c # cs \<Rightarrow> job_start c \<and> list_all job_char cs \<and> length cs \<le> 59)"

definition queue_id :: "mval option \<Rightarrow> exn + string" where
  "queue_id v = (case v of
      Some (MStr s) \<Rightarrow> scheck (job_id_ok s) (ValueError ''queue IDs'') (Inr s)
    | _ \<Rightarrow> Inl (ValueError ''queue IDs''))"

definition positive :: "mval option \<Rightarrow> int \<Rightarrow> exn + int" where
  "positive v maximum = (case v of
      Some (MInt n) \<Rightarrow> scheck (1 \<le> n \<and> n \<le> maximum) (ValueError ''must be an integer'') (Inr n)
    | _ \<Rightarrow> Inl (ValueError ''must be an integer''))"

definition filter_keys :: "string list \<Rightarrow> mobj \<Rightarrow> mobj" where
  "filter_keys ks d = filter (\<lambda>(k, v). k \<in> set ks) d"

text \<open>Credentials and browser storage paths do not enter the queue.\<close>

definition frozen_config :: "mobj \<Rightarrow> exn + mobj" where
  "frozen_config config =
     sbind (as_object (dget config ''browser'')) (\<lambda>browser.
     (let d1 = dset ''browser'' (MObj (filter_keys [''relay_base'', ''timeout_seconds''] browser)) config in
     sbind (as_object (dget d1 ''routing'')) (\<lambda>routing.
     (let d2 = dset ''routing'' (MObj (filter_keys [''worker'', ''reviewer'', ''fallback'', ''roles'', ''openai_model'',
            ''openai_key_env''] routing)) d1 in
     sbind (as_object (dget d2 ''local_model'')) (\<lambda>loc.
       scheck (dget loc ''api_key'' \<in> {None, Some MNull, Some (MStr ''local'')})
         (ValueError ''secrets cannot enter MASTER_QUEUE'')
       (let d3 = (if dget d2 ''local_model'' = None then d2 else dset ''local_model'' (MObj (ddel ''api_key'' loc)) d2) in
        Inr (filter_keys [''browser'', ''local_model'', ''routing'', ''validation'', ''oma'', ''orchestrator'',
            ''default_acceptance_criteria''] d3)))))))"

section \<open>Measured admission\<close>

text \<open>The measurement a finished run leaves.\<close>

record measurement =
  me_run :: string
  me_created :: rat
  me_policy :: string
  me_live :: bool
  me_success :: bool
  me_elapsed :: rat
  me_seats :: int
  me_identity :: bool
  me_uncertain :: int
  me_overrun :: bool

definition seven_days :: rat where
  "seven_days = 7 * 86400"

definition eligible_runs :: "int \<Rightarrow> measurement list \<Rightarrow> string \<Rightarrow> rat \<Rightarrow> measurement list" where
  "eligible_runs requested ms policy now =
     map snd (fold (\<lambda>m. dset (me_run m) m) (filter (\<lambda>m. me_live m \<and> me_policy m = policy
       \<and> 0 \<le> now - me_created m \<and> now - me_created m \<le> seven_days \<and> requested - 1 \<le> me_seats m) ms) [])"

text \<open>The latency below which 95 of 100 runs lie.\<close>

definition p95_of :: "rat list \<Rightarrow> rat option" where
  "p95_of ls = (if ls = [] then None else Some (sort ls ! ((19 * length ls + 19) div 20 - 1)))"

definition scale_reasons :: "int \<Rightarrow> measurement list \<Rightarrow> string list" where
  "scale_reasons requested el =
     (let ls = filter (\<lambda>x. 0 < x) (map me_elapsed el);
          rate = (if el = [] then 0 else of_nat (length (filter me_success el)) / of_nat (length el) :: rat) in
      if requested \<le> 6 then [] else
        (if length el < 3 then [''samples''] else [])
        @ (if rate < 4 / 5 then [''success''] else [])
        @ (if length ls \<noteq> length el \<or> (case p95_of ls of None \<Rightarrow> True | Some p \<Rightarrow> p > 1800) then [''latency''] else [])
        @ (if \<exists>m \<in> set el. me_uncertain m \<noteq> 0 \<or> me_overrun m \<or> \<not> me_identity m then [''identity''] else []))"

definition seats_ok :: "mval option \<Rightarrow> exn + int" where
  "seats_ok v = (case v of
      Some (MInt n) \<Rightarrow> scheck (5 \<le> n \<and> n \<le> 8) (ValueError ''role catalog'') (Inr n)
    | _ \<Rightarrow> Inl (ValueError ''role catalog''))"

definition evaluate_scale :: "mval option \<Rightarrow> measurement list \<Rightarrow> string \<Rightarrow> rat \<Rightarrow> exn + string list" where
  "evaluate_scale agents ms policy now =
     sbind (seats_ok agents) (\<lambda>n. Inr (scale_reasons n (eligible_runs n ms policy now)))"

section \<open>Manifest\<close>

text \<open>The parsed manifest: \<open>None\<close> where a key is absent; the jobs, when a list, are objects.\<close>

record manifest =
  mf_version :: "mval option"
  mf_jobs :: "mobj list option"
  mf_limits :: "mval option"

text \<open>An element that cannot be put into a set raises \<open>TypeError\<close>.\<close>

definition hashable :: "mval \<Rightarrow> bool" where
  "hashable v = (case v of MList _ \<Rightarrow> False | MObj _ \<Rightarrow> False | _ \<Rightarrow> True)"

fun all_ids :: "mval list \<Rightarrow> exn + string list" where
  "all_ids [] = Inr []"
| "all_ids (v # vs) = sbind (queue_id (Some v)) (\<lambda>i. sbind (all_ids vs) (\<lambda>is. Inr (i # is)))"

definition check_dependencies :: "string \<Rightarrow> mval option \<Rightarrow> exn + string list" where
  "check_dependencies key v = (case v of
      Some (MList ds) \<Rightarrow>
        scheck (MStr key \<notin> set ds) (ValueError ''invalid dependencies'')
        (scheck (\<forall>d \<in> set ds. hashable d) (TypeError ''unhashable'')
        (scheck (distinct (map py_value ds)) (ValueError ''invalid dependencies'')
          (all_ids ds)))
    | _ \<Rightarrow> Inl (ValueError ''invalid dependencies''))"

definition check_objective :: "mval option \<Rightarrow> exn + string" where
  "check_objective v = (case v of
      Some (MStr s) \<Rightarrow> scheck (py_strip s \<noteq> []) (ValueError ''duplicate job or missing objective'')
        (scheck (int (length s) \<le> 12000) (ValueError ''objective exceeds context budget'') (Inr s))
    | _ \<Rightarrow> Inl (ValueError ''duplicate job or missing objective''))"

definition check_priority :: "mval option \<Rightarrow> exn + int" where
  "check_priority v = (case v of
      Some (MInt n) \<Rightarrow> scheck (0 \<le> n \<and> n \<le> 100) (ValueError ''priority must be 0..100'') (Inr n)
    | _ \<Rightarrow> Inl (ValueError ''priority must be 0..100''))"

definition check_budget :: "mval option \<Rightarrow> exn + unit" where
  "check_budget v = sbind (as_object v) (\<lambda>b.
     sbind (positive (dget b ''master'') 10000000) (\<lambda>_.
     sbind (positive (dget b ''secondary'') 10000000) (\<lambda>_.
     sbind (positive (dget b ''task'') 10000000) (\<lambda>_.
     sbind (positive (dget b ''seconds'') 3600) (\<lambda>_. Inr ())))))"

definition check_job :: "(string, mobj) dict \<Rightarrow> mobj \<Rightarrow> exn + (string \<times> mobj)" where
  "check_job specs item =
     sbind (queue_id (dget item ''id'')) (\<lambda>key.
     scheck (dget specs key = None) (ValueError ''duplicate job or missing objective'')
     (sbind (check_objective (dget item ''objective'')) (\<lambda>_.
     (let s1 = setdefault ''depends_on'' (MList []) item in
     sbind (check_dependencies key (dget s1 ''depends_on'')) (\<lambda>_.
     (let s2 = setdefault ''priority'' (MInt 0) s1 in
     sbind (check_priority (dget s2 ''priority'')) (\<lambda>_.
     (let s3 = setdefault ''agents'' (MInt 6) s2 in
     sbind (evaluate_scale (dget s3 ''agents'') [] [] 0) (\<lambda>_.
     sbind (check_budget (dget s3 ''budget'')) (\<lambda>_. Inr (key, s3)))))))))))"

fun check_jobs :: "(string, mobj) dict \<Rightarrow> mobj list \<Rightarrow> exn + (string, mobj) dict" where
  "check_jobs specs [] = Inr specs"
| "check_jobs specs (item # items) =
     sbind (check_job specs item) (\<lambda>(key, spec). check_jobs (dset key spec specs) items)"

text \<open>What later steps read of a checked specification.\<close>

definition str_of :: "mval \<Rightarrow> string" where
  "str_of v = (case v of MStr s \<Rightarrow> s | _ \<Rightarrow> [])"

definition int_of :: "mval option \<Rightarrow> int" where
  "int_of v = (case v of Some (MInt n) \<Rightarrow> n | _ \<Rightarrow> 0)"

definition deps_of :: "mobj \<Rightarrow> string list" where
  "deps_of spec = (case dget spec ''depends_on'' of Some (MList ds) \<Rightarrow> map str_of ds | _ \<Rightarrow> [])"

definition budget_of :: "mobj \<Rightarrow> string \<Rightarrow> int" where
  "budget_of spec k = (case dget spec ''budget'' of Some (MObj b) \<Rightarrow> int_of (dget b k) | _ \<Rightarrow> 0)"

section \<open>Dependencies\<close>

text \<open>
  The depth-first search over the specifications: \<open>visiting\<close> is the path to the job, \<open>visited\<close>
  the jobs already cleared. \<open>None\<close> stands for the \<open>ValueError\<close>, which ends the import.
\<close>

function visit :: "(string, mobj) dict \<Rightarrow> string list \<Rightarrow> string list \<Rightarrow> string \<Rightarrow> string list option"
  and visit_each :: "(string, mobj) dict \<Rightarrow> string list \<Rightarrow> string list \<Rightarrow> string list \<Rightarrow> string list option" where
  "visit specs visiting visited key =
     (if dget specs key = None \<or> key \<in> set visiting then None
      else if key \<in> set visited then Some visited
      else map_option ((#) key) (visit_each specs (key # visiting) visited (deps_of (the (dget specs key)))))"
| "visit_each specs visiting visited [] = Some visited"
| "visit_each specs visiting visited (d # ds) = (case visit specs visiting visited d of
      None \<Rightarrow> None | Some v \<Rightarrow> visit_each specs visiting v ds)"
  by pat_completeness auto

text \<open>A job joins the path only when it is in the file and not on it.\<close>

definition unvisited :: "(string, mobj) dict \<Rightarrow> string list \<Rightarrow> nat" where
  "unvisited specs visiting = card (fst ` set specs - set visiting)"

lemma unvisited_less: "dget specs key = Some v \<Longrightarrow> key \<notin> set visiting \<Longrightarrow> unvisited specs (key # visiting) < unvisited specs visiting"
  unfolding unvisited_def by (intro psubset_card_mono) (auto dest: dget_Some_key)

termination visit
  by (relation "measures [\<lambda>x. case x of Inl (g, p, _, _) \<Rightarrow> unvisited g p | Inr (g, p, _, _) \<Rightarrow> unvisited g p,
      \<lambda>x. case x of Inl _ \<Rightarrow> 0 | Inr (_, _, _, ds) \<Rightarrow> Suc (length ds)]")
    (auto intro: unvisited_less)

declare visit.simps [simp del]

section \<open>Database\<close>

text \<open>JSON columns hold the value they are parsed to, where the order of keys does not matter.\<close>

record job_row =
  jr_id :: string
  jr_spec :: mobj
  jr_config :: mobj
  jr_state :: string
  jr_created :: rat
  jr_updated :: rat
  jr_result :: "mval option"
  jr_measurement :: "measurement option"

record inbox_row =
  ib_job :: string
  ib_digest :: string
  ib_context :: mval
  ib_imported :: rat
  ib_acknowledged :: "rat option"
  ib_consumer :: "string option"

record mqueue =
  mq_limits :: "mval option"
  mq_jobs :: "job_row list"
  mq_inbox :: "inbox_row list"

definition empty_mqueue :: mqueue where
  "empty_mqueue = \<lparr>mq_limits = None, mq_jobs = [], mq_inbox = []\<rparr>"

definition job_by_id :: "string \<Rightarrow> mqueue \<Rightarrow> job_row option" where
  "job_by_id key q = find (\<lambda>r. jr_id r = key) (mq_jobs q)"

definition set_job :: "string \<Rightarrow> (job_row \<Rightarrow> job_row) \<Rightarrow> mqueue \<Rightarrow> mqueue" where
  "set_job key f q = q\<lparr>mq_jobs := map (\<lambda>r. if jr_id r = key then f r else r) (mq_jobs q)\<rparr>"

text \<open>\<open>BEGIN IMMEDIATE\<close> ... commit: a computation whose result replaces the database at the end.\<close>

definition transaction :: "(mqueue \<Rightarrow> exn + ('a \<times> mqueue)) \<Rightarrow> (mqueue, 'a) sx" where
  "transaction f q = (case f q of Inl e \<Rightarrow> (Inl e, q) | Inr (a, q') \<Rightarrow> (Inr a, q'))"

text \<open>What \<open>status\<close> and \<open>inbox\<close> report.\<close>

definition queue_status :: "mqueue \<Rightarrow> mval option \<times> (string \<times> string \<times> mobj \<times> mval option) list" where
  "queue_status q = (mq_limits q, map (\<lambda>r. (jr_id r, jr_state r, jr_spec r, jr_result r))
     (sort_key (\<lambda>r. (jr_created r, jr_id r)) (mq_jobs q)))"

definition inbox_listing :: "mqueue \<Rightarrow> inbox_row list" where
  "inbox_listing q = sort_key ib_imported (mq_inbox q)"

section \<open>Import\<close>

definition specs_of :: "job_row list \<Rightarrow> (string, mobj) dict" where
  "specs_of rows = map (\<lambda>r. (jr_id r, jr_spec r)) rows"

definition token_allocation :: "(string, mobj) dict \<Rightarrow> int" where
  "token_allocation specs = sum_list (map (\<lambda>(k, s). budget_of s ''master'' + budget_of s ''secondary'') specs)"

definition time_allocation :: "(string, mobj) dict \<Rightarrow> int" where
  "time_allocation specs = sum_list (map (\<lambda>(k, s). budget_of s ''seconds'') specs)"

fun insert_jobs :: "(string \<Rightarrow> rat) \<Rightarrow> mobj \<Rightarrow> (string, mobj) dict \<Rightarrow> job_row list \<Rightarrow> exn + job_row list" where
  "insert_jobs now frozen [] rows = Inr rows"
| "insert_jobs now frozen ((key, spec) # rest) rows = (case find (\<lambda>r. jr_id r = key) rows of
      Some r \<Rightarrow> scheck (canonical (MObj (jr_spec r)) = canonical (MObj spec)
            \<and> canonical (MObj (jr_config r)) = canonical (MObj frozen))
          (ValueError ''existing job is immutable; use a new ID'') (insert_jobs now frozen rest rows)
    | None \<Rightarrow> insert_jobs now frozen rest (rows @ [\<lparr>jr_id = key, jr_spec = spec, jr_config = frozen,
        jr_state = ''PENDING'', jr_created = now key, jr_updated = now key, jr_result = None, jr_measurement = None\<rparr>]))"

definition admit_jobs :: "(string \<Rightarrow> rat) \<Rightarrow> mobj \<Rightarrow> mobj \<Rightarrow> (string, mobj) dict \<Rightarrow> mqueue \<Rightarrow> exn + (unit \<times> mqueue)" where
  "admit_jobs now frozen limits specs q =
     (let all_specs = dupdate (specs_of (mq_jobs q)) specs in
      scheck (visit_each all_specs [] [] (dkeys all_specs) \<noteq> None) (ValueError ''missing dependency or cycle in MASTER_QUEUE'')
      (scheck (case mq_limits q of None \<Rightarrow> True | Some saved \<Rightarrow> py_eq saved (MObj limits))
        (ValueError ''queue limits are immutable; reimport cannot increase/reset them'')
      (scheck (token_allocation all_specs \<le> int_of (dget limits ''total_tokens'')
          \<and> time_allocation all_specs \<le> int_of (dget limits ''total_seconds''))
        (ValueError ''queue allocation exceeds project budget'')
      (sbind (insert_jobs now frozen specs (mq_jobs q)) (\<lambda>rows.
        Inr ((), q\<lparr>mq_jobs := rows,
          mq_limits := (case mq_limits q of None \<Rightarrow> Some (MObj limits) | Some l \<Rightarrow> Some l)\<rparr>))))))"

text \<open>\<open>options\<close>: whether \<open>engine_options\<close> takes the frozen configuration.\<close>

definition ingest :: "(mobj \<Rightarrow> exn + unit) \<Rightarrow> (string \<Rightarrow> rat) \<Rightarrow> manifest \<Rightarrow> mobj \<Rightarrow>
    (mqueue, mval option \<times> (string \<times> string \<times> mobj \<times> mval option) list) sx" where
  "ingest options now man config q =
     (let checked =
        (case mf_jobs man of
           None \<Rightarrow> Inl (ValueError ''MASTER_QUEUE schema_version=1 and jobs list required'')
         | Some items \<Rightarrow>
           scheck (case mf_version man of None \<Rightarrow> False | Some v \<Rightarrow> py_eq v (MInt 1))
             (ValueError ''MASTER_QUEUE schema_version=1 and jobs list required'')
           (sbind (as_object (mf_limits man)) (\<lambda>limits.
            sbind (positive (dget limits ''total_tokens'') 100000000) (\<lambda>_.
            sbind (positive (dget limits ''total_seconds'') (86400 * 7)) (\<lambda>_.
            sbind (frozen_config config) (\<lambda>frozen.
            sbind (options frozen) (\<lambda>_.
            sbind (check_jobs [] items) (\<lambda>specs. Inr (frozen, limits, specs)))))))))
      in case checked of
           Inl e \<Rightarrow> (Inl e, q)
         | Inr (frozen, limits, specs) \<Rightarrow>
             andthen (transaction (admit_jobs now frozen limits specs)) (gets queue_status) q)"

section \<open>Claims and results\<close>

text \<open>\<open>applied\<close>: whether the handoff file of a job's run says that it has been applied.\<close>

definition claimable :: "(string \<Rightarrow> bool) \<Rightarrow> job_row \<Rightarrow> bool" where
  "claimable applied r \<longleftrightarrow> jr_state r = ''PENDING'' \<and> (\<forall>d \<in> set (deps_of (jr_spec r)). applied d)"

definition claim_key :: "job_row \<Rightarrow> int \<times> rat \<times> string" where
  "claim_key r = (- int_of (dget (jr_spec r) ''priority''), jr_created r, jr_id r)"

definition claim :: "(string \<Rightarrow> bool) \<Rightarrow> rat \<Rightarrow> (mqueue, (mobj \<times> mobj) option) sx" where
  "claim applied now = transaction (\<lambda>q.
     scheck (\<forall>r \<in> set (mq_jobs q). jr_state r \<noteq> ''RUNNING'' \<and> jr_state r \<noteq> ''BLOCKED'')
       (ValueError ''queue blocked: unfinished/uncertain run requires operator attention'')
     (case sort_key claim_key (filter (claimable applied) (mq_jobs q)) of
        [] \<Rightarrow> Inr (None, q)
      | r # _ \<Rightarrow> Inr (Some (jr_spec r, jr_config r),
          set_job (jr_id r) (\<lambda>x. if jr_state x = ''PENDING'' then x\<lparr>jr_state := ''RUNNING'', jr_updated := now\<rparr> else x) q)))"

definition finish_job :: "rat \<Rightarrow> string \<Rightarrow> string \<Rightarrow> mval \<Rightarrow> measurement option \<Rightarrow> (mqueue, unit) sx" where
  "finish_job now key state outcome meas = transaction (\<lambda>q.
     scheck (\<exists>r \<in> set (mq_jobs q). jr_id r = key \<and> jr_state r = ''RUNNING'')
       (ValueError ''queue claim lost; refusing to overwrite final state'')
     (Inr ((), set_job key (\<lambda>x. if jr_state x = ''RUNNING''
        then x\<lparr>jr_state := state, jr_result := Some (canonical outcome), jr_measurement := meas, jr_updated := now\<rparr> else x) q)))"

section \<open>Inbox\<close>

definition inbox_of :: "string \<Rightarrow> mqueue \<Rightarrow> inbox_row option" where
  "inbox_of key q = find (\<lambda>b. ib_job b = key) (mq_inbox q)"

text \<open>\<open>handoff\<close>: the verified context of the job's run; \<open>digest\<close>: SHA-256 of its canonical text.\<close>

definition import_final :: "(string \<Rightarrow> exn + mval) \<Rightarrow> (mval \<Rightarrow> string) \<Rightarrow> rat \<Rightarrow> string \<Rightarrow> (mqueue, string) sx" where
  "import_final handoff digest now key q = (case sbind (queue_id (Some (MStr key))) handoff of
      Inl e \<Rightarrow> (Inl e, q)
    | Inr context_of \<Rightarrow> transaction (\<lambda>q.
        scheck (case job_by_id key q of None \<Rightarrow> False | Some r \<Rightarrow> jr_state r = ''CANDIDATE_READY'')
          (ValueError ''job has no final candidate to import'')
        (scheck (case inbox_of key q of None \<Rightarrow> True | Some b \<Rightarrow> ib_digest b = digest context_of)
          (ValueError ''imported candidate changed; refuse context overwrite'')
        (Inr (digest context_of, if inbox_of key q = None then q\<lparr>mq_inbox := mq_inbox q @
            [\<lparr>ib_job = key, ib_digest = digest context_of, ib_context = canonical context_of, ib_imported = now,
              ib_acknowledged = None, ib_consumer = None\<rparr>]\<rparr> else q)))) q)"

definition acknowledge :: "rat \<Rightarrow> string \<Rightarrow> string \<Rightarrow> string \<Rightarrow> (mqueue, unit) sx" where
  "acknowledge now key checksum consumer q =
     (case sbind (queue_id (Some (MStr key))) (\<lambda>_. queue_id (Some (MStr consumer))) of
        Inl e \<Rightarrow> (Inl e, q)
      | Inr _ \<Rightarrow> transaction (\<lambda>q.
          (case find (\<lambda>b. ib_job b = key \<and> ib_digest b = checksum) (mq_inbox q) of
             None \<Rightarrow> Inl (ValueError ''acknowledgement must name the exact imported context and consumer'')
           | Some b \<Rightarrow> scheck (ib_consumer b = None \<or> ib_consumer b = Some consumer)
               (ValueError ''acknowledgement must name the exact imported context and consumer'')
               (Inr ((), q\<lparr>mq_inbox := map (\<lambda>x. if ib_job x = key then x\<lparr>ib_acknowledged :=
                   (case ib_acknowledged x of None \<Rightarrow> Some now | Some t \<Rightarrow> Some t), ib_consumer := Some consumer\<rparr> else x)
                 (mq_inbox q)\<rparr>)))) q)"

section \<open>Closure by the operator\<close>

text \<open>\<open>locked\<close>: another process holds the worker lock.\<close>

definition abandon_record :: "job_row \<Rightarrow> string \<Rightarrow> mval" where
  "abandon_record r reason = MObj [(''status'', MStr ''FAILED''), (''abandoned_by_operator'', MBool True),
     (''reason'', MStr reason), (''previous_state'', MStr (jr_state r)),
     (''previous_result'', case jr_result r of None \<Rightarrow> MNull | Some v \<Rightarrow> v),
     (''replay_allowed'', MBool False), (''allocation_refunded'', MBool False)]"

definition abandon :: "bool \<Rightarrow> rat \<Rightarrow> string \<Rightarrow> string \<Rightarrow> (mqueue, mval) sx" where
  "abandon locked now key reason q =
     (case sbind (queue_id (Some (MStr key))) (\<lambda>_. scheck (py_strip reason \<noteq> [] \<and> int (length reason) \<le> 1000)
         (ValueError ''operator reason (1..1000 characters) required'')
         (scheck (\<not> locked) WouldBlock (Inr ()))) of
        Inl e \<Rightarrow> (Inl e, q)
      | Inr _ \<Rightarrow> transaction (\<lambda>q.
          (case job_by_id key q of
             None \<Rightarrow> Inl (ValueError ''only unfinished jobs may be explicitly abandoned'')
           | Some r \<Rightarrow> scheck (jr_state r \<in> {''RUNNING'', ''BLOCKED'', ''PENDING''})
               (ValueError ''only unfinished jobs may be explicitly abandoned'')
               (Inr (abandon_record r reason, set_job key (\<lambda>x. x\<lparr>jr_state := ''FAILED'',
                   jr_result := Some (canonical (abandon_record r reason)), jr_updated := now\<rparr>) q)))) q)"

section \<open>One job\<close>

text \<open>
  What happens around the run: whether the configuration is taken and its backend is trusted,
  the fingerprint of the control code, the state of the conversation pool before and after, the
  run itself, which raises or gives whether a candidate is ready, its summary and its
  measurement, the text of an exception, and whether it is a cancellation, which is raised again.
\<close>

record surroundings =
  su_options :: "mobj \<Rightarrow> exn + unit"
  su_trusted :: "mobj \<Rightarrow> bool"
  su_policy :: "mobj \<Rightarrow> string"
  su_pool_before :: string
  su_pool_after :: string
  su_run :: "mobj \<Rightarrow> exn + (bool \<times> mval \<times> measurement)"
  su_text :: "exn \<Rightarrow> string"
  su_cancelled :: "exn \<Rightarrow> bool"

definition measured :: "mqueue \<Rightarrow> measurement list" where
  "measured q = concat (map (\<lambda>r. case jr_measurement r of None \<Rightarrow> [] | Some m \<Rightarrow> [m]) (mq_jobs q))"

definition attempt :: "surroundings \<Rightarrow> rat \<Rightarrow> mobj \<Rightarrow> mobj \<Rightarrow> mqueue \<Rightarrow> exn + (bool \<times> mval \<times> measurement)" where
  "attempt su now spec config q =
     sbind (su_options su config) (\<lambda>_.
     scheck (su_trusted su config) (ValueError ''queue candidate execution requires Docker or explicit --trust-workspace'')
     (sbind (evaluate_scale (dget spec ''agents'') (measured q) (su_policy su config) now) (\<lambda>reasons.
     scheck (reasons = []) (ValueError ''SCALE_GATE'')
     (scheck (su_pool_before su \<in> {''ABSENT'', ''IDLE''}) (ValueError ''persistent project conversations require reconciliation'')
     (sbind (su_run su spec) (\<lambda>r.
     scheck (su_pool_after su \<in> {''ABSENT'', ''IDLE''}) (ValueError ''run ended with unresolved conversation delivery'')
     (Inr r)))))))"

definition blocked_summary :: "string \<Rightarrow> mval" where
  "blocked_summary e = MObj [(''status'', MStr ''BLOCKED''), (''error'', MStr e), (''replay_allowed'', MBool False)]"

text \<open>
  \<open>run_next\<close>: claim, attempt, record. An attempt that raises leaves the job BLOCKED with an
  answer; one whose run gave no candidate leaves it FAILED.
\<close>

definition run_next :: "bool \<Rightarrow> (string \<Rightarrow> bool) \<Rightarrow> surroundings \<Rightarrow> (string \<Rightarrow> exn + mval) \<Rightarrow> (mval \<Rightarrow> string) \<Rightarrow> rat \<Rightarrow>
    (mqueue, mval) sx" where
  "run_next locked applied su handoff digest now =
     (if locked then throw WouldBlock else
      bnd (claim applied now) (\<lambda>claimed. case claimed of
        None \<Rightarrow> ret (MObj [(''status'', MStr ''IDLE_OR_WAITING_FOR_DEPENDENCY_PROMOTION'')])
      | Some (spec, config) \<Rightarrow>
          (let key = str_of (the (dget spec ''id'')) in
           bnd (gets (attempt su now spec config)) (\<lambda>r. case r of
             Inl e \<Rightarrow> andthen (finish_job now key ''BLOCKED'' (blocked_summary (su_text su e)) None)
                 (if su_cancelled su e then throw e else ret (blocked_summary (su_text su e)))
           | Inr (candidate, summary, meas) \<Rightarrow>
               andthen (finish_job now key (if candidate then ''CANDIDATE_READY'' else ''FAILED'') summary (Some meas))
               (if candidate then andthen (bnd (import_final handoff digest now key) (\<lambda>_. ret ())) (ret summary)
                else ret summary)))))"

end
