(* ===== verification/Master_Queue_Properties.thy ===== *)
theory Master_Queue_Properties
  imports Master_Queue
begin

text \<open>
  The dependency check of the project queue accepts exactly the plans that can be carried out;
  allocations stay within the frozen limits, one job is under way at a time and none is run
  twice, in every history of imports, claims, results and closures.
\<close>

section \<open>The dependency check\<close>

text \<open>\<open>(d, k)\<close>: job \<open>k\<close> waits for job \<open>d\<close>.\<close>

definition waits_for :: "(string, mobj) dict \<Rightarrow> (string \<times> string) set" where
  "waits_for specs = {(d, k). \<exists>s. dget specs k = Some s \<and> d \<in> set (deps_of s)}"

definition plan_ok :: "(string, mobj) dict \<Rightarrow> bool" where
  "plan_ok specs \<longleftrightarrow> fst ` waits_for specs \<subseteq> set (dkeys specs) \<and> acyclic (waits_for specs)"

fun cleared :: "(string, mobj) dict \<Rightarrow> string list \<Rightarrow> bool" where
  "cleared specs [] = True"
| "cleared specs (k # v) \<longleftrightarrow> (\<exists>s. dget specs k = Some s \<and> set (deps_of s) \<subseteq> set v) \<and> cleared specs v"

lemma cleared_visit:
  "visit specs p v k = Some v' \<Longrightarrow> cleared specs v \<Longrightarrow> cleared specs v' \<and> set v \<union> {k} \<subseteq> set v'"
  "visit_each specs p v ks = Some v' \<Longrightarrow> cleared specs v \<Longrightarrow> cleared specs v' \<and> set v \<union> set ks \<subseteq> set v'"
proof (induction specs p v k and specs p v ks arbitrary: v' and v' rule: visit_visit_each.induct)
  case (1 specs p v k)
  show ?case
  proof (cases "k \<in> set v")
    case True
    with 1 show ?thesis by (auto simp: visit.simps [of specs p v k] split: if_splits)
  next
    case False
    with 1(2) obtain s u where s: "dget specs k = Some s" "k \<notin> set p" "visit_each specs (k # p) v (deps_of s) = Some u" "v' = k # u"
      by (auto simp: visit.simps [of specs p v k] split: if_splits)
    with 1 False have "cleared specs u \<and> set v \<union> set (deps_of s) \<subseteq> set u" by auto
    with s show ?thesis by auto
  qed
next
  case (2 specs p v)
  then show ?case by simp
next
  case (3 specs p v d ds)
  from "3.prems"(1) obtain u where u: "visit specs p v d = Some u" "visit_each specs p u ds = Some v'"
    by (auto split: option.splits)
  then show ?case using "3.IH"(1) [OF u(1) "3.prems"(2)] "3.IH"(2) [OF u(1) u(2)] by auto
qed

lemma cleared_acc: "cleared specs v \<Longrightarrow> set v \<subseteq> Wellfounded.acc (waits_for specs)"
proof (induction v)
  case (Cons j v)
  then have v: "set v \<subseteq> Wellfounded.acc (waits_for specs)" by simp
  from Cons have "\<And>d. (d, j) \<in> waits_for specs \<Longrightarrow> d \<in> set v" by (auto simp: waits_for_def)
  then have "j \<in> Wellfounded.acc (waits_for specs)" using v by (blast intro: accI)
  with v show ?case by simp
qed simp

lemma cleared_closed: "cleared specs v \<Longrightarrow> k \<in> set v \<Longrightarrow> dget specs k = Some s \<and> d \<in> set (deps_of s) \<Longrightarrow> d \<in> set v"
  by (induction v) auto

lemma cleared_known: "cleared specs v \<Longrightarrow> k \<in> set v \<Longrightarrow> dget specs k \<noteq> None"
  by (induction v) auto

lemma visit_finds:
  assumes "plan_ok specs"
  shows "\<lbrakk>\<forall>x \<in> set p. (k, x) \<in> (waits_for specs)\<^sup>+; dget specs k \<noteq> None\<rbrakk> \<Longrightarrow> visit specs p v k \<noteq> None"
    and "\<lbrakk>\<forall>j \<in> set ks. dget specs j \<noteq> None \<and> (\<forall>x \<in> set p. (j, x) \<in> (waits_for specs)\<^sup>+)\<rbrakk> \<Longrightarrow> visit_each specs p v ks \<noteq> None"
  using assms
proof (induction specs p v k and specs p v ks rule: visit_visit_each.induct)
  case (1 specs p v k)
  from "1.prems" obtain s where s: "dget specs k = Some s" by auto
  have k: "k \<notin> set p" using "1.prems" by (auto simp: plan_ok_def acyclic_def)
  have sub: "\<forall>d \<in> set (deps_of s). dget specs d \<noteq> None \<and> (\<forall>x \<in> set (k # p). (d, x) \<in> (waits_for specs)\<^sup>+)"
  proof
    fix d assume "d \<in> set (deps_of s)"
    then have d: "(d, k) \<in> waits_for specs" using s by (auto simp: waits_for_def)
    then have "d \<in> fst ` waits_for specs" by force
    then have "dget specs d \<noteq> None" using "1.prems"(3) by (auto simp: plan_ok_def map_of_eq_None_iff)
    moreover have "(d, x) \<in> (waits_for specs)\<^sup>+" if "x \<in> set (k # p)" for x
      using that d "1.prems"(1) by (auto intro: trancl_into_trancl2)
    ultimately show "dget specs d \<noteq> None \<and> (\<forall>x \<in> set (k # p). (d, x) \<in> (waits_for specs)\<^sup>+)" by blast
  qed
  show ?case
  proof (cases "k \<in> set v")
    case True
    with s k show ?thesis by (simp add: visit.simps [of specs p v k])
  next
    case False
    then have "visit_each specs (k # p) v (deps_of s) \<noteq> None"
      using "1.IH" s k sub "1.prems"(3) by simp
    with s k False show ?thesis by (simp add: visit.simps [of specs p v k])
  qed
next
  case (2 specs p v)
  then show ?case by simp
next
  case (3 specs p v d ds)
  then obtain u where "visit specs p v d = Some u" by fastforce
  with 3 show ?case by (simp del: not_None_eq)
qed

lemma plan_check: "visit_each specs [] [] (dkeys specs) \<noteq> None \<longleftrightarrow> plan_ok specs"
  unfolding plan_ok_def
proof
  assume "visit_each specs [] [] (dkeys specs) \<noteq> None"
  then obtain v where v: "visit_each specs [] [] (dkeys specs) = Some v" by auto
  note clr = cleared_visit(2) [OF v]
  have all: "fst ` set specs \<subseteq> set v" using clr by simp
  have "k \<in> Wellfounded.acc (waits_for specs)" for k
  proof (cases "k \<in> set v")
    case True
    then show ?thesis using cleared_acc [of specs v] clr by auto
  next
    case False
    then have "dget specs k = None" using all by (auto simp: map_of_eq_None_iff)
    then have "\<And>d. (d, k) \<notin> waits_for specs" by (simp add: waits_for_def)
    then show ?thesis by (blast intro: accI)
  qed
  then have "acyclic (waits_for specs)" by (intro wf_acyclic) (simp add: wf_iff_acc)
  moreover have "d \<in> set (dkeys specs)" if "(d, k) \<in> waits_for specs" for d k
  proof -
    from that obtain s where s: "dget specs k = Some s" "d \<in> set (deps_of s)" by (auto simp: waits_for_def)
    then have "k \<in> set v" using all dget_Some_key [OF s(1)] by auto
    then have "d \<in> set v" using cleared_closed [of specs v k s d] clr s by simp
    then show ?thesis using cleared_known [of specs v d] clr by (auto simp: map_of_eq_None_iff)
  qed
  ultimately show "fst ` waits_for specs \<subseteq> set (dkeys specs) \<and> acyclic (waits_for specs)" by auto
next
  assume "fst ` waits_for specs \<subseteq> set (dkeys specs) \<and> acyclic (waits_for specs)"
  then have "plan_ok specs" by (simp add: plan_ok_def)
  then show "visit_each specs [] [] (dkeys specs) \<noteq> None"
    by (rule visit_finds(2)) (auto simp: map_of_eq_None_iff)
qed

section \<open>What the checks read of a specification\<close>

fun json_ok :: "mval \<Rightarrow> bool" where
  "json_ok (MList xs) \<longleftrightarrow> (\<forall>x \<in> set xs. json_ok x)"
| "json_ok (MObj d) \<longleftrightarrow> dict_ok d \<and> (\<forall>p \<in> set d. json_ok (snd p))"
| "json_ok v \<longleftrightarrow> True"

lemma sorted_get:
  assumes "dict_ok d"
  shows "dget (sort_key fst (map (\<lambda>(k, v). (k, f v)) d)) k = map_option f (dget d k)"
proof -
  let ?d = "sort_key fst (map (\<lambda>(k, v). (k, f v)) d)"
  have "map fst (map (\<lambda>(k, v). (k, f v)) d) = map fst d" by auto
  then have "dict_ok (map (\<lambda>(k, v). (k, f v)) d)" using assms by (simp only:)
  then have ok: "dict_ok ?d" by (simp only: distinct_map distinct_sort set_sort)
  have "dget ?d k = Some w \<longleftrightarrow> (\<exists>v. dget d k = Some v \<and> w = f v)" for w
    unfolding dget_Some_iff [OF ok] dget_Some_iff [OF assms] by force
  then show ?thesis by (cases "dget d k"; cases "dget ?d k") (auto simp del: map_of_eq_Some_iff)
qed

lemma canonical_get:
  assumes "canonical (MObj a) = canonical (MObj b)" "dict_ok a" "dict_ok b"
  shows "map_option canonical (dget a k) = map_option canonical (dget b k)"
  using assms sorted_get [of a canonical k] sorted_get [of b canonical k] by simp

lemma py_value_get:
  assumes "py_eq (MObj a) (MObj b)" "dict_ok a" "dict_ok b"
  shows "map_option py_value (dget a k) = map_option py_value (dget b k)"
  using assms sorted_get [of a py_value k] sorted_get [of b py_value k] by (simp add: py_eq_def)

lemma int_of_canonical [simp]: "int_of (map_option canonical v) = int_of v"
  by (simp add: int_of_def split: option.split mval.split)

lemma str_of_canonical [simp]: "str_of (canonical v) = str_of v"
  by (simp add: str_of_def split: mval.split)

lemma canonical_cases:
  "canonical v = MList ys \<longleftrightarrow> (\<exists>xs. v = MList xs \<and> ys = map canonical xs)"
  "canonical v = MObj e \<longleftrightarrow> (\<exists>d. v = MObj d \<and> e = sort_key fst (map (\<lambda>(k, v). (k, canonical v)) d))"
  by (cases v; auto)+

lemma canonical_deps:
  assumes "canonical (MObj a) = canonical (MObj b)" "dict_ok a" "dict_ok b"
  shows "deps_of a = deps_of b"
proof -
  have "deps_of c = (case map_option canonical (dget c ''depends_on'') of Some (MList ds) \<Rightarrow> map str_of ds | _ \<Rightarrow> [])" for c
    by (simp add: deps_of_def split: option.split mval.split)
  then show ?thesis using canonical_get [OF assms] by metis
qed

lemma canonical_budget:
  assumes "canonical (MObj a) = canonical (MObj b)" "json_ok (MObj a)" "json_ok (MObj b)"
  shows "budget_of a = budget_of b"
proof
  fix k
  have *: "budget_of c k = (case map_option canonical (dget c ''budget'') of Some (MObj d) \<Rightarrow> int_of (dget d k) | _ \<Rightarrow> 0)"
    if c: "json_ok (MObj c)" for c
  proof (cases "dget c ''budget''")
    case (Some v)
    then have "json_ok v" using map_of_SomeD [OF Some] c by auto
    then show ?thesis using Some sorted_get [of _ canonical k]
      by (cases v) (simp_all add: budget_of_def)
  qed (simp add: budget_of_def)
  show "budget_of a k = budget_of b k"
    using * [OF assms(2)] * [OF assms(3)] canonical_get [OF assms(1), of "''budget''"] assms(2,3)
    by (simp only: json_ok.simps)
qed

text \<open>A specification as the queue's own checks see it.\<close>

definition essence :: "string \<times> mobj \<Rightarrow> string \<times> (string list \<times> (string \<Rightarrow> int))" where
  "essence p = (fst p, deps_of (snd p), budget_of (snd p))"

lemma essence_get: "dget (map essence d) k = map_option (\<lambda>s. (deps_of s, budget_of s)) (dget d k)"
  by (induction d) (auto simp: essence_def)

lemma essence_set: "map essence (dset k s d) = dset k (deps_of s, budget_of s) (map essence d)"
  by (induction d) (auto simp: essence_def)

lemma essence_plan: "map essence a = map essence b \<Longrightarrow> plan_ok a = plan_ok b"
proof -
  assume *: "map essence a = map essence b"
  have keys: "dkeys c = map fst (map essence c)" for c by (simp add: essence_def comp_def)
  have "waits_for c = {(d, k). \<exists>x. dget (map essence c) k = Some x \<and> d \<in> set (fst x)}" for c
    by (auto simp: waits_for_def essence_get)
  then show ?thesis using * by (simp only: plan_ok_def keys)
qed

lemma essence_sums:
  assumes "map essence a = map essence b"
  shows "token_allocation a = token_allocation b" "time_allocation a = time_allocation b"
proof -
  have "token_allocation c = sum_list (map (\<lambda>(k, ds, bu). bu ''master'' + bu ''secondary'') (map essence c))" for c
    by (simp add: token_allocation_def essence_def comp_def case_prod_unfold)
  moreover have "time_allocation c = sum_list (map (\<lambda>(k, ds, bu). bu ''seconds'') (map essence c))" for c
    by (simp add: time_allocation_def essence_def comp_def case_prod_unfold)
  ultimately show "token_allocation a = token_allocation b" "time_allocation a = time_allocation b"
    by (simp_all only: assms)
qed

section \<open>The state of the queue\<close>

text \<open>How far a job has come; nothing leads back.\<close>

definition stage :: "string \<Rightarrow> nat" where
  "stage s = (if s = ''PENDING'' then 0 else if s = ''RUNNING'' then 1 else if s = ''BLOCKED'' then 2 else 3)"

definition active :: "job_row \<Rightarrow> bool" where
  "active r \<longleftrightarrow> jr_state r = ''RUNNING'' \<or> jr_state r = ''BLOCKED''"

definition limits_hold :: "mqueue \<Rightarrow> bool" where
  "limits_hold q \<longleftrightarrow> (case mq_limits q of
      None \<Rightarrow> mq_jobs q = []
    | Some l \<Rightarrow> (\<exists>d m n. l = MObj d \<and> dict_ok d \<and> dget d ''total_tokens'' = Some (MInt m) \<and> dget d ''total_seconds'' = Some (MInt n)
        \<and> token_allocation (specs_of (mq_jobs q)) \<le> m \<and> time_allocation (specs_of (mq_jobs q)) \<le> n))"

definition inbox_ok :: "mqueue \<Rightarrow> bool" where
  "inbox_ok q \<longleftrightarrow> (\<forall>b \<in> set (mq_inbox q). \<exists>r \<in> set (mq_jobs q). jr_id r = ib_job b \<and> jr_state r = ''CANDIDATE_READY'')"

definition mq_sound :: "mqueue \<Rightarrow> bool" where
  "mq_sound q \<longleftrightarrow> distinct (map jr_id (mq_jobs q)) \<and> (\<forall>r \<in> set (mq_jobs q). json_ok (MObj (jr_spec r)))
     \<and> length (filter active (mq_jobs q)) \<le> 1 \<and> plan_ok (specs_of (mq_jobs q)) \<and> limits_hold q \<and> inbox_ok q"

text \<open>What an operation may do to the jobs: nothing, add pending ones, move one forward.\<close>

inductive evolves :: "job_row list \<Rightarrow> job_row list \<Rightarrow> bool" where
  evolves_same: "evolves rows rows"
| evolves_more: "\<forall>r \<in> set new. jr_state r = ''PENDING'' \<and> jr_id r \<notin> jr_id ` set rows \<Longrightarrow> distinct (map jr_id new) \<Longrightarrow> evolves rows (rows @ new)"
| evolves_move: "stage (jr_state r) < stage (jr_state (f r)) \<Longrightarrow> jr_id (f r) = jr_id r \<Longrightarrow> jr_spec (f r) = jr_spec r
    \<Longrightarrow> jr_config (f r) = jr_config r \<Longrightarrow> evolves (xs @ r # ys) (xs @ f r # ys)"

lemma set_job_split:
  assumes "distinct (map jr_id (mq_jobs q))" "mq_jobs q = xs @ r # ys"
  shows "mq_jobs (set_job (jr_id r) f q) = xs @ f r # ys"
proof -
  have "jr_id x \<noteq> jr_id r" if "x \<in> set xs \<union> set ys" for x using assms that by (auto simp: image_iff)
  then have "map (\<lambda>x. if jr_id x = jr_id r then f x else x) xs = xs" "map (\<lambda>x. if jr_id x = jr_id r then f x else x) ys = ys"
    by (simp_all add: map_idI)
  then show ?thesis using assms by (simp add: set_job_def)
qed

lemma set_job_evolves:
  assumes "distinct (map jr_id (mq_jobs q))" "r \<in> set (mq_jobs q)"
    "stage (jr_state r) < stage (jr_state (f r))" "jr_id (f r) = jr_id r" "jr_spec (f r) = jr_spec r" "jr_config (f r) = jr_config r"
  shows "\<exists>xs ys. mq_jobs q = xs @ r # ys \<and> mq_jobs (set_job (jr_id r) f q) = xs @ f r # ys
    \<and> evolves (mq_jobs q) (mq_jobs (set_job (jr_id r) f q))"
proof -
  obtain xs ys where "mq_jobs q = xs @ r # ys" using assms(2) by (meson split_list)
  then show ?thesis using set_job_split [OF assms(1)] evolves_move assms(3-6) by metis
qed

lemma specs_of_move: "jr_id s = jr_id r \<Longrightarrow> jr_spec s = jr_spec r \<Longrightarrow> specs_of (xs @ s # ys) = specs_of (xs @ r # ys)"
  by (simp add: specs_of_def)

text \<open>Moving one job keeps the queue sound when the move does not add an active one.\<close>

lemma sound_move:
  assumes q: "mq_sound q" and jobs: "mq_jobs q = xs @ r # ys" "mq_jobs q' = xs @ s # ys"
    and same: "jr_id s = jr_id r" "jr_spec s = jr_spec r" "mq_limits q' = mq_limits q" "mq_inbox q' = mq_inbox q"
    and act: "active s \<Longrightarrow> active r \<or> filter active (mq_jobs q) = []"
    and final: "jr_state r = ''CANDIDATE_READY'' \<Longrightarrow> jr_state s = ''CANDIDATE_READY''"
  shows "mq_sound q'"
proof -
  have "specs_of (mq_jobs q') = specs_of (mq_jobs q)"
    unfolding jobs using same(1,2) by (rule specs_of_move)
  moreover have "length (filter active (mq_jobs q')) \<le> 1"
  proof -
    have one: "length (filter active (xs @ r # ys)) \<le> 1" using q unfolding mq_sound_def jobs by blast
    show ?thesis
    proof (cases "active s \<and> \<not> active r")
      case True
      then have "filter active xs = []" "filter active ys = []" using act by (simp_all add: jobs)
      then show ?thesis by (simp add: jobs)
    next
      case False
      then show ?thesis using one by (cases "active s"; cases "active r") (simp_all add: jobs)
    qed
  qed
  moreover have "inbox_ok q'"
    unfolding inbox_ok_def same jobs
  proof
    fix b assume "b \<in> set (mq_inbox q)"
    then obtain x where x: "x \<in> set (xs @ r # ys)" "jr_id x = ib_job b" "jr_state x = ''CANDIDATE_READY''"
      using q unfolding mq_sound_def inbox_ok_def jobs by blast
    then show "\<exists>y \<in> set (xs @ s # ys). jr_id y = ib_job b \<and> jr_state y = ''CANDIDATE_READY''"
      using final same(1) by (cases "x = r") auto
  qed
  moreover have "mq_jobs q' = [] \<longleftrightarrow> mq_jobs q = []" by (simp add: jobs)
  moreover have "\<forall>r \<in> set (mq_jobs q'). json_ok (MObj (jr_spec r))" "distinct (map jr_id (mq_jobs q'))"
    using q same unfolding mq_sound_def jobs by auto
  ultimately show ?thesis
    using q same unfolding mq_sound_def limits_hold_def by (simp add: same split: option.splits)
qed

section \<open>Imports\<close>

lemma find_job: "find (\<lambda>r. jr_id r = key) rows = None \<longleftrightarrow> key \<notin> jr_id ` set rows"
  by (auto simp: find_None_iff)

lemma insert_jobs_rows:
  "insert_jobs now frozen specs rows = Inr rows' \<Longrightarrow> distinct (map jr_id rows)
   \<Longrightarrow> \<exists>new. rows' = rows @ new \<and> distinct (map jr_id rows')
     \<and> (\<forall>r \<in> set new. jr_state r = ''PENDING'' \<and> jr_id r \<notin> jr_id ` set rows \<and> jr_spec r \<in> snd ` set specs)"
proof (induction now frozen specs rows arbitrary: rows' rule: insert_jobs.induct)
  case (2 now frozen key spec rest rows)
  show ?case
  proof (cases "find (\<lambda>r. jr_id r = key) rows")
    case None
    let ?r = "\<lparr>jr_id = key, jr_spec = spec, jr_config = frozen, jr_state = ''PENDING'', jr_created = now key,
      jr_updated = now key, jr_result = None, jr_measurement = None\<rparr>"
    have key: "key \<notin> jr_id ` set rows" using None by (simp add: find_job)
    have "insert_jobs now frozen rest (rows @ [?r]) = Inr rows'" using 2(3) None by simp
    then obtain new where new: "rows' = (rows @ [?r]) @ new" "distinct (map jr_id rows')"
      "\<forall>r \<in> set new. jr_state r = ''PENDING'' \<and> jr_id r \<notin> jr_id ` set (rows @ [?r]) \<and> jr_spec r \<in> snd ` set rest"
      using 2(1) [OF None, of rows'] 2(4) key by auto
    then show ?thesis using key by (intro exI [of _ "?r # new"]) auto
  next
    case (Some r)
    then have "insert_jobs now frozen rest rows = Inr rows'" using 2(3) by (simp add: scheck_Inr)
    then show ?thesis using 2(2) [OF Some _ 2(4)] by fastforce
  qed
qed simp

lemma insert_jobs_essence:
  "insert_jobs now frozen specs rows = Inr rows' \<Longrightarrow> distinct (map jr_id rows)
   \<Longrightarrow> map essence (specs_of rows) = map essence acc
   \<Longrightarrow> \<forall>r \<in> set rows. json_ok (MObj (jr_spec r)) \<Longrightarrow> \<forall>p \<in> set specs. json_ok (MObj (snd p))
   \<Longrightarrow> map essence (specs_of rows') = map essence (dupdate acc specs)"
proof (induction now frozen specs rows arbitrary: rows' acc rule: insert_jobs.induct)
  case (1 now frozen rows)
  then show ?case by (simp add: dupdate_def)
next
  case (2 now frozen key spec rest rows)
  have step: "dupdate acc ((key, spec) # rest) = dupdate (dset key spec acc) rest" by (simp add: dupdate_def)
  have get: "dget (map essence acc) key = map_option (\<lambda>s. (deps_of s, budget_of s)) (dget (specs_of rows) key)"
    using 2(5) essence_get [of "specs_of rows" key] by simp
  show ?case
  proof (cases "find (\<lambda>r. jr_id r = key) rows")
    case None
    let ?r = "\<lparr>jr_id = key, jr_spec = spec, jr_config = frozen, jr_state = ''PENDING'', jr_created = now key,
      jr_updated = now key, jr_result = None, jr_measurement = None\<rparr>"
    have key: "key \<notin> jr_id ` set rows" using None by (simp add: find_job)
    then have "dget (specs_of rows) key = None" by (auto simp: specs_of_def map_of_eq_None_iff)
    then have "dget (map essence acc) key = None" using get by simp
    then have "map essence (specs_of (rows @ [?r])) = map essence (dset key spec acc)"
    proof -
      have "specs_of (rows @ [?r]) = specs_of rows @ [(key, spec)]" by (simp add: specs_of_def)
      moreover have "essence (key, spec) = (key, deps_of spec, budget_of spec)" by (simp add: essence_def)
      ultimately show ?thesis
        unfolding essence_set dset_fresh [OF \<open>dget (map essence acc) key = None\<close>] using 2(5) by simp
    qed
    then show ?thesis
      unfolding step using 2(3,4,6,7) None key by (intro 2(1) [OF None]) auto
  next
    case (Some r)
    then have r: "jr_id r = key" "r \<in> set rows" by (auto simp: find_Some_iff)
    have ins: "insert_jobs now frozen rest rows = Inr rows'" "canonical (MObj (jr_spec r)) = canonical (MObj spec)"
      using 2(3) Some by (simp_all add: scheck_Inr)
    have "dget (specs_of rows) key = Some (jr_spec r)"
      using r 2(4) by (auto simp: specs_of_def comp_def)
    moreover have "deps_of (jr_spec r) = deps_of spec" "budget_of (jr_spec r) = budget_of spec"
      using canonical_deps [OF ins(2)] canonical_budget [OF ins(2)] 2(6,7) r by auto
    ultimately have "map essence (dset key spec acc) = map essence acc"
      unfolding essence_set using get by (intro dset_same) simp
    then show ?thesis
      unfolding step using 2(4-7) ins(1) by (intro 2(2) [OF Some]) auto
  qed
qed

text \<open>What the checks of a manifest leave.\<close>

lemma setdefault_json: "json_ok (MObj d) \<Longrightarrow> json_ok v \<Longrightarrow> json_ok (MObj (setdefault k v d))"
  by (auto simp: setdefault_def map_of_eq_None_iff)

lemma check_job_json: "check_job specs item = Inr (k, s) \<Longrightarrow> json_ok (MObj item) \<Longrightarrow> json_ok (MObj s)"
  unfolding check_job_def Let_def sbind_Inr scheck_Inr
  by (elim exE conjE, drule Inr_inject) (auto intro!: setdefault_json simp del: json_ok.simps(2))

lemma check_jobs_json:
  "check_jobs specs items = Inr specs' \<Longrightarrow> \<forall>i \<in> set items. json_ok (MObj i)
   \<Longrightarrow> dict_ok specs \<and> (\<forall>p \<in> set specs. json_ok (MObj (snd p)))
   \<Longrightarrow> dict_ok specs' \<and> (\<forall>p \<in> set specs'. json_ok (MObj (snd p)))"
proof (induction specs items arbitrary: specs' rule: check_jobs.induct)
  case (2 specs item items)
  then obtain k s where ks: "check_job specs item = Inr (k, s)" "check_jobs (dset k s specs) items = Inr specs'"
    by (auto simp: sbind_Inr simp del: json_ok.simps(2))
  then have s: "json_ok (MObj s)" using check_job_json 2(3) by (meson list.set_intros(1))
  then have "\<forall>p \<in> set (dset k s specs). json_ok (MObj (snd p))"
    using 2(4) set_dset_subset [of k s specs] s by fastforce
  then show ?case using 2(1) [OF ks(2)] 2(3,4) by (simp del: json_ok.simps(2))
qed simp

lemma positive_Inr: "positive v N = Inr n \<Longrightarrow> v = Some (MInt n)"
  by (auto simp: positive_def scheck_Inr split: option.splits mval.splits)

lemma limits_equal:
  assumes "py_eq (MObj a) (MObj b)" "dict_ok a" "dict_ok b" "dget a k = Some (MInt m)" "dget b k = Some (MInt n)"
  shows "m = n"
  using py_value_get [OF assms(1-3), of k] assms(4,5) by (simp add: py_number_def)

lemma admit_sound:
  assumes q: "mq_sound q" and admit: "admit_jobs now frozen limits specs q = Inr (u, q')"
    and limits: "dict_ok limits" "dget limits ''total_tokens'' = Some (MInt m)" "dget limits ''total_seconds'' = Some (MInt n)"
    and specs: "\<forall>p \<in> set specs. json_ok (MObj (snd p))"
  shows "mq_sound q' \<and> evolves (mq_jobs q) (mq_jobs q') \<and> mq_inbox q' = mq_inbox q"
proof -
  let ?all = "dupdate (specs_of (mq_jobs q)) specs"
  from admit obtain rows where rows: "insert_jobs now frozen specs (mq_jobs q) = Inr rows"
    "q' = q\<lparr>mq_jobs := rows, mq_limits := (case mq_limits q of None \<Rightarrow> Some (MObj limits) | Some l \<Rightarrow> Some l)\<rparr>"
    and plan: "visit_each ?all [] [] (dkeys ?all) \<noteq> None"
    and saved: "case mq_limits q of None \<Rightarrow> True | Some saved \<Rightarrow> py_eq saved (MObj limits)"
    and alloc: "token_allocation ?all \<le> m" "time_allocation ?all \<le> n"
    unfolding admit_jobs_def Let_def scheck_Inr sbind_Inr by (auto simp: int_of_def limits)
  have ids: "distinct (map jr_id (mq_jobs q))" and json: "\<forall>r \<in> set (mq_jobs q). json_ok (MObj (jr_spec r))"
    using q by (simp_all add: mq_sound_def)
  obtain new where new: "rows = mq_jobs q @ new" "distinct (map jr_id rows)"
    "\<forall>r \<in> set new. jr_state r = ''PENDING'' \<and> jr_id r \<notin> jr_id ` set (mq_jobs q) \<and> jr_spec r \<in> snd ` set specs"
    using insert_jobs_rows [OF rows(1) ids] by blast
  have ess: "map essence (specs_of rows) = map essence ?all"
    by (rule insert_jobs_essence [OF rows(1) ids refl json specs])
  have "evolves (mq_jobs q) (mq_jobs q')"
    unfolding rows(2) using new by (auto intro!: evolves_more)
  moreover have "plan_ok (specs_of rows)"
    using essence_plan [OF ess] plan unfolding plan_check by simp
  moreover have "limits_hold q'"
  proof (cases "mq_limits q")
    case None
    then show ?thesis using alloc essence_sums [OF ess] limits by (simp add: limits_hold_def rows(2))
  next
    case (Some l)
    then obtain d m' n' where d: "l = MObj d" "dict_ok d" "dget d ''total_tokens'' = Some (MInt m')" "dget d ''total_seconds'' = Some (MInt n')"
      using q by (auto simp: mq_sound_def limits_hold_def)
    then have "m' = m" "n' = n" using saved Some limits_equal [OF _ d(2) limits(1)] limits(2,3) by auto
    then show ?thesis using Some d alloc essence_sums [OF ess] by (simp add: limits_hold_def rows(2))
  qed
  moreover have "inbox_ok q'" using q new(1) by (fastforce simp: mq_sound_def inbox_ok_def rows(2))
  moreover have "filter active new = []" using new(3) by (auto simp: filter_empty_conv active_def)
  then have "length (filter active rows) \<le> 1" using q by (simp add: new(1) mq_sound_def)
  moreover have "\<forall>r \<in> set rows. json_ok (MObj (jr_spec r))"
    unfolding new(1) using json specs new(3) by (metis UnE imageE set_append)
  ultimately show ?thesis using new(2) by (simp add: mq_sound_def rows(2))
qed

section \<open>Operations\<close>

lemma transaction_run: "transaction f q = (res, q') \<Longrightarrow> q' = q \<or> (\<exists>a. f q = Inr (a, q'))"
  by (auto simp: transaction_def split: sum.splits)

definition good_step :: "mqueue \<Rightarrow> mqueue \<Rightarrow> bool" where
  "good_step q q' \<longleftrightarrow> mq_sound q' \<and> evolves (mq_jobs q) (mq_jobs q')"

lemma good_same: "mq_sound q \<Longrightarrow> good_step q q"
  by (simp add: good_step_def evolves_same)

lemma good_move:
  assumes q: "mq_sound q" and r: "r \<in> set (mq_jobs q)" and later: "stage (jr_state r) < stage (jr_state (f r))"
    and same: "jr_id (f r) = jr_id r" "jr_spec (f r) = jr_spec r" "jr_config (f r) = jr_config r"
    and act: "active (f r) \<Longrightarrow> active r \<or> filter active (mq_jobs q) = []"
  shows "good_step q (set_job (jr_id r) f q)"
proof -
  have "distinct (map jr_id (mq_jobs q))" using q by (simp add: mq_sound_def)
  from set_job_evolves [of q r f, OF this r later same]
  obtain xs ys where jobs: "mq_jobs q = xs @ r # ys" "mq_jobs (set_job (jr_id r) f q) = xs @ f r # ys"
    "evolves (mq_jobs q) (mq_jobs (set_job (jr_id r) f q))" by blast
  have "mq_sound (set_job (jr_id r) f q)"
  proof (rule sound_move [OF q jobs(1,2) same(1,2) _ _ act])
    show "jr_state r = ''CANDIDATE_READY'' \<Longrightarrow> jr_state (f r) = ''CANDIDATE_READY''"
      using later by (auto simp: stage_def split: if_splits)
  qed (simp_all add: set_job_def)
  with jobs(3) show ?thesis by (simp add: good_step_def)
qed

lemma good_claim: "mq_sound q \<Longrightarrow> claim applied now q = (res, q') \<Longrightarrow> good_step q q'"
proof -
  assume q: "mq_sound q" and claim: "claim applied now q = (res, q')"
  let ?f = "\<lambda>x. if jr_state x = ''PENDING'' then x\<lparr>jr_state := ''RUNNING'', jr_updated := now\<rparr> else x"
  show ?thesis
  proof (cases "q' = q")
    case False
    then obtain r rs where r: "sort_key claim_key (filter (claimable applied) (mq_jobs q)) = r # rs"
      "q' = set_job (jr_id r) ?f q" and none: "\<forall>x \<in> set (mq_jobs q). \<not> active x"
      using transaction_run [OF claim [unfolded claim_def]]
      by (auto simp: scheck_Inr active_def split: list.splits)
    have "r \<in> set (sort_key claim_key (filter (claimable applied) (mq_jobs q)))" unfolding r(1) by simp
    then have "r \<in> set (mq_jobs q)" "jr_state r = ''PENDING''" by (simp_all add: claimable_def)
    then show ?thesis
      unfolding r(2) using q none by (intro good_move) (simp_all add: stage_def filter_empty_conv)
  qed (use q good_same in simp)
qed

lemma good_finish:
  assumes q: "mq_sound q" and fin: "finish_job now key state outcome meas q = (res, q')"
    and state: "state \<in> {''CANDIDATE_READY'', ''FAILED'', ''BLOCKED''}"
  shows "good_step q q'"
proof (cases "q' = q")
  case False
  let ?f = "\<lambda>x. if jr_state x = ''RUNNING''
        then x\<lparr>jr_state := state, jr_result := Some (canonical outcome), jr_measurement := meas, jr_updated := now\<rparr> else x"
  obtain r where r: "r \<in> set (mq_jobs q)" "jr_id r = key" "jr_state r = ''RUNNING''" "q' = set_job (jr_id r) ?f q"
    using transaction_run [OF fin [unfolded finish_job_def]] False by (auto simp: scheck_Inr)
  show ?thesis
    unfolding r(4) using q r(1,3) state by (intro good_move) (auto simp: stage_def active_def)
qed (use q good_same in simp)

lemma good_abandon: "mq_sound q \<Longrightarrow> abandon locked now key reason q = (res, q') \<Longrightarrow> good_step q q'"
proof -
  assume q: "mq_sound q" and ab: "abandon locked now key reason q = (res, q')"
  show ?thesis
  proof (cases "q' = q")
    case False
    then obtain r where r: "job_by_id key q = Some r" "jr_state r \<in> {''RUNNING'', ''BLOCKED'', ''PENDING''}"
      "q' = set_job key (\<lambda>x. x\<lparr>jr_state := ''FAILED'', jr_result := Some (canonical (abandon_record r reason)), jr_updated := now\<rparr>) q"
      using ab by (auto simp: abandon_def transaction_def scheck_def split: sum.splits option.splits if_splits)
    from r(1) have "jr_id r = key" "r \<in> set (mq_jobs q)" by (auto simp: job_by_id_def find_Some_iff)
    moreover from this have "good_step q (set_job (jr_id r) (\<lambda>x. x\<lparr>jr_state := ''FAILED'',
        jr_result := Some (canonical (abandon_record r reason)), jr_updated := now\<rparr>) q)"
      using q r(2) by (intro good_move) (auto simp: stage_def active_def)
    ultimately show ?thesis unfolding r(3) by simp
  qed (use q good_same in simp)
qed

lemma inbox_of_none: "inbox_of key q = None \<longleftrightarrow> key \<notin> ib_job ` set (mq_inbox q)"
  by (auto simp: inbox_of_def find_None_iff)

lemma good_import:
  assumes q: "mq_sound q" and imp: "import_final handoff digest now key q = (res, q')"
  shows "good_step q q'"
proof (cases "q' = q")
  case False
  then obtain c r where r: "job_by_id key q = Some r" "jr_state r = ''CANDIDATE_READY''"
    "q' = q\<lparr>mq_inbox := mq_inbox q @ [\<lparr>ib_job = key, ib_digest = digest c, ib_context = canonical c, ib_imported = now,
        ib_acknowledged = None, ib_consumer = None\<rparr>]\<rparr>"
    using imp by (auto simp: import_final_def transaction_def scheck_def split: sum.splits option.splits if_splits)
  from r(1) have "jr_id r = key" "r \<in> set (mq_jobs q)" by (auto simp: job_by_id_def find_Some_iff)
  then have "inbox_ok q'" using q r by (auto simp: mq_sound_def inbox_ok_def)
  then show ?thesis using q by (auto simp: good_step_def mq_sound_def limits_hold_def r(3) evolves_same split: option.splits)
qed (use q good_same in simp)

lemma good_acknowledge: "mq_sound q \<Longrightarrow> acknowledge now key checksum consumer q = (res, q') \<Longrightarrow> good_step q q'"
proof -
  assume q: "mq_sound q" and ack: "acknowledge now key checksum consumer q = (res, q')"
  let ?f = "\<lambda>x. if ib_job x = key then x\<lparr>ib_acknowledged :=
                   (case ib_acknowledged x of None \<Rightarrow> Some now | Some t \<Rightarrow> Some t), ib_consumer := Some consumer\<rparr> else x"
  show ?thesis
  proof (cases "q' = q")
    case False
    then have new: "q' = q\<lparr>mq_inbox := map ?f (mq_inbox q)\<rparr>"
      using ack by (auto simp: acknowledge_def transaction_def scheck_def split: sum.splits option.splits if_splits)
    then have "inbox_ok q'" using q by (auto simp: mq_sound_def inbox_ok_def)
    then show ?thesis using q by (auto simp: good_step_def mq_sound_def limits_hold_def new evolves_same split: option.splits)
  qed (use q good_same in simp)
qed

lemma good_ingest:
  assumes q: "mq_sound q" and ing: "ingest options now man config q = (res, q')"
    and items: "\<forall>items. mf_jobs man = Some items \<longrightarrow> (\<forall>i \<in> set items. json_ok (MObj i))"
    and lims: "\<forall>v. mf_limits man = Some v \<longrightarrow> json_ok v"
  shows "good_step q q'"
proof (cases "q' = q")
  case False
  with ing obtain items limits frozen specs m n where
    man: "mf_jobs man = Some items" "as_object (mf_limits man) = Inr limits"
    "positive (dget limits ''total_tokens'') 100000000 = Inr m" "positive (dget limits ''total_seconds'') (86400 * 7) = Inr n"
    "check_jobs [] items = Inr specs" and tr: "andthen (transaction (admit_jobs now frozen limits specs)) (gets queue_status) q = (res, q')"
    unfolding ingest_def Let_def
    by (auto split: option.splits sum.splits simp: sbind_Inr scheck_Inr)
  from tr False obtain u where adm: "admit_jobs now frozen limits specs q = Inr (u, q')"
    by (auto simp: transaction_def sx_simps split: sum.splits prod.splits)
  have "dict_ok limits" using man(2) lims by (auto simp: as_object_def split: option.splits mval.splits)
  moreover have "\<forall>p \<in> set specs. json_ok (MObj (snd p))" using check_jobs_json [OF man(5)] items man(1) by simp
  ultimately show ?thesis
    using admit_sound [OF q adm _ positive_Inr [OF man(3)] positive_Inr [OF man(4)]] by (simp add: good_step_def)
qed (use q good_same in simp)

section \<open>Histories\<close>

text \<open>The moves an operation made: the jobs whose state it changed, with the new state.\<close>

definition moved :: "mqueue \<Rightarrow> mqueue \<Rightarrow> (string \<times> string) list" where
  "moved q q' = map (\<lambda>(a, b). (jr_id b, jr_state b))
     (filter (\<lambda>(a, b). jr_state a \<noteq> jr_state b) (zip (mq_jobs q) (mq_jobs q')))"

text \<open>
  A history of the queue, with the log of all moves: imports of parsed manifests, claims,
  results, imports into the inbox, acknowledgements and closures, in any order, successful or
  not, with any answers from outside.
\<close>

inductive mq_history :: "(string \<times> string) list \<Rightarrow> mqueue \<Rightarrow> bool" where
  mq_start: "mq_history [] empty_mqueue"
| mq_ingest: "mq_history lg q \<Longrightarrow> ingest options clock man config q = (res, q')
    \<Longrightarrow> \<forall>items. mf_jobs man = Some items \<longrightarrow> (\<forall>i \<in> set items. json_ok (MObj i))
    \<Longrightarrow> \<forall>v. mf_limits man = Some v \<longrightarrow> json_ok v \<Longrightarrow> mq_history (lg @ moved q q') q'"
| mq_claim: "mq_history lg q \<Longrightarrow> claim applied now q = (res, q') \<Longrightarrow> mq_history (lg @ moved q q') q'"
| mq_finish: "mq_history lg q \<Longrightarrow> finish_job now key state outcome meas q = (res, q')
    \<Longrightarrow> state \<in> {''CANDIDATE_READY'', ''FAILED'', ''BLOCKED''} \<Longrightarrow> mq_history (lg @ moved q q') q'"
| mq_import: "mq_history lg q \<Longrightarrow> import_final handoff digest now key q = (res, q') \<Longrightarrow> mq_history (lg @ moved q q') q'"
| mq_acknowledge: "mq_history lg q \<Longrightarrow> acknowledge now key checksum consumer q = (res, q') \<Longrightarrow> mq_history (lg @ moved q q') q'"
| mq_abandon: "mq_history lg q \<Longrightarrow> abandon locked now key reason q = (res, q') \<Longrightarrow> mq_history (lg @ moved q q') q'"

lemma moved_same: "mq_jobs q' = mq_jobs q \<Longrightarrow> moved q q' = []"
proof -
  have "filter (\<lambda>(a, b). jr_state a \<noteq> jr_state b) (zip rows rows) = []" for rows
    by (induction rows) auto
  then show "mq_jobs q' = mq_jobs q \<Longrightarrow> ?thesis" by (simp add: moved_def)
qed

definition total_stage :: "job_row list \<Rightarrow> nat" where
  "total_stage rows = sum_list (map (\<lambda>r. stage (jr_state r)) rows)"

text \<open>The log so far: no move twice, each at most as far as its job has come.\<close>

definition logged :: "(string \<times> string) list \<Rightarrow> job_row list \<Rightarrow> bool" where
  "logged lg rows \<longleftrightarrow> distinct lg \<and> length lg \<le> total_stage rows
     \<and> (\<forall>p \<in> set lg. \<exists>r \<in> set rows. jr_id r = fst p \<and> stage (snd p) \<le> stage (jr_state r))"

lemma loggedD: "logged lg rows \<Longrightarrow> (k, s) \<in> set lg \<Longrightarrow> \<exists>r \<in> set rows. jr_id r = k \<and> stage s \<le> stage (jr_state r)"
  unfolding logged_def by (elim conjE, drule bspec [of _ _ "(k, s)"]) simp_all

lemma zip_states_same: "filter (\<lambda>(a, b). jr_state a \<noteq> jr_state b) (zip rows (rows @ more')) = []"
  by (induction rows) auto

lemma logged_evolves:
  assumes ev: "evolves (mq_jobs q) (mq_jobs q')" and ids: "distinct (map jr_id (mq_jobs q))" and lg: "logged lg (mq_jobs q)"
  shows "logged (lg @ moved q q') (mq_jobs q')"
  using ev
proof cases
  case evolves_same
  then show ?thesis using lg by (simp add: moved_same)
next
  case (evolves_more new)
  then have "moved q q' = []" by (simp add: moved_def zip_states_same)
  then show ?thesis using lg evolves_more unfolding logged_def total_stage_def by fastforce
next
  case (evolves_move r f xs ys)
  have "jr_state r \<noteq> jr_state (f r)" using evolves_move(3) by auto
  then have moved: "moved q q' = [(jr_id r, jr_state (f r))]"
    unfolding moved_def evolves_move(1,2)
    by (simp add: zip_states_same [of _ "[]", simplified] evolves_move(4))
  have "(jr_id r, jr_state (f r)) \<notin> set lg"
  proof
    assume "(jr_id r, jr_state (f r)) \<in> set lg"
    then obtain x where "x \<in> set (mq_jobs q)" "jr_id x = jr_id r" "stage (jr_state (f r)) \<le> stage (jr_state x)"
      using loggedD [OF lg] by blast
    moreover have "r \<in> set (mq_jobs q)" by (simp add: evolves_move(1))
    ultimately have "x = r" "stage (jr_state (f r)) \<le> stage (jr_state x)"
      using ids by (meson distinct_map inj_onD)+
    then show False using evolves_move(3) by simp
  qed
  moreover have "length lg < total_stage (mq_jobs q')"
    using lg evolves_move(3) by (simp add: logged_def total_stage_def evolves_move(1,2))
  moreover have "\<exists>x \<in> set (mq_jobs q'). jr_id x = k \<and> stage s \<le> stage (jr_state x)" if "(k, s) \<in> set lg" for k s
  proof -
    obtain x where x: "x \<in> set (mq_jobs q)" "jr_id x = k" "stage s \<le> stage (jr_state x)"
      using loggedD [OF lg \<open>(k, s) \<in> set lg\<close>] by blast
    then show ?thesis
      using evolves_move by (cases "x = r") (auto simp: evolves_move(1,2))
  qed
  ultimately show ?thesis
    using lg evolves_move(2,4) unfolding moved by (auto simp: logged_def)
qed

lemma history_sound: "mq_history lg q \<Longrightarrow> mq_sound q \<and> logged lg (mq_jobs q)"
proof (induction rule: mq_history.induct)
  case mq_start
  show ?case
    by (simp add: mq_sound_def empty_mqueue_def limits_hold_def inbox_ok_def logged_def total_stage_def plan_ok_def waits_for_def
        specs_of_def acyclic_def)
qed (meson good_ingest good_claim good_finish good_import good_acknowledge good_abandon good_step_def mq_sound_def logged_evolves)+




section \<open>Properties\<close>

text \<open>
  C21: The dependency check of an import ends on every plan, and accepts it exactly when every
  dependency is a job of the plan and no job waits, directly or through others, for itself.
\<close>

theorem dependency_check_is_exact:
  "visit_each specs [] [] (dkeys specs) \<noteq> None
   \<longleftrightarrow> fst ` waits_for specs \<subseteq> set (dkeys specs) \<and> acyclic (waits_for specs)"
  unfolding plan_check plan_ok_def by (rule refl)

text \<open>
  C22: In every history of the project queue the tokens and seconds allocated to all jobs stay
  within the frozen limits, the dependencies of the stored jobs are stored and without a cycle,
  at most one job is under way or blocked, and only jobs that ended with a candidate are in the
  inbox.
\<close>

theorem project_queue_keeps_its_limits:
  assumes "mq_history lg q"
  shows "(mq_jobs q = [] \<or> (\<exists>d. mq_limits q = Some (MObj d)
        \<and> token_allocation (specs_of (mq_jobs q)) \<le> int_of (dget d ''total_tokens'')
        \<and> time_allocation (specs_of (mq_jobs q)) \<le> int_of (dget d ''total_seconds'')))
    \<and> fst ` waits_for (specs_of (mq_jobs q)) \<subseteq> jr_id ` set (mq_jobs q) \<and> acyclic (waits_for (specs_of (mq_jobs q)))
    \<and> length (filter active (mq_jobs q)) \<le> 1
    \<and> ib_job ` set (mq_inbox q) \<subseteq> jr_id ` {r \<in> set (mq_jobs q). jr_state r = ''CANDIDATE_READY''}"
proof -
  have q: "mq_sound q" using history_sound [OF assms] by simp
  then have "limits_hold q" by (simp add: mq_sound_def)
  then have "mq_jobs q = [] \<or> (\<exists>d. mq_limits q = Some (MObj d)
        \<and> token_allocation (specs_of (mq_jobs q)) \<le> int_of (dget d ''total_tokens'')
        \<and> time_allocation (specs_of (mq_jobs q)) \<le> int_of (dget d ''total_seconds''))"
    by (auto simp: limits_hold_def int_of_def split: option.splits)
  moreover have "set (dkeys (specs_of (mq_jobs q))) = jr_id ` set (mq_jobs q)" by (auto simp: specs_of_def image_image)
  moreover have "ib_job ` set (mq_inbox q) \<subseteq> jr_id ` {r \<in> set (mq_jobs q). jr_state r = ''CANDIDATE_READY''}"
  proof -
    have inb: "inbox_ok q" using q by (simp add: mq_sound_def)
    show ?thesis
    proof
      fix j assume "j \<in> ib_job ` set (mq_inbox q)"
      then obtain b where "b \<in> set (mq_inbox q)" "j = ib_job b" by blast
      then obtain r where "r \<in> set (mq_jobs q)" "jr_id r = j" "jr_state r = ''CANDIDATE_READY''"
        using inb unfolding inbox_ok_def by blast
      then show "j \<in> jr_id ` {r \<in> set (mq_jobs q). jr_state r = ''CANDIDATE_READY''}" by blast
    qed
  qed
  ultimately show ?thesis using q by (simp add: mq_sound_def plan_ok_def)
qed


text \<open>Two jobs, the second waiting for the first; the first is claimed and gives no candidate.\<close>

definition sample_job :: "string \<Rightarrow> string list \<Rightarrow> mobj" where
  "sample_job k ds = [(''id'', MStr k), (''objective'', MStr ''port it''), (''depends_on'', MList (map MStr ds)),
     (''budget'', MObj [(''master'', MInt 30), (''secondary'', MInt 40), (''task'', MInt 9), (''seconds'', MInt 60)])]"

definition sample_manifest :: manifest where
  "sample_manifest = \<lparr>mf_version = Some (MInt 1), mf_jobs = Some [sample_job ''b'' [''a''], sample_job ''a'' []],
     mf_limits = Some (MObj [(''total_tokens'', MInt 200), (''total_seconds'', MInt 500)])\<rparr>"

definition sample_imported :: mqueue where
  "sample_imported = snd (ingest (\<lambda>_. Inr ()) (\<lambda>_. 1) sample_manifest [] empty_mqueue)"

definition sample_claimed :: mqueue where
  "sample_claimed = snd (claim (\<lambda>_. False) 2 sample_imported)"

definition sample_failed :: mqueue where
  "sample_failed = snd (finish_job 3 ''a'' ''FAILED'' MNull None sample_claimed)"

lemma sample_imported_jobs: "map (\<lambda>r. (jr_id r, jr_state r)) (mq_jobs sample_imported) = [(''b'', ''PENDING''), (''a'', ''PENDING'')]"
  by code_simp

lemma sample_failed_jobs: "map (\<lambda>r. (jr_id r, jr_state r)) (mq_jobs sample_failed) = [(''b'', ''PENDING''), (''a'', ''FAILED'')]"
  by code_simp


lemma sample_moves: "moved empty_mqueue sample_imported = []" "moved sample_imported sample_claimed = [(''a'', ''RUNNING'')]"
  "moved sample_claimed sample_failed = [(''a'', ''FAILED'')]"
  by code_simp+

lemma sample_start: "mq_history [] sample_imported"
proof -
  have "ingest (\<lambda>_. Inr ()) (\<lambda>_. 1) sample_manifest [] empty_mqueue = (fst (ingest (\<lambda>_. Inr ()) (\<lambda>_. 1) sample_manifest [] empty_mqueue), sample_imported)"
    by (simp add: sample_imported_def)
  from mq_ingest [OF mq_start this] show ?thesis
    by (simp add: sample_moves sample_manifest_def sample_job_def)
qed

lemma sample_history: "mq_history [(''a'', ''RUNNING''), (''a'', ''FAILED'')] sample_failed"
proof -
  have "claim (\<lambda>_. False) 2 sample_imported = (fst (claim (\<lambda>_. False) 2 sample_imported), sample_claimed)"
    by (simp add: sample_claimed_def)
  from mq_claim [OF sample_start this] have h: "mq_history [(''a'', ''RUNNING'')] sample_claimed" by (simp add: sample_moves)
  have "finish_job 3 ''a'' ''FAILED'' MNull None sample_claimed = (fst (finish_job 3 ''a'' ''FAILED'' MNull None sample_claimed), sample_failed)"
    by (simp add: sample_failed_def)
  from mq_finish [OF h this] show ?thesis by (simp add: sample_moves)
qed

theorem project_queue_keeps_its_limits_witness:
  "acyclic (waits_for (specs_of (mq_jobs sample_failed))) \<and> length (filter active (mq_jobs sample_failed)) \<le> 1"
  using project_queue_keeps_its_limits [OF sample_history] by simp


end
