(* ===== verification/Dead_Path.thy ===== *)
theory Dead_Path
  imports Prelude
begin

text \<open>
  What happens when the path to the strong model is dead: the decision about one failure and the
  counter of consecutive dead hits (\<open>orchestrator/providers/degradation.py\<close>), and the router that
  asks a weak local model at most once per request and labels its answer
  (\<open>orchestrator/providers/fallback_router.py\<close>). A provider is an argument: it changes the world
  \<open>'w\<close> and answers, raises or is cancelled.
\<close>

section \<open>Decision\<close>

datatype route_action = Retry | Reconcile | Abort | DegradeOnce

definition dead_path_markers :: "string list" where
  "dead_path_markers = [''no extension connected'', ''LEASE_LOST'', ''LEASE_EXPIRED'', ''TAB_STALE'', ''TAB_ERROR'']"

definition uncertain_markers :: "string list" where
  "uncertain_markers = [''DELIVERY_UNCERTAIN'', ''SUBMISSION_UNCERTAIN'', ''DELIVERY_EXPIRED'']"

definition blocked_markers :: "string list" where
  "blocked_markers = [''ACCOUNT_LIMIT'', ''RATE_LIMIT'', ''QUOTA_EXCEEDED'', ''CONVERSATION_BLOCKED'', ''PAIRING_REQUIRED'',
     ''relay pairing required'', ''pairing token required'', ''RELAY_HTTP_401'', ''RELAY_HTTP_403'', ''forbidden origin'',
     ''invalid host'']"

definition transient_retry_markers :: "string list" where
  "transient_retry_markers = [''TIMEOUT'', ''TIMED OUT'', ''IN_FLIGHT'', ''SUBMIT_FAILED'', ''STALE_CONVERSATION'']"

definition contains_any :: "string \<Rightarrow> string list \<Rightarrow> bool" where
  "contains_any error markers \<longleftrightarrow> (\<exists>m \<in> set markers. py_contains (py_upper m) (py_upper error))"

definition is_dead_path :: "string \<Rightarrow> bool" where
  "is_dead_path error \<longleftrightarrow> contains_any error dead_path_markers"

text \<open>Metadata of a response: the values the code looks at or writes, and any others.\<close>

datatype meta_item = PBool bool | PStr string | POther nat

type_synonym metadata = "(string, meta_item) dict"

definition metadata_forbids_replay :: "metadata \<Rightarrow> bool" where
  "metadata_forbids_replay md \<longleftrightarrow> dget md ''retry_safe'' = Some (PBool False)
     \<or> dget md ''delivery_state'' \<in> {Some (PStr ''UNCERTAIN''), Some (PStr ''BLOCKED'')}"

definition decide :: "string \<Rightarrow> metadata \<Rightarrow> route_action" where
  "decide error md =
     (let upper = py_upper error in
      if py_contains ''NO EXTENSION CONNECTED'' upper then DegradeOnce
      else if contains_any error blocked_markers then Abort
      else if metadata_forbids_replay md then Reconcile
      else if contains_any error uncertain_markers then Reconcile
      else if py_contains ''SUBMISSION_UNCERTAIN'' upper \<or> py_contains ''DELIVERY_EXPIRED'' upper then Reconcile
      else if contains_any error dead_path_markers then DegradeOnce
      else if contains_any error transient_retry_markers then Retry
      else Abort)"

section \<open>Consecutive dead hits\<close>

record dead_budget =
  dp_max :: nat
  dp_consecutive :: nat
  dp_total :: nat
  dp_degraded :: nat

definition new_dead_budget :: "int \<Rightarrow> exn + dead_budget" where
  "new_dead_budget mx = scheck (1 \<le> mx \<and> mx \<le> 10) (ValueError ''max_consecutive_dead_path must be an int 1..10'')
     (Inr \<lparr>dp_max = nat mx, dp_consecutive = 0, dp_total = 0, dp_degraded = 0\<rparr>)"

definition should_abort :: "dead_budget \<Rightarrow> bool" where
  "should_abort b \<longleftrightarrow> dp_max b \<le> dp_consecutive b"

definition record_dead_path :: "dead_budget \<Rightarrow> dead_budget" where
  "record_dead_path b = b\<lparr>dp_consecutive := dp_consecutive b + 1, dp_total := dp_total b + 1\<rparr>"

definition record_degraded :: "dead_budget \<Rightarrow> dead_budget" where
  "record_degraded b = record_dead_path (b\<lparr>dp_degraded := dp_degraded b + 1\<rparr>)"

definition record_success :: "dead_budget \<Rightarrow> dead_budget" where
  "record_success b = b\<lparr>dp_consecutive := 0\<rparr>"

definition reset_dead :: "dead_budget \<Rightarrow> dead_budget" where
  "reset_dead b = b\<lparr>dp_consecutive := 0, dp_total := 0, dp_degraded := 0\<rparr>"

section \<open>Router\<close>

record response =
  rs_content :: string
  rs_success :: bool
  rs_error :: "string option"
  rs_model :: string
  rs_meta :: metadata

datatype outcome = Answered response | Raised string string | Cancelled

type_synonym 'w provider = "'w \<Rightarrow> outcome \<times> 'w"

definition failed_response :: "string \<Rightarrow> metadata \<Rightarrow> response" where
  "failed_response error md = \<lparr>rs_content = [], rs_success = False, rs_error = Some error, rs_model = [], rs_meta = md\<rparr>"

definition mark_degraded :: "string \<Rightarrow> response \<Rightarrow> response" where
  "mark_degraded original r =
     (let m1 = dset ''degraded'' (PBool True) (rs_meta r);
          m2 = (if dget m1 ''original_error'' = None then dset ''original_error'' (PStr original) m1 else m1);
          m3 = (if dget m2 ''degraded_reason'' = None then dset ''degraded_reason'' (PStr ''dead-path-fallback'') m2 else m2)
      in r\<lparr>rs_meta := m3\<rparr>)"

fun digits :: "nat \<Rightarrow> string" where
  "digits n = (if n < 10 then [char_of (48 + n)] else digits (n div 10) @ [char_of (48 + n mod 10)])"

declare digits.simps [simp del]

definition ceiling_response :: "dead_budget \<Rightarrow> string \<Rightarrow> response" where
  "ceiling_response b original = failed_response
     (''[DEAD_PATH_BUDGET] consecutive dead-path ceiling ('' @ digits (dp_consecutive b) @ ''/'' @ digits (dp_max b)
        @ '') reached; operator reconcile required: '' @ original)
     [(''degraded'', PBool False), (''degraded_attempt'', PStr ''budget-ceiling''), (''original_error'', PStr original)]"

text \<open>An exception of the primary is a failed response; a cancellation never gets here.\<close>

definition primary_response :: "outcome \<Rightarrow> response" where
  "primary_response x = (case x of
      Answered r \<Rightarrow> r
    | Raised e msg \<Rightarrow> failed_response (''[PROVIDER_ERROR] primary: '' @ msg) []
    | Cancelled \<Rightarrow> failed_response [] [])"

text \<open>
  \<open>DegradedFallbackRouter\<close>: whether degrading is allowed, and whether the fallback is the primary
  object itself. The state is the budget and the world; \<open>None\<close> is a cancellation passed on.
\<close>

record router =
  rt_allow :: bool
  rt_same :: bool

definition execute :: "router \<Rightarrow> 'w provider \<Rightarrow> 'w provider option \<Rightarrow> dead_budget \<times> 'w \<Rightarrow> response option \<times> dead_budget \<times> 'w" where
  "execute rt primary fallback s = (case s of (b, w) \<Rightarrow> (case primary w of
      (Cancelled, w1) \<Rightarrow> (None, b, w1)
    | (first, w1) \<Rightarrow>
       (let pr = primary_response first in
        if rs_success pr then (Some pr, record_success b, w1)
        else
         (let original = (case rs_error pr of None \<Rightarrow> [] | Some e \<Rightarrow> e); dead = is_dead_path original in
          (case (if decide original (rs_meta pr) = DegradeOnce \<and> rt_allow rt \<and> \<not> rt_same rt then fallback else None) of
             None \<Rightarrow> (Some pr, if dead then record_dead_path b else b, w1)
           | Some fb \<Rightarrow>
              if should_abort b then (Some (ceiling_response b original), b, w1)
              else (case fb w1 of
                 (Cancelled, w2) \<Rightarrow> (None, b, w2)
               | (Raised e msg, w2) \<Rightarrow> (Some (failed_response original
                    [(''degraded_attempt'', PStr ''fallback-failed''), (''fallback_error'', PStr (e @ '': '' @ msg)),
                     (''original_error'', PStr original)]), record_dead_path b, w2)
               | (Answered fr, w2) \<Rightarrow>
                  if rs_success fr then (Some (mark_degraded original fr), record_degraded b, w2)
                  else (Some (failed_response original (dupdate (rs_meta fr)
                      [(''degraded_attempt'', PStr ''fallback-failed''),
                       (''fallback_error'', PStr (case rs_error fr of None \<Rightarrow> ''None'' | Some e \<Rightarrow> e)),
                       (''original_error'', PStr original)])), record_dead_path b, w2)))))))"

end
