(* ===== verification/Dead_Path_Properties.thy ===== *)
theory Dead_Path_Properties
  imports Dead_Path
begin

text \<open>
  The fallback is asked only for failures that show a dead path, its answers are labelled, and
  between two successes of the primary it completes no more often than the budget allows.
\<close>

section \<open>One failure\<close>

definition shows_dead_path :: "string \<Rightarrow> metadata \<Rightarrow> bool" where
  "shows_dead_path e md \<longleftrightarrow> py_contains ''NO EXTENSION CONNECTED'' (py_upper e)
     \<or> is_dead_path e \<and> \<not> contains_any e blocked_markers \<and> \<not> contains_any e uncertain_markers \<and> \<not> metadata_forbids_replay md"

lemma upper_markers:
  "py_upper ''SUBMISSION_UNCERTAIN'' = ''SUBMISSION_UNCERTAIN''" "py_upper ''DELIVERY_EXPIRED'' = ''DELIVERY_EXPIRED''"
  by code_simp+

lemma uncertain_upper:
  "py_contains ''SUBMISSION_UNCERTAIN'' (py_upper e) \<Longrightarrow> contains_any e uncertain_markers"
  "py_contains ''DELIVERY_EXPIRED'' (py_upper e) \<Longrightarrow> contains_any e uncertain_markers"
  by (simp_all add: contains_any_def uncertain_markers_def upper_markers)

lemma decide_degrade: "decide e md = DegradeOnce \<longleftrightarrow> shows_dead_path e md"
  unfolding decide_def Let_def shows_dead_path_def is_dead_path_def using uncertain_upper [of e] by auto

text \<open>The failure the router decides about, when the primary does not succeed.\<close>

definition failure_of :: "outcome \<Rightarrow> response option" where
  "failure_of x = (if x = Cancelled \<or> rs_success (primary_response x) then None else Some (primary_response x))"

definition error_text :: "response \<Rightarrow> string" where
  "error_text r = (case rs_error r of None \<Rightarrow> [] | Some e \<Rightarrow> e)"

definition may_ask :: "router \<Rightarrow> response \<Rightarrow> bool" where
  "may_ask rt r \<longleftrightarrow> rt_allow rt \<and> \<not> rt_same rt \<and> shows_dead_path (error_text r) (rs_meta r)"

lemma mark_degraded_label:
  "dget (rs_meta (mark_degraded e r)) ''degraded'' = Some (PBool True)"
  "dget (rs_meta (mark_degraded e r)) ''original_error'' =
     (case dget (rs_meta r) ''original_error'' of None \<Rightarrow> Some (PStr e) | Some v \<Rightarrow> Some v)"
  "rs_success (mark_degraded e r) = rs_success r" "rs_content (mark_degraded e r) = rs_content r"
  by (simp_all add: mark_degraded_def Let_def split: option.split)

lemma failed_response_simps [simp]: "rs_success (failed_response e md) = False" "rs_error (failed_response e md) = Some e"
  "rs_meta (failed_response e md) = md"
  by (simp_all add: failed_response_def)

lemma ceiling_fails [simp]: "rs_success (ceiling_response b e) = False"
  by (simp add: ceiling_response_def)

lemma error_text_failed [simp]: "error_text (failed_response e md) = e"
  by (simp add: error_text_def)

text \<open>The whole behaviour, one case per outcome of the primary.\<close>

lemma execute_cancelled: "primary w = (Cancelled, w1) \<Longrightarrow> execute rt primary fallback (b, w) = (None, b, w1)"
  by (simp add: execute_def)

lemma execute_succeeds:
  "primary w = (Answered r, w1) \<Longrightarrow> rs_success r \<Longrightarrow> execute rt primary fallback (b, w) = (Some r, record_success b, w1)"
  by (simp add: execute_def primary_response_def)

lemma execute_fails:
  assumes "primary w = (x, w1)" "failure_of x = Some pr"
  shows "execute rt primary fallback (b, w) =
    (case (if may_ask rt pr then fallback else None) of
       None \<Rightarrow> (Some pr, if is_dead_path (error_text pr) then record_dead_path b else b, w1)
     | Some fb \<Rightarrow> if should_abort b then (Some (ceiling_response b (error_text pr)), b, w1)
       else (case fb w1 of
           (Cancelled, w2) \<Rightarrow> (None, b, w2)
         | (Raised e msg, w2) \<Rightarrow> (Some (failed_response (error_text pr)
              [(''degraded_attempt'', PStr ''fallback-failed''), (''fallback_error'', PStr (e @ '': '' @ msg)),
               (''original_error'', PStr (error_text pr))]), record_dead_path b, w2)
         | (Answered fr, w2) \<Rightarrow>
            if rs_success fr then (Some (mark_degraded (error_text pr) fr), record_degraded b, w2)
            else (Some (failed_response (error_text pr) (dupdate (rs_meta fr)
                [(''degraded_attempt'', PStr ''fallback-failed''),
                 (''fallback_error'', PStr (case rs_error fr of None \<Rightarrow> ''None'' | Some e \<Rightarrow> e)),
                 (''original_error'', PStr (error_text pr))])), record_dead_path b, w2)))"
proof -
  have x: "x \<noteq> Cancelled" "\<not> rs_success pr" "primary_response x = pr"
    using assms(2) by (auto simp: failure_of_def split: if_splits)
  then have "execute rt primary fallback (b, w) = (let pr = primary_response x in
        if rs_success pr then (Some pr, record_success b, w1)
        else
         (let original = (case rs_error pr of None \<Rightarrow> [] | Some e \<Rightarrow> e); dead = is_dead_path original in
          (case (if decide original (rs_meta pr) = DegradeOnce \<and> rt_allow rt \<and> \<not> rt_same rt then fallback else None) of
             None \<Rightarrow> (Some pr, if dead then record_dead_path b else b, w1)
           | Some fb \<Rightarrow>
              if should_abort b then (Some (ceiling_response b original), b, w1)
              else (case fb w1 of
                 (Cancelled, w2) \<Rightarrow> (None, b, w2)
               | (Raised e msg, w2) \<Rightarrow> (Some (failed_response original
                    [(''degraded_attempt'', PStr ''fallback-failed''), (''fallback_error'', PStr (e @ '': '' @ msg)),
                     (''original_error'', PStr original)]), record_dead_path b, w2)
               | (Answered fr, w2) \<Rightarrow>
                  if rs_success fr then (Some (mark_degraded original fr), record_degraded b, w2)
                  else (Some (failed_response original (dupdate (rs_meta fr)
                      [(''degraded_attempt'', PStr ''fallback-failed''),
                       (''fallback_error'', PStr (case rs_error fr of None \<Rightarrow> ''None'' | Some e \<Rightarrow> e)),
                       (''original_error'', PStr original)])), record_dead_path b, w2)))))"
    using assms(1) by (cases x) (simp_all add: execute_def)
  then show ?thesis
    using x(2) unfolding Let_def x(3) error_text_def [symmetric] decide_degrade may_ask_def
    by (simp add: conj_ac)
qed

section \<open>Sequences of requests\<close>

text \<open>
  The requests of a run, each with what the primary and the fallback would answer; the world
  counts the attempts of the fallback that completed, with an answer or an exception.
\<close>

definition completes :: "outcome \<Rightarrow> nat provider" where
  "completes x n = (x, if x = Cancelled then n else Suc n)"

primrec requests :: "router \<Rightarrow> (outcome \<times> outcome) list \<Rightarrow> dead_budget \<times> nat \<Rightarrow> dead_budget \<times> nat" where
  "requests rt [] s = s"
| "requests rt (x # xs) s = requests rt xs (snd (execute rt (\<lambda>n. (fst x, n)) (Some (completes (snd x))) s))"

lemma budget_simps [simp]:
  "dp_max (record_dead_path b) = dp_max b" "dp_max (record_degraded b) = dp_max b" "dp_max (record_success b) = dp_max b"
  "dp_consecutive (record_dead_path b) = Suc (dp_consecutive b)" "dp_consecutive (record_degraded b) = Suc (dp_consecutive b)"
  "dp_consecutive (record_success b) = 0"
  by (simp_all add: record_dead_path_def record_degraded_def record_success_def)

lemma request_spends:
  assumes "\<forall>r. p = Answered r \<longrightarrow> \<not> rs_success r"
    and run: "execute rt (\<lambda>n. (p, n)) (Some (completes f)) (b, n) = (res, b', n')"
  shows "dp_max b' = dp_max b \<and> n' + (dp_max b' - dp_consecutive b') \<le> n + (dp_max b - dp_consecutive b)"
proof (cases "failure_of p")
  case None
  then have "p = Cancelled" using assms(1) by (cases p) (auto simp: failure_of_def primary_response_def)
  then show ?thesis using run by (simp add: execute_def)
next
  case (Some pr)
  show ?thesis
    using run unfolding execute_fails [of "\<lambda>n. (p, n)" n p n pr, OF refl Some]
    by (auto simp: should_abort_def completes_def split: if_splits outcome.splits)
qed

lemma requests_bounded:
  "\<forall>x \<in> set xs. \<forall>r. fst x = Answered r \<longrightarrow> \<not> rs_success r \<Longrightarrow> snd (requests rt xs (b, n)) \<le> n + (dp_max b - dp_consecutive b)"
proof (induction xs arbitrary: b n)
  case (Cons x xs)
  obtain res b' n' where run: "execute rt (\<lambda>n. (fst x, n)) (Some (completes (snd x))) (b, n) = (res, b', n')"
    by (metis prod_cases3)
  have "snd (requests rt xs (b', n')) \<le> n' + (dp_max b' - dp_consecutive b')" using Cons by simp
  moreover have "n' + (dp_max b' - dp_consecutive b') \<le> n + (dp_max b - dp_consecutive b)"
    using request_spends [OF _ run] Cons.prems by auto
  ultimately show ?case using run by simp
qed simp

section \<open>Properties\<close>

lemma asked_only_when_dead:
  assumes run: "execute rt primary fallback (b, w) = (res, b', w')"
  shows "w' = snd (primary w) \<or> (\<exists>fb pr. fallback = Some fb \<and> w' = snd (fb (snd (primary w)))
      \<and> failure_of (fst (primary w)) = Some pr \<and> may_ask rt pr \<and> \<not> should_abort b)"
proof (cases "failure_of (fst (primary w))")
  case None
  then consider w1 where "primary w = (Cancelled, w1)" | r w1 where "primary w = (Answered r, w1)" "rs_success r"
    by (cases "primary w"; cases "fst (primary w)") (auto simp: failure_of_def primary_response_def split: if_splits)
  then show ?thesis using run by cases (auto simp: execute_cancelled execute_succeeds)
next
  case (Some pr)
  obtain x w1 where p: "primary w = (x, w1)" by fastforce
  with Some have f: "failure_of x = Some pr" by simp
  show ?thesis
    using run Some p unfolding execute_fails [of primary, OF p f] by (auto split: if_splits option.splits outcome.splits prod.splits)
qed

text \<open>
  A successful answer of the fallback, handed out for the failure of the primary: the content is
  the fallback's, and the error kept is the primary's unless the answer already carried one (the
  first error wins, as when the fallback is a router of its own).
\<close>

definition labelled_for :: "response \<Rightarrow> response \<Rightarrow> response \<Rightarrow> bool" where
  "labelled_for pr fr r \<longleftrightarrow> rs_success fr \<and> rs_content r = rs_content fr \<and> rs_model r = rs_model fr
     \<and> dget (rs_meta r) ''degraded'' = Some (PBool True)
     \<and> dget (rs_meta r) ''original_error'' =
         (case dget (rs_meta fr) ''original_error'' of None \<Rightarrow> Some (PStr (error_text pr)) | Some v \<Rightarrow> Some v)"

lemma labelled_mark: "rs_success fr \<Longrightarrow> labelled_for pr fr (mark_degraded (error_text pr) fr)"
  by (simp add: labelled_for_def mark_degraded_label) (simp add: mark_degraded_def Let_def)

lemma success_is_labelled:
  assumes run: "execute rt primary fallback (b, w) = (Some r, b', w')" and ok: "rs_success r"
  shows "fst (primary w) = Answered r \<and> dp_consecutive b' = 0
    \<or> (\<exists>fb pr fr. fallback = Some fb \<and> failure_of (fst (primary w)) = Some pr \<and> fst (fb (snd (primary w))) = Answered fr
        \<and> labelled_for pr fr r \<and> dp_consecutive b' = Suc (dp_consecutive b))"
proof (cases "failure_of (fst (primary w))")
  case None
  then consider w1 where "primary w = (Cancelled, w1)" | r w1 where "primary w = (Answered r, w1)" "rs_success r"
    by (cases "primary w"; cases "fst (primary w)") (auto simp: failure_of_def primary_response_def split: if_splits)
  then show ?thesis using run by cases (auto simp: execute_cancelled execute_succeeds)
next
  case (Some pr)
  then have bad: "\<not> rs_success pr" by (auto simp: failure_of_def split: if_splits)
  obtain x w1 where p: "primary w = (x, w1)" by fastforce
  with Some have f: "failure_of x = Some pr" by simp
  show ?thesis
    using run ok bad Some p unfolding execute_fails [of primary, OF p f]
    by (auto simp: labelled_mark split: if_splits option.splits outcome.splits prod.splits)
qed

text \<open>An answer the router makes up itself, when the fallback fails too or is not asked at the ceiling.\<close>

lemma failure_keeps_the_error:
  assumes run: "execute rt primary fallback (b, w) = (Some r, b', w')" and fails: "\<not> rs_success r"
  shows "\<exists>pr. failure_of (fst (primary w)) = Some pr \<and> (r = pr \<or> dget (rs_meta r) ''original_error'' = Some (PStr (error_text pr)))"
proof (cases "failure_of (fst (primary w))")
  case None
  then consider w1 where "primary w = (Cancelled, w1)" | r w1 where "primary w = (Answered r, w1)" "rs_success r"
    by (cases "primary w"; cases "fst (primary w)") (auto simp: failure_of_def primary_response_def split: if_splits)
  then show ?thesis using run fails by cases (auto simp: execute_cancelled execute_succeeds)
next
  case (Some pr)
  obtain x w1 where p: "primary w = (x, w1)" by fastforce
  with Some have f: "failure_of x = Some pr" by simp
  show ?thesis
    using run fails Some unfolding execute_fails [of primary, OF p f]
    by (auto simp: mark_degraded_label ceiling_response_def dget_dupdate split: if_splits option.splits outcome.splits prod.splits)
qed

text \<open>
  C29: The weak model is asked at most once per request, only after a failure of the primary that
  shows a dead path without a sign of a block or of an uncertain delivery (or says that no
  extension is connected), and never at the ceiling. An answer handed out as successful is the
  primary's own, or the weak model's answer to this request, labelled as degraded with the text of
  the primary's error (or the error that answer already carried: the first error wins). A failed
  one is the primary's failure itself or names its error text. Between two successes of the
  primary the attempts of the weak model that complete, with an answer or an exception, are no
  more than the budget has left; a cancelled attempt is passed on and costs nothing.
\<close>

theorem degraded_answers_are_labelled_and_bounded:
  "(execute rt primary fallback (b, w) = (res, b', w') \<longrightarrow>
      w' = snd (primary w) \<or> (\<exists>fb pr. fallback = Some fb \<and> w' = snd (fb (snd (primary w)))
        \<and> failure_of (fst (primary w)) = Some pr \<and> may_ask rt pr \<and> \<not> should_abort b))
   \<and> (execute rt primary fallback (b, w) = (Some r, b', w') \<and> rs_success r \<longrightarrow>
      fst (primary w) = Answered r \<and> dp_consecutive b' = 0
      \<or> (\<exists>fb pr fr. fallback = Some fb \<and> failure_of (fst (primary w)) = Some pr \<and> fst (fb (snd (primary w))) = Answered fr
          \<and> labelled_for pr fr r \<and> dp_consecutive b' = Suc (dp_consecutive b)))
   \<and> (execute rt primary fallback (b, w) = (Some r, b', w') \<and> \<not> rs_success r \<longrightarrow>
      (\<exists>pr. failure_of (fst (primary w)) = Some pr \<and> (r = pr \<or> dget (rs_meta r) ''original_error'' = Some (PStr (error_text pr)))))
   \<and> ((\<forall>x \<in> set xs. \<forall>r. fst x = Answered r \<longrightarrow> \<not> rs_success r) \<longrightarrow>
      snd (requests rt xs (b, 0)) \<le> dp_max b - dp_consecutive b)"
  using asked_only_when_dead [of rt primary fallback b w res b' w'] success_is_labelled [of rt primary fallback b w r b' w']
    failure_keeps_the_error [of rt primary fallback b w r b' w'] requests_bounded [of xs rt b 0]
  by simp

text \<open>A stale tab four times over with a ceiling of two: the weak model answers, is cancelled, raises and is not asked.\<close>

definition stale_tab :: response where
  "stale_tab = failed_response ''TAB_STALE'' []"

definition weak_answer :: response where
  "weak_answer = \<lparr>rs_content = ''draft'', rs_success = True, rs_error = None, rs_model = ''local'', rs_meta = []\<rparr>"

definition two_hits :: dead_budget where
  "two_hits = \<lparr>dp_max = 2, dp_consecutive = 0, dp_total = 0, dp_degraded = 0\<rparr>"

definition open_router :: router where
  "open_router = \<lparr>rt_allow = True, rt_same = False\<rparr>"

lemma stale_run:
  "execute open_router (\<lambda>n. (Answered stale_tab, n)) (Some (completes (Answered weak_answer))) (two_hits, 0)
   = (Some (mark_degraded ''TAB_STALE'' weak_answer), record_degraded two_hits, Suc 0)"
  by code_simp

definition stale_requests :: "(outcome \<times> outcome) list" where
  "stale_requests = [(Answered stale_tab, Answered weak_answer), (Answered stale_tab, Cancelled),
     (Answered stale_tab, Raised ''OSError'' ''down''), (Answered stale_tab, Answered weak_answer)]"

theorem degraded_answers_are_labelled_and_bounded_witness:
  "snd (requests open_router stale_requests (two_hits, 0)) \<le> 2
   \<and> (\<exists>pr fr. failure_of (Answered stale_tab) = Some pr \<and> labelled_for pr fr (mark_degraded ''TAB_STALE'' weak_answer))
   \<and> dget (rs_meta (failed_response ''TAB_STALE'' [(''degraded_attempt'', PStr ''fallback-failed''),
       (''fallback_error'', PStr ''OSError: down''), (''original_error'', PStr ''TAB_STALE'')])) ''original_error''
     = Some (PStr ''TAB_STALE'')"
proof (intro conjI)
  have "\<forall>x \<in> set stale_requests. \<forall>r. fst x = Answered r \<longrightarrow> \<not> rs_success r"
    by (simp add: stale_requests_def stale_tab_def)
  then show "snd (requests open_router stale_requests (two_hits, 0)) \<le> 2"
    using degraded_answers_are_labelled_and_bounded [where rt = open_router and b = two_hits and
        xs = stale_requests, THEN conjunct2, THEN conjunct2, THEN conjunct2, THEN mp]
    by (simp only: two_hits_def dead_budget.simps diff_zero)
  have "rs_success (mark_degraded ''TAB_STALE'' weak_answer)" by (simp add: mark_degraded_label weak_answer_def)
  moreover have "mark_degraded ''TAB_STALE'' weak_answer \<noteq> stale_tab"
    by (simp add: stale_tab_def weak_answer_def mark_degraded_def failed_response_def)
  ultimately show "\<exists>pr fr. failure_of (Answered stale_tab) = Some pr \<and> labelled_for pr fr (mark_degraded ''TAB_STALE'' weak_answer)"
    using degraded_answers_are_labelled_and_bounded [where rt = open_router and b = two_hits and w = "0 :: nat" and
        primary = "\<lambda>n. (Answered stale_tab, n)" and fallback = "Some (completes (Answered weak_answer))" and
        r = "mark_degraded ''TAB_STALE'' weak_answer" and b' = "record_degraded two_hits" and w' = "Suc 0",
        THEN conjunct2, THEN conjunct1, THEN mp, OF conjI, OF stale_run]
    by auto
  let ?r = "failed_response ''TAB_STALE'' [(''degraded_attempt'', PStr ''fallback-failed''),
       (''fallback_error'', PStr ''OSError: down''), (''original_error'', PStr ''TAB_STALE'')]"
  have "execute open_router (\<lambda>n. (Answered stale_tab, n)) (Some (completes (Raised ''OSError'' ''down''))) (two_hits, 0)
      = (Some ?r, record_dead_path two_hits, Suc 0)"
    by code_simp
  from degraded_answers_are_labelled_and_bounded [THEN conjunct2, THEN conjunct2, THEN conjunct1, THEN mp, OF conjI, OF this]
  show "dget (rs_meta ?r) ''original_error'' = Some (PStr ''TAB_STALE'')"
    by (auto simp: failure_of_def primary_response_def stale_tab_def)
qed

text \<open>
  The text of an error decides alone: a failed prompt check that mentions the tab degrades too,
  although content failures are documented never to, and so does an uncertain submission that
  ends with no extension connected.
\<close>

lemma content_error_degrades: "decide ''PROMPT_MISMATCH TAB_ERROR'' [] = DegradeOnce"
  by code_simp

lemma uncertain_error_degrades:
  "decide ''SUBMISSION_UNCERTAIN: no extension connected'' [(''delivery_state'', PStr ''UNCERTAIN'')] = DegradeOnce"
  by code_simp

end
