(* ===== verification/Chat_Access.thy ===== *)
theory Chat_Access
  imports Prelude
begin

text \<open>
  Which browser conversation a request comes from, and whether the operator lets that
  conversation act (\<open>sentra_mcp/services/chat_access.py\<close>): strict mode, trusted and blocked
  chats, proven request owners, and the pairing of a request with the exact message. The tables
  the browser evidence collector writes are part of the state; the collector is not modelled.
\<close>

section \<open>State\<close>

record chat_policy =
  cp_trusted :: bool
  cp_blocked :: bool
  cp_revision :: int
  cp_updated :: rat

record request_owner =
  ro_conversation :: string
  ro_evidence :: string
  ro_created :: rat

record request_message =
  rm_message :: string
  rm_extension :: string
  rm_worker :: string
  rm_document :: string
  rm_revision :: int

text \<open>Rows of the collector: documents by extension and worker, collectors by extension.\<close>

record browser_document =
  bd_document :: string
  bd_conversation :: "string option"

record browser_collector =
  bc_principal :: string
  bc_enabled :: bool
  bc_revision :: int

record access_db =
  ad_policy :: "(string \<times> string, chat_policy) dict"
  ad_strict :: "(string, bool \<times> int) dict"
  ad_owners :: "(string \<times> string, request_owner) dict"
  ad_conflicts :: "(string \<times> string) list"
  ad_messages :: "(string \<times> string, request_message) dict"
  ad_gates :: "(string \<times> string, string) dict"
  ad_uncertain :: "(string \<times> string) list"
  ad_documents :: "(string \<times> string, browser_document) dict"
  ad_collectors :: "(string, browser_collector) dict"

definition empty_access :: access_db where
  "empty_access = \<lparr>ad_policy = [], ad_strict = [], ad_owners = [], ad_conflicts = [], ad_messages = [], ad_gates = [],
     ad_uncertain = [], ad_documents = [], ad_collectors = []\<rparr>"

section \<open>Names\<close>

definition alnum :: "char \<Rightarrow> bool" where
  "alnum c \<longleftrightarrow> (let n = ccode c in (48 \<le> n \<and> n \<le> 57) \<or> (65 \<le> n \<and> n \<le> 90) \<or> (97 \<le> n \<and> n \<le> 122))"

definition chat_id_ok :: "string \<Rightarrow> bool" where
  "chat_id_ok s \<longleftrightarrow> list_all (\<lambda>c. alnum c \<or> c \<in> set ''_-'') s \<and> 8 \<le> length s \<and> length s \<le> 160"

definition principal_ok :: "string \<Rightarrow> bool" where
  "principal_ok s \<longleftrightarrow> list_all (\<lambda>c. alnum c \<or> c \<in> set ''_.:@/-'') s \<and> 1 \<le> length s \<and> length s \<le> 200"

definition sha_text :: "string \<Rightarrow> bool" where
  "sha_text s \<longleftrightarrow> length s = 64 \<and> list_all (\<lambda>c. c \<in> set ''0123456789abcdef'') s"

definition valid_name :: "bool \<Rightarrow> ('s, unit) sx" where
  "valid_name ok = require ok (ValueError ''invalid'')"

section \<open>Policy of the operator\<close>

definition strict_of :: "string \<Rightarrow> access_db \<Rightarrow> bool" where
  "strict_of p d = (case dget (ad_strict d) p of None \<Rightarrow> False | Some (e, _) \<Rightarrow> e)"

definition set_strict :: "string \<Rightarrow> bool \<Rightarrow> int \<Rightarrow> (access_db, bool \<times> int) sx" where
  "set_strict p enabled expected =
     andthen (valid_name (principal_ok p))
     (andthen (require (0 \<le> expected) (ValueError ''strict mode requires a boolean and expected revision''))
     (atomically (bnd (gets (\<lambda>d. case dget (ad_strict d) p of None \<Rightarrow> 0 | Some (_, r) \<Rightarrow> r)) (\<lambda>old.
        andthen (require (old = expected) (ValueError ''chat strict policy revision changed''))
        (andthen (modify (\<lambda>d. d\<lparr>ad_strict := dset p (enabled, old + 1) (ad_strict d)\<rparr>))
          (ret (enabled, old + 1)))))))"

text \<open>Trusted, blocked, revision, number of proven requests.\<close>

definition chat_status :: "string \<Rightarrow> string \<Rightarrow> (access_db, bool \<times> bool \<times> int \<times> nat) sx" where
  "chat_status p conv =
     andthen (valid_name (principal_ok p)) (andthen (valid_name (chat_id_ok conv))
       (gets (\<lambda>d. let n = length (filter (\<lambda>(k, r). fst k = p \<and> ro_conversation r = conv) (ad_owners d)) in
          case dget (ad_policy d) (p, conv) of None \<Rightarrow> (False, False, 0, n)
          | Some c \<Rightarrow> (cp_trusted c, cp_blocked c, cp_revision c, n))))"

definition strict_status :: "string \<Rightarrow> (access_db, bool \<times> int) sx" where
  "strict_status p = andthen (valid_name (principal_ok p))
     (gets (\<lambda>d. case dget (ad_strict d) p of None \<Rightarrow> (False, 0) | Some s \<Rightarrow> s))"

definition set_chat :: "rat \<Rightarrow> string \<Rightarrow> string \<Rightarrow> bool \<Rightarrow> bool \<Rightarrow> int \<Rightarrow> (access_db, bool \<times> bool \<times> int \<times> nat) sx" where
  "set_chat now p conv trusted blocked expected =
     andthen (valid_name (principal_ok p)) (andthen (valid_name (chat_id_ok conv))
     (andthen (require (0 \<le> expected) (ValueError ''chat policy requires booleans and revision''))
     (andthen (require (\<not> (trusted \<and> blocked)) (ValueError ''a blocked chat cannot simultaneously be trusted''))
     (atomically (bnd (gets (\<lambda>d. case dget (ad_policy d) (p, conv) of None \<Rightarrow> 0 | Some c \<Rightarrow> cp_revision c)) (\<lambda>old.
        andthen (require (old = expected) (ValueError ''chat policy revision changed''))
        (andthen (modify (\<lambda>d. d\<lparr>ad_policy := dset (p, conv) \<lparr>cp_trusted = trusted, cp_blocked = blocked,
            cp_revision = old + 1, cp_updated = now\<rparr> (ad_policy d)\<rparr>))
          (chat_status p conv))))))))"

section \<open>Ownership of requests\<close>

definition bind_verified_request :: "rat \<Rightarrow> string \<Rightarrow> string \<Rightarrow> string \<Rightarrow> string \<Rightarrow> (access_db, string) sx" where
  "bind_verified_request now p rid conv evidence =
     andthen (valid_name (principal_ok p)) (andthen (valid_name (chat_id_ok rid)) (andthen (valid_name (chat_id_ok conv))
     (andthen (require (sha_text evidence) (ValueError ''authenticated evidence SHA256 required''))
     (atomically (bnd (gets (\<lambda>d. dget (ad_owners d) (p, rid))) (\<lambda>old. case old of
        Some r \<Rightarrow> andthen (require (ro_conversation r = conv) (PermissionDenied ''request is already owned by a different chat''))
          (ret ''unchanged'')
      | None \<Rightarrow> andthen (modify (\<lambda>d. d\<lparr>ad_owners := dset (p, rid) \<lparr>ro_conversation = conv, ro_evidence = evidence,
            ro_created = now\<rparr> (ad_owners d)\<rparr>)) (ret ''proven'')))))))"

text \<open>The document a proven request came from is still there, under the same collector.\<close>

definition still_live :: "string \<Rightarrow> string \<Rightarrow> request_message \<Rightarrow> access_db \<Rightarrow> bool" where
  "still_live p conv m d = (case (dget (ad_documents d) (rm_extension m, rm_worker m), dget (ad_collectors d) (rm_extension m)) of
      (Some b, Some c) \<Rightarrow> bc_principal c = p \<and> bc_enabled c \<and> bd_conversation b = Some conv
        \<and> bd_document b = rm_document m \<and> bc_revision c = rm_revision m
    | _ \<Rightarrow> False)"

text \<open>\<open>require_allowed\<close>: the conversation the request is proven to come from, if any.\<close>

definition allowed_request :: "string \<Rightarrow> string \<Rightarrow> request_owner \<Rightarrow> access_db \<Rightarrow> exn + string option" where
  "allowed_request p rid row d =
     (let conv = ro_conversation row; chat = dget (ad_policy d) (p, conv); msg = dget (ad_messages d) (p, rid) in
      scheck (case msg of None \<Rightarrow> True | Some m \<Rightarrow> (p, rm_extension m) \<notin> set (ad_uncertain d))
        (PermissionDenied ''browser profile or account identity remains unverified'')
      (scheck (case msg of None \<Rightarrow> True | Some m \<Rightarrow> still_live p conv m d)
        (PermissionDenied ''browser request lost document or collector identity'')
      (scheck (case dget (ad_gates d) (p, conv) of None \<Rightarrow> True | Some g \<Rightarrow> g \<notin> {''awaiting_approval'', ''signed_out'', ''unknown''})
        (PermissionDenied ''browser conversation awaits human approval or identity repair'')
      (scheck (case chat of None \<Rightarrow> True | Some c \<Rightarrow> \<not> cp_blocked c)
        (PermissionDenied ''this ChatGPT conversation was blocked by the operator'')
      (scheck (strict_of p d \<longrightarrow> (case chat of None \<Rightarrow> False | Some c \<Rightarrow> cp_trusted c))
        (PermissionDenied ''chat not explicitly trusted under strict mode'')
        (Inr (Some conv)))))))"

definition require_allowed :: "string \<Rightarrow> string option \<Rightarrow> access_db \<Rightarrow> exn + string option" where
  "require_allowed p rid d =
     scheck (principal_ok p) (ValueError ''invalid'')
     (case rid of
        None \<Rightarrow> scheck (\<not> strict_of p d) (PermissionDenied ''unproven ChatGPT conversation refused by strict policy'') (Inr None)
      | Some i \<Rightarrow>
          scheck (chat_id_ok i) (ValueError ''invalid'')
          (scheck ((p, i) \<notin> set (ad_conflicts d)) (PermissionDenied ''conflicting browser request identity quarantined'')
          (case dget (ad_owners d) (p, i) of
             None \<Rightarrow> scheck (\<not> strict_of p d) (PermissionDenied ''unproven ChatGPT conversation refused by strict policy'') (Inr None)
           | Some row \<Rightarrow> allowed_request p i row d)))"

definition require_exact_message :: "string \<Rightarrow> string \<Rightarrow> string \<Rightarrow> access_db \<Rightarrow> exn + string option" where
  "require_exact_message p rid mid d =
     scheck (chat_id_ok mid) (ValueError ''invalid'')
     (sbind (require_allowed p (Some rid) d) (\<lambda>conv.
       scheck (case dget (ad_messages d) (p, rid) of None \<Rightarrow> False | Some m \<Rightarrow> rm_message m = mid)
         (PermissionDenied ''unverified MCP request and Web message pairing'') (Inr conv)))"

end
