(* ===== verification/Action_Consent.thy ===== *)
theory Action_Consent
  imports Chat_Access
begin

text \<open>
  Two human consents in front of a local action
  (\<open>sentra_mcp/services/action_consent_gate.py\<close>): the operator switches the interface on for an
  agent and a work item, an agent proposes an action with the digest of its body, the operator
  approves this action, and the approval is consumed once, inside the effect. Clicks of the
  operator are single-use tokens bound to a session of the host. SHA-256, generated tokens, the
  clock and the session a request comes from are arguments; a proof that is not a text is \<open>None\<close>.
\<close>

section \<open>State\<close>

text \<open>Owner, agent and work item.\<close>

type_synonym consent_key = "string \<times> string \<times> string"

record action_intent =
  in_owner :: string
  in_agent :: string
  in_work :: string
  in_request :: string
  in_message :: string
  in_capability :: string
  in_body :: string
  in_revision :: int
  in_expires :: rat
  in_state :: string
  in_operation :: "string option"

record host_click =
  ck_owner :: string
  ck_session :: string
  ck_origin :: string
  ck_purpose :: string
  ck_nonce :: string
  ck_expires :: rat
  ck_state :: string

record consent_db =
  cd_consent :: "(consent_key, bool \<times> int) dict"
  cd_bindings :: "(consent_key, int \<times> string) dict"
  cd_assertions :: "(string, string \<times> string) dict"
  cd_intents :: "(string, action_intent) dict"
  cd_clicks :: "(string, host_click) dict"
  cd_revoked :: "(string \<times> string) list"
  cd_access :: access_db

definition empty_consent :: consent_db where
  "empty_consent = \<lparr>cd_consent = [], cd_bindings = [], cd_assertions = [], cd_intents = [], cd_clicks = [], cd_revoked = [],
     cd_access = empty_access\<rparr>"

section \<open>Sessions and clicks of the host\<close>

record host_session =
  hs_owner :: string
  hs_id :: string
  hs_origin :: string
  hs_csrf :: bool

definition host_session_ok :: "host_session \<Rightarrow> bool" where
  "host_session_ok s \<longleftrightarrow> principal_ok (hs_owner s) \<and> 24 \<le> length (hs_id s)
     \<and> (\<exists>p \<in> {''https://127.0.0.1:'', ''http://127.0.0.1:'', ''https://localhost:'', ''http://localhost:''}. py_startswith (hs_origin s) p)"

definition fingerprint :: "(string \<Rightarrow> string) \<Rightarrow> host_session \<Rightarrow> string" where
  "fingerprint sha s = sha (hs_owner s @ [char_of (92 :: nat), CHR ''0''] @ hs_id s)"

text \<open>\<open>session\<close>: what the host resolves the current request to.\<close>

definition current_session :: "host_session option \<Rightarrow> string \<Rightarrow> exn + host_session" where
  "current_session session owner = (case session of
      None \<Rightarrow> Inl (PermissionDenied ''current host owner session/CSRF unavailable'')
    | Some s \<Rightarrow> scheck (host_session_ok s \<and> hs_owner s = owner \<and> hs_csrf s)
        (PermissionDenied ''current host owner session/CSRF unavailable'') (Inr s))"

definition require_active :: "string \<Rightarrow> string \<Rightarrow> (consent_db, unit) sx" where
  "require_active owner sess = bnd (gets cd_revoked) (\<lambda>rs.
     require ((owner, sess) \<notin> set rs) (PermissionDenied ''owner host session was revoked''))"

definition purpose_ok :: "string \<Rightarrow> bool" where
  "purpose_ok p \<longleftrightarrow> p = ''api-consent'' \<or> py_startswith p ''action:act-'' \<and> length p \<le> 80"

definition new_click :: "(string \<Rightarrow> string) \<Rightarrow> host_session \<Rightarrow> string \<Rightarrow> string \<Rightarrow> rat \<Rightarrow> host_click" where
  "new_click sha s purpose nonce expires = \<lparr>ck_owner = hs_owner s, ck_session = fingerprint sha s,
     ck_origin = sha (hs_origin s), ck_purpose = purpose, ck_nonce = sha nonce, ck_expires = expires, ck_state = ''ISSUED''\<rparr>"

text \<open>\<open>token\<close> and \<open>nonce\<close>: what \<open>secrets\<close> generates, without a dot.\<close>

definition issue_click ::
  "(string \<Rightarrow> string) \<Rightarrow> rat \<Rightarrow> host_session option \<Rightarrow> string \<Rightarrow> string \<Rightarrow> string \<Rightarrow> string \<Rightarrow> rat \<Rightarrow> (consent_db, string) sx" where
  "issue_click sha now session token nonce owner purpose ttl =
     andthen (valid_name (principal_ok owner))
     (andthen (require (purpose_ok purpose) (ValueError ''invalid click purpose''))
     (andthen (require (1 \<le> ttl \<and> ttl \<le> 180) (ValueError ''invalid click lifetime''))
     (bnd (lift_sum (current_session session owner)) (\<lambda>s.
      let proof_text = ''owner-click-'' @ token @ ''.'' @ nonce; click = sha proof_text in
      atomically (andthen (require_active owner (fingerprint sha s))
        (bnd (gets (\<lambda>d. dget (cd_clicks d) click)) (\<lambda>old.
         andthen (require (old = None) IntegrityError)
         (andthen (modify (\<lambda>d. d\<lparr>cd_clicks := dset click (new_click sha s purpose nonce (now + ttl)) (cd_clicks d)\<rparr>))
           (ret proof_text)))))))))"

text \<open>\<open>proof.split('.')\<close>, when there is exactly one dot.\<close>

definition split_proof :: "string \<Rightarrow> (string \<times> string) option" where
  "split_proof p = (case dropWhile (\<lambda>c. c \<noteq> CHR ''.'') p of
      [] \<Rightarrow> None
    | _ # rest \<Rightarrow> if CHR ''.'' \<in> set rest then None else Some (takeWhile (\<lambda>c. c \<noteq> CHR ''.'') p, rest))"

text \<open>The authenticator called on a proof: whether the click is the owner's, for this purpose, still open.\<close>

definition click_verified :: "(string \<Rightarrow> string) \<Rightarrow> rat \<Rightarrow> host_session option \<Rightarrow> string \<Rightarrow> string \<Rightarrow> string \<Rightarrow> consent_db \<Rightarrow> exn + string" where
  "click_verified sha now session owner purpose proof_text d =
     sbind (current_session session owner) (\<lambda>s.
     scheck (length proof_text \<le> 4096) (PermissionDenied ''invalid host click'')
     (case split_proof proof_text of
        None \<Rightarrow> Inl (PermissionDenied ''host click nonce missing'')
      | Some (front, nonce) \<Rightarrow>
          scheck (py_startswith front ''owner-click-'') (PermissionDenied ''host click nonce missing'')
          (case dget (cd_clicks d) (sha proof_text) of
             None \<Rightarrow> Inl (PermissionDenied ''host click identity, purpose or TTL mismatch'')
           | Some c \<Rightarrow>
               scheck (ck_owner c = owner \<and> ck_purpose c = purpose \<and> ck_session c = fingerprint sha s
                   \<and> ck_origin c = sha (hs_origin s) \<and> ck_nonce c = sha nonce \<and> now < ck_expires c)
                 (PermissionDenied ''host click identity, purpose or TTL mismatch'')
               (scheck ((owner, ck_session c) \<notin> set (cd_revoked d)) (PermissionDenied ''owner host session was revoked'')
               (scheck (ck_state c = ''ISSUED'') (PermissionDenied ''host click already consumed'') (Inr owner))))))"

definition consume_click :: "rat \<Rightarrow> string \<Rightarrow> string \<Rightarrow> string \<Rightarrow> (consent_db, string) sx" where
  "consume_click now click owner purpose =
     bnd (gets (\<lambda>d. dget (cd_clicks d) click)) (\<lambda>row. case row of
        None \<Rightarrow> throw (PermissionDenied ''host click unavailable, expired or consumed'')
      | Some c \<Rightarrow>
          andthen (require (ck_owner c = owner \<and> ck_purpose c = purpose \<and> ck_state c = ''ISSUED'' \<and> now < ck_expires c)
            (PermissionDenied ''host click unavailable, expired or consumed''))
          (andthen (require_active owner (ck_session c))
          (andthen (modify (\<lambda>d. d\<lparr>cd_clicks := dset click (c\<lparr>ck_state := ''CONSUMED''\<rparr>) (cd_clicks d)\<rparr>))
            (ret (ck_session c)))))"

definition revoke_current_session :: "(string \<Rightarrow> string) \<Rightarrow> host_session option \<Rightarrow> string \<Rightarrow> (consent_db, unit) sx" where
  "revoke_current_session sha session owner =
     bnd (lift_sum (current_session session owner)) (\<lambda>s.
       let f = fingerprint sha s in
       atomically (andthen (modify (\<lambda>d. d\<lparr>cd_revoked := (if (owner, f) \<in> set (cd_revoked d) then cd_revoked d
             else cd_revoked d @ [(owner, f)])\<rparr>))
         (modify (\<lambda>d. d\<lparr>cd_clicks := map (\<lambda>(k, c). (k, if ck_owner c = owner \<and> ck_session c = f
             then c\<lparr>ck_state := ''CONSUMED''\<rparr> else c)) (cd_clicks d)\<rparr>))))"

section \<open>Assertions of the owner\<close>

text \<open>
  The authenticator of the service: absent, another trusted one (the identity it returns, \<open>None\<close>
  when it raises), or the clicks of the host.
\<close>

datatype authenticator =
    no_auth: NoAuth
  | OtherAuth "string \<Rightarrow> string \<Rightarrow> string \<Rightarrow> string option"
  | host_clicks: HostClicks

definition owner_assertion ::
  "authenticator \<Rightarrow> (string \<Rightarrow> string) \<Rightarrow> rat \<Rightarrow> host_session option \<Rightarrow> string \<Rightarrow> string \<Rightarrow> string option \<Rightarrow> consent_db \<Rightarrow> exn + string" where
  "owner_assertion auth sha now session owner purpose proof_text d = (case proof_text of
      None \<Rightarrow> Inl (PermissionDenied ''owner-auth human assertion unavailable'')
    | Some p \<Rightarrow>
        scheck (\<not> no_auth auth \<and> 24 \<le> length p \<and> length p \<le> 4096) (PermissionDenied ''owner-auth human assertion unavailable'')
        (let verified = (case auth of
             NoAuth \<Rightarrow> None
           | OtherAuth f \<Rightarrow> f owner purpose p
           | HostClicks \<Rightarrow> (case click_verified sha now session owner purpose p d of Inl e \<Rightarrow> None | Inr o' \<Rightarrow> Some o'))
         in case verified of
              None \<Rightarrow> Inl (PermissionDenied ''owner-auth verification failed'')
            | Some who \<Rightarrow> scheck (who = owner) (PermissionDenied ''owner-auth principal mismatch'') (Inr (sha p))))"

text \<open>The digest of a proof is stored under a unique key: a second use raises.\<close>

definition consume_assertion :: "authenticator \<Rightarrow> rat \<Rightarrow> string \<Rightarrow> string \<Rightarrow> string \<Rightarrow> (consent_db, string option) sx" where
  "consume_assertion auth now dig owner purpose =
     bnd (gets (\<lambda>d. dget (cd_assertions d) dig)) (\<lambda>old.
     andthen (require (old = None) (PermissionDenied ''owner-auth assertion already consumed''))
     (andthen (modify (\<lambda>d. d\<lparr>cd_assertions := dset dig (owner, purpose) (cd_assertions d)\<rparr>))
       (if host_clicks auth then bnd (consume_click now dig owner purpose) (\<lambda>s. ret (Some s)) else ret None)))"

section \<open>First consent\<close>

definition store_consent ::
  "authenticator \<Rightarrow> rat \<Rightarrow> string \<Rightarrow> consent_key \<Rightarrow> bool \<Rightarrow> int \<Rightarrow> (consent_db, int) sx" where
  "store_consent auth now dig key enabled expected =
     atomically (bnd (gets (\<lambda>d. case dget (cd_consent d) key of None \<Rightarrow> 0 | Some (_, r) \<Rightarrow> r)) (\<lambda>current.
       andthen (require (current = expected) (ValueError ''API consent revision changed''))
       (bnd (consume_assertion auth now dig (fst key) ''api-consent'') (\<lambda>sess.
        andthen (modify (\<lambda>d. case sess of None \<Rightarrow> d
            | Some s \<Rightarrow> d\<lparr>cd_bindings := dset key (current + 1, s) (cd_bindings d)\<rparr>))
        (andthen (modify (\<lambda>d. d\<lparr>cd_consent := dset key (enabled, current + 1) (cd_consent d)\<rparr>))
          (ret (current + 1)))))))"

definition allow_api ::
  "authenticator \<Rightarrow> (string \<Rightarrow> string) \<Rightarrow> rat \<Rightarrow> host_session option \<Rightarrow> consent_key \<Rightarrow> bool \<Rightarrow> int \<Rightarrow> bool \<Rightarrow> string option \<Rightarrow>
     (consent_db, int) sx" where
  "allow_api auth sha now session key enabled expected confirmed proof_text =
     (case key of (owner, agent, work) \<Rightarrow>
     andthen (valid_name (principal_ok owner)) (andthen (valid_name (principal_ok agent)) (andthen (valid_name (chat_id_ok work))
     (andthen (require (confirmed \<and> 0 \<le> expected) (PermissionDenied ''first human API consent and revision required''))
     (bnd (gets (owner_assertion auth sha now session owner ''api-consent'' proof_text)) (\<lambda>r.
      bnd (lift_sum r) (\<lambda>dig. store_consent auth now dig key enabled expected)))))))"

definition api_revision :: "authenticator \<Rightarrow> consent_key \<Rightarrow> (consent_db, int) sx" where
  "api_revision auth key =
     bnd (gets (\<lambda>d. (dget (cd_consent d) key, dget (cd_bindings d) key))) (\<lambda>(row, bound). case row of
        None \<Rightarrow> throw (PermissionDenied ''first API consent absent or revoked'')
      | Some (enabled, revision) \<Rightarrow>
          andthen (require enabled (PermissionDenied ''first API consent absent or revoked''))
          (if host_clicks auth then (case bound of
               None \<Rightarrow> throw (PermissionDenied ''first API consent missing authenticated owner session'')
             | Some (r, s) \<Rightarrow> andthen (require (r = revision) (PermissionDenied ''first API consent missing authenticated owner session''))
                 (andthen (require_active (fst key) s) (ret revision)))
           else ret revision))"

section \<open>Proposal and second consent\<close>

definition action_ok :: "string \<Rightarrow> bool" where
  "action_ok s \<longleftrightarrow> (case s of [] \<Rightarrow> False | c # cs \<Rightarrow> (let n = ccode c in 97 \<le> n \<and> n \<le> 122)
     \<and> length cs \<le> 63 \<and> list_all (\<lambda>x. let n = ccode x in (97 \<le> n \<and> n \<le> 122) \<or> (48 \<le> n \<and> n \<le> 57) \<or> x \<in> set ''_.-'') cs)"

text \<open>\<open>_digest\<close> of a body that has been serialised.\<close>

definition body_digest :: "(string \<Rightarrow> string) \<Rightarrow> string \<Rightarrow> exn + string" where
  "body_digest sha raw = scheck (length raw \<le> 16384) (ValueError ''action body exceeds 16 KiB'') (Inr (sha raw))"

definition intent_key :: "action_intent \<Rightarrow> consent_key" where
  "intent_key r = (in_owner r, in_agent r, in_work r)"

text \<open>What an execution is compared with: owner, agent, work item, request, message, capability, body.\<close>

type_synonym action_binding = "string \<times> string \<times> string \<times> string \<times> string \<times> string \<times> string"

definition intent_binding :: "action_intent \<Rightarrow> action_binding" where
  "intent_binding r = (in_owner r, in_agent r, in_work r, in_request r, in_message r, in_capability r, in_body r)"

definition binding_key :: "action_binding \<Rightarrow> consent_key" where
  "binding_key b = (case b of (owner, agent, work, _) \<Rightarrow> (owner, agent, work))"

definition new_intent :: "action_binding \<Rightarrow> int \<Rightarrow> rat \<Rightarrow> action_intent" where
  "new_intent b revision expires = (case b of (owner, agent, work, rid, mid, cap, body) \<Rightarrow>
     \<lparr>in_owner = owner, in_agent = agent, in_work = work, in_request = rid, in_message = mid, in_capability = cap,
      in_body = body, in_revision = revision, in_expires = expires, in_state = ''PROPOSED'', in_operation = None\<rparr>)"

definition set_intent :: "string \<Rightarrow> action_intent \<Rightarrow> consent_db \<Rightarrow> consent_db" where
  "set_intent i r d = d\<lparr>cd_intents := dset i r (cd_intents d)\<rparr>"

definition store_proposal ::
  "authenticator \<Rightarrow> rat \<Rightarrow> string \<Rightarrow> action_binding \<Rightarrow> rat \<Rightarrow> (consent_db, string) sx" where
  "store_proposal auth now hex b ttl =
     atomically (bnd (api_revision auth (binding_key b)) (\<lambda>revision.
       let i = ''act-'' @ hex in
       bnd (gets (\<lambda>d. dget (cd_intents d) i)) (\<lambda>old.
       andthen (require (old = None) IntegrityError)
       (andthen (modify (set_intent i (new_intent b revision (now + ttl)))) (ret i)))))"

definition propose_action ::
  "authenticator \<Rightarrow> (string \<Rightarrow> string) \<Rightarrow> rat \<Rightarrow> string \<Rightarrow> consent_key \<Rightarrow> string \<Rightarrow> string \<Rightarrow> string \<Rightarrow> string \<Rightarrow> rat \<Rightarrow>
     (consent_db, string) sx" where
  "propose_action auth sha now hex key rid mid action raw ttl = (case key of (owner, agent, work) \<Rightarrow>
     andthen (valid_name (principal_ok owner)) (andthen (valid_name (principal_ok agent)) (andthen (valid_name (chat_id_ok work))
     (andthen (valid_name (chat_id_ok rid)) (andthen (valid_name (chat_id_ok mid))
     (andthen (require (action_ok action) (ValueError ''invalid named API action''))
     (andthen (require (1 \<le> ttl \<and> ttl \<le> 600) (ValueError ''invalid action approval window''))
     (bnd (lift_sum (body_digest sha raw)) (\<lambda>body.
      bnd (gets (\<lambda>d. require_exact_message owner rid mid (cd_access d))) (\<lambda>r.
      andthen (lift_sum r)
        (store_proposal auth now hex (owner, agent, work, rid, mid, ''api:action:'' @ action, body) ttl)))))))))))"

definition action_purpose :: "string \<Rightarrow> string" where
  "action_purpose i = ''action:'' @ i"

text \<open>With the host's clicks both consents come from one session.\<close>

definition same_session :: "action_intent \<Rightarrow> string option \<Rightarrow> (consent_db, unit) sx" where
  "same_session r sess = (case sess of None \<Rightarrow> ret ()
     | Some s \<Rightarrow> bnd (gets (\<lambda>d. dget (cd_bindings d) (intent_key r))) (\<lambda>bound.
         require (bound = Some (in_revision r, s)) (PermissionDenied ''two consents require same authenticated host session'')))"

definition store_approval :: "authenticator \<Rightarrow> rat \<Rightarrow> string \<Rightarrow> string \<Rightarrow> string \<Rightarrow> (consent_db, unit) sx" where
  "store_approval auth now dig i body =
     atomically (bnd (gets (\<lambda>d. dget (cd_intents d) i)) (\<lambda>row. case row of
        None \<Rightarrow> throw (PermissionDenied ''action proposal absent, expired or already decided'')
      | Some r \<Rightarrow>
          andthen (require (in_state r = ''PROPOSED'' \<and> now < in_expires r)
            (PermissionDenied ''action proposal absent, expired or already decided''))
          (bnd (api_revision auth (intent_key r)) (\<lambda>_.
           andthen (require (in_body r = body) (PermissionDenied ''human action review digest mismatch''))
           (bnd (consume_assertion auth now dig (in_owner r) (action_purpose i)) (\<lambda>sess.
            andthen (same_session r sess)
              (modify (set_intent i (r\<lparr>in_state := ''APPROVED''\<rparr>)))))))))"

definition approve_action ::
  "authenticator \<Rightarrow> (string \<Rightarrow> string) \<Rightarrow> rat \<Rightarrow> host_session option \<Rightarrow> string \<Rightarrow> string \<Rightarrow> bool \<Rightarrow> string option \<Rightarrow>
     (consent_db, unit) sx" where
  "approve_action auth sha now session i body confirmed proof_text =
     andthen (require (confirmed \<and> sha_text body) (PermissionDenied ''second human confirmation of exact action required''))
     (bnd (gets (\<lambda>d. dget (cd_intents d) i)) (\<lambda>row. case row of
        None \<Rightarrow> throw (PermissionDenied ''action proposal unavailable'')
      | Some r \<Rightarrow>
          bnd (gets (owner_assertion auth sha now session (in_owner r) (action_purpose i) proof_text)) (\<lambda>a.
          bnd (lift_sum a) (\<lambda>dig. store_approval auth now dig i body))))"

section \<open>Execution\<close>

definition claim_action :: "authenticator \<Rightarrow> rat \<Rightarrow> string \<Rightarrow> action_binding \<Rightarrow> string \<Rightarrow> (consent_db, unit) sx" where
  "claim_action auth now i b op =
     atomically (bnd (gets (\<lambda>d. dget (cd_intents d) i)) (\<lambda>row. case row of
        None \<Rightarrow> throw (PermissionDenied ''action approval revoked, used or not bound to exact request'')
      | Some r \<Rightarrow>
          andthen (require (in_state r = ''APPROVED'' \<and> now < in_expires r \<and> intent_binding r = b)
            (PermissionDenied ''action approval revoked, used or not bound to exact request''))
          (bnd (api_revision auth (binding_key b)) (\<lambda>revision.
           andthen (require (in_revision r = revision) (PermissionDenied ''action approval revoked, used or not bound to exact request''))
           (bnd (gets (\<lambda>d. require_exact_message (in_owner r) (in_request r) (in_message r) (cd_access d))) (\<lambda>m.
            andthen (lift_sum m)
              (modify (set_intent i (r\<lparr>in_state := ''CONSUMED'', in_operation := Some op\<rparr>)))))))))"

definition preflight :: "authenticator \<Rightarrow> rat \<Rightarrow> string \<Rightarrow> action_binding \<Rightarrow> string \<Rightarrow> (consent_db, unit) sx" where
  "preflight auth now i b op =
     bnd (gets (\<lambda>d. dget (cd_intents d) i)) (\<lambda>row. case row of
        None \<Rightarrow> throw (PermissionDenied ''action approval absent, revoked or already used'')
      | Some r \<Rightarrow>
          andthen (require (in_state r = ''APPROVED'' \<or> in_state r = ''CONSUMED'' \<and> in_operation r = Some op)
            (PermissionDenied ''action approval absent, revoked or already used''))
          (andthen (require (now < in_expires r \<and> intent_binding r = b)
            (PermissionDenied ''action approval revoked, expired or mismatched''))
          (bnd (api_revision auth (binding_key b)) (\<lambda>revision.
            require (in_revision r = revision) (PermissionDenied ''action approval revoked, expired or mismatched'')))))"

text \<open>
  \<open>execute\<close> up to the gate: \<open>work\<close> is the run of the work item as the control plane tells it (or
  its error), \<open>allowed\<close> the first decision of the gate. The result is the binding the effect claims.
\<close>

definition prepare_action ::
  "authenticator \<Rightarrow> (string \<Rightarrow> string) \<Rightarrow> rat \<Rightarrow> exn + string \<Rightarrow> bool \<Rightarrow> string \<Rightarrow> consent_key \<Rightarrow> string \<Rightarrow> string \<Rightarrow> string \<Rightarrow>
     string \<Rightarrow> string \<Rightarrow> string \<Rightarrow> string \<Rightarrow> (consent_db, action_binding) sx" where
  "prepare_action auth sha now work allowed run key rid mid i action raw op idem = (case key of (owner, agent, item) \<Rightarrow>
     andthen (require (action_ok action) (ValueError ''invalid API action''))
     (andthen (valid_name (chat_id_ok op)) (andthen (valid_name (chat_id_ok idem))
     (bnd (lift_sum (body_digest sha raw)) (\<lambda>body.
      let b = (owner, agent, item, rid, mid, ''api:action:'' @ action, body) in
      bnd (gets (\<lambda>d. require_exact_message owner rid mid (cd_access d))) (\<lambda>m.
      andthen (lift_sum m)
      (bnd (lift_sum work) (\<lambda>w.
       andthen (require (w = run) (PermissionDenied ''API action WorkItem does not belong to run''))
       (andthen (preflight auth now i b op)
       (andthen (require allowed (PermissionDenied ''named API action requires active central WorkItem grant''))
         (ret b)))))))))))"

text \<open>
  The callback inside the gate: \<open>fence\<close> is what the first \<open>checkpoint\<close> raises, \<open>allowed\<close> the second
  decision, \<open>fence'\<close> what the last checkpoint raises; when it returns the host's effect starts.
\<close>

definition checkpoint_of :: "exn option \<Rightarrow> ('s, unit) sx" where
  "checkpoint_of f = (case f of None \<Rightarrow> ret () | Some e \<Rightarrow> throw e)"

definition action_effect ::
  "authenticator \<Rightarrow> rat \<Rightarrow> exn option \<Rightarrow> bool \<Rightarrow> exn option \<Rightarrow> string \<Rightarrow> action_binding \<Rightarrow> string \<Rightarrow> (consent_db, unit) sx" where
  "action_effect auth now fence allowed fence' i b op =
     andthen (checkpoint_of fence)
     (andthen (require allowed (PermissionDenied ''API action grant revoked before effect''))
     (andthen (claim_action auth now i b op) (checkpoint_of fence')))"

text \<open>Reading needs the first consent only.\<close>

definition prepare_read ::
  "authenticator \<Rightarrow> (string \<Rightarrow> string) \<Rightarrow> exn + string \<Rightarrow> bool \<Rightarrow> string \<Rightarrow> consent_key \<Rightarrow> string \<Rightarrow> string \<Rightarrow> string \<Rightarrow> string \<Rightarrow>
     string \<Rightarrow> string \<Rightarrow> (consent_db, string) sx" where
  "prepare_read auth sha work allowed run key rid mid resource raw op idem = (case key of (owner, agent, item) \<Rightarrow>
     andthen (require (action_ok resource) (ValueError ''invalid named read resource''))
     (andthen (valid_name (chat_id_ok op)) (andthen (valid_name (chat_id_ok idem))
     (bnd (lift_sum (body_digest sha raw)) (\<lambda>body.
      bnd (gets (\<lambda>d. require_exact_message owner rid mid (cd_access d))) (\<lambda>m.
      andthen (lift_sum m)
      (bnd (api_revision auth key) (\<lambda>_.
       bnd (lift_sum work) (\<lambda>w.
       andthen (require (w = run) (PermissionDenied ''read API WorkItem does not belong to run''))
       (andthen (require allowed (PermissionDenied ''named read API requires distinct central WorkItem grant''))
         (ret body)))))))))))"

definition read_effect ::
  "authenticator \<Rightarrow> exn option \<Rightarrow> bool \<Rightarrow> exn option \<Rightarrow> consent_key \<Rightarrow> string \<Rightarrow> string \<Rightarrow> (consent_db, unit) sx" where
  "read_effect auth fence allowed fence' key rid mid =
     andthen (checkpoint_of fence)
     (andthen (require allowed (PermissionDenied ''read API grant revoked before effect''))
     (bnd (api_revision auth key) (\<lambda>_.
      bnd (gets (\<lambda>d. require_exact_message (fst key) rid mid (cd_access d))) (\<lambda>m.
      andthen (lift_sum m) (checkpoint_of fence')))))"

section \<open>Reading\<close>

definition shown_state :: "rat \<Rightarrow> action_intent \<Rightarrow> string" where
  "shown_state now r = (if in_state r = ''PROPOSED'' \<and> in_expires r \<le> now then ''EXPIRED'' else in_state r)"

definition pending_intents ::
  "rat \<Rightarrow> string \<Rightarrow> string option \<Rightarrow> string option \<Rightarrow> int \<Rightarrow> (consent_db, (string \<times> action_intent \<times> string) list) sx" where
  "pending_intents now owner agent work limit =
     andthen (valid_name (principal_ok owner))
     (andthen (valid_name (case agent of None \<Rightarrow> True | Some a \<Rightarrow> principal_ok a))
     (andthen (valid_name (case work of None \<Rightarrow> True | Some w \<Rightarrow> chat_id_ok w))
     (andthen (require (1 \<le> limit \<and> limit \<le> 200) (ValueError ''bounded pending intent listing required''))
     (gets (\<lambda>d. map (\<lambda>(i, r). (i, r, shown_state now r)) (take (nat limit) (sort_key (\<lambda>(i, r). in_expires r)
        (filter (\<lambda>(i, r). in_owner r = owner \<and> (case agent of None \<Rightarrow> True | Some a \<Rightarrow> in_agent r = a)
          \<and> (case work of None \<Rightarrow> True | Some w \<Rightarrow> in_work r = w)) (cd_intents d)))))))))"

definition intent_status :: "rat \<Rightarrow> string \<Rightarrow> string \<Rightarrow> (consent_db, action_intent \<times> string \<times> bool) sx" where
  "intent_status now i owner =
     andthen (valid_name (principal_ok owner))
     (andthen (require (py_startswith i ''act-'') (ValueError ''invalid action identity''))
     (bnd (gets (\<lambda>d. dget (cd_intents d) i)) (\<lambda>row. case row of
        None \<Rightarrow> throw (FileNotFound ''action intent not found for this owner'')
      | Some r \<Rightarrow> andthen (require (in_owner r = owner) (FileNotFound ''action intent not found for this owner''))
          (ret (r, shown_state now r, in_state r = ''CONSUMED'')))))"

end
