(* ===== verification/Consent_Invariants.thy ===== *)
theory Consent_Invariants
  imports Action_Consent
begin

text \<open>
  Histories of the two-consent gate with the host's clicks, and what they keep: every stored
  assertion is a used click of its owner, every click was asked for by a verified session, every
  approval rests on a click for this action and on the first consent of the same session.
\<close>

section \<open>The transactions when they return\<close>

lemma atomically_cases:
  obtains "snd (atomically m d) = d" | x d' where "m d = (Inr x, d')" "snd (atomically m d) = d'"
  by (cases "m d"; cases "fst (m d)") (auto simp: atomically_def)

lemmas run_Inr = lift_sum_Inr gets_Inr atomically_Inr then_Inr throw_Inr ret_Inr andthen_modify

lemma require_active_Inr: "require_active owner s d = (Inr x, d') \<longleftrightarrow> (owner, s) \<notin> set (cd_revoked d) \<and> d' = d"
  by (auto simp: require_active_def gets_Inr require_done lift_done)

text \<open>What using a click does.\<close>

definition use_click :: "string \<Rightarrow> string \<Rightarrow> string \<Rightarrow> host_click \<Rightarrow> consent_db \<Rightarrow> consent_db" where
  "use_click dig owner purpose c d = d\<lparr>cd_assertions := dset dig (owner, purpose) (cd_assertions d),
     cd_clicks := dset dig (c\<lparr>ck_state := ''CONSUMED''\<rparr>) (cd_clicks d)\<rparr>"

definition open_click :: "rat \<Rightarrow> string \<Rightarrow> string \<Rightarrow> string \<Rightarrow> host_click \<Rightarrow> consent_db \<Rightarrow> bool" where
  "open_click now dig owner purpose c d \<longleftrightarrow> dget (cd_assertions d) dig = None \<and> dget (cd_clicks d) dig = Some c
     \<and> ck_owner c = owner \<and> ck_purpose c = purpose \<and> ck_state c = ''ISSUED'' \<and> now < ck_expires c
     \<and> (owner, ck_session c) \<notin> set (cd_revoked d)"

lemma consume_assertion_Inr:
  "consume_assertion HostClicks now dig owner purpose d = (Inr x, d') \<longleftrightarrow>
     (\<exists>c. open_click now dig owner purpose c d \<and> x = Some (ck_session c) \<and> d' = use_click dig owner purpose c d)"
  unfolding consume_assertion_def consume_click_def open_click_def use_click_def
  by (cases "dget (cd_clicks d) dig") (auto simp: run_Inr bnd_Inr require_done lift_done require_active_Inr)

lemma api_revision_Inr:
  "api_revision HostClicks key d = (Inr v, d') \<longleftrightarrow>
     (\<exists>s. dget (cd_consent d) key = Some (True, v) \<and> dget (cd_bindings d) key = Some (v, s)
        \<and> (fst key, s) \<notin> set (cd_revoked d) \<and> d' = d)"
  unfolding api_revision_def
  by (auto simp: run_Inr bnd_Inr require_done lift_done require_active_Inr split: option.split)

lemma store_consent_Inr:
  assumes "store_consent HostClicks now dig key enabled expected d = (Inr v, d')"
  obtains c where "open_click now dig (fst key) ''api-consent'' c d"
    and "v = expected + 1"
    and "(case dget (cd_consent d) key of None \<Rightarrow> 0 | Some (_, r) \<Rightarrow> r) = expected"
    and "d' = (use_click dig (fst key) ''api-consent'' c d)\<lparr>cd_bindings := dset key (v, ck_session c) (cd_bindings d),
      cd_consent := dset key (enabled, v) (cd_consent d)\<rparr>"
  using assms unfolding store_consent_def
  by (auto simp: run_Inr require_done lift_done bnd_Inr[where m = "consume_assertion _ _ _ _ _"] consume_assertion_Inr modify_Inr use_click_def)

lemma binding_key_intent [simp]: "binding_key (intent_binding r) = intent_key r"
  by (simp add: binding_key_def intent_binding_def intent_key_def)

lemma fst_intent_key [simp]: "fst (intent_key r) = in_owner r"
  by (simp add: intent_key_def)

lemma new_intent_fields [simp]:
  "intent_binding (new_intent b v t) = b" "in_revision (new_intent b v t) = v" "in_expires (new_intent b v t) = t"
  "in_state (new_intent b v t) = ''PROPOSED''" "intent_key (new_intent b v t) = binding_key b"
  by (simp_all add: new_intent_def intent_binding_def intent_key_def binding_key_def split: prod.split)

lemma store_proposal_Inr:
  assumes "store_proposal HostClicks now hex b ttl d = (Inr i, d')"
  obtains v where "dget (cd_consent d) (binding_key b) = Some (True, v)" and "dget (cd_intents d) i = None"
    and "d' = set_intent i (new_intent b v (now + ttl)) d" and "i = ''act-'' @ hex"
  using assms unfolding store_proposal_def
  by (auto simp: run_Inr require_done lift_done bnd_Inr[where m = "api_revision _ _"] api_revision_Inr Let_def)

lemma same_session_Inr:
  "same_session r (Some s) d = (Inr x, d') \<longleftrightarrow> dget (cd_bindings d) (intent_key r) = Some (in_revision r, s) \<and> d' = d"
  by (auto simp: same_session_def gets_Inr require_done lift_done)

lemma store_approval_Inr:
  assumes "store_approval HostClicks now dig i body d = (Inr x, d')"
  obtains r c where "dget (cd_intents d) i = Some r" and "in_state r = ''PROPOSED''" and "now < in_expires r"
    and "in_body r = body" and "open_click now dig (in_owner r) (action_purpose i) c d"
    and "dget (cd_bindings d) (intent_key r) = Some (in_revision r, ck_session c)"
    and "d' = set_intent i (r\<lparr>in_state := ''APPROVED''\<rparr>) (use_click dig (in_owner r) (action_purpose i) c d)"
  using assms unfolding store_approval_def
  by (cases "dget (cd_intents d) i")
    (auto simp: run_Inr require_done lift_done bnd_Inr[where m = "consume_assertion _ _ _ _ _"] bnd_Inr[where m = "api_revision _ _"] api_revision_Inr
      consume_assertion_Inr same_session_Inr modify_Inr use_click_def)

lemma claim_action_Inr:
  assumes "claim_action HostClicks now i b op d = (Inr x, d')"
  obtains r s conv where "dget (cd_intents d) i = Some r" and "in_state r = ''APPROVED''" and "now < in_expires r"
    and "intent_binding r = b" and "dget (cd_consent d) (intent_key r) = Some (True, in_revision r)"
    and "dget (cd_bindings d) (intent_key r) = Some (in_revision r, s)" and "(in_owner r, s) \<notin> set (cd_revoked d)"
    and "require_exact_message (in_owner r) (in_request r) (in_message r) (cd_access d) = Inr conv"
    and "d' = set_intent i (r\<lparr>in_state := ''CONSUMED'', in_operation := Some op\<rparr>) d"
  using assms unfolding claim_action_def
  by (cases "dget (cd_intents d) i")
    (auto simp: run_Inr require_done lift_done bnd_Inr[where m = "api_revision _ _"] api_revision_Inr modify_Inr)

lemma issue_click_Inr:
  assumes "issue_click sha now session token nonce owner purpose ttl d = (Inr p, d')"
  obtains s where "session = Some s" and "host_session_ok s" and "hs_owner s = owner" and "hs_csrf s"
    and "purpose_ok purpose" and "dget (cd_clicks d) (sha p) = None"
    and "d' = d\<lparr>cd_clicks := dset (sha p) (new_click sha s purpose nonce (now + ttl)) (cd_clicks d)\<rparr>"
  using assms unfolding issue_click_def current_session_def valid_name_def
  by (cases session) (auto simp: run_Inr require_done lift_done require_active_Inr Let_def scheck_Inr)

lemma set_add_once: "set (if x \<in> set xs then xs else xs @ [x]) = insert x (set xs)"
  by auto

lemma revoke_Inr:
  assumes "revoke_current_session sha session owner d = (Inr x, d')"
  obtains s where "session = Some s" and "host_session_ok s" and "hs_owner s = owner" and "hs_csrf s"
    and "set (cd_revoked d') = insert (owner, fingerprint sha s) (set (cd_revoked d))"
    and "cd_clicks d' = map (\<lambda>(k, c). (k, if ck_owner c = owner \<and> ck_session c = fingerprint sha s
             then c\<lparr>ck_state := ''CONSUMED''\<rparr> else c)) (cd_clicks d)"
    and "d' = d\<lparr>cd_revoked := cd_revoked d', cd_clicks := cd_clicks d'\<rparr>"
  using assms unfolding revoke_current_session_def current_session_def
  by (cases session) (auto simp: run_Inr lift_done Let_def scheck_Inr modify_Inr set_add_once)

section \<open>Histories\<close>

text \<open>
  The clicks handed out so far: digest of the proof, the session that asked, the purpose.
\<close>

type_synonym click_log = "(string \<times> host_session \<times> string) list"

definition log_click :: "(string \<Rightarrow> string) \<Rightarrow> host_session option \<Rightarrow> string \<Rightarrow> exn + string \<Rightarrow> click_log \<Rightarrow> click_log" where
  "log_click sha session purpose r clog = (case (session, r) of (Some s, Inr p) \<Rightarrow> clog @ [(sha p, s, purpose)] | _ \<Rightarrow> clog)"

text \<open>
  One transaction of any worker, at any time, with any arguments. The checks in front of a
  transaction happen on an earlier state, so the digests of the consent and of the approval are
  arbitrary; the tables of the browser evidence change as they like.
\<close>

inductive consent_step :: "(string \<Rightarrow> string) \<Rightarrow> click_log \<times> consent_db \<Rightarrow> click_log \<times> consent_db \<Rightarrow> bool" for sha where
  step_issue: "issue_click sha now session token nonce owner purpose ttl d = (r, d') \<Longrightarrow>
     consent_step sha (clog, d) (log_click sha session purpose r clog, d')"
| step_revoke: "consent_step sha (clog, d) (clog, snd (revoke_current_session sha session owner d))"
| step_consent: "consent_step sha (clog, d) (clog, snd (store_consent HostClicks now dig key enabled expected d))"
| step_proposal: "consent_step sha (clog, d) (clog, snd (store_proposal HostClicks now hex b ttl d))"
| step_approval: "consent_step sha (clog, d) (clog, snd (store_approval HostClicks now dig i body d))"
| step_claim: "consent_step sha (clog, d) (clog, snd (claim_action HostClicks now i b op d))"
| step_access: "consent_step sha (clog, d) (clog, d\<lparr>cd_access := a\<rparr>)"

abbreviation consent_steps :: "(string \<Rightarrow> string) \<Rightarrow> click_log \<times> consent_db \<Rightarrow> click_log \<times> consent_db \<Rightarrow> bool" where
  "consent_steps sha \<equiv> (consent_step sha)\<^sup>*\<^sup>*"

text \<open>Every call of the two services is one of these transactions or changes nothing.\<close>

lemma allow_api_at:
  assumes "P d" and "\<And>dig k. P (snd (store_consent HostClicks now dig k enabled expected d))"
  shows "P (snd (allow_api HostClicks sha now session key enabled expected confirmed p d))"
  unfolding allow_api_def valid_name_def
  by (cases key; simp only: prod.case option.case; intro at_rules [where P = P] assms)

lemma propose_action_at:
  assumes "P d" and "\<And>b. P (snd (store_proposal HostClicks now hex b ttl d))"
  shows "P (snd (propose_action HostClicks sha now hex key rid mid action raw ttl d))"
  unfolding propose_action_def valid_name_def
  by (cases key; simp only: prod.case option.case; intro at_rules [where P = P] assms)

lemma approve_action_at:
  assumes "P d" and "\<And>dig. P (snd (store_approval HostClicks now dig i body d))"
  shows "P (snd (approve_action HostClicks sha now session i body confirmed p d))"
  unfolding approve_action_def
  by (intro at_rules [where P = P] assms)
    (cases "dget (cd_intents d) i"; simp only: option.case; intro at_rules [where P = P] assms)

lemma allow_api_step: "consent_steps sha (clog, d) (clog, snd (allow_api HostClicks sha now session key enabled expected confirmed p d))"
  by (rule allow_api_at) (auto intro: step_consent)

lemma propose_action_step:
  "consent_steps sha (clog, d) (clog, snd (propose_action HostClicks sha now hex key rid mid action raw ttl d))"
  by (rule propose_action_at) (auto intro: step_proposal)

lemma approve_action_step:
  "consent_steps sha (clog, d) (clog, snd (approve_action HostClicks sha now session i body confirmed p d))"
  by (rule approve_action_at) (auto intro: step_approval)

lemma checkpoint_of_run: "checkpoint_of f d = (case f of None \<Rightarrow> Inr () | Some e \<Rightarrow> Inl e, d)"
  by (simp add: checkpoint_of_def split: option.split)

lemma action_effect_step:
  "consent_steps sha (clog, d) (clog, snd (action_effect HostClicks now fence allowed fence' i b op d))"
proof -
  let ?c = "claim_action HostClicks now i b op d"
  have "snd (action_effect HostClicks now fence allowed fence' i b op d) \<in> {d, snd ?c}"
    unfolding action_effect_def require_def andthen_run checkpoint_of_run
    by (simp split: prod.split sum.split option.split)
  moreover have "consent_step sha (clog, d) (clog, snd ?c)"
    by (rule step_claim)
  ultimately show ?thesis
    by auto
qed

section \<open>What one step does\<close>

definition rolls_back :: "('s, 'a) sx \<Rightarrow> bool" where
  "rolls_back m \<longleftrightarrow> (\<forall>d e t. m d = (Inl e, t) \<longrightarrow> t = d)"

lemma rolls_back_atomically: "rolls_back (atomically m)"
  by (auto simp: rolls_back_def atomically_def split: prod.splits sum.splits)

lemma rolls_back_require: "rolls_back n \<Longrightarrow> rolls_back (andthen (require b e) n)"
  by (auto simp: rolls_back_def andthen_run require_def)

lemma rolls_back_lift: "(\<And>a. rolls_back (f a)) \<Longrightarrow> rolls_back (bnd (lift_sum r) f)"
  by (cases r) (auto simp: rolls_back_def bnd_run lift_sum_def)

lemmas rolls_back_rules = rolls_back_atomically rolls_back_require rolls_back_lift

lemma rolls_back_snd:
  assumes "rolls_back m"
  obtains "snd (m d) = d" and "\<exists>e. fst (m d) = Inl e" | x where "m d = (Inr x, snd (m d))"
  using assms by (cases "m d"; cases "fst (m d)") (auto simp: rolls_back_def)

lemma issue_rolls_back: "rolls_back (issue_click sha now session token nonce owner purpose ttl)"
  unfolding issue_click_def valid_name_def Let_def by (intro rolls_back_rules)

lemma revoke_rolls_back: "rolls_back (revoke_current_session sha session owner)"
  unfolding revoke_current_session_def Let_def by (intro rolls_back_rules)

lemma store_rolls_back:
  "rolls_back (store_consent auth now dig key enabled expected)" "rolls_back (store_proposal auth now hex b ttl)"
  "rolls_back (store_approval auth now dig i body)" "rolls_back (claim_action auth now i b op)"
  unfolding store_consent_def store_proposal_def store_approval_def claim_action_def by (rule rolls_back_atomically)+

lemma consent_step_effect [consumes 1, case_names same issue revoke consent proposal approval claim access]:
  assumes "consent_step sha (clog, d) (clog', d')"
    and "clog' = clog \<Longrightarrow> d' = d \<Longrightarrow> thesis"
    and "\<And>s c p. clog' = clog @ [(p, s, ck_purpose c)] \<Longrightarrow> host_session_ok s \<Longrightarrow> hs_csrf s \<Longrightarrow> hs_owner s = ck_owner c \<Longrightarrow>
       fingerprint sha s = ck_session c \<Longrightarrow> dget (cd_clicks d) p = None \<Longrightarrow> d' = d\<lparr>cd_clicks := dset p c (cd_clicks d)\<rparr> \<Longrightarrow> thesis"
    and "\<And>f rs. clog' = clog \<Longrightarrow> (\<And>c. ck_owner (f c) = ck_owner c \<and> ck_purpose (f c) = ck_purpose c \<and> ck_session (f c) = ck_session c
         \<and> (f c = c \<or> ck_state (f c) = ''CONSUMED'')) \<Longrightarrow>
       d' = d\<lparr>cd_revoked := rs, cd_clicks := map (\<lambda>(k, c). (k, f c)) (cd_clicks d)\<rparr> \<Longrightarrow> thesis"
    and "\<And>now dig key c enabled v. clog' = clog \<Longrightarrow> open_click now dig (fst key) ''api-consent'' c d \<Longrightarrow>
       v = (case dget (cd_consent d) key of None \<Rightarrow> 0 | Some (_, r) \<Rightarrow> r) + 1 \<Longrightarrow>
       d' = (use_click dig (fst key) ''api-consent'' c d)\<lparr>cd_bindings := dset key (v, ck_session c) (cd_bindings d),
         cd_consent := dset key (enabled, v) (cd_consent d)\<rparr> \<Longrightarrow> thesis"
    and "\<And>i b v t. clog' = clog \<Longrightarrow> dget (cd_consent d) (binding_key b) = Some (True, v) \<Longrightarrow> dget (cd_intents d) i = None \<Longrightarrow>
       d' = set_intent i (new_intent b v t) d \<Longrightarrow> thesis"
    and "\<And>now dig i r c. clog' = clog \<Longrightarrow> dget (cd_intents d) i = Some r \<Longrightarrow> in_state r = ''PROPOSED'' \<Longrightarrow>
       open_click now dig (in_owner r) (action_purpose i) c d \<Longrightarrow>
       dget (cd_bindings d) (intent_key r) = Some (in_revision r, ck_session c) \<Longrightarrow>
       d' = set_intent i (r\<lparr>in_state := ''APPROVED''\<rparr>) (use_click dig (in_owner r) (action_purpose i) c d) \<Longrightarrow> thesis"
    and "\<And>i r op. clog' = clog \<Longrightarrow> dget (cd_intents d) i = Some r \<Longrightarrow> in_state r = ''APPROVED'' \<Longrightarrow>
       d' = set_intent i (r\<lparr>in_state := ''CONSUMED'', in_operation := Some op\<rparr>) d \<Longrightarrow> thesis"
    and "\<And>a. clog' = clog \<Longrightarrow> d' = d\<lparr>cd_access := a\<rparr> \<Longrightarrow> thesis"
  shows thesis
  using assms(1)
proof cases
  case (step_issue now session token nonce owner purpose ttl r)
  note run = step_issue(2) and logged = step_issue(1)
  show ?thesis
  proof (cases r)
    case (Inl e)
    then show ?thesis
      using run logged issue_rolls_back[of sha now session token nonce owner purpose ttl] assms(2)
      by (auto simp: rolls_back_def log_click_def split: option.splits)
  next
    case (Inr p)
    with run have "issue_click sha now session token nonce owner purpose ttl d = (Inr p, d')"
      by simp
    then obtain s where "session = Some s" "host_session_ok s" "hs_csrf s" "dget (cd_clicks d) (sha p) = None"
      "d' = d\<lparr>cd_clicks := dset (sha p) (new_click sha s purpose nonce (now + ttl)) (cd_clicks d)\<rparr>"
      by (rule issue_click_Inr)
    then show ?thesis
      using logged Inr by (intro assms(3)[of "sha p" s "new_click sha s purpose nonce (now + ttl)"])
        (simp_all add: log_click_def new_click_def)
  qed
next
  case (step_revoke session owner)
  note same = step_revoke
  show ?thesis
  proof (cases rule: rolls_back_snd[OF revoke_rolls_back[of sha session owner], where d = d])
    case (2 x)
    then obtain s where "cd_clicks d' = map (\<lambda>(k, c). (k, if ck_owner c = owner \<and> ck_session c = fingerprint sha s
             then c\<lparr>ck_state := ''CONSUMED''\<rparr> else c)) (cd_clicks d)"
      and "d' = d\<lparr>cd_revoked := cd_revoked d', cd_clicks := cd_clicks d'\<rparr>"
      unfolding same by (rule revoke_Inr)
    then show ?thesis
      by (intro assms(4)[of "\<lambda>c. if ck_owner c = owner \<and> ck_session c = fingerprint sha s
             then c\<lparr>ck_state := ''CONSUMED''\<rparr> else c" "cd_revoked d'"] same(1)) auto
  qed (use same assms(2) in auto)
next
  case (step_consent now dig key enabled expected)
  note same = step_consent
  show ?thesis
  proof (cases rule: rolls_back_snd[OF store_rolls_back(1)[of HostClicks now dig key enabled expected], where d = d])
    case (2 v)
    then show ?thesis
      unfolding same(2)[symmetric] by (rule store_consent_Inr) (rule assms(5)[OF same(1)]; simp)
  qed (use same assms(2) in auto)
next
  case (step_proposal now hex b ttl)
  note same = step_proposal
  show ?thesis
  proof (cases rule: rolls_back_snd[OF store_rolls_back(2)[of HostClicks now hex b ttl], where d = d])
    case (2 i)
    then show ?thesis
      unfolding same(2)[symmetric] by (rule store_proposal_Inr) (rule assms(6)[OF same(1)])
  qed (use same assms(2) in auto)
next
  case (step_approval now dig i body)
  note same = step_approval
  show ?thesis
  proof (cases rule: rolls_back_snd[OF store_rolls_back(3)[of HostClicks now dig i body], where d = d])
    case (2 x)
    then show ?thesis
      unfolding same(2)[symmetric] by (rule store_approval_Inr) (rule assms(7)[OF same(1)])
  qed (use same assms(2) in auto)
next
  case (step_claim now i b op)
  note same = step_claim
  show ?thesis
  proof (cases rule: rolls_back_snd[OF store_rolls_back(4)[of HostClicks now i b op], where d = d])
    case (2 x)
    then show ?thesis
      unfolding same(2)[symmetric] by (rule claim_action_Inr) (rule assms(8)[OF same(1)])
  qed (use same assms(2) in auto)
next
  case (step_access a)
  then show ?thesis
    using assms(9) by simp
qed

section \<open>Invariants\<close>

definition asked_for :: "(string \<Rightarrow> string) \<Rightarrow> click_log \<Rightarrow> string \<Rightarrow> string \<Rightarrow> string \<Rightarrow> string \<Rightarrow> bool" where
  "asked_for sha clog k owner purpose sess \<longleftrightarrow> (\<exists>s. (k, s, purpose) \<in> set clog
     \<and> host_session_ok s \<and> hs_csrf s \<and> hs_owner s = owner \<and> fingerprint sha s = sess)"

definition clicks_asked :: "(string \<Rightarrow> string) \<Rightarrow> click_log \<Rightarrow> consent_db \<Rightarrow> bool" where
  "clicks_asked sha clog d \<longleftrightarrow> (\<forall>k c. dget (cd_clicks d) k = Some c \<longrightarrow>
     asked_for sha clog k (ck_owner c) (ck_purpose c) (ck_session c))"

text \<open>The click \<open>k\<close> has been used as an assertion of the owner for the purpose, in the session.\<close>

definition used_click :: "consent_db \<Rightarrow> string \<Rightarrow> string \<Rightarrow> string \<Rightarrow> string \<Rightarrow> bool" where
  "used_click d k owner purpose sess \<longleftrightarrow> dget (cd_assertions d) k = Some (owner, purpose)
     \<and> (\<exists>c. dget (cd_clicks d) k = Some c \<and> ck_state c = ''CONSUMED'' \<and> ck_owner c = owner \<and> ck_purpose c = purpose
          \<and> ck_session c = sess)"

definition assertions_used :: "consent_db \<Rightarrow> bool" where
  "assertions_used d \<longleftrightarrow> (\<forall>k. dget (cd_assertions d) k \<noteq> None \<longrightarrow> dget (cd_clicks d) k \<noteq> None)"

definition bindings_used :: "consent_db \<Rightarrow> bool" where
  "bindings_used d \<longleftrightarrow> (\<forall>key r s. dget (cd_bindings d) key = Some (r, s) \<longrightarrow> (\<exists>k. used_click d k (fst key) ''api-consent'' s))"

definition approval_rests :: "consent_db \<Rightarrow> string \<Rightarrow> action_intent \<Rightarrow> bool" where
  "approval_rests d i r \<longleftrightarrow> in_state r = ''PROPOSED'' \<or> (\<exists>k s. used_click d k (in_owner r) (action_purpose i) s
     \<and> (\<forall>s'. dget (cd_bindings d) (intent_key r) = Some (in_revision r, s') \<longrightarrow> s' = s))"

definition revision_known :: "consent_db \<Rightarrow> action_intent \<Rightarrow> bool" where
  "revision_known d r \<longleftrightarrow> (\<exists>e v. dget (cd_consent d) (intent_key r) = Some (e, v) \<and> in_revision r \<le> v)"

definition intents_rest :: "consent_db \<Rightarrow> bool" where
  "intents_rest d \<longleftrightarrow> (\<forall>i r. dget (cd_intents d) i = Some r \<longrightarrow> approval_rests d i r \<and> revision_known d r)"

lemma map_of_same_keys: "dget (map (\<lambda>(k, c). (k, f c)) d) k = map_option f (dget d k)"
  by (induction d) auto

lemma asked_for_append: "asked_for sha clog k owner purpose sess \<Longrightarrow> asked_for sha (clog @ l) k owner purpose sess"
  by (auto simp: asked_for_def)

lemma asked_for_new:
  "host_session_ok s \<Longrightarrow> hs_csrf s \<Longrightarrow> asked_for sha (clog @ [(k, s, purpose)]) k (hs_owner s) purpose (fingerprint sha s)"
  by (auto simp: asked_for_def)

lemma clicks_asked_use:
  assumes "clicks_asked sha clog d" and "open_click now dig owner purpose c d"
  shows "clicks_asked sha clog (use_click dig owner purpose c d)"
  using assms by (auto simp: clicks_asked_def use_click_def open_click_def dest: spec[of _ dig])

lemma clicks_asked_fields [simp]:
  "clicks_asked sha clog (set_intent i r d) = clicks_asked sha clog d"
  "clicks_asked sha clog (d\<lparr>cd_bindings := b, cd_consent := e\<rparr>) = clicks_asked sha clog d"
  "clicks_asked sha clog (d\<lparr>cd_access := a\<rparr>) = clicks_asked sha clog d"
  by (simp_all add: clicks_asked_def set_intent_def)

lemma clicks_asked_step:
  assumes "consent_step sha (clog, d) (clog', d')" and "clicks_asked sha clog d"
  shows "clicks_asked sha clog' d'"
  using assms(1)
proof (cases rule: consent_step_effect)
  case (issue s c p)
  then show ?thesis
    using assms(2) asked_for_new[of s sha clog p "ck_purpose c"] by (auto simp: clicks_asked_def asked_for_append)
next
  case (revoke f rs)
  then show ?thesis
    using assms(2) by (auto simp: clicks_asked_def map_of_same_keys)
qed (use assms(2) in \<open>simp_all add: clicks_asked_use\<close>)

text \<open>A used click stays as it is.\<close>

lemma used_click_use:
  "used_click d k owner purpose s \<Longrightarrow> open_click now dig owner' purpose' c d \<Longrightarrow>
     used_click (use_click dig owner' purpose' c d) k owner purpose s"
  by (auto simp: used_click_def use_click_def open_click_def)

lemma used_click_new:
  "open_click now dig owner purpose c d \<Longrightarrow> used_click (use_click dig owner purpose c d) dig owner purpose (ck_session c)"
  by (auto simp: used_click_def use_click_def open_click_def)

lemma used_click_cong:
  "cd_assertions d = cd_assertions d' \<Longrightarrow> cd_clicks d = cd_clicks d' \<Longrightarrow> used_click d k owner purpose s = used_click d' k owner purpose s"
  by (simp add: used_click_def)

lemma used_click_intent [simp]: "used_click (set_intent i r d) k owner purpose s = used_click d k owner purpose s"
  by (simp add: used_click_def set_intent_def)

lemma used_click_fields [simp]:
  "used_click (d\<lparr>cd_bindings := b\<rparr>) k owner purpose s = used_click d k owner purpose s"
  "used_click (d\<lparr>cd_consent := e\<rparr>) k owner purpose s = used_click d k owner purpose s"
  "used_click (d\<lparr>cd_access := a\<rparr>) k owner purpose s = used_click d k owner purpose s"
  by (simp_all add: used_click_def)

lemma used_click_step:
  assumes "consent_step sha (clog, d) (clog', d')" and "used_click d k owner purpose s"
  shows "used_click d' k owner purpose s"
  using assms(1)
proof (cases rule: consent_step_effect)
  case (revoke f rs)
  then show ?thesis
    using assms(2) by (auto simp: used_click_def map_of_same_keys)
qed (use assms(2) in \<open>auto simp: used_click_use used_click_def[of "cd_clicks_update _ _"]
  used_click_def[of d] split: if_splits\<close>)

lemma assertions_used_step:
  assumes "consent_step sha (clog, d) (clog', d')" and "assertions_used d"
  shows "assertions_used d'"
  using assms(1)
proof (cases rule: consent_step_effect)
  case (revoke f rs)
  then show ?thesis
    using assms(2) by (simp add: assertions_used_def map_of_same_keys)
qed (use assms(2) in \<open>auto simp: assertions_used_def use_click_def set_intent_def\<close>)

lemma bindings_used_step:
  assumes step: "consent_step sha (clog, d) (clog', d')" and old: "bindings_used d"
  shows "bindings_used d'"
proof -
  have kept: "\<exists>k. used_click d' k (fst key) ''api-consent'' s" if "dget (cd_bindings d) key = Some (r, s)" for key r s
    using that old used_click_step[OF step] unfolding bindings_used_def by blast
  show ?thesis
    using step
  proof (cases rule: consent_step_effect)
    case (consent now dig key c enabled v)
    then have "used_click d' dig (fst key) ''api-consent'' (ck_session c)"
      by (simp add: used_click_new)
    then show ?thesis
      using kept consent by (auto simp: bindings_used_def use_click_def split: if_splits)
  qed (use kept in \<open>auto simp: bindings_used_def use_click_def set_intent_def\<close>)
qed

lemma revision_known_step:
  assumes "consent_step sha (clog, d) (clog', d')" and "revision_known d r"
  shows "revision_known d' r"
  using assms(1)
  by (cases rule: consent_step_effect) (use assms(2) in \<open>auto simp: revision_known_def use_click_def set_intent_def\<close>)

lemma approval_rests_step:
  assumes step: "consent_step sha (clog, d) (clog', d')" and "approval_rests d i r" and "revision_known d r"
  shows "approval_rests d' i r"
proof (cases "in_state r = ''PROPOSED''")
  case False
  then obtain k s where used: "used_click d k (in_owner r) (action_purpose i) s"
    and same: "\<And>s'. dget (cd_bindings d) (intent_key r) = Some (in_revision r, s') \<Longrightarrow> s' = s"
    using assms(2) unfolding approval_rests_def by blast
  have "s' = s" if "dget (cd_bindings d') (intent_key r) = Some (in_revision r, s')" for s'
    using step
    by (cases rule: consent_step_effect)
      (use that same assms(3) in \<open>auto simp: use_click_def set_intent_def revision_known_def split: if_splits\<close>)
  with used_click_step[OF step used] show ?thesis
    unfolding approval_rests_def by blast
qed (simp add: approval_rests_def)

lemma approval_rests_fields:
  "in_state r' = in_state r \<Longrightarrow> in_owner r' = in_owner r \<Longrightarrow> intent_key r' = intent_key r \<Longrightarrow> in_revision r' = in_revision r \<Longrightarrow>
     approval_rests d i r' = approval_rests d i r"
  by (simp add: approval_rests_def)

lemma intents_rest_step:
  assumes step: "consent_step sha (clog, d) (clog', d')" and old: "intents_rest d"
  shows "intents_rest d'"
proof -
  have kept: "approval_rests d' i r" "revision_known d' r" if "dget (cd_intents d) i = Some r" for i r
    using that old approval_rests_step[OF step] revision_known_step[OF step] unfolding intents_rest_def by blast+
  show ?thesis
    using step
  proof (cases rule: consent_step_effect)
    case (proposal i b v t)
    then have "approval_rests d' i (new_intent b v t)" "revision_known d' (new_intent b v t)"
      by (auto simp: approval_rests_def revision_known_def set_intent_def)
    with kept proposal show ?thesis
      by (auto simp: intents_rest_def set_intent_def)
  next
    case (approval now dig i r c)
    then have "used_click d' dig (in_owner r) (action_purpose i) (ck_session c)"
      by (simp add: used_click_new)
    moreover have "dget (cd_bindings d') (intent_key r) = Some (in_revision r, ck_session c)"
      using approval by (simp add: set_intent_def use_click_def)
    ultimately have "approval_rests d' i (r\<lparr>in_state := ''APPROVED''\<rparr>)"
      unfolding approval_rests_def by (auto simp: intent_key_def)
    moreover have "revision_known d' (r\<lparr>in_state := ''APPROVED''\<rparr>)"
      using kept(2)[OF approval(2)] by (simp add: revision_known_def intent_key_def)
    ultimately show ?thesis
      using kept approval by (auto simp: intents_rest_def set_intent_def use_click_def)
  next
    case (claim i r op)
    have "approval_rests d' i (r\<lparr>in_state := ''CONSUMED'', in_operation := Some op\<rparr>)"
      using kept(1)[OF claim(2)] claim(3) by (simp add: approval_rests_def intent_key_def)
    moreover have "revision_known d' (r\<lparr>in_state := ''CONSUMED'', in_operation := Some op\<rparr>)"
      using kept(2)[OF claim(2)] by (simp add: revision_known_def intent_key_def)
    ultimately show ?thesis
      using kept claim by (auto simp: intents_rest_def set_intent_def)
  qed (use kept in \<open>auto simp: intents_rest_def set_intent_def use_click_def\<close>)
qed

section \<open>Reachable states\<close>

definition consent_reachable :: "(string \<Rightarrow> string) \<Rightarrow> click_log \<Rightarrow> consent_db \<Rightarrow> bool" where
  "consent_reachable sha clog d \<longleftrightarrow> consent_steps sha ([], empty_consent) (clog, d)"

lemma consent_reachable_invariants:
  assumes "consent_reachable sha clog d"
  shows "clicks_asked sha clog d" and "bindings_used d" and "intents_rest d" and "assertions_used d"
proof -
  have "clicks_asked sha (fst x) (snd x) \<and> bindings_used (snd x) \<and> intents_rest (snd x) \<and> assertions_used (snd x)"
    if "consent_steps sha ([], empty_consent) x" for x
    using that
  proof (induction rule: rtranclp_induct)
    case base
    show ?case
      by (simp add: clicks_asked_def bindings_used_def intents_rest_def assertions_used_def empty_consent_def)
  next
    case (step y z)
    then have "consent_step sha (fst y, snd y) (fst z, snd z)"
      by simp
    then show ?case
      using step.IH by (blast intro: clicks_asked_step bindings_used_step intents_rest_step assertions_used_step)
  qed
  from this[of "(clog, d)"] assms show "clicks_asked sha clog d" and "bindings_used d" and "intents_rest d" and "assertions_used d"
    by (simp_all add: consent_reachable_def)
qed

lemma claim_rests_on_two_clicks:
  assumes reach: "consent_reachable sha clog d" and row: "dget (cd_intents d) i = Some r"
    and approved: "in_state r = ''APPROVED''" and bound: "dget (cd_bindings d) (intent_key r) = Some (in_revision r, s)"
  obtains k k' where "k \<noteq> k'" and "used_click d k (in_owner r) ''api-consent'' s" and "used_click d k' (in_owner r) (action_purpose i) s"
    and "asked_for sha clog k (in_owner r) ''api-consent'' s" and "asked_for sha clog k' (in_owner r) (action_purpose i) s"
proof -
  note inv = consent_reachable_invariants[OF reach]
  obtain k where k: "used_click d k (in_owner r) ''api-consent'' s"
    using inv(2) bound unfolding bindings_used_def by (metis fst_intent_key)
  have "approval_rests d i r"
    using inv(3) row unfolding intents_rest_def by blast
  then obtain k' where k': "used_click d k' (in_owner r) (action_purpose i) s"
    using approved bound unfolding approval_rests_def by auto
  have "k \<noteq> k'"
    using k k' by (auto simp: used_click_def action_purpose_def)
  moreover have "asked_for sha clog k o' p s'" if "used_click d k o' p s'" for k o' p s'
    using that inv(1) unfolding used_click_def clicks_asked_def by blast
  ultimately show thesis
    using that k k' by blast
qed

end
