(* ===== verification/Consent_Properties.thy ===== *)
theory Consent_Properties
  imports Consent_Invariants
begin

text \<open>
  What the two-consent gate promises: no effect without two clicks of one verified session, every
  click and every approval counts once, and a proposal the operator approves in time can run.
\<close>

section \<open>Things that can be taken once\<close>

text \<open>
  The contract of a single-use claim: taking succeeds only on what is not spent and spends it, and
  nothing that happens later makes it unspent.
\<close>

locale one_shot =
  fixes claim_it :: "'k \<Rightarrow> 'a \<Rightarrow> ('s, 'r) sx"
    and spent :: "'s \<Rightarrow> 'k \<Rightarrow> bool"
    and later :: "'s \<Rightarrow> 's \<Rightarrow> bool"
  assumes claimed: "claim_it k a s = (Inr x, t) \<Longrightarrow> \<not> spent s k \<and> spent t k"
    and stays: "later s t \<Longrightarrow> spent s k \<Longrightarrow> spent t k"
begin

lemma stays_spent: "later\<^sup>*\<^sup>* s t \<Longrightarrow> spent s k \<Longrightarrow> spent t k"
  by (induction rule: rtranclp_induct) (auto intro: stays)

lemma refused_when_spent: "spent s k \<Longrightarrow> \<exists>e. fst (claim_it k a s) = Inl e"
  using claimed by (cases "claim_it k a s"; cases "fst (claim_it k a s)") auto

lemma never_again: "claim_it k a s = (Inr x, t) \<Longrightarrow> later\<^sup>*\<^sup>* t u \<Longrightarrow> \<exists>e. fst (claim_it k a' u) = Inl e"
  using claimed stays_spent refused_when_spent by blast

end

definition consented :: "(string \<Rightarrow> string) \<Rightarrow> consent_db \<Rightarrow> consent_db \<Rightarrow> bool" where
  "consented sha d d' \<longleftrightarrow> (\<exists>l l'. consent_step sha (l, d) (l', d'))"

lemma consent_steps_consented: "consent_steps sha x y \<Longrightarrow> (consented sha)\<^sup>*\<^sup>* (snd x) (snd y)"
proof (induction rule: rtranclp_induct)
  case (step y z)
  then have "consented sha (snd y) (snd z)"
    unfolding consented_def by (metis prod.collapse)
  with step.IH show ?case
    by (rule rtranclp.rtrancl_into_rtrancl)
qed simp

lemma action_effect_Inr:
  "action_effect HostClicks now fence allowed fence' i b op d = (Inr x, d') \<longleftrightarrow>
     fence = None \<and> allowed \<and> fence' = None \<and> claim_action HostClicks now i b op d = (Inr x, d')"
  unfolding action_effect_def
  by (auto simp: andthen_run require_def checkpoint_of_run split: option.splits prod.splits sum.splits)

definition action_spent :: "consent_db \<Rightarrow> string \<Rightarrow> bool" where
  "action_spent d i \<longleftrightarrow> (\<exists>r. dget (cd_intents d) i = Some r \<and> in_state r = ''CONSUMED'')"

lemma action_spent_step: "consented sha d d' \<Longrightarrow> action_spent d i \<Longrightarrow> action_spent d' i"
  unfolding consented_def
  by (elim exE, erule consent_step_effect)
    (auto simp: action_spent_def set_intent_def use_click_def)

interpretation action_once: one_shot
  "\<lambda>i (now, fence, allowed, fence', b, op). action_effect HostClicks now fence allowed fence' i b op" action_spent "consented sha" for sha
proof
  fix i a d x d'
  assume "(case a of (now, fence, allowed, fence', b, op) \<Rightarrow> action_effect HostClicks now fence allowed fence' i b op) d = (Inr x, d')"
  then show "\<not> action_spent d i \<and> action_spent d' i"
    by (auto simp: action_effect_Inr action_spent_def set_intent_def elim!: claim_action_Inr split: prod.splits)
qed (rule action_spent_step)

definition proof_spent :: "(string \<Rightarrow> string) \<Rightarrow> consent_db \<Rightarrow> string \<Rightarrow> bool" where
  "proof_spent sha d p \<longleftrightarrow> dget (cd_assertions d) (sha p) \<noteq> None"

lemma proof_spent_step: "consented sha d d' \<Longrightarrow> proof_spent sha d p \<Longrightarrow> proof_spent sha d' p"
  unfolding consented_def
  by (elim exE, erule consent_step_effect) (auto simp: proof_spent_def set_intent_def use_click_def)

lemma owner_assertion_Inr: "owner_assertion auth sha now session owner purpose (Some p) d = Inr dig \<Longrightarrow> dig = sha p"
  by (auto simp: owner_assertion_def scheck_Inr Let_def split: option.splits)

text \<open>A use of a proof: for the interface or for an action.\<close>

datatype consent_use =
    ForApi rat "host_session option" consent_key bool int bool
  | ForAction rat "host_session option" string string bool

definition use_proof :: "(string \<Rightarrow> string) \<Rightarrow> string \<Rightarrow> consent_use \<Rightarrow> (consent_db, unit) sx" where
  "use_proof sha p u = (case u of
      ForApi now session key enabled expected confirmed \<Rightarrow>
        andthen (allow_api HostClicks sha now session key enabled expected confirmed (Some p)) (ret ())
    | ForAction now session i body confirmed \<Rightarrow> approve_action HostClicks sha now session i body confirmed (Some p))"

lemma use_proof_claims:
  assumes "use_proof sha p u d = (Inr x, d')"
  shows "\<not> proof_spent sha d p \<and> proof_spent sha d' p"
proof (cases u)
  case (ForApi now session key enabled expected confirmed)
  with assms have "\<exists>v dig. dig = sha p \<and> store_consent HostClicks now dig key enabled expected d = (Inr v, d')"
    unfolding use_proof_def allow_api_def valid_name_def
    by (auto simp: run_Inr require_done lift_done dest: owner_assertion_Inr split: prod.splits)
  then show ?thesis
    by (auto simp: proof_spent_def open_click_def use_click_def elim!: store_consent_Inr)
next
  case (ForAction now session i body confirmed)
  with assms have "\<exists>dig. dig = sha p \<and> store_approval HostClicks now dig i body d = (Inr x, d')"
    unfolding use_proof_def approve_action_def
    by (cases "dget (cd_intents d) i") (auto simp: run_Inr require_done lift_done dest: owner_assertion_Inr)
  then show ?thesis
    by (auto simp: proof_spent_def open_click_def use_click_def set_intent_def elim!: store_approval_Inr)
qed

interpretation proof_once: one_shot "use_proof sha" "proof_spent sha" "consented sha" for sha
  by unfold_locales (simp_all add: use_proof_claims proof_spent_step)

section \<open>An example history\<close>

text \<open>
  An operator switches the interface on, an agent proposes an action, the operator approves it: the
  states the witnesses below use. The digest is a function with the shape of one.
\<close>

definition demo_sha :: "string \<Rightarrow> string" where
  "demo_sha s = replicate 63 (CHR ''a'') @ (if CHR ''1'' \<in> set s then ''1'' else ''0'')"

definition demo_access :: access_db where
  "demo_access = empty_access\<lparr>ad_owners := [((''op'', ''request1''), \<lparr>ro_conversation = ''chat0001'', ro_evidence = ''e'', ro_created = 0\<rparr>)],
     ad_messages := [((''op'', ''request1''), \<lparr>rm_message = ''message1'', rm_extension = ''x'', rm_worker = ''w'',
       rm_document = ''d'', rm_revision = 1\<rparr>)],
     ad_documents := [((''x'', ''w''), \<lparr>bd_document = ''d'', bd_conversation = Some ''chat0001''\<rparr>)],
     ad_collectors := [(''x'', \<lparr>bc_principal = ''op'', bc_enabled = True, bc_revision = 1\<rparr>)]\<rparr>"

definition demo_session :: host_session where
  "demo_session = \<lparr>hs_owner = ''op'', hs_id = replicate 24 (CHR ''s''), hs_origin = ''http://localhost:8000'', hs_csrf = True\<rparr>"

definition demo_start :: consent_db where
  "demo_start = empty_consent\<lparr>cd_access := demo_access\<rparr>"

definition demo_asked :: "(exn + string) \<times> consent_db" where
  "demo_asked = issue_click demo_sha 0 (Some demo_session) ''tokentoken'' ''nonce'' ''op'' ''api-consent'' 90 demo_start"

definition demo_key :: consent_key where
  "demo_key = (''op'', ''agent'', ''work0001'')"

definition demo_on :: "(exn + int) \<times> consent_db" where
  "demo_on = allow_api HostClicks demo_sha 1 (Some demo_session) demo_key True 0 True (Some ''owner-click-tokentoken.nonce'') (snd demo_asked)"

definition demo_proposed :: "(exn + string) \<times> consent_db" where
  "demo_proposed = propose_action HostClicks demo_sha 2 ''1'' demo_key ''request1'' ''message1'' ''open'' ''{}'' 120 (snd demo_on)"

definition demo_clicked :: "(exn + string) \<times> consent_db" where
  "demo_clicked = issue_click demo_sha 3 (Some demo_session) ''tokentoken1'' ''nonce'' ''op'' ''action:act-1'' 90 (snd demo_proposed)"

definition demo_approved :: "(exn + unit) \<times> consent_db" where
  "demo_approved = approve_action HostClicks demo_sha 4 (Some demo_session) ''act-1'' (demo_sha ''{}'') True
     (Some ''owner-click-tokentoken1.nonce'') (snd demo_clicked)"

definition demo_binding :: action_binding where
  "demo_binding = (''op'', ''agent'', ''work0001'', ''request1'', ''message1'', ''api:action:open'', demo_sha ''{}'')"

definition demo_done :: "(exn + unit) \<times> consent_db" where
  "demo_done = action_effect HostClicks 5 None True None ''act-1'' demo_binding ''operation1'' (snd demo_approved)"

definition demo_log :: click_log where
  "demo_log = log_click demo_sha (Some demo_session) ''api-consent'' (fst demo_asked) []"

lemma demo_on_reachable: "consent_reachable demo_sha demo_log (snd demo_on)"
proof -
  have "consent_step demo_sha ([], empty_consent) ([], demo_start)"
    unfolding demo_start_def by (rule step_access)
  moreover have "consent_step demo_sha ([], demo_start) (demo_log, snd demo_asked)"
    unfolding demo_log_def by (rule step_issue) (simp add: demo_asked_def)
  moreover have "consent_steps demo_sha (demo_log, snd demo_asked) (demo_log, snd demo_on)"
    unfolding demo_on_def by (rule allow_api_step)
  ultimately show ?thesis
    unfolding consent_reachable_def by (meson converse_rtranclp_into_rtranclp)
qed

lemma demo_approved_reachable: "\<exists>clog. consent_reachable demo_sha clog (snd demo_approved)"
proof -
  let ?log = "log_click demo_sha (Some demo_session) ''action:act-1'' (fst demo_clicked) demo_log"
  have "consent_steps demo_sha (demo_log, snd demo_on) (demo_log, snd demo_proposed)"
    unfolding demo_proposed_def by (rule propose_action_step)
  moreover have "consent_step demo_sha (demo_log, snd demo_proposed) (?log, snd demo_clicked)"
    by (rule step_issue) (simp add: demo_clicked_def)
  moreover have "consent_steps demo_sha (?log, snd demo_clicked) (?log, snd demo_approved)"
    unfolding demo_approved_def by (rule approve_action_step)
  ultimately have "consent_steps demo_sha (demo_log, snd demo_on) (?log, snd demo_approved)"
    by (blast intro: rtranclp_trans r_into_rtranclp)
  then show ?thesis
    using demo_on_reachable unfolding consent_reachable_def by (blast intro: rtranclp_trans)
qed

lemma demo_runs:
  "fst demo_proposed = Inr ''act-1''" "fst demo_clicked = Inr ''owner-click-tokentoken1.nonce''" "fst demo_done = Inr ()"
  "map_option snd (dget (cd_bindings (snd demo_on)) demo_key) = Some (fingerprint demo_sha demo_session)"
  "fst demo_on = Inr 1"
  by code_simp+

section \<open>Two clicks in front of every effect\<close>

text \<open>
  C24: The host's effect starts only on an approval that has not expired and names exactly this
  owner, agent, work item, request, message, capability and body, while the interface is switched
  on at the revision of the proposal, the request is still proven and allowed for the chat, and two
  different single-use clicks have been used, one for the interface and one for this very action,
  both asked for in the same unrevoked session of the owner with a verified CSRF token.
\<close>

theorem actions_need_two_clicks:
  assumes "consent_reachable sha clog d" and "action_effect HostClicks now fence allowed fence' i b op d = (Inr (), d')"
  shows "\<exists>r s k k' conv. dget (cd_intents d) i = Some r \<and> intent_binding r = b \<and> in_state r = ''APPROVED'' \<and> now < in_expires r
     \<and> allowed \<and> dget (cd_consent d) (binding_key b) = Some (True, in_revision r) \<and> (in_owner r, s) \<notin> set (cd_revoked d)
     \<and> require_exact_message (in_owner r) (in_request r) (in_message r) (cd_access d) = Inr conv
     \<and> k \<noteq> k' \<and> used_click d k (in_owner r) ''api-consent'' s \<and> used_click d k' (in_owner r) (''action:'' @ i) s
     \<and> asked_for sha clog k (in_owner r) ''api-consent'' s \<and> asked_for sha clog k' (in_owner r) (''action:'' @ i) s"
proof -
  from assms(2) have "allowed" and "claim_action HostClicks now i b op d = (Inr (), d')"
    by (simp_all add: action_effect_Inr)
  from this(2) obtain r s conv where row: "dget (cd_intents d) i = Some r" "in_state r = ''APPROVED''" "now < in_expires r"
    "intent_binding r = b" "dget (cd_consent d) (intent_key r) = Some (True, in_revision r)"
    "dget (cd_bindings d) (intent_key r) = Some (in_revision r, s)" "(in_owner r, s) \<notin> set (cd_revoked d)"
    "require_exact_message (in_owner r) (in_request r) (in_message r) (cd_access d) = Inr conv"
    by (rule claim_action_Inr)
  then have "dget (cd_consent d) (binding_key b) = Some (True, in_revision r)"
    by auto
  with \<open>allowed\<close> row show ?thesis
    using claim_rests_on_two_clicks[OF assms(1) row(1,2,6)] unfolding action_purpose_def by metis
qed

theorem actions_need_two_clicks_witness:
  "\<exists>r s k k' conv. dget (cd_intents (snd demo_approved)) ''act-1'' = Some r \<and> intent_binding r = demo_binding
     \<and> in_state r = ''APPROVED'' \<and> 5 < in_expires r \<and> True
     \<and> dget (cd_consent (snd demo_approved)) (binding_key demo_binding) = Some (True, in_revision r)
     \<and> (in_owner r, s) \<notin> set (cd_revoked (snd demo_approved))
     \<and> require_exact_message (in_owner r) (in_request r) (in_message r) (cd_access (snd demo_approved)) = Inr conv
     \<and> k \<noteq> k' \<and> used_click (snd demo_approved) k (in_owner r) ''api-consent'' s
     \<and> used_click (snd demo_approved) k' (in_owner r) (''action:'' @ ''act-1'') s
     \<and> (\<exists>clog. asked_for demo_sha clog k (in_owner r) ''api-consent'' s \<and> asked_for demo_sha clog k' (in_owner r) (''action:'' @ ''act-1'') s)"
proof -
  obtain clog where reach: "consent_reachable demo_sha clog (snd demo_approved)"
    using demo_approved_reachable by blast
  have "action_effect HostClicks 5 None True None ''act-1'' demo_binding ''operation1'' (snd demo_approved) = (Inr (), snd demo_done)"
    using demo_runs(3) unfolding demo_done_def by (metis prod.collapse)
  from actions_need_two_clicks[OF reach this] show ?thesis
    by blast
qed

text \<open>
  C25: Consents count once. After the effect of an action has started, no later attempt starts it
  again, whatever happens in between; after a proof of a click has been accepted, for the interface
  or for an action, every later call with it raises.
\<close>

theorem consents_count_once:
  "(action_effect HostClicks now fence allowed fence' i b op d = (Inr (), d') \<longrightarrow> consent_steps sha (clog, d') (clog', u) \<longrightarrow>
      (\<exists>e. fst (action_effect HostClicks now\<^sub>1 fence\<^sub>1 allowed\<^sub>1 fence\<^sub>1' i b\<^sub>1 op\<^sub>1 u) = Inl e))
   \<and> (use_proof sha p use\<^sub>0 d = (Inr (), d') \<longrightarrow> consent_steps sha (clog, d') (clog', u) \<longrightarrow>
      (\<exists>e. fst (use_proof sha p use\<^sub>1 u) = Inl e))"
  using action_once.never_again[where k = i and a = "(now, fence, allowed, fence', b, op)" and s = d and x = "()" and t = d' and u = u
      and a' = "(now\<^sub>1, fence\<^sub>1, allowed\<^sub>1, fence\<^sub>1', b\<^sub>1, op\<^sub>1)" and sha = sha]
    proof_once.never_again[where k = p and a = use\<^sub>0 and s = d and x = "()" and t = d' and u = u and a' = use\<^sub>1 and sha = sha]
    consent_steps_consented[of sha "(clog, d')" "(clog', u)"]
  by simp

theorem consents_count_once_witness:
  "fst demo_done = Inr () \<and> fst demo_on = Inr 1
   \<and> (\<exists>e. fst (action_effect HostClicks 6 None True None ''act-1'' demo_binding ''operation2'' (snd demo_done)) = Inl e)
   \<and> (\<exists>e. fst (use_proof demo_sha ''owner-click-tokentoken.nonce''
        (ForApi 2 (Some demo_session) demo_key False 1 True) (snd demo_on)) = Inl e)"
proof -
  have ran: "action_effect HostClicks 5 None True None ''act-1'' demo_binding ''operation1'' (snd demo_approved) = (Inr (), snd demo_done)"
    using demo_runs(3) unfolding demo_done_def by (metis prod.collapse)
  have used: "use_proof demo_sha ''owner-click-tokentoken.nonce'' (ForApi 1 (Some demo_session) demo_key True 0 True) (snd demo_asked) = (Inr (), snd demo_on)"
    using demo_runs(5) unfolding use_proof_def demo_on_def by (auto simp: andthen_run split: prod.splits)
  show ?thesis
    using demo_runs(3,5) ran used
      conjunct1[OF consents_count_once[of 5 None True None "''act-1''" demo_binding "''operation1''" "snd demo_approved" "snd demo_done"
        demo_sha "[]" "[]" "snd demo_done" 6 None True None demo_binding "''operation2''"]]
      conjunct2[OF consents_count_once[of _ _ _ _ _ _ _ "snd demo_asked" "snd demo_on" demo_sha "[]" "[]" "snd demo_on" _ _ _ _ _ _
        "''owner-click-tokentoken.nonce''" "ForApi 1 (Some demo_session) demo_key True 0 True" "ForApi 2 (Some demo_session) demo_key False 1 True"]]
    by blast
qed

section \<open>A consented action runs\<close>

lemma api_revision_returns:
  "dget (cd_consent d) key = Some (True, v) \<Longrightarrow> dget (cd_bindings d) key = Some (v, s) \<Longrightarrow> (fst key, s) \<notin> set (cd_revoked d) \<Longrightarrow>
     api_revision HostClicks key d = (Inr v, d)"
  by (simp add: api_revision_Inr)

lemma store_approval_returns:
  assumes "dget (cd_intents d) i = Some r" and "in_state r = ''PROPOSED''" and "now < in_expires r"
    and "dget (cd_consent d) (intent_key r) = Some (True, in_revision r)"
    and "open_click now dig (in_owner r) (action_purpose i) c d"
    and bound: "dget (cd_bindings d) (intent_key r) = Some (in_revision r, ck_session c)"
  shows "store_approval HostClicks now dig i (in_body r) d =
    (Inr (), set_intent i (r\<lparr>in_state := ''APPROVED''\<rparr>) (use_click dig (in_owner r) (action_purpose i) c d))"
proof -
  let ?d = "use_click dig (in_owner r) (action_purpose i) c d"
  have "consume_assertion HostClicks now dig (in_owner r) (action_purpose i) d = (Inr (Some (ck_session c)), ?d)"
    using assms(5) by (auto simp: consume_assertion_Inr)
  moreover have "same_session r (Some (ck_session c)) ?d = (Inr (), ?d)"
    using bound by (simp add: same_session_Inr use_click_def)
  moreover have "api_revision HostClicks (intent_key r) d = (Inr (in_revision r), d)"
    using assms(4,5) bound by (simp add: api_revision_returns open_click_def)
  ultimately show ?thesis
    using assms(1-3) unfolding store_approval_def by (simp add: atomically_def bnd_run andthen_run require_def)
qed

lemma claim_action_returns:
  assumes "dget (cd_intents d) i = Some r" and "in_state r = ''APPROVED''" and "now < in_expires r"
    and "dget (cd_consent d) (intent_key r) = Some (True, in_revision r)"
    and "dget (cd_bindings d) (intent_key r) = Some (in_revision r, s)" and "(in_owner r, s) \<notin> set (cd_revoked d)"
    and "require_exact_message (in_owner r) (in_request r) (in_message r) (cd_access d) = Inr conv"
  shows "claim_action HostClicks now i (intent_binding r) op d =
    (Inr (), set_intent i (r\<lparr>in_state := ''CONSUMED'', in_operation := Some op\<rparr>) d)"
proof -
  have "api_revision HostClicks (intent_key r) d = (Inr (in_revision r), d)"
    using assms(4-6) by (simp add: api_revision_returns)
  then show ?thesis
    using assms unfolding claim_action_def by (simp add: atomically_def bnd_run andthen_run require_def lift_sum_def)
qed

lemma new_intent_of [simp]:
  "in_owner (new_intent (owner, agent, work, rid, mid, cap, body) v t) = owner"
  "in_agent (new_intent (owner, agent, work, rid, mid, cap, body) v t) = agent"
  "in_work (new_intent (owner, agent, work, rid, mid, cap, body) v t) = work"
  "in_body (new_intent (owner, agent, work, rid, mid, cap, body) v t) = body"
  "in_request (new_intent (owner, agent, work, rid, mid, cap, body) v t) = rid"
  "in_message (new_intent (owner, agent, work, rid, mid, cap, body) v t) = mid"
  by (simp_all add: new_intent_def)

lemma split_proof_two: "CHR ''.'' \<notin> set a \<Longrightarrow> CHR ''.'' \<notin> set b \<Longrightarrow> split_proof (a @ ''.'' @ b) = Some (a, b)"
  by (induction a) (auto simp: split_proof_def split: list.splits)

lemma fresh_click_accepted:
  assumes click: "dget (cd_clicks d) (sha p) = Some (new_click sha s purpose nonce expires)" and p: "p = ''owner-click-'' @ token @ ''.'' @ nonce"
    and s: "host_session_ok s" "hs_owner s = owner" "hs_csrf s" and live: "now < expires" "(owner, fingerprint sha s) \<notin> set (cd_revoked d)"
    and texts: "CHR ''.'' \<notin> set token" "CHR ''.'' \<notin> set nonce" "24 \<le> length p" "length p \<le> 4096"
  shows "owner_assertion HostClicks sha now (Some s) owner purpose (Some p) d = Inr (sha p)"
proof -
  have "split_proof p = Some (''owner-click-'' @ token, nonce)"
    using split_proof_two[of "''owner-click-'' @ token" nonce] texts(1,2) by (simp add: p)
  moreover have "py_startswith (''owner-click-'' @ token) ''owner-click-''"
    by (simp add: py_startswith_def)
  ultimately have "click_verified sha now (Some s) owner purpose p d = Inr owner"
    using click s live texts(4) by (simp add: click_verified_def current_session_def scheck_def new_click_def)
  then show ?thesis
    using texts(3,4) by (simp add: owner_assertion_def scheck_def)
qed

text \<open>
  C26: a consented action runs exactly as the central gate lets it. When a proposal has returned and the
  session the interface was switched on from asks for a click for this action, approving it with the
  proof of the click before both have run out succeeds (generated tokens hold no dot, the proof has
  24 to 4096 characters, and the digest of the body has the form of one). Then, while nothing else has changed and the
  proposal has not expired, the effect with the proposal's binding is decided by the gate alone: an
  exception at the first checkpoint or a refused grant leaves the approval unused; with the grant
  the approval is consumed, and the effect starts unless the last checkpoint raises.
\<close>

theorem consented_action_runs:
  assumes reach: "consent_reachable sha clog d"
    and proposed: "propose_action HostClicks sha now hex (owner, agent, work) rid mid action raw ttl d = (Inr i, d\<^sub>1)"
    and clicked: "issue_click sha now\<^sub>1 (Some s) token nonce owner (action_purpose i) ttl\<^sub>1 d\<^sub>1 = (Inr p, d\<^sub>2)"
    and session: "map_option snd (dget (cd_bindings d) (owner, agent, work)) = Some (fingerprint sha s)"
    and texts: "CHR ''.'' \<notin> set token" "CHR ''.'' \<notin> set nonce" "24 \<le> length p" "length p \<le> 4096" "sha_text (sha raw)"
    and time: "now\<^sub>2 < now + ttl" "now\<^sub>2 < now\<^sub>1 + ttl\<^sub>1" "now\<^sub>3 < now + ttl"
  shows "\<exists>d\<^sub>3 d\<^sub>4. approve_action HostClicks sha now\<^sub>2 (Some s) i (sha raw) True (Some p) d\<^sub>2 = (Inr (), d\<^sub>3)
     \<and> (\<forall>fence allowed fence'.
          action_effect HostClicks now\<^sub>3 fence allowed fence' i (owner, agent, work, rid, mid, ''api:action:'' @ action, sha raw) op d\<^sub>3 =
            (case fence of Some e \<Rightarrow> (Inl e, d\<^sub>3)
             | None \<Rightarrow> if \<not> allowed then (Inl (PermissionDenied ''API action grant revoked before effect''), d\<^sub>3)
                 else (case fence' of None \<Rightarrow> Inr () | Some e \<Rightarrow> Inl e, d\<^sub>4)))
     \<and> (\<exists>r r'. dget (cd_intents d\<^sub>3) i = Some r \<and> in_state r = ''APPROVED'' \<and> dget (cd_intents d\<^sub>4) i = Some r'
          \<and> in_state r' = ''CONSUMED'' \<and> in_operation r' = Some op)"
proof -
  let ?key = "(owner, agent, work)" and ?b = "(owner, agent, work, rid, mid, ''api:action:'' @ action, sha raw)"
  obtain conv where stored: "store_proposal HostClicks now hex ?b ttl d = (Inr i, d\<^sub>1)"
    and exact: "require_exact_message owner rid mid (cd_access d) = Inr conv"
    using proposed unfolding propose_action_def valid_name_def body_digest_def
    by (auto simp: run_Inr require_done lift_done scheck_Inr)
  from stored obtain v s' where v: "dget (cd_consent d) ?key = Some (True, v)" "dget (cd_bindings d) ?key = Some (v, s')"
    "(owner, s') \<notin> set (cd_revoked d)" "d\<^sub>1 = set_intent i (new_intent ?b v (now + ttl)) d"
    unfolding store_proposal_def
    by (auto simp: run_Inr require_done bnd_Inr[where m = "api_revision _ _"] api_revision_Inr Let_def binding_key_def)
  from session v(2) have s': "s' = fingerprint sha s"
    by simp
  let ?r = "new_intent ?b v (now + ttl)" and ?c = "new_click sha s (action_purpose i) nonce (now\<^sub>1 + ttl\<^sub>1)"
  from clicked have p: "p = ''owner-click-'' @ token @ ''.'' @ nonce"
    unfolding issue_click_def by (auto simp: run_Inr require_done lift_done Let_def)
  from clicked have who: "host_session_ok s" "hs_owner s = owner" "hs_csrf s" and fresh: "dget (cd_clicks d\<^sub>1) (sha p) = None"
    and d2: "d\<^sub>2 = d\<^sub>1\<lparr>cd_clicks := dset (sha p) ?c (cd_clicks d\<^sub>1)\<rparr>"
    by (auto elim: issue_click_Inr)
  have row: "dget (cd_intents d\<^sub>2) i = Some ?r"
    by (simp add: d2 v(4) set_intent_def)
  have unused: "dget (cd_assertions d\<^sub>2) (sha p) = None"
    using fresh consent_reachable_invariants(4)[OF reach] by (cases "dget (cd_assertions d) (sha p)") (auto simp: d2 v(4) set_intent_def assertions_used_def dest: spec[of _ "sha p"])
  have opened: "open_click now\<^sub>2 (sha p) (in_owner ?r) (action_purpose i) ?c d\<^sub>2"
    using unused who time v(3) s' by (simp add: open_click_def d2 v(4) set_intent_def new_click_def)
  let ?e = "set_intent i (?r\<lparr>in_state := ''APPROVED''\<rparr>) (use_click (sha p) (in_owner ?r) (action_purpose i) ?c d\<^sub>2)"
  have "store_approval HostClicks now\<^sub>2 (sha p) i (in_body ?r) d\<^sub>2 = (Inr (), ?e)"
    by (rule store_approval_returns)
      (use row opened time v s' in \<open>simp_all add: d2 set_intent_def binding_key_def new_click_def\<close>)
  moreover have "owner_assertion HostClicks sha now\<^sub>2 (Some s) owner (action_purpose i) (Some p) d\<^sub>2 = Inr (sha p)"
    by (rule fresh_click_accepted[OF _ p who, where expires = "now\<^sub>1 + ttl\<^sub>1"])
      (use texts time v s' in \<open>simp_all add: d2 set_intent_def\<close>)
  ultimately have "approve_action HostClicks sha now\<^sub>2 (Some s) i (sha raw) True (Some p) d\<^sub>2 = (Inr (), ?e)"
    using row texts(5) unfolding approve_action_def
    by (simp add: bnd_run andthen_run require_def lift_sum_def)
  moreover have "claim_action HostClicks now\<^sub>3 i (intent_binding (?r\<lparr>in_state := ''APPROVED''\<rparr>)) op ?e
      = (Inr (), set_intent i (?r\<lparr>in_state := ''CONSUMED'', in_operation := Some op\<rparr>) ?e)"
    using claim_action_returns [where d = ?e and i = i and r = "?r\<lparr>in_state := ''APPROVED''\<rparr>" and s = "fingerprint sha s" and conv = conv
        and now = now\<^sub>3 and op = op] time v s' exact
    by (simp add: d2 set_intent_def use_click_def intent_key_def new_intent_def)
  then have "claim_action HostClicks now\<^sub>3 i ?b op ?e = (Inr (), set_intent i (?r\<lparr>in_state := ''CONSUMED'', in_operation := Some op\<rparr>) ?e)"
    by (simp add: intent_binding_def new_intent_def)
  ultimately show ?thesis
    by (intro exI [of _ ?e] exI [of _ "set_intent i (?r\<lparr>in_state := ''CONSUMED'', in_operation := Some op\<rparr>) ?e"])
      (auto simp: action_effect_def andthen_run require_def checkpoint_of_def set_intent_def split: option.split)
qed

theorem consented_action_runs_witness:
  "\<exists>d\<^sub>3 d\<^sub>4. approve_action HostClicks demo_sha 4 (Some demo_session) ''act-1'' (demo_sha ''{}'') True
       (Some ''owner-click-tokentoken1.nonce'') (snd demo_clicked) = (Inr (), d\<^sub>3)
     \<and> action_effect HostClicks 5 None True None ''act-1''
         (''op'', ''agent'', ''work0001'', ''request1'', ''message1'', ''api:action:'' @ ''open'', demo_sha ''{}'') ''operation1'' d\<^sub>3 = (Inr (), d\<^sub>4)
     \<and> action_effect HostClicks 5 None False None ''act-1''
         (''op'', ''agent'', ''work0001'', ''request1'', ''message1'', ''api:action:'' @ ''open'', demo_sha ''{}'') ''operation1'' d\<^sub>3
         = (Inl (PermissionDenied ''API action grant revoked before effect''), d\<^sub>3)"
proof -
  have proposed: "propose_action HostClicks demo_sha 2 ''1'' (''op'', ''agent'', ''work0001'') ''request1'' ''message1'' ''open'' ''{}'' 120 (snd demo_on)
      = (Inr ''act-1'', snd demo_proposed)"
    using demo_runs(1) unfolding demo_proposed_def demo_key_def by (metis prod.collapse)
  have clicked: "issue_click demo_sha 3 (Some demo_session) ''tokentoken1'' ''nonce'' ''op'' (action_purpose ''act-1'') 90 (snd demo_proposed)
      = (Inr ''owner-click-tokentoken1.nonce'', snd demo_clicked)"
    using demo_runs(2) unfolding demo_clicked_def action_purpose_def by (metis append_Cons append_Nil prod.collapse)
  have session: "map_option snd (dget (cd_bindings (snd demo_on)) (''op'', ''agent'', ''work0001'')) = Some (fingerprint demo_sha demo_session)"
    using demo_runs(4) unfolding demo_key_def .
  have "\<exists>d\<^sub>3 d\<^sub>4. approve_action HostClicks demo_sha 4 (Some demo_session) ''act-1'' (demo_sha ''{}'') True
       (Some ''owner-click-tokentoken1.nonce'') (snd demo_clicked) = (Inr (), d\<^sub>3)
     \<and> (\<forall>fence allowed fence'.
          action_effect HostClicks 5 fence allowed fence' ''act-1''
            (''op'', ''agent'', ''work0001'', ''request1'', ''message1'', ''api:action:'' @ ''open'', demo_sha ''{}'') ''operation1'' d\<^sub>3 =
            (case fence of Some e \<Rightarrow> (Inl e, d\<^sub>3)
             | None \<Rightarrow> if \<not> allowed then (Inl (PermissionDenied ''API action grant revoked before effect''), d\<^sub>3)
                 else (case fence' of None \<Rightarrow> Inr () | Some e \<Rightarrow> Inl e, d\<^sub>4)))
     \<and> (\<exists>r r'. dget (cd_intents d\<^sub>3) ''act-1'' = Some r \<and> in_state r = ''APPROVED'' \<and> dget (cd_intents d\<^sub>4) ''act-1'' = Some r'
          \<and> in_state r' = ''CONSUMED'' \<and> in_operation r' = Some ''operation1'')"
    by (rule consented_action_runs[OF demo_on_reachable proposed clicked session]) code_simp+
  then show ?thesis by (elim exE conjE) force
qed

section \<open>The list of pending approvals\<close>

lemma take_of_sorted:
  assumes "x \<in> set (take n (sort_key f xs))"
  shows "length (filter (\<lambda>y. f y < f x) xs) < n"
proof -
  let ?ys = "sort_key f xs"
  from assms obtain j where j: "j < n" "j < length ?ys" "?ys ! j = x"
    by (auto simp: in_set_conv_nth)
  have "f x \<le> f y" if "y \<in> set (drop j ?ys)" for y
  proof -
    from that obtain m where "y = ?ys ! (j + m)" "j + m < length ?ys"
      by (auto simp: in_set_conv_nth)
    then show ?thesis
      using j sorted_nth_mono[of "map f ?ys" j "j + m"] by simp
  qed
  then have none: "filter (\<lambda>y. f y < f x) (drop j ?ys) = []"
    by (auto simp: filter_empty_conv not_less)
  have "length (filter (\<lambda>y. f y < f x) xs) = length (filter (\<lambda>y. f y < f x) ?ys)"
    by (simp add: filter_sort)
  also have "\<dots> = length (filter (\<lambda>y. f y < f x) (take j ?ys @ drop j ?ys))"
    by simp
  also have "\<dots> = length (filter (\<lambda>y. f y < f x) (take j ?ys))"
    using none by (simp only: filter_append) simp
  also have "\<dots> \<le> j"
    by (rule order.trans[OF length_filter_le]) simp
  finally show ?thesis
    using j(1) by simp
qed

text \<open>
  The listing takes the first rows by expiry, whatever their state: once as many intents of the owner
  as the limit have run out earlier, decided ones included, a proposal is not listed.
\<close>

lemma old_intents_hide_new_ones:
  assumes "pending_intents now owner None None limit d = (Inr rows, d')" and "(i, r, st) \<in> set rows"
  shows "int (length (filter (\<lambda>(k, r'). in_owner r' = owner \<and> in_expires r' < in_expires r) (cd_intents d))) < limit"
proof -
  let ?mine = "filter (\<lambda>(k, r). in_owner r = owner) (cd_intents d)"
  from assms have "(i, r) \<in> set (take (nat limit) (sort_key (\<lambda>(i, r). in_expires r) ?mine))" and "1 \<le> limit"
    unfolding pending_intents_def by (auto simp: run_Inr require_done valid_name_def case_prod_beta)
  from take_of_sorted[OF this(1)] have "length (filter (\<lambda>y. in_expires (snd y) < in_expires r) ?mine) < nat limit"
    by (simp add: case_prod_beta)
  then show ?thesis
    by (simp add: case_prod_unfold conj_commute zless_nat_eq_int_zless)
qed

end
