(* ===== verification/Json_Values.thy ===== *)
theory Json_Values
  imports Durable_Model
begin

text \<open>
  Values of JSON columns as the control-plane services read them: truth, \<open>str\<close>, \<open>float\<close>, and the
  checked texts and lists of texts of authorization.py and governance.py.
\<close>

text \<open>
  What \<open>float\<close> makes of a value. How it reads a text, and \<open>str\<close> of a value that is not a text,
  are arguments, and so is the shortening of a veto's reason.
\<close>

datatype cost = Finite rat | PlusInf | MinusInf | NotNumber | Unusable

record conversions =
  cv_float :: "string \<Rightarrow> cost"
  cv_str :: "json \<Rightarrow> string"
  cv_clean :: "string \<Rightarrow> string"

definition json_float :: "conversions \<Rightarrow> json \<Rightarrow> cost" where
  "json_float cv j = (case j of JNum q \<Rightarrow> Finite q | JBool b \<Rightarrow> Finite (if b then 1 else 0) | JStr s \<Rightarrow> cv_float cv s | _ \<Rightarrow> Unusable)"

definition json_str :: "conversions \<Rightarrow> json \<Rightarrow> string" where
  "json_str cv j = (case j of JStr s \<Rightarrow> s | _ \<Rightarrow> cv_str cv j)"

definition json_truth :: "json option \<Rightarrow> bool" where
  "json_truth v = (case v of None \<Rightarrow> False | Some j \<Rightarrow> (case j of JNull \<Rightarrow> False | JBool b \<Rightarrow> b | JNum q \<Rightarrow> q \<noteq> 0
     | JStr s \<Rightarrow> s \<noteq> [] | JList xs \<Rightarrow> xs \<noteq> [] | JObj kvs \<Rightarrow> kvs \<noteq> []))"

text \<open>\<open>str(value or "")\<close>.\<close>

definition or_empty :: "conversions \<Rightarrow> json option \<Rightarrow> string" where
  "or_empty cv v = (if json_truth v then json_str cv (the v) else [])"

text \<open>\<open>_text\<close>: stripped, at most so long; required, or not.\<close>

definition opt_text :: "nat \<Rightarrow> string \<Rightarrow> exn + string" where
  "opt_text n s = (let t = py_strip s in scheck (length t \<le> n) (ValueError ''exceeds'') (Inr t))"

definition text_of :: "nat \<Rightarrow> string \<Rightarrow> exn + string" where
  "text_of n s = scheck (py_strip s \<noteq> []) (ValueError ''is required'') (opt_text n s)"

lemma text_of_Inr: "text_of n s = Inr t \<longleftrightarrow> t = py_strip s \<and> t \<noteq> [] \<and> length t \<le> n"
  by (auto simp: text_of_def opt_text_def Let_def scheck_Inr)

lemma opt_text_Inr: "opt_text n s = Inr t \<longleftrightarrow> t = py_strip s \<and> length t \<le> n"
  by (auto simp: opt_text_def Let_def scheck_Inr)

text \<open>\<open>str(value or "") or None\<close>.\<close>

definition nonempty :: "string option \<Rightarrow> string option" where
  "nonempty s = (if s = Some [] then None else s)"

lemma nonempty_Some: "nonempty s = Some x \<longleftrightarrow> s = Some x \<and> x \<noteq> []"
  by (auto simp: nonempty_def)

text \<open>\<open>_strings\<close>: at most a thousand, each a required text, repetitions dropped.\<close>

fun clean_strings :: "string list \<Rightarrow> string list \<Rightarrow> exn + string list" where
  "clean_strings out [] = Inr out"
| "clean_strings out (x # xs) = sbind (text_of 4000 x) (\<lambda>t. clean_strings (if t \<in> set out then out else out @ [t]) xs)"

definition strings_of :: "string list option \<Rightarrow> exn + string list" where
  "strings_of v = (case v of None \<Rightarrow> Inr []
     | Some xs \<Rightarrow> scheck (length xs \<le> 1000) (ValueError ''must contain at most 1000 strings'') (clean_strings [] xs))"

end
