(* ===== verification/Authorization.thy ===== *)
theory Authorization
  imports Json_Values
begin

text \<open>
  Capability grants (\<open>sentra_mcp/services/authorization.py\<close>) and the deny-only vetoes behind them
  (\<open>sentra_quality/policy_veto_chain.py\<close>), on the SQLite store. The work items of the governance
  service and the tables of the durable runtime are read when scopes are inherited; they, the
  clock and generated identifiers are arguments. Grants created at the same time keep the order
  they were inserted in.
\<close>

section \<open>State\<close>

record grant_row =
  gr_owner :: string
  gr_ptype :: string
  gr_principal :: string
  gr_capability :: string
  gr_stype :: string
  gr_scope :: "string option"
  gr_conditions :: jobj
  gr_expires :: "rat option"
  gr_revoked :: bool
  gr_created :: rat
  gr_updated :: rat

record auth_event =
  ae_owner :: string
  ae_action :: string
  ae_grant :: "string option"
  ae_ptype :: string
  ae_principal :: string
  ae_capability :: string
  ae_stype :: string
  ae_scope :: "string option"
  ae_outcome :: string
  ae_reason :: string
  ae_at :: rat

record auth_db =
  au_grants :: "(string, grant_row) dict"
  au_events :: "auth_event list"

text \<open>A work item of the governance service, as far as inheritance reads it.\<close>

record work_row =
  wr_owner :: string
  wr_run :: string
  wr_goal :: "string option"
  wr_parent :: "string option"

type_synonym work_table = "(string, work_row) dict"

definition scope_types :: "string list" where
  "scope_types = [''instance'', ''workspace'', ''project'', ''goal'', ''work_item'', ''agent'', ''device'']"

definition principal_types :: "string list" where
  "principal_types = [''user'', ''agent'', ''plugin'', ''device'', ''service'']"

section \<open>Conditions\<close>

text \<open>The context of a request: its values, what \<open>float\<close> makes of its cost, its workspace permissions.\<close>

record auth_context =
  cx_values :: jobj
  cx_cost :: cost
  cx_permissions :: "string list"

definition cost_ok :: "conversions \<Rightarrow> json \<Rightarrow> cost \<Rightarrow> string option" where
  "cost_ok cv limit proposed = (case (json_float cv limit, proposed) of
      (Finite l, Finite p) \<Rightarrow> if l < 0 \<or> p < 0 then Some ''invalid actual_cost condition context''
        else if l < p then Some ''actual cost exceeds grant condition'' else None
    | (Finite l, PlusInf) \<Rightarrow> Some (if l < 0 then ''invalid actual_cost condition context'' else ''actual cost exceeds grant condition'')
    | _ \<Rightarrow> Some ''invalid actual_cost condition context'')"

text \<open>Whether the conditions hold, with the reason; a list or an object as permission cannot be hashed.\<close>

definition conditions_match :: "conversions \<Rightarrow> jobj \<Rightarrow> auth_context \<Rightarrow> exn + bool \<times> string" where
  "conditions_match cv c x =
     (if dget c ''requires_interactive'' = Some (JBool True) \<and> \<not> json_truth (dget (cx_values x) ''interactive'')
      then Inr (False, ''interactive approval required'')
      else case (case dget c ''max_actual_cost'' of None \<Rightarrow> None | Some JNull \<Rightarrow> None | Some l \<Rightarrow> cost_ok cv l (cx_cost x)) of
        Some why \<Rightarrow> Inr (False, why)
      | None \<Rightarrow>
          let perm = dget c ''workspace_permission''; provider = dget c ''provider''; health = dget c ''device_health'' in
          if json_truth perm \<and> (case perm of Some (JList _) \<Rightarrow> True | Some (JObj _) \<Rightarrow> True | _ \<Rightarrow> False) then Inl (TypeError ''unhashable'')
          else if json_truth perm \<and> (case perm of Some (JStr s) \<Rightarrow> s \<notin> set (cx_permissions x) | _ \<Rightarrow> True)
          then Inr (False, ''workspace permission condition not satisfied'')
          else if json_truth provider \<and> or_empty cv (dget (cx_values x) ''provider'') \<noteq> json_str cv (the provider)
          then Inr (False, ''provider condition not satisfied'')
          else if json_truth health \<and> py_upper (or_empty cv (dget (cx_values x) ''device_health'')) \<noteq> py_upper (json_str cv (the health))
          then Inr (False, ''device health condition not satisfied'')
          else Inr (True, ''conditions satisfied''))"

section \<open>Granting and revoking\<close>

definition capability_char :: "char \<Rightarrow> bool" where
  "capability_char c \<longleftrightarrow> is_word c \<or> c \<in> set ''.:-*''"

definition condition_keys :: "string list" where
  "condition_keys = [''requires_interactive'', ''max_actual_cost'', ''workspace_permission'', ''provider'', ''device_health'']"

definition log_event :: "auth_event \<Rightarrow> auth_db \<Rightarrow> auth_db" where
  "log_event e d = d\<lparr>au_events := au_events d @ [e\<lparr>ae_reason := take 2000 (ae_reason e)\<rparr>]\<rparr>"

definition grant_info :: "string \<Rightarrow> string \<Rightarrow> (auth_db, grant_row) sx" where
  "grant_info i owner = bnd (gets (\<lambda>d. dget (au_grants d) i)) (\<lambda>row. case row of
      None \<Rightarrow> throw (FileNotFound ''authorization grant not found'')
    | Some r \<Rightarrow> andthen (require (gr_owner r = owner) (FileNotFound ''authorization grant not found'')) (ret r))"

definition insert_grant :: "string \<Rightarrow> grant_row \<Rightarrow> auth_db \<Rightarrow> auth_db" where
  "insert_grant i r d = d\<lparr>au_grants := dset i r (au_grants d)\<rparr>"

text \<open>\<open>conditions\<close> is \<open>None\<close> when it is left out.\<close>

definition add_grant ::
  "rat \<Rightarrow> string \<Rightarrow> string \<Rightarrow> string \<Rightarrow> string \<Rightarrow> string \<Rightarrow> string \<Rightarrow> string option \<Rightarrow> jobj option \<Rightarrow> rat option \<Rightarrow> (auth_db, grant_row) sx" where
  "add_grant now i owner ptype pid capability stype sid conditions ttl =
     (let pt = py_lower ptype; st = py_lower stype; cond = (case conditions of None \<Rightarrow> [] | Some c \<Rightarrow> c) in
      andthen (require (pt \<in> set principal_types) (ValueError ''invalid principal_type''))
      (andthen (require (st \<in> set scope_types) (ValueError ''invalid scope_type''))
      (andthen (require (st = ''instance'' \<or> (case sid of None \<Rightarrow> False | Some s \<Rightarrow> py_strip s \<noteq> []))
         (ValueError ''scope_id is required outside instance scope''))
      (bnd (lift_sum (text_of 256 capability)) (\<lambda>cap.
       andthen (require (list_all capability_char cap) (ValueError ''capability contains unsupported characters''))
       (andthen (require (list_all (\<lambda>k. k \<in> set condition_keys) (dkeys cond)) (ValueError ''unknown authorization conditions''))
       (andthen (require (case ttl of None \<Rightarrow> True | Some t \<Rightarrow> 1 \<le> t \<and> t \<le> 31536000) (ValueError ''ttl_s must be 1..31536000''))
       (andthen (atomically
          (bnd (lift_sum (text_of 256 pid)) (\<lambda>p.
           bnd (gets (\<lambda>d. dget (au_grants d) i)) (\<lambda>old.
           andthen (require (old = None) IntegrityError)
           (andthen (modify (insert_grant i \<lparr>gr_owner = owner, gr_ptype = pt, gr_principal = p, gr_capability = cap, gr_stype = st,
               gr_scope = map_option py_strip sid, gr_conditions = cond, gr_expires = map_option (\<lambda>t. now + t) ttl, gr_revoked = False,
               gr_created = now, gr_updated = now\<rparr>))
             (modify (log_event \<lparr>ae_owner = owner, ae_action = ''grant'', ae_grant = Some i, ae_ptype = pt, ae_principal = pid,
               ae_capability = cap, ae_stype = st, ae_scope = sid, ae_outcome = ''ok'', ae_reason = ''grant created'', ae_at = now\<rparr>)))))))
         (grant_info i owner)))))))))"

definition revoke_grant :: "rat \<Rightarrow> string \<Rightarrow> string \<Rightarrow> (auth_db, grant_row) sx" where
  "revoke_grant now i owner =
     andthen (atomically (bnd (grant_info i owner) (\<lambda>r.
        andthen (modify (\<lambda>d. d\<lparr>au_grants := upd_row i (\<lambda>r. r\<lparr>gr_revoked := True, gr_updated := now\<rparr>) (au_grants d)\<rparr>))
          (modify (log_event \<lparr>ae_owner = owner, ae_action = ''revoke'', ae_grant = Some i, ae_ptype = gr_ptype r,
             ae_principal = gr_principal r, ae_capability = gr_capability r, ae_stype = gr_stype r, ae_scope = gr_scope r,
             ae_outcome = ''ok'', ae_reason = ''grant revoked'', ae_at = now\<rparr>)))))
       (grant_info i owner)"

definition list_grants :: "string \<Rightarrow> string option \<Rightarrow> string option \<Rightarrow> bool \<Rightarrow> (auth_db, (string \<times> grant_row) list) sx" where
  "list_grants owner ptype pid include_revoked = gets (\<lambda>d. sort_key (\<lambda>(i, r). gr_created r)
     (filter (\<lambda>(i, r). gr_owner r = owner \<and> (case ptype of None \<Rightarrow> True | Some t \<Rightarrow> t = [] \<or> gr_ptype r = py_lower t)
        \<and> (case pid of None \<Rightarrow> True | Some p \<Rightarrow> p = [] \<or> gr_principal r = p) \<and> (include_revoked \<or> \<not> gr_revoked r)) (au_grants d)))"

section \<open>Matching\<close>

text \<open>
  \<open>fnmatch.fnmatchcase\<close> for the patterns a grant can have, in which the star is the only wildcard.
\<close>

fun star_match :: "string \<Rightarrow> string \<Rightarrow> bool" where
  "star_match [] s \<longleftrightarrow> s = []"
| "star_match (p # ps) [] \<longleftrightarrow> p = CHR ''*'' \<and> star_match ps []"
| "star_match (p # ps) (c # s) \<longleftrightarrow> (if p = CHR ''*'' then star_match ps (c # s) \<or> star_match (p # ps) s else p = c \<and> star_match ps s)"

definition capability_matches :: "string \<Rightarrow> string \<Rightarrow> bool" where
  "capability_matches rule requested \<longleftrightarrow> (if rule = ''*'' then True
     else if rule \<noteq> [] \<and> last rule = CHR ''*'' then py_startswith requested (butlast rule)
     else star_match rule requested)"

type_synonym ancestors = "(string, string list) dict"

text \<open>\<open>str(None)\<close> is the text \<open>None\<close>.\<close>

definition scope_matches :: "string \<Rightarrow> string option \<Rightarrow> string \<Rightarrow> string option \<Rightarrow> ancestors \<Rightarrow> bool" where
  "scope_matches gt gid rt rid anc \<longleftrightarrow> gt = ''instance'' \<or> (gt = rt \<and> gid = rid)
     \<or> (case dget anc gt of None \<Rightarrow> False | Some xs \<Rightarrow> (case gid of None \<Rightarrow> ''None'' | Some g \<Rightarrow> g) \<in> set xs)"

section \<open>Inherited scopes\<close>

text \<open>
  The loop up the parents, bounded by the code: \<open>look\<close> gives the run and the parent of a row;
  \<open>None\<close> is the early return with no ancestors.
\<close>

fun climb :: "(string \<Rightarrow> (string \<times> string option) option) \<Rightarrow> string \<Rightarrow> nat \<Rightarrow> string list \<Rightarrow> string option \<Rightarrow> string list option" where
  "climb look run n seen None = Some []"
| "climb look run 0 seen (Some p) = None"
| "climb look run (Suc n) seen (Some p) = (if p \<in> set seen then None else case look p of
      None \<Rightarrow> None
    | Some (r, up) \<Rightarrow> if r \<noteq> run then None else map_option (\<lambda>ps. p # ps) (climb look run n (p # seen) up))"

definition work_link :: "work_table \<Rightarrow> string \<Rightarrow> string \<Rightarrow> (string \<times> string option) option" where
  "work_link w owner i = (case dget w i of None \<Rightarrow> None
     | Some r \<Rightarrow> if wr_owner r = owner then Some (wr_run r, nonempty (wr_parent r)) else None)"

definition goal_link :: "db \<Rightarrow> string \<Rightarrow> string \<Rightarrow> (string \<times> string option) option" where
  "goal_link dd owner i = (case dget (tb_goals dd) i of None \<Rightarrow> None
     | Some r \<Rightarrow> if go_owner r = owner then Some (go_run r, nonempty (go_parent r)) else None)"

definition projects_of :: "db \<Rightarrow> string \<Rightarrow> string \<Rightarrow> string list" where
  "projects_of dd owner run = remdups (concat (map (\<lambda>(i, c). case nonempty (ch_project c) of None \<Rightarrow> [] | Some p \<Rightarrow> [p])
     (filter (\<lambda>(i, c). ch_run c = run \<and> ch_owner c = owner) (tb_chats dd))))"

text \<open>The part that reads the durable runtime, from the run and the goal found so far.\<close>

definition goal_ancestors :: "db \<Rightarrow> string \<Rightarrow> string option \<Rightarrow> string option \<Rightarrow> (string option \<times> ancestors) option" where
  "goal_ancestors dd owner run goal = (case goal of
      None \<Rightarrow> Some (run, [])
    | Some g \<Rightarrow> (case goal_link dd owner g of
        None \<Rightarrow> None
      | Some (r, up) \<Rightarrow>
          let run' = (case run of None \<Rightarrow> r | Some x \<Rightarrow> x) in
          if r \<noteq> run' then None
          else map_option (\<lambda>gs. (nonempty (Some run'), [(''goal'', gs)])) (climb (goal_link dd owner) run' 128 [g] up)))"

definition run_ancestors :: "db \<Rightarrow> string \<Rightarrow> string option \<Rightarrow> ancestors option" where
  "run_ancestors dd owner run = (case run of
      None \<Rightarrow> Some []
    | Some i \<Rightarrow> (case dget (tb_runs dd) i of
        None \<Rightarrow> None
      | Some r \<Rightarrow> if ru_owner r \<noteq> owner then None else
          Some ((case nonempty (ru_workspace r) of None \<Rightarrow> [] | Some w \<Rightarrow> [(''workspace'', [w])])
            @ (case projects_of dd owner i of [p] \<Rightarrow> [(''project'', [p])] | _ \<Rightarrow> []))))"

definition inherited :: "db \<Rightarrow> string \<Rightarrow> string option \<Rightarrow> string option \<Rightarrow> ancestors \<Rightarrow> ancestors" where
  "inherited dd owner run goal found = (case goal_ancestors dd owner run goal of
      None \<Rightarrow> []
    | Some (run', goals) \<Rightarrow> (case run_ancestors dd owner run' of None \<Rightarrow> [] | Some rs \<Rightarrow> found @ goals @ rs))"

definition trusted_ancestors :: "work_table \<Rightarrow> db \<Rightarrow> string \<Rightarrow> string \<Rightarrow> string option \<Rightarrow> ancestors" where
  "trusted_ancestors w dd owner stype sid = (case nonempty sid of
      None \<Rightarrow> []
    | Some i \<Rightarrow>
        if stype = ''work_item'' then (case dget w i of
            None \<Rightarrow> []
          | Some r \<Rightarrow> if wr_owner r \<noteq> owner then [] else
              (case climb (work_link w owner) (wr_run r) 128 [i] (nonempty (wr_parent r)) of
                 None \<Rightarrow> []
               | Some ps \<Rightarrow> inherited dd owner (nonempty (Some (wr_run r))) (nonempty (wr_goal r))
                   (if ps = [] then [] else [(''work_item'', ps)])))
        else if stype = ''goal'' then inherited dd owner None (Some i) []
        else if stype = ''agent'' then (case dget (tb_agents dd) i of
            None \<Rightarrow> []
          | Some a \<Rightarrow> if ag_owner a \<noteq> owner then [] else inherited dd owner (nonempty (Some (ag_run a))) (nonempty (ag_goal a)) [])
        else [])"

section \<open>Decisions\<close>

record veto_note =
  vn_provider :: string
  vn_allowed :: bool
  vn_reason :: string
  vn_revision :: "string option"
  vn_decision :: "string option"

record decision =
  de_allowed :: bool
  de_source :: string
  de_grant :: "string option"
  de_reason :: string
  de_constraints :: jobj
  de_vetos :: "veto_note list option"

record auth_query =
  aq_ptype :: string
  aq_principal :: string
  aq_capability :: string
  aq_stype :: string
  aq_scope :: "string option"
  aq_context :: auth_context

text \<open>The loop over the rows: the grant that allows, or the reasons of those that matched and did not.\<close>

fun try_grants :: "conversions \<Rightarrow> auth_context \<Rightarrow> (grant_row \<Rightarrow> bool) \<Rightarrow> (string \<times> grant_row) list \<Rightarrow>
    exn + (string \<times> grant_row \<times> string) option \<times> string list" where
  "try_grants cv x fits [] = Inr (None, [])"
| "try_grants cv x fits ((i, r) # rs) = (if \<not> fits r then try_grants cv x fits rs
     else case conditions_match cv (gr_conditions r) x of
         Inl e \<Rightarrow> Inl e
       | Inr (ok, why) \<Rightarrow> if ok then Inr (Some (i, r, why), [])
           else (case try_grants cv x fits rs of Inl e \<Rightarrow> Inl e | Inr (g, whys) \<Rightarrow> Inr (g, why # whys)))"

fun join_reasons :: "string list \<Rightarrow> string" where
  "join_reasons [] = []"
| "join_reasons [w] = w"
| "join_reasons (w # v # ws) = w @ ''; '' @ join_reasons (v # ws)"

text \<open>The rows the query selects, oldest first.\<close>

definition live_grants :: "rat \<Rightarrow> string \<Rightarrow> string \<Rightarrow> string \<Rightarrow> auth_db \<Rightarrow> (string \<times> grant_row) list" where
  "live_grants now owner pt pid d = sort_key (\<lambda>(i, r). gr_created r) (filter (\<lambda>(i, r). gr_owner r = owner \<and> gr_ptype r = pt
     \<and> gr_principal r = pid \<and> \<not> gr_revoked r \<and> (case gr_expires r of None \<Rightarrow> True | Some t \<Rightarrow> now < t)) (au_grants d))"

definition fits_query :: "string \<Rightarrow> string \<Rightarrow> string option \<Rightarrow> ancestors \<Rightarrow> grant_row \<Rightarrow> bool" where
  "fits_query cap st sid anc r \<longleftrightarrow> capability_matches (gr_capability r) cap \<and> scope_matches (gr_stype r) (gr_scope r) st sid anc"

definition decision_event :: "rat \<Rightarrow> string \<Rightarrow> auth_query \<Rightarrow> string \<Rightarrow> string \<Rightarrow> string \<Rightarrow> string option \<Rightarrow> auth_event" where
  "decision_event now owner q cap out why i = \<lparr>ae_owner = owner, ae_action = ''authorize'', ae_grant = i,
     ae_ptype = py_lower (aq_ptype q), ae_principal = aq_principal q, ae_capability = cap, ae_stype = py_lower (aq_stype q),
     ae_scope = aq_scope q, ae_outcome = out, ae_reason = why, ae_at = now\<rparr>"

definition authorize ::
  "conversions \<Rightarrow> work_table \<Rightarrow> db \<Rightarrow> rat \<Rightarrow> bool \<Rightarrow> string \<Rightarrow> auth_query \<Rightarrow> (auth_db, decision) sx" where
  "authorize cv w dd now local_owner owner q =
     (let pt = py_lower (aq_ptype q); st = py_lower (aq_stype q); pid = aq_principal q; sid = aq_scope q in
      bnd (lift_sum (text_of 256 (aq_capability q))) (\<lambda>cap.
      andthen (require (pt \<in> set principal_types) (ValueError ''invalid principal_type''))
      (andthen (require (st \<in> set scope_types) (ValueError ''invalid scope_type''))
      (if local_owner \<and> pt = ''user'' \<and> pid = owner
       then ret \<lparr>de_allowed = True, de_source = ''local_owner'', de_grant = None, de_reason = ''local owner authority'',
         de_constraints = [], de_vetos = None\<rparr>
       else atomically (bnd (gets (live_grants now owner pt pid)) (\<lambda>rows.
         bnd (lift_sum (try_grants cv (aq_context q) (fits_query cap st sid (trusted_ancestors w dd owner st sid)) rows)) (\<lambda>(g, whys).
         case g of
           Some (i, r, why) \<Rightarrow> andthen (modify (log_event (decision_event now owner q cap ''allowed'' why (Some i))))
             (ret \<lparr>de_allowed = True, de_source = ''grant'', de_grant = Some i, de_reason = why,
               de_constraints = gr_conditions r, de_vetos = None\<rparr>)
         | None \<Rightarrow>
             let why = (if whys = [] then ''no matching active grant'' else join_reasons (sort (remdups whys))) in
             andthen (modify (log_event (decision_event now owner q cap ''denied'' why None)))
               (ret \<lparr>de_allowed = False, de_source = ''policy'', de_grant = None, de_reason = why,
                 de_constraints = [], de_vetos = None\<rparr>))))))))"

definition require_grant ::
  "conversions \<Rightarrow> work_table \<Rightarrow> db \<Rightarrow> rat \<Rightarrow> bool \<Rightarrow> string \<Rightarrow> auth_query \<Rightarrow> (auth_db, decision) sx" where
  "require_grant cv w dd now local_owner owner q = bnd (authorize cv w dd now local_owner owner q) (\<lambda>x.
     andthen (require (de_allowed x) (PermissionDenied ''authorization denied'')) (ret x))"

section \<open>Vetoes\<close>

record veto_request =
  vr_owner :: string
  vr_ptype :: string
  vr_principal :: string
  vr_capability :: string
  vr_stype :: string
  vr_scope :: "string option"
  vr_context :: jobj

text \<open>What a veto provider does with a request: raise, answer something else, or decide.\<close>

datatype veto_answer = VetoRaises | VetoUntyped | VetoSays veto_note

type_synonym veto = "string \<times> (veto_request \<Rightarrow> veto_answer)"

definition chain_of :: "veto list \<Rightarrow> exn + veto list" where
  "chain_of vs = scheck (list_all (\<lambda>(n, f). py_strip n \<noteq> []) vs) (ValueError ''veto chain entries must be (name, callable)'')
     (Inr (map (\<lambda>(n, f). (py_strip n, f)) vs))"

definition build_veto_request :: "string \<Rightarrow> auth_query \<Rightarrow> exn + veto_request" where
  "build_veto_request owner q =
     scheck (py_strip owner \<noteq> []) (ValueError ''owner is required'')
     (scheck (py_strip (aq_principal q) \<noteq> []) (ValueError ''principal_id is required'')
     (scheck (py_strip (aq_capability q) \<noteq> []) (ValueError ''capability is required'')
     (Inr \<lparr>vr_owner = owner, vr_ptype = (if aq_ptype q = [] then ''agent'' else py_lower (aq_ptype q)), vr_principal = aq_principal q,
        vr_capability = aq_capability q, vr_stype = (if aq_stype q = [] then ''instance'' else py_lower (aq_stype q)),
        vr_scope = aq_scope q, vr_context = cx_values (aq_context q)\<rparr>)))"

definition sanitize_reason :: "conversions \<Rightarrow> string \<Rightarrow> string" where
  "sanitize_reason cv r = (let t = replace_char (char_of (10 :: nat)) (CHR '' '') (replace_char (char_of (13 :: nat)) (CHR '' '') (cv_clean cv r)) in
     if t = [] then ''veto decision'' else take 500 t)"

text \<open>Allowed, source, reason, notes.\<close>

fun evaluate_vetos :: "conversions \<Rightarrow> veto_request \<Rightarrow> string \<Rightarrow> veto_note list \<Rightarrow> veto list \<Rightarrow> bool \<times> string \<times> string \<times> veto_note list" where
  "evaluate_vetos cv rq core notes [] = (True, ''core_pdp+vetos'', take 500 core, notes)"
| "evaluate_vetos cv rq core notes ((n, f) # vs) = (case f rq of
      VetoRaises \<Rightarrow> (False, ''veto:'' @ n, ''veto '' @ n @ '' unavailable'', notes)
    | VetoUntyped \<Rightarrow> (False, ''veto:'' @ n, ''veto '' @ n @ '' returned untyped result'', notes)
    | VetoSays v \<Rightarrow>
        if vn_provider v \<noteq> n then (False, ''veto:'' @ n, ''veto '' @ n @ '' returned untyped result'', notes)
        else let notes' = notes @ [v\<lparr>vn_reason := sanitize_reason cv (vn_reason v)\<rparr>] in
          if \<not> vn_allowed v then (False, ''veto:'' @ n, sanitize_reason cv (vn_reason v), notes')
          else evaluate_vetos cv rq core notes' vs)"

text \<open>
  The vetoes are consulted between two decisions: \<open>meanwhile\<close> is what others do to the grants, and
  the work items, the durable tables and the clock may have changed.
\<close>

definition authorize_with_vetos ::
  "conversions \<Rightarrow> work_table \<Rightarrow> db \<Rightarrow> rat \<Rightarrow> (auth_db \<Rightarrow> auth_db) \<Rightarrow> work_table \<Rightarrow> db \<Rightarrow> rat \<Rightarrow> bool \<Rightarrow> string \<Rightarrow> auth_query \<Rightarrow> veto list \<Rightarrow>
     (auth_db, decision) sx" where
  "authorize_with_vetos cv w dd now meanwhile w' dd' now' local_owner owner q vs =
     bnd (authorize cv w dd now local_owner owner q) (\<lambda>x.
     if \<not> de_allowed x \<or> vs = [] then ret (x\<lparr>de_vetos := Some []\<rparr>)
     else bnd (lift_sum (chain_of vs)) (\<lambda>chain.
       bnd (lift_sum (build_veto_request owner q)) (\<lambda>rq.
       case evaluate_vetos cv rq (de_reason x) [] chain of (ok, source, why, notes) \<Rightarrow>
         if \<not> ok then ret (x\<lparr>de_allowed := False, de_source := source, de_reason := why, de_vetos := Some notes\<rparr>)
         else andthen (modify meanwhile)
           (bnd (authorize cv w' dd' now' local_owner owner q) (\<lambda>y.
            if \<not> de_allowed y \<or> de_grant y \<noteq> de_grant x \<or> de_constraints y \<noteq> de_constraints x
            then ret (y\<lparr>de_allowed := False, de_source := ''core_pdp'', de_reason := ''core grant changed during veto admission'',
              de_vetos := Some notes\<rparr>)
            else ret (x\<lparr>de_source := source, de_reason := why, de_vetos := Some notes\<rparr>))))))"

end
