(* ===== verification/Authorization_Properties.thy ===== *)
theory Authorization_Properties
  imports Authorization
begin

text \<open>
  What a decision rests on: a declarative account of the scopes a grant covers, the grants a
  decision can come from, what revocation and the vetoes guarantee.
\<close>

section \<open>What a grant covers\<close>

text \<open>The rows above a row, inside one run, by the parent relation.\<close>

inductive above :: "(string \<Rightarrow> (string \<times> string option) option) \<Rightarrow> string \<Rightarrow> string option \<Rightarrow> string \<Rightarrow> bool" for look run where
  above_parent: "look p = Some (run, up) \<Longrightarrow> above look run (Some p) p"
| above_step: "look p = Some (run, up) \<Longrightarrow> above look run up a \<Longrightarrow> above look run (Some p) a"

inductive_cases above_NoneE: "above look run None a"
inductive_cases above_SomeE: "above look run (Some p) a"

lemma climb_above:
  "climb look run n seen s = Some ps \<Longrightarrow> a \<in> set ps \<longleftrightarrow> above look run s a"
proof (induction look run n seen s arbitrary: ps rule: climb.induct)
  case (3 look run n seen p)
  from 3(2) obtain up qs where up: "look p = Some (run, up)" "climb look run n (p # seen) up = Some qs" "ps = p # qs" "p \<notin> set seen"
    by (auto split: if_splits option.splits)
  then have "a \<in> set qs \<longleftrightarrow> above look run up a"
    using 3(1)[of "(run, up)" run up qs] by simp
  then show ?case
    using up by (auto intro: above.intros elim: above_SomeE)
qed (auto elim: above_NoneE)

lemma climb_avoids: "climb look run n seen s = Some ps \<Longrightarrow> set ps \<inter> set seen = {}"
  by (induction look run n seen s arbitrary: ps rule: climb.induct) (fastforce split: if_splits option.splits)+

text \<open>The run and the goal a scope belongs to.\<close>

definition scope_goal :: "work_table \<Rightarrow> db \<Rightarrow> string \<Rightarrow> string \<Rightarrow> string \<Rightarrow> string option" where
  "scope_goal w dd owner st i =
     (if st = ''work_item'' then Option.bind (dget w i) (\<lambda>r. if wr_owner r = owner then nonempty (wr_goal r) else None)
      else if st = ''goal'' then Some i
      else if st = ''agent'' then Option.bind (dget (tb_agents dd) i) (\<lambda>a. if ag_owner a = owner then nonempty (ag_goal a) else None)
      else None)"

definition scope_run :: "work_table \<Rightarrow> db \<Rightarrow> string \<Rightarrow> string \<Rightarrow> string \<Rightarrow> string \<Rightarrow> bool" where
  "scope_run w dd owner st i run \<longleftrightarrow>
     (st = ''work_item'' \<and> (\<exists>r. dget w i = Some r \<and> wr_owner r = owner \<and> wr_run r = run))
     \<or> (st = ''agent'' \<and> (\<exists>a. dget (tb_agents dd) i = Some a \<and> ag_owner a = owner \<and> ag_run a = run))
     \<or> (\<exists>g r. scope_goal w dd owner st i = Some g \<and> dget (tb_goals dd) g = Some r \<and> go_owner r = owner \<and> go_run r = run)"

definition belongs_to :: "work_table \<Rightarrow> db \<Rightarrow> string \<Rightarrow> string \<Rightarrow> string \<Rightarrow> string \<Rightarrow> string \<Rightarrow> bool" where
  "belongs_to w dd owner st i kind g \<longleftrightarrow>
     (kind = ''work_item'' \<and> st = ''work_item'' \<and> (\<exists>r. dget w i = Some r \<and> wr_owner r = owner
        \<and> above (work_link w owner) (wr_run r) (nonempty (wr_parent r)) g))
     \<or> (kind = ''goal'' \<and> (\<exists>g\<^sub>0 run up. scope_goal w dd owner st i = Some g\<^sub>0 \<and> goal_link dd owner g\<^sub>0 = Some (run, up)
        \<and> above (goal_link dd owner) run up g \<and> g \<noteq> g\<^sub>0))
     \<or> (kind = ''workspace'' \<and> (\<exists>run r. scope_run w dd owner st i run \<and> dget (tb_runs dd) run = Some r \<and> ru_owner r = owner
        \<and> ru_workspace r = Some g))
     \<or> (kind = ''project'' \<and> (\<exists>run. scope_run w dd owner st i run
        \<and> (\<forall>p. (\<exists>k c. (k, c) \<in> set (tb_chats dd) \<and> ch_run c = run \<and> ch_owner c = owner \<and> ch_project c = Some p \<and> p \<noteq> []) \<longleftrightarrow> p = g)))"

text \<open>The grant's scope covers the scope asked for.\<close>

definition covers :: "work_table \<Rightarrow> db \<Rightarrow> string \<Rightarrow> string \<Rightarrow> string option \<Rightarrow> grant_row \<Rightarrow> bool" where
  "covers w dd owner st sid r \<longleftrightarrow> gr_stype r = ''instance'' \<or> (gr_stype r = st \<and> gr_scope r = sid)
     \<or> (\<exists>i g. sid = Some i \<and> (case gr_scope r of None \<Rightarrow> ''None'' | Some x \<Rightarrow> x) = g \<and> belongs_to w dd owner st i (gr_stype r) g)"

lemma set_projects_of:
  "p \<in> set (projects_of dd owner run) \<longleftrightarrow>
     (\<exists>k c. (k, c) \<in> set (tb_chats dd) \<and> ch_run c = run \<and> ch_owner c = owner \<and> ch_project c = Some p \<and> p \<noteq> [])"
  unfolding projects_of_def
  by (auto simp: nonempty_Some eq_commute[of "Some _"] split: option.splits)

lemma project_entry:
  "dget (case ps of [p] \<Rightarrow> [(k\<^sub>0, [p])] | _ \<Rightarrow> []) k = Some xs \<longleftrightarrow> k = k\<^sub>0 \<and> ps = xs \<and> (\<exists>p. xs = [p])"
  by (auto split: list.split)

lemma goal_link_Some: "goal_link dd owner g = Some (run, up) \<longleftrightarrow>
     (\<exists>r. dget (tb_goals dd) g = Some r \<and> go_owner r = owner \<and> go_run r = run \<and> nonempty (go_parent r) = up)"
  by (auto simp: goal_link_def split: option.splits)

text \<open>What the part over the durable runtime finds.\<close>

lemma inherited_entries:
  assumes "dget (inherited dd owner run goal found) kind = Some xs" and "g \<in> set xs"
  obtains (found) "dget found kind = Some xs"
  | (goal) g\<^sub>0 r up where "kind = ''goal''" "goal = Some g\<^sub>0" "goal_link dd owner g\<^sub>0 = Some (r, up)"
      "above (goal_link dd owner) r up g" "g \<noteq> g\<^sub>0"
  | (run) run' row where "run = Some run' \<or> (\<exists>g\<^sub>0 up. goal = Some g\<^sub>0 \<and> goal_link dd owner g\<^sub>0 = Some (run', up))"
      "dget (tb_runs dd) run' = Some row" "ru_owner row = owner"
      "kind = ''workspace'' \<and> ru_workspace row = Some g \<or> kind = ''project'' \<and> projects_of dd owner run' = [g]"
proof -
  obtain run' goals rs where parts: "goal_ancestors dd owner run goal = Some (run', goals)"
    "run_ancestors dd owner run' = Some rs" "dget (found @ goals @ rs) kind = Some xs"
    using assms(1) by (auto simp: inherited_def split: option.splits prod.splits)
  have goals: "dget goals kind = Some xs \<Longrightarrow> \<exists>g\<^sub>0 r up. kind = ''goal'' \<and> goal = Some g\<^sub>0 \<and> goal_link dd owner g\<^sub>0 = Some (r, up)
      \<and> above (goal_link dd owner) r up g \<and> g \<noteq> g\<^sub>0"
    using parts(1) assms(2) climb_avoids climb_above
    by (fastforce simp: goal_ancestors_def Let_def split: option.splits if_splits prod.splits)
  have source: "run' = Some i \<Longrightarrow> run = Some i \<or> (\<exists>g\<^sub>0 up. goal = Some g\<^sub>0 \<and> goal_link dd owner g\<^sub>0 = Some (i, up))" for i
    using parts(1) by (auto simp: goal_ancestors_def Let_def nonempty_Some split: option.splits if_splits prod.splits)
  have rs: "dget rs kind = Some xs \<Longrightarrow> \<exists>i row. run' = Some i \<and> dget (tb_runs dd) i = Some row \<and> ru_owner row = owner
      \<and> (kind = ''workspace'' \<and> ru_workspace row = Some g \<or> kind = ''project'' \<and> projects_of dd owner i = [g])"
    using parts(2) assms(2)
    by (auto simp: run_ancestors_def nonempty_Some project_entry map_add_Some_iff split: option.splits if_splits)
  from parts(3) consider "dget found kind = Some xs" | "dget goals kind = Some xs" | "dget rs kind = Some xs"
    by (auto simp: map_of_append map_add_def split: option.splits)
  then show thesis
  proof cases
    case 1
    then show thesis
      by (rule found)
  next
    case 2
    from goals[OF this] show thesis
      by (elim exE conjE) (rule goal)
  next
    case 3
    from rs[OF this] obtain i row where "run' = Some i" "dget (tb_runs dd) i = Some row" "ru_owner row = owner"
      "kind = ''workspace'' \<and> ru_workspace row = Some g \<or> kind = ''project'' \<and> projects_of dd owner i = [g]"
      by blast
    with source[of i] show thesis
      by (intro run[of i row]) auto
  qed
qed

lemma belongs_to_run:
  assumes "scope_run w dd owner st i run" and "dget (tb_runs dd) run = Some row" and "ru_owner row = owner"
    and "kind = ''workspace'' \<and> ru_workspace row = Some g \<or> kind = ''project'' \<and> projects_of dd owner run = [g]"
  shows "belongs_to w dd owner st i kind g"
proof -
  consider "kind = ''workspace''" "ru_workspace row = Some g" | "kind = ''project''" "projects_of dd owner run = [g]"
    using assms(4) by blast
  then show ?thesis
  proof cases
    case 1
    then show ?thesis
      using assms(1-3) unfolding belongs_to_def by blast
  next
    case 2
    have "(\<exists>k c. (k, c) \<in> set (tb_chats dd) \<and> ch_run c = run \<and> ch_owner c = owner \<and> ch_project c = Some p \<and> p \<noteq> []) \<longleftrightarrow> p = g" for p
      using set_projects_of[of p dd owner run] unfolding 2(2) by simp
    then show ?thesis
      using assms(1) 2(1) unfolding belongs_to_def by blast
  qed
qed

lemma inherited_belongs:
  assumes "dget (inherited dd owner run (scope_goal w dd owner st i) found) kind = Some xs" and "g \<in> set xs"
    and "dget found kind = Some xs \<Longrightarrow> belongs_to w dd owner st i kind g"
    and "\<And>r. run = Some r \<Longrightarrow> scope_run w dd owner st i r"
  shows "belongs_to w dd owner st i kind g"
  using assms(1,2)
proof (cases rule: inherited_entries)
  case found
  then show ?thesis
    by (rule assms(3))
next
  case (goal g\<^sub>0 r up)
  then show ?thesis
    unfolding belongs_to_def by blast
next
  case (run run' row)
  have "scope_run w dd owner st i run'"
    using run(1) assms(4) by (auto simp: scope_run_def goal_link_Some)
  then show ?thesis
    using run(2-4) by (rule belongs_to_run)
qed

lemma trusted_ancestors_belong:
  assumes "dget (trusted_ancestors w dd owner st sid) kind = Some xs" and "g \<in> set xs"
  shows "\<exists>i. sid = Some i \<and> belongs_to w dd owner st i kind g"
proof -
  obtain i where i: "sid = Some i" "nonempty sid = Some i"
    using assms(1) by (auto simp: trusted_ancestors_def nonempty_Some split: option.splits)
  consider (work) r ps where "st = ''work_item''" "dget w i = Some r" "wr_owner r = owner"
      "climb (work_link w owner) (wr_run r) 128 [i] (nonempty (wr_parent r)) = Some ps"
      "dget (inherited dd owner (nonempty (Some (wr_run r))) (nonempty (wr_goal r)) (if ps = [] then [] else [(''work_item'', ps)])) kind = Some xs"
    | (goal) "st = ''goal''" "dget (inherited dd owner None (Some i) []) kind = Some xs"
    | (agent) a where "st = ''agent''" "dget (tb_agents dd) i = Some a" "ag_owner a = owner"
      "dget (inherited dd owner (nonempty (Some (ag_run a))) (nonempty (ag_goal a)) []) kind = Some xs"
    using assms(1) i by (auto simp: trusted_ancestors_def split: option.splits if_splits)
  then have "belongs_to w dd owner st i kind g"
  proof cases
    case work
    show ?thesis
    proof (rule inherited_belongs[OF _ assms(2)])
      show "dget (inherited dd owner (nonempty (Some (wr_run r))) (scope_goal w dd owner st i) (if ps = [] then [] else [(''work_item'', ps)])) kind = Some xs"
        using work by (simp add: scope_goal_def)
      show "belongs_to w dd owner st i kind g" if "dget (if ps = [] then [] else [(''work_item'', ps)]) kind = Some xs"
        using that work assms(2) climb_above[OF work(4)] by (auto simp: belongs_to_def split: if_splits)
      show "scope_run w dd owner st i r'" if "nonempty (Some (wr_run r)) = Some r'" for r'
        using that work by (simp add: scope_run_def nonempty_Some)
    qed
  next
    case goal
    show ?thesis
      by (rule inherited_belongs[where run = None and found = "[]", OF _ assms(2)]) (use goal in \<open>simp_all add: scope_goal_def\<close>)
  next
    case agent
    show ?thesis
      by (rule inherited_belongs[where run = "nonempty (Some (ag_run a))" and found = "[]", OF _ assms(2)])
        (use agent in \<open>simp_all add: scope_goal_def scope_run_def nonempty_Some\<close>)
  qed
  with i(1) show ?thesis
    by blast
qed

lemma scope_matches_covers:
  "scope_matches (gr_stype r) (gr_scope r) st sid (trusted_ancestors w dd owner st sid) \<Longrightarrow> covers w dd owner st sid r"
  unfolding scope_matches_def covers_def
  using trusted_ancestors_belong[of w dd owner st sid "gr_stype r" _ "case gr_scope r of None \<Rightarrow> ''None'' | Some x \<Rightarrow> x"]
  by (cases "dget (trusted_ancestors w dd owner st sid) (gr_stype r)") auto

section \<open>Decisions\<close>

lemma try_grants_Some:
  "try_grants cv x fits gs = Inr (Some (i, r, why), whys) \<Longrightarrow> (i, r) \<in> set gs \<and> fits r \<and> conditions_match cv (gr_conditions r) x = Inr (True, why)"
  by (induction cv x fits gs arbitrary: whys rule: try_grants.induct) (auto split: if_splits sum.splits prod.splits)

lemma try_grants_None:
  "try_grants cv x fits gs = Inr (None, whys) \<Longrightarrow> (i, r) \<in> set gs \<Longrightarrow> fits r \<Longrightarrow> \<exists>why. conditions_match cv (gr_conditions r) x = Inr (False, why)"
proof (induction gs arbitrary: whys)
  case (Cons g gs)
  obtain j q where g: "g = (j, q)"
    by (cases g)
  show ?case
  proof (cases "fits q")
    case True
    with Cons.prems(1) obtain why whys' where "conditions_match cv (gr_conditions q) x = Inr (False, why)" "try_grants cv x fits gs = Inr (None, whys')"
      by (auto simp: g split: sum.splits prod.splits if_splits)
    then show ?thesis
      using Cons.IH[of whys'] Cons.prems(2,3) by (auto simp: g)
  qed (use Cons g in auto)
qed simp

text \<open>A grant of the owner for this principal that is neither revoked nor expired.\<close>

definition live_for :: "rat \<Rightarrow> string \<Rightarrow> auth_query \<Rightarrow> auth_db \<Rightarrow> string \<Rightarrow> grant_row \<Rightarrow> bool" where
  "live_for now owner q d i r \<longleftrightarrow> (i, r) \<in> set (au_grants d) \<and> gr_owner r = owner \<and> gr_ptype r = py_lower (aq_ptype q)
     \<and> gr_principal r = aq_principal q \<and> \<not> gr_revoked r \<and> (\<forall>t. gr_expires r = Some t \<longrightarrow> now < t)"

lemma live_grants_set: "(i, r) \<in> set (live_grants now owner (py_lower (aq_ptype q)) (aq_principal q) d) \<longleftrightarrow> live_for now owner q d i r"
  by (auto simp: live_grants_def live_for_def split: option.splits)

definition local_shortcut :: "bool \<Rightarrow> string \<Rightarrow> auth_query \<Rightarrow> bool" where
  "local_shortcut local_owner owner q \<longleftrightarrow> local_owner \<and> py_lower (aq_ptype q) = ''user'' \<and> aq_principal q = owner"

text \<open>A live grant that names the capability and covers the scope, whose conditions the request meets.\<close>

definition permits :: "conversions \<Rightarrow> work_table \<Rightarrow> db \<Rightarrow> rat \<Rightarrow> string \<Rightarrow> auth_query \<Rightarrow> auth_db \<Rightarrow> string \<Rightarrow> grant_row \<Rightarrow> bool" where
  "permits cv w dd now owner q d i r \<longleftrightarrow> live_for now owner q d i r \<and> capability_matches (gr_capability r) (py_strip (aq_capability q))
     \<and> scope_matches (gr_stype r) (gr_scope r) (py_lower (aq_stype q)) (aq_scope q)
         (trusted_ancestors w dd owner (py_lower (aq_stype q)) (aq_scope q))
     \<and> (\<exists>why. conditions_match cv (gr_conditions r) (aq_context q) = Inr (True, why))"

lemma decision_event_fields [simp]:
  "ae_outcome (decision_event now owner q cap out why i) = out" "ae_grant (decision_event now owner q cap out why i) = i"
  by (simp_all add: decision_event_def)

lemma authorize_cases:
  assumes "authorize cv w dd now local_owner owner q d = (Inr x, d')"
  obtains (shortcut) "local_shortcut local_owner owner q" "de_allowed x" "de_source x = ''local_owner''" "de_grant x = None"
      "de_constraints x = []" "d' = d"
  | (allowed) i r e where "\<not> local_shortcut local_owner owner q" "de_allowed x" "de_source x = ''grant''" "de_grant x = Some i"
      "de_constraints x = gr_conditions r" "permits cv w dd now owner q d i r" "d' = log_event e d" "ae_outcome e = ''allowed''" "ae_grant e = Some i"
  | (denied) e where "\<not> local_shortcut local_owner owner q" "\<not> de_allowed x" "de_grant x = None" "\<And>i r. \<not> permits cv w dd now owner q d i r"
      "d' = log_event e d" "ae_outcome e = ''denied''" "ae_grant e = None"
proof -
  let ?st = "py_lower (aq_stype q)"
  let ?rows = "live_grants now owner (py_lower (aq_ptype q)) (aq_principal q) d"
  let ?fits = "\<lambda>cap. fits_query cap ?st (aq_scope q) (trusted_ancestors w dd owner ?st (aq_scope q))"
  obtain cap where cap: "text_of 256 (aq_capability q) = Inr cap"
    using assms unfolding authorize_def Let_def by (auto simp: lift_sum_Inr)
  then have strip: "cap = py_strip (aq_capability q)"
    by (simp add: text_of_Inr)
  show thesis
  proof (cases "local_shortcut local_owner owner q")
    case True
    then show thesis
      using assms shortcut unfolding authorize_def Let_def local_shortcut_def
      by (auto simp: lift_sum_Inr require_Inr)
  next
    case False
    obtain g whys where found: "try_grants cv (aq_context q) (?fits cap) ?rows = Inr (g, whys)"
      using assms cap False unfolding authorize_def Let_def local_shortcut_def
      by (auto simp: lift_sum_Inr require_Inr atomically_Inr gets_Inr split: prod.splits)
    have run: "(case g of
           Some (i, r, why) \<Rightarrow> andthen (modify (log_event (decision_event now owner q cap ''allowed'' why (Some i))))
             (ret \<lparr>de_allowed = True, de_source = ''grant'', de_grant = Some i, de_reason = why,
               de_constraints = gr_conditions r, de_vetos = None\<rparr>)
         | None \<Rightarrow>
             let why = (if whys = [] then ''no matching active grant'' else join_reasons (sort (remdups whys))) in
             andthen (modify (log_event (decision_event now owner q cap ''denied'' why None)))
               (ret \<lparr>de_allowed = False, de_source = ''policy'', de_grant = None, de_reason = why,
                 de_constraints = [], de_vetos = None\<rparr>)) d = (Inr x, d')"
      using assms cap False found unfolding authorize_def Let_def local_shortcut_def
      by (auto simp: lift_sum_Inr require_Inr atomically_Inr gets_Inr)
    show thesis
    proof (cases g)
      case None
      have "\<not> permits cv w dd now owner q d i r" for i r
      proof
        assume p: "permits cv w dd now owner q d i r"
        have "\<exists>why. conditions_match cv (gr_conditions r) (aq_context q) = Inr (False, why)"
          using found p unfolding None
          by (intro try_grants_None[of cv "aq_context q" "?fits cap" ?rows whys i r]) (auto simp: permits_def live_grants_set fits_query_def strip)
        with p show False
          by (auto simp: permits_def)
      qed
      moreover from run None obtain why where "x = \<lparr>de_allowed = False, de_source = ''policy'', de_grant = None, de_reason = why,
          de_constraints = [], de_vetos = None\<rparr>" and "d' = log_event (decision_event now owner q cap ''denied'' why None) d"
        by (auto simp: Let_def)
      ultimately show thesis
        using False by (intro denied[of "decision_event now owner q cap ''denied'' why None"]) simp_all
    next
      case (Some irw)
      obtain i r why where irw: "irw = (i, r, why)"
        by (cases irw) auto
      have "permits cv w dd now owner q d i r"
        using try_grants_Some[OF found[unfolded Some irw]]
        by (auto simp: permits_def live_grants_set fits_query_def strip)
      moreover from run have "x = \<lparr>de_allowed = True, de_source = ''grant'', de_grant = Some i, de_reason = why,
          de_constraints = gr_conditions r, de_vetos = None\<rparr>" and "d' = log_event (decision_event now owner q cap ''allowed'' why (Some i)) d"
        by (simp_all add: Some irw)
      ultimately show thesis
        using False by (intro allowed[of i r "decision_event now owner q cap ''allowed'' why (Some i)"]) simp_all
    qed
  qed
qed

section \<open>An example\<close>

definition empty_auth :: auth_db where
  "empty_auth = \<lparr>au_grants = [], au_events = []\<rparr>"

text \<open>An agent with one grant, a work item in a goal, and the requests the witnesses make.\<close>

definition demo_conversions :: conversions where
  "demo_conversions = \<lparr>cv_float = (\<lambda>_. Unusable), cv_str = (\<lambda>_. []), cv_clean = (\<lambda>s. s)\<rparr>"

definition demo_db :: db where
  "demo_db = empty_db\<lparr>tb_goals := [(''g'', \<lparr>go_id = ''g'', go_run = ''run'', go_owner = ''op'', go_parent = None, go_external = None,
     go_objective = ''o'', go_criteria = [], go_constraints = [], go_priority = ''normal'', go_budget = [], go_deadline = None,
     go_state = ''ACTIVE'', go_created = 0, go_updated = 0, go_meta = []\<rparr>)]\<rparr>"

definition demo_work :: work_table where
  "demo_work = [(''w'', \<lparr>wr_owner = ''op'', wr_run = ''run'', wr_goal = Some ''g'', wr_parent = None\<rparr>)]"

definition demo_query :: auth_query where
  "demo_query = \<lparr>aq_ptype = ''agent'', aq_principal = ''bot'', aq_capability = ''file.read'', aq_stype = ''work_item'',
     aq_scope = Some ''w'', aq_context = \<lparr>cx_values = [], cx_cost = PlusInf, cx_permissions = []\<rparr>\<rparr>"

text \<open>A grant for the whole instance, and one for the goal.\<close>

definition demo_granted :: "(exn + grant_row) \<times> auth_db" where
  "demo_granted = add_grant 0 ''g1'' ''op'' ''agent'' ''bot'' ''file.*'' ''instance'' None None None empty_auth"

definition demo_goal_granted :: "(exn + grant_row) \<times> auth_db" where
  "demo_goal_granted = add_grant 0 ''g1'' ''op'' ''agent'' ''bot'' ''file.*'' ''goal'' (Some ''g'') None None empty_auth"

definition demo_revoked :: "(exn + grant_row) \<times> auth_db" where
  "demo_revoked = revoke_grant 1 ''g1'' ''op'' (snd demo_granted)"

definition demo_ask :: "auth_db \<Rightarrow> (exn + decision) \<times> auth_db" where
  "demo_ask = authorize demo_conversions demo_work demo_db 2 False ''op'' demo_query"

definition demo_veto :: veto where
  "demo_veto = (''opa'', (\<lambda>_. VetoSays \<lparr>vn_provider = ''opa'', vn_allowed = True, vn_reason = ''fine'', vn_revision = None, vn_decision = None\<rparr>))"

definition answered :: "exn + decision \<Rightarrow> (bool \<times> string option) option" where
  "answered r = (case r of Inl _ \<Rightarrow> None | Inr x \<Rightarrow> Some (de_allowed x, de_grant x))"

lemma answered_Some: "answered (fst m) = Some (a, g) \<Longrightarrow> \<exists>x. m = (Inr x, snd m) \<and> de_allowed x = a \<and> de_grant x = g"
  by (cases m) (auto simp: answered_def split: sum.splits)

lemma demo_answers:
  "answered (fst (demo_ask (snd demo_granted))) = Some (True, Some ''g1'')"
  "answered (fst (demo_ask (snd demo_revoked))) = Some (False, None)"
  "answered (fst (demo_ask (snd demo_goal_granted))) = Some (False, None)"
  "\<not> isl (fst demo_revoked)"
  "answered (fst (authorize_with_vetos demo_conversions demo_work demo_db 2 (\<lambda>d. d) demo_work demo_db 3 False ''op'' demo_query [demo_veto]
     (snd demo_granted))) = Some (True, Some ''g1'')"
  by code_simp+



section \<open>Revocation\<close>

text \<open>The calls of any process on the grants.\<close>

inductive auth_step :: "auth_db \<Rightarrow> auth_db \<Rightarrow> bool" where
  step_grant: "auth_step d (snd (add_grant now i owner ptype pid capability stype sid conditions ttl d))"
| step_revoke: "auth_step d (snd (revoke_grant now i owner d))"
| step_authorize: "auth_step d (snd (authorize cv w dd now local_owner owner q d))"

definition auth_reachable :: "auth_db \<Rightarrow> bool" where
  "auth_reachable d \<longleftrightarrow> auth_step\<^sup>*\<^sup>* empty_auth d"

lemma snd_then_info: "snd (andthen m (grant_info i owner) d) = snd (m d)"
  by (auto simp: andthen_run grant_info_def bnd_run require_def split: prod.split sum.split option.split)

lemma atomically_snd: "atomically m d = (r, t) \<Longrightarrow> t = d \<or> (\<exists>x. m d = (Inr x, t))"
  by (auto simp: atomically_def split: prod.splits sum.splits)

lemma add_grant_at:
  assumes "P d" and "\<And>r e. dget (au_grants d) i = None \<Longrightarrow> P (log_event e (insert_grant i r d))"
  shows "P (snd (add_grant now i owner ptype pid capability stype sid conditions ttl d))"
proof -
  have end_modify: "P (f s) \<Longrightarrow> P (snd (modify f s))" for f s
    by simp
  show ?thesis
    unfolding add_grant_def Let_def
    by (intro at_rules [where P = P] assms(1); subst snd_then_info; intro at_rules [where P = P] end_modify assms)
qed

lemma revoke_grant_at:
  assumes "P d" and "\<And>e. P (log_event e (d\<lparr>au_grants := upd_row i (\<lambda>r. r\<lparr>gr_revoked := True, gr_updated := now\<rparr>) (au_grants d)\<rparr>))"
  shows "P (snd (revoke_grant now i owner d))"
proof -
  have "snd (revoke_grant now i owner d) \<in> {d} \<union> range (\<lambda>e. log_event e (d\<lparr>au_grants := upd_row i (\<lambda>r. r\<lparr>gr_revoked := True, gr_updated := now\<rparr>) (au_grants d)\<rparr>))"
    unfolding revoke_grant_def snd_then_info
    by (auto simp: atomically_def bnd_run andthen_run grant_info_def require_def split: option.split)
  then show ?thesis
    using assms by auto
qed

lemma authorize_at:
  assumes "P d" and "\<And>e. P (log_event e d)"
  shows "P (snd (authorize cv w dd now local_owner owner q d))"
proof (cases "authorize cv w dd now local_owner owner q d")
  case (Pair r d')
  show ?thesis
  proof (cases r)
    case (Inl e)
    have "snd (authorize cv w dd now local_owner owner q d) = d"
      using Pair Inl unfolding authorize_def Let_def
      by (auto simp: bnd_run lift_sum_def andthen_run require_def atomically_def split: sum.splits if_splits prod.splits option.splits)
    then show ?thesis
      using assms(1) by simp
  next
    case (Inr x)
    with Pair have "authorize cv w dd now local_owner owner q d = (Inr x, d')"
      by simp
    then show ?thesis
      using assms Pair by (cases rule: authorize_cases) auto
  qed
qed

lemma log_event_grants [simp]: "au_grants (log_event e d) = au_grants d"
  by (simp add: log_event_def)

lemma insert_grant_grants [simp]: "au_grants (insert_grant i r d) = dset i r (au_grants d)"
  by (simp add: insert_grant_def)

lemma auth_step_dict_ok: "auth_step d d' \<Longrightarrow> dict_ok (au_grants d) \<Longrightarrow> dict_ok (au_grants d')"
  by (erule auth_step.cases; hypsubst)
    ((rule add_grant_at revoke_grant_at authorize_at; simp add: upd_row_def split: option.split)+)

definition is_revoked :: "auth_db \<Rightarrow> string \<Rightarrow> bool" where
  "is_revoked d i \<longleftrightarrow> (\<exists>r. dget (au_grants d) i = Some r \<and> gr_revoked r)"

lemma auth_step_revoked:
  assumes "auth_step d d'" and "is_revoked d i"
  shows "is_revoked d' i"
  using assms(1)
proof cases
  case (step_grant now j owner ptype pid capability stype sid conditions ttl)
  then show ?thesis
    using assms(2) by (simp only:) (rule add_grant_at; auto simp: is_revoked_def)
next
  case (step_revoke now j owner)
  then show ?thesis
    using assms(2) by (simp only:) (rule revoke_grant_at; auto simp: is_revoked_def)
next
  case (step_authorize cv w dd now local_owner owner q)
  then show ?thesis
    using assms(2) by (simp only:) (rule authorize_at; auto simp: is_revoked_def)
qed

lemma auth_steps_revoked: "auth_step\<^sup>*\<^sup>* d d' \<Longrightarrow> is_revoked d i \<Longrightarrow> is_revoked d' i"
  by (induction rule: rtranclp_induct) (auto intro: auth_step_revoked)

lemma auth_steps_dict_ok: "auth_step\<^sup>*\<^sup>* d d' \<Longrightarrow> dict_ok (au_grants d) \<Longrightarrow> dict_ok (au_grants d')"
  by (induction rule: rtranclp_induct) (auto intro: auth_step_dict_ok)

lemma auth_reachable_dict_ok: "auth_reachable d \<Longrightarrow> dict_ok (au_grants d)"
  using auth_steps_dict_ok[of empty_auth d] by (simp add: auth_reachable_def empty_auth_def)

lemma revoke_grant_revokes:
  assumes "revoke_grant now i owner d = (Inr r, d')"
  shows "is_revoked d' i"
  using assms unfolding revoke_grant_def
  by (auto simp: then_Inr bnd_Inr atomically_Inr grant_info_def gets_Inr require_done is_revoked_def split: option.splits)

text \<open>
  Revocation is final. Once a grant has been revoked, whatever calls follow, no decision rests
  on it again, with vetoes or without.
\<close>

theorem revoked_grants_never_authorize:
  assumes "auth_reachable d" and "revoke_grant now i owner d = (Inr r, d\<^sub>1)" and "auth_step\<^sup>*\<^sup>* d\<^sub>1 u"
    and "authorize cv w dd now' local_owner owner' q u = (Inr x, u')"
  shows "de_grant x \<noteq> Some i"
proof -
  have "auth_step\<^sup>*\<^sup>* d u"
    using assms(2,3) by (metis converse_rtranclp_into_rtranclp snd_conv step_revoke)
  then have ok: "dict_ok (au_grants u)"
    using auth_steps_dict_ok auth_reachable_dict_ok[OF assms(1)] by blast
  have "is_revoked u i"
    using auth_steps_revoked[OF assms(3)] revoke_grant_revokes[OF assms(2)] by blast
  then obtain r\<^sub>0 where row: "dget (au_grants u) i = Some r\<^sub>0" "gr_revoked r\<^sub>0"
    unfolding is_revoked_def by blast
  have dead: "\<not> permits cv w dd now' owner' q u i r'" for r'
    using row map_of_is_SomeI[OF ok, of i r'] unfolding permits_def live_for_def by auto
  show ?thesis
    using assms(4) by (cases rule: authorize_cases) (use dead in auto)
qed

theorem revoked_grants_never_authorize_witness:
  "\<exists>x u. demo_ask (snd demo_revoked) = (Inr x, u) \<and> de_grant x \<noteq> Some ''g1''"
proof -
  have reach: "auth_reachable (snd demo_granted)"
    unfolding auth_reachable_def demo_granted_def by (rule r_into_rtranclp) (rule step_grant)
  obtain r where run: "revoke_grant 1 ''g1'' ''op'' (snd demo_granted) = (Inr r, snd demo_revoked)"
    using demo_answers(4) unfolding demo_revoked_def by (metis isl_def obj_sumE prod.collapse)
  obtain x where x: "demo_ask (snd demo_revoked) = (Inr x, snd (demo_ask (snd demo_revoked)))"
    using answered_Some[OF demo_answers(2)] by blast
  have "de_grant x \<noteq> Some ''g1''"
    by (rule revoked_grants_never_authorize[OF reach run rtranclp.rtrancl_refl x[unfolded demo_ask_def]])
  with x show ?thesis
    by blast
qed

section \<open>Vetoes\<close>

lemma evaluate_vetos_passes:
  "evaluate_vetos cv rq core said vs = (True, src, why, said') \<Longrightarrow> (n, f) \<in> set vs \<Longrightarrow>
     \<exists>v. f rq = VetoSays v \<and> vn_provider v = n \<and> vn_allowed v"
  by (induction cv rq core said vs rule: evaluate_vetos.induct)
    (auto simp: Let_def split: veto_answer.splits if_splits)

text \<open>
  C28: Vetoes only take away. When a decision with vetoes allows, the grants alone allowed it, by the
  same grant with the same constraints; and if there are vetoes, every one answered under its own
  name that it allows, and the grants allowed it again, by the same grant with the same constraints,
  after the last veto had answered.
\<close>

theorem vetoes_only_deny:
  assumes "authorize_with_vetos cv w dd now meanwhile w' dd' now' local_owner owner q vs d = (Inr x, d\<^sub>2)" and "de_allowed x"
  shows "\<exists>y d\<^sub>1. authorize cv w dd now local_owner owner q d = (Inr y, d\<^sub>1) \<and> de_allowed y
     \<and> de_grant y = de_grant x \<and> de_constraints y = de_constraints x
     \<and> (vs = [] \<and> d\<^sub>2 = d\<^sub>1
        \<or> (\<exists>z rq. build_veto_request owner q = Inr rq
             \<and> (\<forall>n f. (n, f) \<in> set vs \<longrightarrow> (\<exists>v. f rq = VetoSays v \<and> vn_provider v = py_strip n \<and> vn_allowed v))
             \<and> authorize cv w' dd' now' local_owner owner q (meanwhile d\<^sub>1) = (Inr z, d\<^sub>2)
             \<and> de_allowed z \<and> de_grant z = de_grant x \<and> de_constraints z = de_constraints x))"
proof -
  obtain y d\<^sub>1 where y: "authorize cv w dd now local_owner owner q d = (Inr y, d\<^sub>1)"
    and rest: "(if \<not> de_allowed y \<or> vs = [] then ret (y\<lparr>de_vetos := Some []\<rparr>)
     else bnd (lift_sum (chain_of vs)) (\<lambda>chain.
       bnd (lift_sum (build_veto_request owner q)) (\<lambda>rq.
       case evaluate_vetos cv rq (de_reason y) [] chain of (ok, source, why, said) \<Rightarrow>
         if \<not> ok then ret (y\<lparr>de_allowed := False, de_source := source, de_reason := why, de_vetos := Some said\<rparr>)
         else andthen (modify meanwhile)
           (bnd (authorize cv w' dd' now' local_owner owner q) (\<lambda>z.
            if \<not> de_allowed z \<or> de_grant z \<noteq> de_grant y \<or> de_constraints z \<noteq> de_constraints y
            then ret (z\<lparr>de_allowed := False, de_source := ''core_pdp'', de_reason := ''core grant changed during veto admission'',
              de_vetos := Some said\<rparr>)
            else ret (y\<lparr>de_source := source, de_reason := why, de_vetos := Some said\<rparr>)))))) d\<^sub>1 = (Inr x, d\<^sub>2)"
    using assms(1) unfolding authorize_with_vetos_def bnd_Inr[where m = "authorize _ _ _ _ _ _ _"] by blast
  show ?thesis
  proof (cases "\<not> de_allowed y \<or> vs = []")
    case True
    with rest assms(2) have "x = y\<lparr>de_vetos := Some []\<rparr>" "d\<^sub>2 = d\<^sub>1" "de_allowed y" "vs = []"
      by auto
    then show ?thesis
      using y by auto
  next
    case False
    obtain chain rq where built: "chain_of vs = Inr chain" "build_veto_request owner q = Inr rq"
      using rest False by (cases "chain_of vs"; cases "build_veto_request owner q") (auto simp: lift_sum_def bnd_run)
    obtain ok src why said where ev: "evaluate_vetos cv rq (de_reason y) [] chain = (ok, src, why, said)"
      by (metis prod_cases4)
    note parts = built ev
    have ok
      using rest False parts assms(2) by (auto simp: lift_sum_def bnd_run split: if_splits)
    then obtain z where z: "authorize cv w' dd' now' local_owner owner q (meanwhile d\<^sub>1) = (Inr z, d\<^sub>2)"
      "de_allowed z" "de_grant z = de_grant y" "de_constraints z = de_constraints y" "x = y\<lparr>de_source := src, de_reason := why, de_vetos := Some said\<rparr>"
      using rest False parts assms(2)
      by (auto simp: lift_sum_def bnd_run split: if_splits prod.splits sum.splits)
    have says: "\<exists>v. f rq = VetoSays v \<and> vn_provider v = py_strip n \<and> vn_allowed v" if "(n, f) \<in> set vs" for n f
    proof -
      have "(py_strip n, f) \<in> set chain"
        using parts(1) that by (auto simp: chain_of_def scheck_Inr)
      then show ?thesis
        using evaluate_vetos_passes[of cv rq "de_reason y" "[]" chain src why said "py_strip n" f] parts(3) \<open>ok\<close> by simp
    qed
    show ?thesis
      using y z False says parts(2) by (intro exI[of _ y] exI[of _ d\<^sub>1]) auto
  qed
qed

theorem vetoes_only_deny_witness:
  "\<exists>x y d\<^sub>1. fst (authorize_with_vetos demo_conversions demo_work demo_db 2 (\<lambda>d. d) demo_work demo_db 3 False ''op'' demo_query [demo_veto]
       (snd demo_granted)) = Inr x \<and> demo_ask (snd demo_granted) = (Inr y, d\<^sub>1) \<and> de_allowed y \<and> de_grant y = de_grant x"
proof -
  obtain x d\<^sub>2 where x: "authorize_with_vetos demo_conversions demo_work demo_db 2 (\<lambda>d. d) demo_work demo_db 3 False ''op'' demo_query [demo_veto]
      (snd demo_granted) = (Inr x, d\<^sub>2)" "de_allowed x"
    using answered_Some[OF demo_answers(5)] by blast
  from vetoes_only_deny[OF this] x show ?thesis
    unfolding demo_ask_def by auto
qed

section \<open>A goal's own work items\<close>

text \<open>
  A grant for a goal does not reach the work items and agents attached to that goal: the
  inherited goals are the goal's ancestors without the goal itself, so a request for a work item or
  an agent of the goal is denied when every live grant of the principal is for this goal.
\<close>

theorem goal_grants_skip_their_own_items:
  assumes "authorize cv w dd now local_owner owner q d = (Inr x, d')" and "\<not> local_shortcut local_owner owner q"
    and "aq_scope q = Some i" and "py_lower (aq_stype q) \<in> {''work_item'', ''agent''}"
    and "scope_goal w dd owner (py_lower (aq_stype q)) i = Some g"
    and "\<forall>(j, r) \<in> set (au_grants d). live_for now owner q d j r \<longrightarrow> gr_stype r = ''goal'' \<and> gr_scope r = Some g"
  shows "\<not> de_allowed x"
  using assms(1)
proof (cases rule: authorize_cases)
  case (allowed j r e)
  then have live: "live_for now owner q d j r" and "scope_matches (gr_stype r) (gr_scope r) (py_lower (aq_stype q)) (aq_scope q)
         (trusted_ancestors w dd owner (py_lower (aq_stype q)) (aq_scope q))"
    by (simp_all add: permits_def)
  then have "covers w dd owner (py_lower (aq_stype q)) (aq_scope q) r"
    by (simp add: scope_matches_covers)
  moreover have "gr_stype r = ''goal''" "gr_scope r = Some g"
    using live assms(6) by (auto simp: live_for_def)
  ultimately show ?thesis
    using assms(3-5) by (auto simp: covers_def belongs_to_def)
qed (use assms(2) in auto)

theorem goal_grants_skip_their_own_items_witness:
  "\<exists>x d'. demo_ask (snd demo_goal_granted) = (Inr x, d') \<and> \<not> de_allowed x"
proof -
  obtain x where x: "demo_ask (snd demo_goal_granted) = (Inr x, snd (demo_ask (snd demo_goal_granted)))"
    using answered_Some[OF demo_answers(3)] by blast
  have "\<not> de_allowed x"
  proof (rule goal_grants_skip_their_own_items[OF x[unfolded demo_ask_def], where i = "''w''" and g = "''g''"])
    have "list_all (\<lambda>(j, r). gr_stype r = ''goal'' \<and> gr_scope r = Some ''g'') (au_grants (snd demo_goal_granted))"
      by code_simp
    then show "\<forall>(j, r) \<in> set (au_grants (snd demo_goal_granted)). live_for 2 ''op'' demo_query (snd demo_goal_granted) j r \<longrightarrow>
        gr_stype r = ''goal'' \<and> gr_scope r = Some ''g''"
      by (auto simp: list_all_iff)
  qed (simp add: local_shortcut_def demo_query_def, code_simp+)
  with x show ?thesis
    by blast
qed

end
