(* ===== verification/Work_Items.thy ===== *)
theory Work_Items
  imports Json_Values Durable_Records
begin

text \<open>
  Work items of the governance service (\<open>sentra_mcp/services/governance.py\<close>): their states, the
  policies of review and retry, checkout and execution by a run, failures and recovery, the quality
  gate and the stages of review. The durable runtime is read to see whether a run has ended. JSON
  columns of a fixed shape are records, a key that is absent being its default; a whole number is an
  int. Generated identifiers and the clock are arguments.
\<close>

section \<open>States\<close>

definition work_transitions :: "(string, string list) dict" where
  "work_transitions = [
    (''PENDING'', [''QUEUED'', ''RUNNING'', ''BLOCKED'', ''CANCELLED'']),
    (''QUEUED'', [''RUNNING'', ''BLOCKED'', ''FAILED'', ''CANCELLED'']),
    (''RUNNING'', [''VALIDATING'', ''REPAIRING'', ''RECOVERING'', ''BLOCKED'', ''FAILED'', ''CANCELLED'']),
    (''VALIDATING'', [''REPAIRING'', ''IN_REVIEW'', ''APPROVAL_REQUIRED'', ''READY_FOR_PROMOTION'', ''FAILED'', ''CANCELLED'']),
    (''REPAIRING'', [''RUNNING'', ''VALIDATING'', ''BLOCKED'', ''FAILED'', ''CANCELLED'']),
    (''IN_REVIEW'', [''CHANGES_REQUESTED'', ''APPROVAL_REQUIRED'', ''READY_FOR_PROMOTION'', ''FAILED'', ''CANCELLED'']),
    (''APPROVAL_REQUIRED'', [''CHANGES_REQUESTED'', ''READY_FOR_PROMOTION'', ''FAILED'', ''CANCELLED'']),
    (''CHANGES_REQUESTED'', [''RUNNING'', ''VALIDATING'', ''CANCELLED'']),
    (''READY_FOR_PROMOTION'', [''COMPLETED'', ''REPAIRING'', ''FAILED'', ''CANCELLED'']),
    (''RECOVERING'', [''QUEUED'', ''RUNNING'', ''BLOCKED'', ''FAILED'', ''CANCELLED'']),
    (''BLOCKED'', [''QUEUED'', ''RUNNING'', ''RECOVERING'', ''FAILED'', ''CANCELLED'']),
    (''COMPLETED'', []), (''FAILED'', []), (''CANCELLED'', [])]"

definition work_states :: "string list" where
  "work_states = [''PENDING'', ''QUEUED'', ''RUNNING'', ''VALIDATING'', ''REPAIRING'', ''IN_REVIEW'', ''APPROVAL_REQUIRED'',
     ''CHANGES_REQUESTED'', ''READY_FOR_PROMOTION'', ''RECOVERING'', ''BLOCKED'', ''COMPLETED'', ''FAILED'', ''CANCELLED'']"

definition terminal_work_states :: "string list" where
  "terminal_work_states = [''COMPLETED'', ''FAILED'', ''CANCELLED'']"

definition recovery_capabilities :: "(string, string list) dict" where
  "recovery_capabilities = [
    (''OBSERVE_ONLY'', [''read'']),
    (''STATUS_REPAIR'', [''read'', ''status'']),
    (''RESOURCE_CLEANUP'', [''cleanup'', ''read'', ''status'']),
    (''CONVERSATION_REATTACH'', [''chat_rebind'', ''read'', ''status'']),
    (''SOURCE_CONTINUATION'', [''chat_rebind'', ''read'', ''source_write'', ''status'']),
    (''SIDE_EFFECT_RETRY'', [''chat_rebind'', ''read'', ''side_effect'', ''source_write'', ''status''])]"

section \<open>Policies\<close>

record review_stage =
  sg_id :: string
  sg_type :: string
  sg_agent :: "string option"
  sg_user :: "string option"
  sg_any :: bool

record exec_policy =
  ep_stages :: "review_stage list"
  ep_gate :: bool

record retry_policy =
  rp_attempts :: int
  rp_exhausted :: string
  rp_replay :: string
  rp_classes :: "string list"

definition read_stage :: "conversions \<Rightarrow> string list \<Rightarrow> json \<Rightarrow> exn + review_stage" where
  "read_stage cv seen raw = (case raw of
      JObj kvs \<Rightarrow>
        sbind (text_of 128 (or_empty cv (dget kvs ''id''))) (\<lambda>i.
        scheck (i \<notin> set seen) (ValueError ''execution policy stage ids must be unique'')
        (let t = py_lower (or_empty cv (dget kvs ''type'')) in
         scheck (t \<in> {''review'', ''approval''}) (ValueError ''execution policy stage type must be review or approval'')
         (sbind (opt_text 128 (or_empty cv (dget kvs ''actor_agent_id''))) (\<lambda>a.
          sbind (opt_text 256 (or_empty cv (dget kvs ''actor_user_id''))) (\<lambda>u.
          Inr \<lparr>sg_id = i, sg_type = t, sg_agent = nonempty (Some a), sg_user = nonempty (Some u),
            sg_any = json_truth (dget kvs ''allow_any_authorized'')\<rparr>)))))
    | _ \<Rightarrow> Inl (ValueError ''execution policy stage must be an object''))"

fun read_stages :: "conversions \<Rightarrow> review_stage list \<Rightarrow> json list \<Rightarrow> exn + review_stage list" where
  "read_stages cv done' [] = Inr done'"
| "read_stages cv done' (x # xs) = sbind (read_stage cv (map sg_id done') x) (\<lambda>s. read_stages cv (done' @ [s]) xs)"

definition read_exec_policy :: "conversions \<Rightarrow> jobj option \<Rightarrow> exn + exec_policy" where
  "read_exec_policy cv v = (let p = (case v of None \<Rightarrow> [] | Some d \<Rightarrow> d); raw = dget p ''stages'' in
     sbind (if \<not> json_truth raw then Inr [] else case raw of
              Some (JList xs) \<Rightarrow> scheck (length xs \<le> 20) (ValueError ''execution_policy.stages must be a list of at most 20 stages'') (Inr xs)
            | _ \<Rightarrow> Inl (ValueError ''execution_policy.stages must be a list of at most 20 stages'')) (\<lambda>xs.
     sbind (read_stages cv [] xs) (\<lambda>ss.
     case dget p ''require_quality_gate'' of
       None \<Rightarrow> Inr \<lparr>ep_stages = ss, ep_gate = True\<rparr>
     | Some (JBool b) \<Rightarrow> Inr \<lparr>ep_stages = ss, ep_gate = b\<rparr>
     | _ \<Rightarrow> Inl (ValueError ''execution_policy.require_quality_gate must be boolean''))))"

text \<open>The normalised policy as it is stored.\<close>

definition stage_json :: "review_stage \<Rightarrow> json" where
  "stage_json s = JObj [(''id'', JStr (sg_id s)), (''type'', JStr (sg_type s)), (''actor_agent_id'', jopt (sg_agent s)),
     (''actor_user_id'', jopt (sg_user s)), (''allow_any_authorized'', JBool (sg_any s))]"

definition policy_json :: "exec_policy \<Rightarrow> jobj" where
  "policy_json p = [(''stages'', JList (map stage_json (ep_stages p))), (''require_quality_gate'', JBool (ep_gate p))]"

definition read_retry_policy :: "conversions \<Rightarrow> jobj option \<Rightarrow> exn + retry_policy" where
  "read_retry_policy cv v = (let p = (case v of None \<Rightarrow> [] | Some d \<Rightarrow> d);
       get = (\<lambda>k default. case dget p k of None \<Rightarrow> Some default | Some j \<Rightarrow> Some j) in
     case get ''max_attempts'' (JNum 3) of
       Some (JNum q) \<Rightarrow>
         scheck (q = of_int \<lfloor>q\<rfloor> \<and> 0 \<le> q \<and> q \<le> 100) (ValueError ''retry_policy.max_attempts must be 0..100'')
         (let exhausted = py_upper (or_empty cv (get ''exhausted_action'' (JStr ''REQUIRE_OPERATOR'')));
              replay = py_upper (or_empty cv (get ''side_effect_replay_policy'' (JStr ''RECONCILE_FIRST''))) in
          scheck (exhausted \<in> {''BLOCK'', ''ESCALATE'', ''RECONCILE'', ''NEW_WORK_ITEM'', ''REQUIRE_OPERATOR''})
            (ValueError ''invalid retry_policy.exhausted_action'')
          (scheck (replay \<in> {''NEVER'', ''RECONCILE_FIRST'', ''SAFE_ONLY''}) (ValueError ''invalid retry_policy.side_effect_replay_policy'')
          (sbind (case get ''retryable_error_classes'' (JList [JStr ''dependency'', JStr ''transport'', JStr ''rate_limit'']) of
              Some JNull \<Rightarrow> Inr []
            | Some (JList xs) \<Rightarrow> strings_of (Some (map (\<lambda>j. or_empty cv (Some j)) xs))
            | _ \<Rightarrow> Inl (ValueError ''must contain at most 1000 strings'')) (\<lambda>cs.
           Inr \<lparr>rp_attempts = \<lfloor>q\<rfloor>, rp_exhausted = exhausted, rp_replay = replay, rp_classes = cs\<rparr>))))
     | _ \<Rightarrow> Inl (ValueError ''retry_policy.max_attempts must be 0..100''))"

section \<open>State\<close>

record gate =
  qg_passed :: bool
  qg_status :: string
  qg_reason :: string
  qg_evidence :: "string list"
  qg_revision :: "string option"
  qg_meta :: jobj
  qg_at :: rat
  qg_invalidated :: "(rat \<times> string) option"

record exec_state =
  es_index :: nat
  es_stage :: "(string \<times> string) option"
  es_status :: "string option"
  es_completed :: "string list"
  es_return :: "string option"
  es_evidence :: "string list"
  es_gate :: "gate option"

definition fresh_exec :: exec_state where
  "fresh_exec = \<lparr>es_index = 0, es_stage = None, es_status = None, es_completed = [], es_return = None, es_evidence = [], es_gate = None\<rparr>"

record work_item =
  wi_owner :: string
  wi_run :: string
  wi_goal :: "string option"
  wi_external :: "string option"
  wi_parent :: "string option"
  wi_objective :: string
  wi_criteria :: "string list"
  wi_blockers :: "string list"
  wi_dependencies :: "string list"
  wi_agent :: "string option"
  wi_user :: "string option"
  wi_required :: "string list"
  wi_files :: "string list"
  wi_resources :: "string list"
  wi_scope :: string
  wi_policy :: exec_policy
  wi_exec :: exec_state
  wi_retry :: retry_policy
  wi_recovery :: "string option"
  wi_state :: string
  wi_checkout :: "string option"
  wi_execution :: "string option"
  wi_retries :: int
  wi_chain :: "string option"
  wi_budget :: jobj
  wi_meta :: jobj
  wi_created :: rat
  wi_updated :: rat

record work_event =
  we_owner :: string
  we_item :: string
  we_type :: string
  we_payload :: jobj
  we_at :: rat

record review_decision =
  rd_id :: string
  rd_owner :: string
  rd_item :: string
  rd_stage :: string
  rd_type :: string
  rd_actor_type :: string
  rd_actor :: string
  rd_decision :: string
  rd_comment :: string
  rd_evidence :: "string list"
  rd_at :: rat

record activity =
  av_owner :: string
  av_action :: string
  av_outcome :: string
  av_actor_type :: string
  av_actor :: string
  av_item :: "string option"
  av_run :: "string option"
  av_goal :: "string option"
  av_agent :: "string option"
  av_payload :: jobj
  av_at :: rat

record gov =
  gv_items :: "(string, work_item) dict"
  gv_events :: "work_event list"
  gv_decisions :: "review_decision list"
  gv_activity :: "activity list"

definition empty_gov :: gov where
  "empty_gov = \<lparr>gv_items = [], gv_events = [], gv_decisions = [], gv_activity = []\<rparr>"

definition set_item :: "string \<Rightarrow> work_item \<Rightarrow> gov \<Rightarrow> gov" where
  "set_item i w g = g\<lparr>gv_items := dset i w (gv_items g)\<rparr>"

definition append_work_event :: "rat \<Rightarrow> string \<Rightarrow> string \<Rightarrow> string \<Rightarrow> jobj \<Rightarrow> gov \<Rightarrow> gov" where
  "append_work_event now owner i t payload g = g\<lparr>gv_events := gv_events g @
     [\<lparr>we_owner = owner, we_item = i, we_type = t, we_payload = payload, we_at = now\<rparr>]\<rparr>"

text \<open>An entry of the activity log of the system, and the call that appends one.\<close>

definition system_activity :: "rat \<Rightarrow> string \<Rightarrow> string \<Rightarrow> string \<Rightarrow> string \<Rightarrow> activity" where
  "system_activity now owner action outcome i = \<lparr>av_owner = owner, av_action = action, av_outcome = outcome, av_actor_type = ''system'',
     av_actor = [], av_item = Some i, av_run = None, av_goal = None, av_agent = None, av_payload = [], av_at = now\<rparr>"

definition log_activity :: "activity \<Rightarrow> (gov, unit) sx" where
  "log_activity a =
     bnd (lift_sum (text_of 80 (av_actor_type a))) (\<lambda>t.
     bnd (lift_sum (opt_text 256 (av_actor a))) (\<lambda>n.
     bnd (lift_sum (text_of 160 (av_action a))) (\<lambda>x.
     bnd (lift_sum (text_of 80 (av_outcome a))) (\<lambda>y.
       modify (\<lambda>g. g\<lparr>gv_activity := gv_activity g @ [a\<lparr>av_actor_type := t, av_actor := n, av_action := x, av_outcome := y\<rparr>]\<rparr>)))))"

definition item_info :: "string \<Rightarrow> string \<Rightarrow> (gov, work_item) sx" where
  "item_info i owner = bnd (gets (\<lambda>g. dget (gv_items g) i)) (\<lambda>row. case row of
      None \<Rightarrow> throw (FileNotFound ''work item not found'')
    | Some w \<Rightarrow> andthen (require (wi_owner w = owner) (FileNotFound ''work item not found'')) (ret w))"

section \<open>Creation\<close>

record item_input =
  ii_objective :: string
  ii_goal :: "string option"
  ii_external :: "string option"
  ii_parent :: "string option"
  ii_criteria :: "string list option"
  ii_blockers :: "string list option"
  ii_dependencies :: "string list option"
  ii_agent :: "string option"
  ii_user :: "string option"
  ii_required :: "string list option"
  ii_files :: "string list option"
  ii_resources :: "string list option"
  ii_scope :: string
  ii_policy :: "jobj option"
  ii_retry :: "jobj option"
  ii_budget :: "jobj option"
  ii_meta :: "jobj option"
  ii_id :: "string option"

definition object_of :: "jobj option \<Rightarrow> jobj" where
  "object_of v = (case v of None \<Rightarrow> [] | Some d \<Rightarrow> d)"

definition new_item ::
  "rat \<Rightarrow> string \<Rightarrow> string \<Rightarrow> exec_policy \<Rightarrow> retry_policy \<Rightarrow> item_input \<Rightarrow> exn + work_item" where
  "new_item now owner run ep rp x =
     sbind (text_of 100000 (ii_objective x)) (\<lambda>objective.
     sbind (strings_of (ii_criteria x)) (\<lambda>criteria.
     sbind (strings_of (ii_blockers x)) (\<lambda>blockers.
     sbind (strings_of (ii_dependencies x)) (\<lambda>deps.
     sbind (strings_of (ii_required x)) (\<lambda>req.
     sbind (strings_of (ii_files x)) (\<lambda>files.
     sbind (strings_of (ii_resources x)) (\<lambda>locks.
     sbind (text_of 80 (ii_scope x)) (\<lambda>scope.
       Inr \<lparr>wi_owner = owner, wi_run = run, wi_goal = ii_goal x, wi_external = ii_external x, wi_parent = ii_parent x,
         wi_objective = objective, wi_criteria = criteria, wi_blockers = blockers, wi_dependencies = deps, wi_agent = ii_agent x,
         wi_user = ii_user x, wi_required = req, wi_files = files, wi_resources = locks, wi_scope = scope, wi_policy = ep,
         wi_exec = fresh_exec, wi_retry = rp, wi_recovery = None, wi_state = ''PENDING'', wi_checkout = None, wi_execution = None,
         wi_retries = 0, wi_chain = None, wi_budget = object_of (ii_budget x), wi_meta = object_of (ii_meta x),
         wi_created = now, wi_updated = now\<rparr>))))))))"

definition item_by_key :: "string \<Rightarrow> string \<Rightarrow> gov \<Rightarrow> (string \<times> work_item) option" where
  "item_by_key owner key g = List.find (\<lambda>(i, w). wi_owner w = owner \<and> wi_external w = Some key) (gv_items g)"

text \<open>The row exists, or another row of the owner has the external key: the insertion violates a constraint.\<close>

definition item_taken :: "string \<Rightarrow> work_item \<Rightarrow> gov \<Rightarrow> bool" where
  "item_taken i w g \<longleftrightarrow> dget (gv_items g) i \<noteq> None
     \<or> (case wi_external w of None \<Rightarrow> False | Some k \<Rightarrow> item_by_key (wi_owner w) k g \<noteq> None)"

text \<open>Whether the item is new, its identifier and its row.\<close>

definition insert_item :: "rat \<Rightarrow> string \<Rightarrow> string \<Rightarrow> string \<Rightarrow> exec_policy \<Rightarrow> retry_policy \<Rightarrow> item_input \<Rightarrow>
    (gov, bool \<times> string \<times> work_item) sx" where
  "insert_item now i owner run ep rp x = atomically
     (bnd (gets (\<lambda>g. case nonempty (ii_parent x) of None \<Rightarrow> True
          | Some p \<Rightarrow> (case dget (gv_items g) p of None \<Rightarrow> False | Some w \<Rightarrow> wi_owner w = owner \<and> wi_run w = run))) (\<lambda>parent_ok.
      andthen (require parent_ok (ValueError ''parent work item must belong to the same owner/run''))
      (bnd (lift_sum (new_item now owner run ep rp x)) (\<lambda>w.
       bnd (gets (item_taken i w)) (\<lambda>taken.
       if taken then
         (case nonempty (ii_external x) of
            None \<Rightarrow> throw IntegrityError
          | Some k \<Rightarrow> bnd (gets (item_by_key owner k)) (\<lambda>old. case old of
                None \<Rightarrow> throw IntegrityError
              | Some (j, w') \<Rightarrow> ret (False, j, w')))
       else andthen (modify (set_item i w))
         (andthen (modify (append_work_event now owner i ''WORK_ITEM_CREATED'' [(''state'', JStr ''PENDING'')])) (ret (True, i, w))))))))"

definition create_work_item ::
  "conversions \<Rightarrow> rat \<Rightarrow> string \<Rightarrow> string \<Rightarrow> string \<Rightarrow> item_input \<Rightarrow> (gov, string \<times> work_item) sx" where
  "create_work_item cv now generated run owner x =
     bnd (lift_sum (text_of 128 (case nonempty (ii_id x) of None \<Rightarrow> generated | Some i \<Rightarrow> i))) (\<lambda>i.
     bnd (lift_sum (read_exec_policy cv (ii_policy x))) (\<lambda>ep.
     bnd (lift_sum (read_retry_policy cv (ii_retry x))) (\<lambda>rp.
     bnd (insert_item now i owner run ep rp x) (\<lambda>(fresh, j, w).
     if fresh then
       andthen (log_activity ((system_activity now owner ''work_item.create'' ''ok'' i)\<lparr>av_run := Some run, av_goal := ii_goal x,
           av_agent := ii_agent x\<rparr>))
         (bnd (item_info i owner) (\<lambda>w. ret (i, w)))
     else ret (j, w)))))"

section \<open>Transitions\<close>

definition gate_ok :: "exec_policy \<Rightarrow> exec_state \<Rightarrow> bool" where
  "gate_ok p e \<longleftrightarrow> \<not> ep_gate p \<or> (case es_gate e of None \<Rightarrow> False | Some q \<Rightarrow> qg_status q = ''passed'' \<and> qg_passed q)"

definition stale_gate :: "rat \<Rightarrow> string \<Rightarrow> exec_state \<Rightarrow> exec_state" where
  "stale_gate now why e = e\<lparr>es_gate := map_option (\<lambda>q. q\<lparr>qg_passed := False, qg_status := ''stale'',
     qg_invalidated := Some (now, why)\<rparr>) (es_gate e)\<rparr>"

definition arrow :: "string \<Rightarrow> string \<Rightarrow> string" where
  "arrow a b = a @ ''->'' @ b"

definition transition_work_item ::
  "rat \<Rightarrow> string \<Rightarrow> string \<Rightarrow> string \<Rightarrow> string \<Rightarrow> jobj option \<Rightarrow> (gov, work_item) sx" where
  "transition_work_item now i owner state reason extra =
     (let target = py_upper state in
      andthen (require (target \<in> set work_states) (ValueError ''invalid work item state''))
      (bnd (atomically (bnd (item_info i owner) (\<lambda>w.
          let current = wi_state w in
          andthen (require (\<not> (current = ''RECOVERING'' \<and> target \<in> {''QUEUED'', ''RUNNING''}))
            (GovernanceConflict ''recovery handoff must use complete_recovery before normal execution resumes''))
          (andthen (require (target = current \<or> target \<in> set (row_of work_transitions current))
            (GovernanceConflict ''invalid work item transition''))
          (andthen (require (target \<in> {''IN_REVIEW'', ''APPROVAL_REQUIRED'', ''READY_FOR_PROMOTION''} \<longrightarrow> gate_ok (wi_policy w) (wi_exec w))
            (GovernanceConflict ''deterministic Quality Gate must pass before review, approval or promotion''))
          (andthen (modify (set_item i (w\<lparr>wi_state := target, wi_meta := dupdate (wi_meta w) (object_of extra),
              wi_exec := (if target \<in> {''RUNNING'', ''REPAIRING''} \<and> target \<noteq> current then stale_gate now (arrow current target) (wi_exec w)
                else wi_exec w), wi_updated := now\<rparr>)))
          (bnd (lift_sum (opt_text 4000 reason)) (\<lambda>why.
           andthen (modify (append_work_event now owner i ''WORK_ITEM_STATE_CHANGED''
              [(''from'', JStr current), (''to'', JStr target), (''reason'', JStr why)])) (ret w))))))))) (\<lambda>w.
       andthen (log_activity ((system_activity now owner ''work_item.transition'' ''ok'' i)\<lparr>av_run := Some (wi_run w),
           av_payload := [(''from'', JStr (wi_state w)), (''to'', JStr target), (''reason'', JStr reason)]\<rparr>))
         (item_info i owner))))"

section \<open>Checkout and execution\<close>

text \<open>
  \<open>_run_terminal\<close>: \<open>None\<close> for a service without the durable runtime. The error of a run of another
  owner goes through.
\<close>

definition run_terminal :: "db option \<Rightarrow> string \<Rightarrow> string \<Rightarrow> exn + bool" where
  "run_terminal durable run owner = (if run = [] then Inr True else case durable of
      None \<Rightarrow> Inr False
    | Some dd \<Rightarrow> (case fst (fetch_run_row run (Some owner) dd) of
        Inl (FileNotFound _) \<Rightarrow> Inr True
      | Inl e \<Rightarrow> Inl e
      | Inr r \<Rightarrow> Inr (ru_state r \<in> {''SUCCEEDED'', ''FAILED'', ''CANCELLED''})))"

definition stale_lock :: "db option \<Rightarrow> string \<Rightarrow> string option \<Rightarrow> exn + bool" where
  "stale_lock durable owner lk = (case nonempty lk of None \<Rightarrow> Inr False | Some run \<Rightarrow> run_terminal durable run owner)"

definition lock_cleared :: "rat \<Rightarrow> string \<Rightarrow> string \<Rightarrow> string \<Rightarrow> string option \<Rightarrow> gov \<Rightarrow> gov" where
  "lock_cleared now owner i column run = append_work_event now owner i ''STALE_WORK_LOCK_CLEARED'' [(''column'', JStr column), (''run_id'', jopt run)]"

definition heal_checkout :: "db option \<Rightarrow> rat \<Rightarrow> string \<Rightarrow> string \<Rightarrow> work_item \<Rightarrow> (gov, work_item) sx" where
  "heal_checkout durable now i owner w = bnd (lift_sum (stale_lock durable owner (wi_checkout w))) (\<lambda>stale.
     if stale then let w' = w\<lparr>wi_checkout := None, wi_updated := now\<rparr> in
       andthen (modify (set_item i w')) (andthen (modify (lock_cleared now owner i ''checkout_run_id'' (wi_checkout w))) (ret w'))
     else ret w)"

definition heal_execution :: "db option \<Rightarrow> rat \<Rightarrow> string \<Rightarrow> string \<Rightarrow> work_item \<Rightarrow> (gov, work_item) sx" where
  "heal_execution durable now i owner w = bnd (lift_sum (stale_lock durable owner (wi_execution w))) (\<lambda>stale.
     if stale then let w' = w\<lparr>wi_execution := None, wi_updated := now\<rparr> in
       andthen (modify (set_item i w')) (andthen (modify (lock_cleared now owner i ''execution_run_id'' (wi_execution w))) (ret w'))
     else ret w)"

definition lock_free :: "string option \<Rightarrow> string \<Rightarrow> bool" where
  "lock_free lk run \<longleftrightarrow> (case nonempty lk of None \<Rightarrow> True | Some r \<Rightarrow> r = run)"

definition checkout :: "db option \<Rightarrow> rat \<Rightarrow> string \<Rightarrow> string \<Rightarrow> string \<Rightarrow> string option \<Rightarrow> (gov, work_item) sx" where
  "checkout durable now i owner run agent =
     andthen (atomically (bnd (item_info i owner) (\<lambda>w\<^sub>0.
        bnd (heal_checkout durable now i owner w\<^sub>0) (\<lambda>w.
        andthen (require (lock_free (wi_checkout w) run) (GovernanceConflict ''work item is checked out by live run''))
        (andthen (modify (set_item i (w\<lparr>wi_checkout := Some run, wi_agent := coalesce agent (wi_agent w), wi_updated := now\<rparr>)))
          (modify (append_work_event now owner i ''WORK_ITEM_CHECKED_OUT'' [(''run_id'', JStr run), (''agent_id'', jopt agent)])))))))
     (andthen (log_activity ((system_activity now owner ''work_item.checkout'' ''ok'' i)\<lparr>av_run := Some run, av_agent := agent\<rparr>))
       (item_info i owner))"

definition dependencies_done :: "string \<Rightarrow> string list \<Rightarrow> gov \<Rightarrow> bool" where
  "dependencies_done owner deps g \<longleftrightarrow> list_all (\<lambda>j. case dget (gv_items g) j of None \<Rightarrow> False
     | Some v \<Rightarrow> wi_owner v = owner \<and> wi_state v = ''COMPLETED'') deps"

definition start_execution ::
  "db option \<Rightarrow> rat \<Rightarrow> string \<Rightarrow> string \<Rightarrow> string \<Rightarrow> string option \<Rightarrow> string option \<Rightarrow> (gov, work_item) sx" where
  "start_execution durable now i owner run agent expected =
     andthen (atomically (bnd (item_info i owner) (\<lambda>w\<^sub>0.
        andthen (require (case expected of None \<Rightarrow> True | Some e \<Rightarrow> wi_state w\<^sub>0 = e \<and> wi_blockers w\<^sub>0 = [])
          (GovernanceConflict ''work item admission state changed or is blocked''))
        (andthen (require (wi_state w\<^sub>0 \<noteq> ''RECOVERING'') (GovernanceConflict ''complete recovery handoff before normal execution resumes''))
        (andthen (require (wi_run w\<^sub>0 = run \<and> wi_state w\<^sub>0 \<in> {''PENDING'', ''QUEUED'', ''RUNNING''} \<and> wi_blockers w\<^sub>0 = [])
          (GovernanceConflict ''work item cannot execute in this run/state''))
        (andthen (require (case nonempty agent of None \<Rightarrow> True | Some a \<Rightarrow> wi_agent w\<^sub>0 = None \<or> wi_agent w\<^sub>0 = Some a)
          (GovernanceConflict ''explicit transactional reassign required before execution''))
        (bnd (gets (dependencies_done owner (wi_dependencies w\<^sub>0))) (\<lambda>ready.
        andthen (require ready (GovernanceConflict ''work item dependency is not completed''))
        (bnd (heal_execution durable now i owner w\<^sub>0) (\<lambda>w.
        andthen (require (lock_free (wi_execution w) run) (GovernanceConflict ''work item execution is owned by live run''))
        (bnd (lift_sum (if lock_free (wi_checkout w) run then Inr True else stale_lock durable owner (wi_checkout w))) (\<lambda>ok.
        andthen (require ok (GovernanceConflict ''checkout belongs to different live run''))
        (andthen (modify (set_item i (w\<lparr>wi_checkout := Some run, wi_execution := Some run, wi_agent := coalesce agent (wi_agent w),
            wi_state := ''RUNNING'', wi_exec := stale_gate now (arrow (wi_state w) ''RUNNING'') (wi_exec w), wi_updated := now\<rparr>)))
          (modify (append_work_event now owner i ''WORK_ITEM_EXECUTION_STARTED'' [(''run_id'', JStr run), (''agent_id'', jopt agent)])))))))))))))))
     (andthen (log_activity ((system_activity now owner ''work_item.execution.start'' ''ok'' i)\<lparr>av_run := Some run, av_agent := agent\<rparr>))
       (item_info i owner))"

definition cleared_by :: "work_item \<Rightarrow> string \<Rightarrow> string list" where
  "cleared_by w run = (if wi_checkout w = Some run then [''checkout_run_id''] else [])
     @ (if wi_execution w = Some run then [''execution_run_id''] else [])"

definition release_run_locks :: "rat \<Rightarrow> string \<Rightarrow> string \<Rightarrow> string \<Rightarrow> (gov, work_item \<times> string list) sx" where
  "release_run_locks now i owner run =
     bnd (atomically (bnd (item_info i owner) (\<lambda>w.
        let cleared = cleared_by w run in
        andthen (modify (set_item i (if cleared = [] then w else
          w\<lparr>wi_checkout := (if wi_checkout w = Some run then None else wi_checkout w),
            wi_execution := (if wi_execution w = Some run then None else wi_execution w), wi_updated := now\<rparr>)))
        (andthen (modify (append_work_event now owner i ''WORK_ITEM_LOCKS_RELEASED''
            [(''run_id'', JStr run), (''cleared'', JList (map JStr cleared))]))
          (ret cleared))))) (\<lambda>cleared.
     andthen (log_activity ((system_activity now owner ''work_item.locks.release'' ''ok'' i)\<lparr>av_run := Some run,
         av_payload := [(''cleared'', JList (map JStr cleared))]\<rparr>))
       (bnd (item_info i owner) (\<lambda>w. ret (w, cleared))))"

definition reassign_work_item :: "rat \<Rightarrow> string \<Rightarrow> string \<Rightarrow> string \<Rightarrow> string option \<Rightarrow> (gov, work_item) sx" where
  "reassign_work_item now i owner agent expected =
     bnd (lift_sum (text_of 128 agent)) (\<lambda>a.
     bnd (atomically (bnd (item_info i owner) (\<lambda>w.
        andthen (require (wi_state w \<in> {''PENDING'', ''QUEUED'', ''BLOCKED''} \<and> nonempty (wi_execution w) = None \<and> nonempty (wi_checkout w) = None)
          (GovernanceConflict ''active or checked-out work cannot be reassigned''))
        (andthen (require (case expected of None \<Rightarrow> True | Some e \<Rightarrow> wi_agent w = Some e) (GovernanceConflict ''work item assignee changed''))
        (andthen (modify (set_item i (w\<lparr>wi_agent := Some a, wi_user := None, wi_updated := now\<rparr>)))
        (andthen (modify (append_work_event now owner i ''WORK_ITEM_REASSIGNED''
            [(''previous_agent_id'', jopt (wi_agent w)), (''agent_id'', JStr a), (''grant_created'', JBool False)]))
          (ret w))))))) (\<lambda>w.
     andthen (log_activity ((system_activity now owner ''work_item.reassign'' ''ok'' i)\<lparr>av_run := Some (wi_run w), av_agent := Some a\<rparr>))
       (item_info i owner)))"

section \<open>Failure and recovery\<close>

text \<open>What a failure leads to, from the policy, the class of the error and the number of this attempt.\<close>

definition next_action :: "retry_policy \<Rightarrow> string \<Rightarrow> bool \<Rightarrow> int \<Rightarrow> string" where
  "next_action p cls effect count =
     (let retryable = cls \<in> set (rp_classes p) \<and> \<not> (effect \<and> rp_replay p = ''NEVER'') in
      if effect \<and> rp_replay p = ''RECONCILE_FIRST'' then ''RECONCILE''
      else if retryable \<and> count \<le> rp_attempts p then ''RETRY'' else rp_exhausted p)"

record failure_report =
  fr_item :: work_item
  fr_action :: string
  fr_attempt :: int
  fr_chain :: string
  fr_safe :: bool

definition record_failure ::
  "rat \<Rightarrow> string \<Rightarrow> string \<Rightarrow> string \<Rightarrow> string \<Rightarrow> bool \<Rightarrow> string option \<Rightarrow> (gov, failure_report) sx" where
  "record_failure now generated i owner cls effect given =
     bnd (atomically (bnd (item_info i owner) (\<lambda>w.
        let c = (case nonempty given of Some c \<Rightarrow> c | None \<Rightarrow> (case nonempty (wi_chain w) of Some c \<Rightarrow> c | None \<Rightarrow> generated));
            count = wi_retries w + 1;
            safe = (\<not> effect \<or> rp_replay (wi_retry w) = ''SAFE_ONLY'');
            action = next_action (wi_retry w) cls effect count;
            target = (if action \<in> {''RECONCILE'', ''RETRY''} then ''RECOVERING'' else ''BLOCKED'') in
        andthen (modify (set_item i (w\<lparr>wi_retries := count, wi_chain := Some c, wi_state := target, wi_updated := now\<rparr>)))
        (andthen (modify (append_work_event now owner i ''WORK_ITEM_FAILURE_RECORDED''
            [(''error_class'', JStr cls), (''attempt'', JNum (of_int count)), (''failure_chain_id'', JStr c),
             (''side_effect_may_have_started'', JBool effect), (''replay_safe'', JBool safe), (''next_action'', JStr action)]))
          (ret (action, count, c, safe)))))) (\<lambda>(action, count, c, safe).
     bnd (item_info i owner) (\<lambda>w.
       ret \<lparr>fr_item = w, fr_action = action, fr_attempt = count, fr_chain = c, fr_safe = safe\<rparr>))"

definition begin_recovery ::
  "rat \<Rightarrow> string \<Rightarrow> string \<Rightarrow> string \<Rightarrow> string option \<Rightarrow> string option \<Rightarrow> (gov, work_item \<times> string list) sx" where
  "begin_recovery now i owner cls run agent =
     (let rc = py_upper cls in
      bnd (lift_sum (case dget recovery_capabilities rc of None \<Rightarrow> Inl (ValueError ''invalid recovery class'') | Some cs \<Rightarrow> Inr cs)) (\<lambda>cs.
      andthen (atomically (bnd (item_info i owner) (\<lambda>w.
         andthen (modify (set_item i (w\<lparr>wi_recovery := Some rc, wi_state := ''RECOVERING'', wi_updated := now\<rparr>)))
           (modify (append_work_event now owner i ''WORK_ITEM_RECOVERY_STARTED''
             [(''recovery_class'', JStr rc), (''run_id'', jopt run), (''agent_id'', jopt agent), (''capabilities'', JList (map JStr cs))])))))
      (andthen (log_activity ((system_activity now owner ''work_item.recovery.start'' ''ok'' i)\<lparr>av_run := run, av_agent := agent,
          av_payload := [(''recovery_class'', JStr rc)]\<rparr>))
        (bnd (item_info i owner) (\<lambda>w. ret (w, cs))))))"

definition recovery_target :: "string \<Rightarrow> string option" where
  "recovery_target o' = dget [(''resume'', ''QUEUED''), (''blocked'', ''BLOCKED''), (''failed'', ''FAILED'')] o'"

definition complete_recovery :: "rat \<Rightarrow> string \<Rightarrow> string \<Rightarrow> string \<Rightarrow> string \<Rightarrow> (gov, work_item) sx" where
  "complete_recovery now i owner outcome reason =
     (let o' = py_lower outcome in
      bnd (lift_sum (case recovery_target o' of None \<Rightarrow> Inl (ValueError ''recovery outcome must be resume, blocked or failed'') | Some t \<Rightarrow> Inr t)) (\<lambda>target.
      bnd (atomically (bnd (item_info i owner) (\<lambda>w.
         andthen (require (wi_state w = ''RECOVERING'') (GovernanceConflict ''work item is not in recovery''))
         (andthen (modify (set_item i (w\<lparr>wi_state := target, wi_recovery := None, wi_updated := now\<rparr>)))
         (bnd (lift_sum (opt_text 4000 reason)) (\<lambda>why.
          andthen (modify (append_work_event now owner i ''WORK_ITEM_RECOVERY_COMPLETED''
             [(''recovery_class'', jopt (wi_recovery w)), (''outcome'', JStr o'), (''target'', JStr target), (''reason'', JStr why)]))
            (ret w))))))) (\<lambda>w.
      andthen (log_activity ((system_activity now owner ''work_item.recovery.complete'' o' i)\<lparr>av_run := Some (wi_run w),
          av_payload := [(''recovery_class'', jopt (wi_recovery w)), (''target'', JStr target), (''reason'', JStr reason)]\<rparr>))
        (item_info i owner))))"

definition assert_recovery_capability :: "string \<Rightarrow> string \<Rightarrow> string \<Rightarrow> (gov, unit) sx" where
  "assert_recovery_capability i owner capability = bnd (item_info i owner) (\<lambda>w.
     require (case nonempty (wi_recovery w) of None \<Rightarrow> True
        | Some rc \<Rightarrow> (case dget recovery_capabilities rc of None \<Rightarrow> False | Some cs \<Rightarrow> capability \<in> set cs))
       (PermissionDenied ''recovery class does not grant capability''))"

section \<open>Quality gate and review\<close>

definition record_quality_gate ::
  "rat \<Rightarrow> string \<Rightarrow> string \<Rightarrow> bool \<Rightarrow> string \<Rightarrow> string list option \<Rightarrow> string \<Rightarrow> jobj option \<Rightarrow> (gov, work_item) sx" where
  "record_quality_gate now i owner passed reason ev revision extra =
     bnd (atomically (bnd (item_info i owner) (\<lambda>w.
        andthen (require (wi_state w \<in> {''RUNNING'', ''VALIDATING'', ''REPAIRING''})
          (GovernanceConflict ''Quality Gate can only be recorded while work is running, validating or repairing''))
        (let target = (if passed then ''VALIDATING'' else ''REPAIRING'') in
         bnd (lift_sum (opt_text 10000 reason)) (\<lambda>why.
         bnd (lift_sum (strings_of ev)) (\<lambda>es.
         bnd (lift_sum (opt_text 512 revision)) (\<lambda>rev.
         andthen (modify (set_item i (w\<lparr>wi_state := target, wi_exec := (wi_exec w)\<lparr>es_gate := Some \<lparr>qg_passed = passed,
             qg_status = (if passed then ''passed'' else ''failed''), qg_reason = why, qg_evidence = es, qg_revision = nonempty (Some rev),
             qg_meta = object_of extra, qg_at = now, qg_invalidated = None\<rparr>\<rparr>, wi_updated := now\<rparr>)))
         (andthen (modify (append_work_event now owner i ''WORK_ITEM_QUALITY_GATE_RECORDED''
             [(''from'', JStr (wi_state w)), (''to'', JStr target), (''passed'', JBool passed), (''reason'', JStr why)]))
           (ret (w, why, rev))))))))))  (\<lambda>(w, why, rev).
     andthen (log_activity ((system_activity now owner ''work_item.quality_gate'' (if passed then ''passed'' else ''failed'') i)
         \<lparr>av_run := Some (wi_run w), av_payload := [(''reason'', JStr why), (''candidate_revision'', jopt (nonempty (Some rev)))]\<rparr>))
       (item_info i owner))"

definition stage_at :: "exec_policy \<Rightarrow> nat \<Rightarrow> review_stage option" where
  "stage_at p n = (if n < length (ep_stages p) then Some (ep_stages p ! n) else None)"

definition stage_target :: "review_stage option \<Rightarrow> string" where
  "stage_target s = (case s of None \<Rightarrow> ''READY_FOR_PROMOTION''
     | Some x \<Rightarrow> if sg_type x = ''review'' then ''IN_REVIEW'' else ''APPROVAL_REQUIRED'')"

definition at_stage :: "nat \<Rightarrow> review_stage option \<Rightarrow> exec_state \<Rightarrow> exec_state" where
  "at_stage n s e = e\<lparr>es_index := n, es_stage := map_option (\<lambda>x. (sg_id x, sg_type x)) s,
     es_status := Some (case s of None \<Rightarrow> ''passed'' | Some _ \<Rightarrow> ''pending'')\<rparr>"

definition submit_for_policy :: "rat \<Rightarrow> string \<Rightarrow> string \<Rightarrow> string list option \<Rightarrow> (gov, work_item) sx" where
  "submit_for_policy now i owner ev =
     andthen (atomically (bnd (item_info i owner) (\<lambda>w.
        andthen (require (gate_ok (wi_policy w) (wi_exec w)) (GovernanceConflict ''deterministic quality validation has not passed''))
        (bnd (lift_sum (strings_of ev)) (\<lambda>es.
         let n = (if es_status (wi_exec w) = Some ''changes_requested'' then es_index (wi_exec w) else 0);
             s = stage_at (wi_policy w) n; target = stage_target s in
         andthen (modify (set_item i (w\<lparr>wi_state := target, wi_exec := (at_stage n s (wi_exec w))\<lparr>es_return := wi_agent w, es_evidence := es\<rparr>,
             wi_updated := now\<rparr>)))
           (modify (append_work_event now owner i ''WORK_ITEM_POLICY_SUBMITTED''
             [(''target'', JStr target), (''stage'', case s of None \<Rightarrow> JNull | Some x \<Rightarrow> stage_json x), (''evidence'', JList (map JStr es))])))))))
       (item_info i owner)"

definition actor_allowed :: "review_stage \<Rightarrow> string \<Rightarrow> string \<Rightarrow> bool" where
  "actor_allowed s actor_type actor \<longleftrightarrow> sg_any s \<or> (sg_agent s = None \<and> sg_user s = None)
     \<or> (actor_type = ''agent'' \<and> sg_agent s = Some actor) \<or> (actor_type = ''user'' \<and> sg_user s = Some actor)"

text \<open>The state and the execution state a decision on the stage leads to.\<close>

definition decided :: "exec_policy \<Rightarrow> review_stage \<Rightarrow> string \<Rightarrow> exec_state \<Rightarrow> string \<times> exec_state" where
  "decided p s d e =
     (if d = ''changes_requested'' then (''CHANGES_REQUESTED'', e\<lparr>es_status := Some ''changes_requested''\<rparr>)
      else if d = ''rejected'' then (''FAILED'', e\<lparr>es_status := Some ''rejected''\<rparr>)
      else let n = es_index e + 1; s' = stage_at p n in
        (stage_target s', (at_stage n s' e)\<lparr>es_completed := (if sg_id s \<in> set (es_completed e) then es_completed e
          else es_completed e @ [sg_id s])\<rparr>))"

definition decide_policy_stage ::
  "rat \<Rightarrow> string \<Rightarrow> string \<Rightarrow> string \<Rightarrow> string \<Rightarrow> string \<Rightarrow> string \<Rightarrow> string \<Rightarrow> string list option \<Rightarrow> (gov, work_item) sx" where
  "decide_policy_stage now generated i owner actor_type actor decision comment ev =
     (let d = py_lower decision in
      andthen (require (d \<in> {''approved'', ''changes_requested'', ''rejected''}) (ValueError ''decision must be approved, changes_requested or rejected''))
      (bnd (atomically (bnd (item_info i owner) (\<lambda>w.
         andthen (require (gate_ok (wi_policy w) (wi_exec w)) (GovernanceConflict ''deterministic quality validation has not passed''))
         (bnd (lift_sum (case stage_at (wi_policy w) (es_index (wi_exec w)) of
              None \<Rightarrow> Inl (GovernanceConflict ''work item has no pending execution-policy stage'') | Some s \<Rightarrow> Inr s)) (\<lambda>s.
          andthen (require (actor_allowed s actor_type actor) (PermissionDenied ''actor is not authorized for the active execution-policy stage''))
          (bnd (lift_sum (opt_text 10000 comment)) (\<lambda>c.
           bnd (lift_sum (strings_of ev)) (\<lambda>es.
           andthen (modify (\<lambda>g. g\<lparr>gv_decisions := gv_decisions g @ [\<lparr>rd_id = generated, rd_owner = owner, rd_item = i, rd_stage = sg_id s,
               rd_type = sg_type s, rd_actor_type = actor_type, rd_actor = actor, rd_decision = d, rd_comment = c, rd_evidence = es, rd_at = now\<rparr>]\<rparr>))
           (case decided (wi_policy w) s d (wi_exec w) of (target, e) \<Rightarrow>
            andthen (modify (set_item i (w\<lparr>wi_state := target, wi_exec := e, wi_updated := now\<rparr>)))
            (andthen (modify (append_work_event now owner i ''WORK_ITEM_POLICY_DECISION''
                [(''decision_id'', JStr generated), (''stage_id'', JStr (sg_id s)), (''decision'', JStr d), (''actor_type'', JStr actor_type),
                 (''actor_id'', JStr actor), (''target'', JStr target)]))
              (ret (sg_id s)))))))))))) (\<lambda>sid.
       andthen (log_activity ((system_activity now owner ''work_item.policy.decision'' d i)\<lparr>av_actor_type := actor_type, av_actor := actor,
           av_payload := [(''stage_id'', JStr sid), (''decision_id'', JStr generated)]\<rparr>))
         (item_info i owner))))"

section \<open>Completion by receipt\<close>

definition text_key :: "jobj \<Rightarrow> string \<Rightarrow> string" where
  "text_key d k = (case dget d k of Some (JStr s) \<Rightarrow> s | _ \<Rightarrow> [])"

definition receipt_meta :: "string \<Rightarrow> string \<Rightarrow> jobj \<Rightarrow> jobj" where
  "receipt_meta k r d = dset ''external_completion_claimed'' (JBool False) (dset k (JStr r) d)"

definition complete_receipted_interaction :: "db option \<Rightarrow> rat \<Rightarrow> string \<Rightarrow> string \<Rightarrow> string \<Rightarrow> (gov, work_item) sx" where
  "complete_receipted_interaction durable now i owner oid =
     bnd (lift_sum (case durable of None \<Rightarrow> Inl (RuntimeFailure ''durable interaction receipt authority required'')
        | Some dd \<Rightarrow>
            sbind (fst (operation_status oid owner dd)) (\<lambda>op.
            scheck (op_state op = ''SUCCEEDED'' \<and> dget (op_progress op) ''work_item_id'' = Some (JStr i))
              (PermissionDenied ''confirmed bound optional interaction receipt required'')
            (let aid = (case op_result op of Some (JObj kvs) \<Rightarrow> (case dget kvs ''evidence_artifact_id'' of Some (JStr a) \<Rightarrow> Some a | _ \<Rightarrow> None) | _ \<Rightarrow> None) in
             case aid of None \<Rightarrow> Inl (FileNotFound ''artifact'')
             | Some a \<Rightarrow> sbind (fst (artifact_info a (Some owner) dd)) (\<lambda>af.
                 scheck (af_op af = Some oid \<and> af_run af = op_run op) (PermissionDenied ''optional interaction artifact scope mismatch'')
                 (Inr op)))))) (\<lambda>op.
     andthen (atomically (bnd (item_info i owner) (\<lambda>w.
        andthen (require ((py_startswith (text_key (wi_meta w) ''shell_action'') ''voice_'' \<or> py_startswith (text_key (wi_meta w) ''shell_action'') ''attachment_'')
            \<and> wi_run w = op_run op \<and> wi_state w \<in> {''RUNNING'', ''COMPLETED''} \<and> \<not> ep_gate (wi_policy w))
          (GovernanceConflict ''receipt is not a signaling/storage interaction''))
        (andthen (modify (set_item i (w\<lparr>wi_state := ''COMPLETED'', wi_checkout := None, wi_execution := None,
            wi_meta := receipt_meta ''interaction_operation_id'' oid (wi_meta w), wi_updated := now\<rparr>)))
          (modify (append_work_event now owner i ''OPTIONAL_INTERACTION_RECEIPTED''
            [(''operation_id'', JStr oid), (''external_completion_claimed'', JBool False)]))))))
       (item_info i owner))"

definition control_actions :: "string list" where
  "control_actions = [''space_create'', ''dot_create'', ''dot_update'', ''conversation_create'', ''coordinate'',
     ''turn_permission_grant'', ''turn_permission_revoke'']"

text \<open>\<open>receipt\<close>: the request key and the project of the shell's receipt, when it has one for the owner.\<close>

definition complete_control_mutation ::
  "(string \<times> string) option \<Rightarrow> rat \<Rightarrow> string \<Rightarrow> string \<Rightarrow> string \<Rightarrow> (gov, work_item) sx" where
  "complete_control_mutation receipt now i owner rid =
     bnd (lift_sum (case receipt of None \<Rightarrow> Inl (PermissionDenied ''durable control mutation receipt required'') | Some r \<Rightarrow> Inr r)) (\<lambda>(key, project).
     andthen (atomically (bnd (item_info i owner) (\<lambda>w.
        andthen (require (text_key (wi_meta w) ''shell_action'' \<in> set control_actions
            \<and> dget (wi_meta w) ''request_key'' = Some (JStr key) \<and> dget (wi_meta w) ''workspace_id'' = Some (JStr project)
            \<and> wi_state w \<in> {''PENDING'', ''COMPLETED''} \<and> nonempty (wi_execution w) = None \<and> nonempty (wi_checkout w) = None)
          (GovernanceConflict ''receipt is not for a metadata control WorkItem''))
        (andthen (modify (set_item i (w\<lparr>wi_state := ''COMPLETED'', wi_meta := receipt_meta ''control_receipt_id'' rid (wi_meta w), wi_updated := now\<rparr>)))
          (modify (append_work_event now owner i ''CONTROL_MUTATION_COMMITTED''
            [(''receipt_id'', JStr rid), (''external_completion_claimed'', JBool False)]))))))
       (item_info i owner))"

section \<open>Reading\<close>

definition list_work_items ::
  "string \<Rightarrow> string option \<Rightarrow> string list \<Rightarrow> int \<Rightarrow> int \<Rightarrow> (gov, (string \<times> work_item) list \<times> int \<times> int option) sx" where
  "list_work_items owner run states limit offset =
     andthen (require (0 \<le> offset \<and> 1 \<le> limit \<and> limit \<le> 1000) (ValueError ''invalid work item page''))
     (let ss = map py_upper states in
      andthen (require (list_all (\<lambda>s. s \<in> set work_states) ss) (ValueError ''invalid work item state filter''))
      (gets (\<lambda>g. let found = filter (\<lambda>(i, w). wi_owner w = owner \<and> (case nonempty run of None \<Rightarrow> True | Some r \<Rightarrow> wi_run w = r)
            \<and> (ss = [] \<or> wi_state w \<in> set ss)) (gv_items g);
          shown = take (nat limit) (drop (nat offset) (rev (sort_key (\<lambda>(i, w). wi_updated w) (rev found))));
          next' = offset + int (length shown) in
        (shown, int (length found), if next' < int (length found) then Some next' else None))))"

end
