(* ===== verification/Work_Invariants.thy ===== *)
theory Work_Invariants
  imports Work_Items
begin

text \<open>
  The changes a call of the service can make to a work item, and the locale of predicates they keep:
  every call then keeps them, whether it returns or raises. Reachable states and what all of them
  satisfy.
\<close>

section \<open>Changes of a work item\<close>

inductive item_change :: "gov \<Rightarrow> string \<Rightarrow> work_item \<Rightarrow> work_item \<Rightarrow> bool" for g i w where
  ch_transition: "target \<in> set work_states \<Longrightarrow> \<not> (wi_state w = ''RECOVERING'' \<and> target \<in> {''QUEUED'', ''RUNNING''}) \<Longrightarrow>
     target = wi_state w \<or> target \<in> set (row_of work_transitions (wi_state w)) \<Longrightarrow>
     target \<in> {''IN_REVIEW'', ''APPROVAL_REQUIRED'', ''READY_FOR_PROMOTION''} \<longrightarrow> gate_ok (wi_policy w) (wi_exec w) \<Longrightarrow>
     item_change g i w (w\<lparr>wi_state := target, wi_meta := dupdate (wi_meta w) extra,
       wi_exec := (if target \<in> {''RUNNING'', ''REPAIRING''} \<and> target \<noteq> wi_state w then stale_gate now (arrow (wi_state w) target) (wi_exec w)
         else wi_exec w), wi_updated := now\<rparr>)"
| ch_heal_checkout: "stale_lock durable (wi_owner w) (wi_checkout w) = Inr True \<Longrightarrow> item_change g i w (w\<lparr>wi_checkout := None, wi_updated := now\<rparr>)"
| ch_heal_execution: "stale_lock durable (wi_owner w) (wi_execution w) = Inr True \<Longrightarrow> item_change g i w (w\<lparr>wi_execution := None, wi_updated := now\<rparr>)"
| ch_checkout: "lock_free (wi_checkout w) run \<Longrightarrow>
     item_change g i w (w\<lparr>wi_checkout := Some run, wi_agent := coalesce agent (wi_agent w), wi_updated := now\<rparr>)"
| ch_start: "wi_run w = run \<Longrightarrow> wi_state w \<in> {''PENDING'', ''QUEUED'', ''RUNNING''} \<Longrightarrow> wi_blockers w = [] \<Longrightarrow>
     (\<forall>a. nonempty agent = Some a \<longrightarrow> wi_agent w = None \<or> wi_agent w = Some a) \<Longrightarrow>
     dependencies_done (wi_owner w) (wi_dependencies w) g \<Longrightarrow> lock_free (wi_execution w) run \<Longrightarrow>
     lock_free (wi_checkout w) run \<or> stale_lock durable (wi_owner w) (wi_checkout w) = Inr True \<Longrightarrow>
     item_change g i w (w\<lparr>wi_checkout := Some run, wi_execution := Some run, wi_agent := coalesce agent (wi_agent w),
       wi_state := ''RUNNING'', wi_exec := stale_gate now (arrow (wi_state w) ''RUNNING'') (wi_exec w), wi_updated := now\<rparr>)"
| ch_release: "item_change g i w (if cleared_by w run = [] then w else
     w\<lparr>wi_checkout := (if wi_checkout w = Some run then None else wi_checkout w),
       wi_execution := (if wi_execution w = Some run then None else wi_execution w), wi_updated := now\<rparr>)"
| ch_reassign: "wi_state w \<in> {''PENDING'', ''QUEUED'', ''BLOCKED''} \<Longrightarrow> nonempty (wi_execution w) = None \<Longrightarrow> nonempty (wi_checkout w) = None \<Longrightarrow>
     item_change g i w (w\<lparr>wi_agent := Some a, wi_user := None, wi_updated := now\<rparr>)"
| ch_recover: "item_change g i w (w\<lparr>wi_recovery := Some rc, wi_state := ''RECOVERING'', wi_updated := now\<rparr>)"
| ch_recovered: "wi_state w = ''RECOVERING'' \<Longrightarrow> t \<in> {''QUEUED'', ''BLOCKED'', ''FAILED''} \<Longrightarrow>
     item_change g i w (w\<lparr>wi_state := t, wi_recovery := None, wi_updated := now\<rparr>)"
| ch_gate: "wi_state w \<in> {''RUNNING'', ''VALIDATING'', ''REPAIRING''} \<Longrightarrow>
     item_change g i w (w\<lparr>wi_state := (if qg_passed q then ''VALIDATING'' else ''REPAIRING''),
       wi_exec := (wi_exec w)\<lparr>es_gate := Some q\<rparr>, wi_updated := now\<rparr>)"
| ch_submit: "gate_ok (wi_policy w) (wi_exec w) \<Longrightarrow>
     n = (if es_status (wi_exec w) = Some ''changes_requested'' then es_index (wi_exec w) else 0) \<Longrightarrow>
     item_change g i w (w\<lparr>wi_state := stage_target (stage_at (wi_policy w) n),
       wi_exec := (at_stage n (stage_at (wi_policy w) n) (wi_exec w))\<lparr>es_return := wi_agent w, es_evidence := es\<rparr>, wi_updated := now\<rparr>)"
| ch_decide: "gate_ok (wi_policy w) (wi_exec w) \<Longrightarrow> stage_at (wi_policy w) (es_index (wi_exec w)) = Some s \<Longrightarrow>
     x \<in> set (gv_decisions g) \<Longrightarrow> rd_item x = i \<Longrightarrow> rd_stage x = sg_id s \<Longrightarrow> rd_decision x = d \<Longrightarrow>
     actor_allowed s (rd_actor_type x) (rd_actor x) \<Longrightarrow> decided (wi_policy w) s d (wi_exec w) = (target, e) \<Longrightarrow>
     d \<in> {''approved'', ''changes_requested'', ''rejected''} \<Longrightarrow>
     item_change g i w (w\<lparr>wi_state := target, wi_exec := e, wi_updated := now\<rparr>)"
| ch_receipt: "wi_state w \<in> {''RUNNING'', ''COMPLETED''} \<Longrightarrow> \<not> ep_gate (wi_policy w) \<Longrightarrow>
     item_change g i w (w\<lparr>wi_state := ''COMPLETED'', wi_checkout := None, wi_execution := None,
       wi_meta := receipt_meta ''interaction_operation_id'' oid (wi_meta w), wi_updated := now\<rparr>)"
| ch_control: "wi_state w \<in> {''PENDING'', ''COMPLETED''} \<Longrightarrow> nonempty (wi_execution w) = None \<Longrightarrow> nonempty (wi_checkout w) = None \<Longrightarrow>
     item_change g i w (w\<lparr>wi_state := ''COMPLETED'', wi_meta := receipt_meta ''control_receipt_id'' rid (wi_meta w), wi_updated := now\<rparr>)"

text \<open>A row \<open>create_work_item\<close> inserts: its policies have been read and accepted.\<close>

definition policies_read :: "exec_policy \<Rightarrow> retry_policy \<Rightarrow> bool" where
  "policies_read ep rp \<longleftrightarrow> (\<exists>cv v v'. read_exec_policy cv v = Inr ep \<and> read_retry_policy cv v' = Inr rp)"

definition first_row :: "gov \<Rightarrow> work_item \<Rightarrow> bool" where
  "first_row g w \<longleftrightarrow> policies_read (wi_policy w) (wi_retry w) \<and>
      wi_state w = ''PENDING'' \<and> wi_exec w = fresh_exec \<and> wi_checkout w = None \<and> wi_execution w = None \<and> wi_retries w = 0
     \<and> (\<forall>p. nonempty (wi_parent w) = Some p \<longrightarrow> (\<exists>v. dget (gv_items g) p = Some v \<and> wi_owner v = wi_owner w \<and> wi_run v = wi_run w))"

text \<open>What \<open>record_failure\<close> does to the row and to the log of events, and the events that grant a retry.\<close>

definition failure_recorded :: "string" where
  "failure_recorded = ''WORK_ITEM_FAILURE_RECORDED''"

definition failed_item :: "rat \<Rightarrow> string \<Rightarrow> string \<Rightarrow> work_item \<Rightarrow> work_item" where
  "failed_item now c action w = w\<lparr>wi_retries := wi_retries w + 1, wi_chain := Some c,
     wi_state := (if action \<in> {''RECONCILE'', ''RETRY''} then ''RECOVERING'' else ''BLOCKED''), wi_updated := now\<rparr>"

definition grants_retry :: "string \<Rightarrow> work_event \<Rightarrow> bool" where
  "grants_retry i e \<longleftrightarrow> we_item e = i \<and> we_type e = failure_recorded \<and> dget (we_payload e) ''next_action'' = Some (JStr ''RETRY'')"

section \<open>Predicates every call keeps\<close>

lemma items_after [simp]:
  "gv_items (set_item i w g) = dset i w (gv_items g)" "gv_items (append_work_event now owner i t payload g) = gv_items g"
  "gv_decisions (set_item i w g) = gv_decisions g" "gv_decisions (append_work_event now owner i t payload g) = gv_decisions g"
  by (simp_all add: set_item_def append_work_event_def)

lemma dependencies_unmoved:
  assumes "gv_items g' = dset i w' (gv_items g)" and "dget (gv_items g) i = Some w" and "wi_owner w' = wi_owner w"
    and "wi_state w' = wi_state w"
  shows "dependencies_done owner deps g' = dependencies_done owner deps g"
proof -
  have "(case dget (gv_items g') j of None \<Rightarrow> False | Some v \<Rightarrow> wi_owner v = owner \<and> wi_state v = ''COMPLETED'')
      = (case dget (gv_items g) j of None \<Rightarrow> False | Some v \<Rightarrow> wi_owner v = owner \<and> wi_state v = ''COMPLETED'')" for j
    using assms by (cases "j = i") simp_all
  then show ?thesis
    by (simp add: dependencies_done_def)
qed

lemma start_change:
  assumes "wi_owner w = owner" and "wi_run w = run \<and> wi_state w \<in> {''PENDING'', ''QUEUED'', ''RUNNING''} \<and> wi_blockers w = []"
    and "case nonempty agent of None \<Rightarrow> True | Some a \<Rightarrow> wi_agent w = None \<or> wi_agent w = Some a"
    and "dependencies_done owner (wi_dependencies w) g" and "lock_free (wi_execution w) run"
    and "(if lock_free (wi_checkout w) run then Inr True else stale_lock durable owner (wi_checkout w)) = Inr ok" and "ok"
  shows "item_change g i w (w\<lparr>wi_checkout := Some run, wi_execution := Some run, wi_agent := coalesce agent (wi_agent w),
    wi_state := ''RUNNING'', wi_exec := stale_gate now (arrow (wi_state w) ''RUNNING'') (wi_exec w), wi_updated := now\<rparr>)"
  using assms by (intro ch_start [where durable = durable]) (auto split: if_splits option.splits)

lemma gate_change:
  "wi_state w \<in> {''RUNNING'', ''VALIDATING'', ''REPAIRING''} \<Longrightarrow>
   item_change g i w (w\<lparr>wi_state := (if p then ''VALIDATING'' else ''REPAIRING''), wi_exec := (wi_exec w)\<lparr>es_gate := Some
     \<lparr>qg_passed = p, qg_status = st, qg_reason = r, qg_evidence = e, qg_revision = v, qg_meta = m, qg_at = a, qg_invalidated = x\<rparr>\<rparr>, wi_updated := now\<rparr>)"
  using ch_gate [where q = "\<lparr>qg_passed = p, qg_status = st, qg_reason = r, qg_evidence = e, qg_revision = v, qg_meta = m, qg_at = a, qg_invalidated = x\<rparr>"]
  by simp

lemma other_events [simp]:
  "''CONTROL_MUTATION_COMMITTED'' \<noteq> failure_recorded"
  "''OPTIONAL_INTERACTION_RECEIPTED'' \<noteq> failure_recorded"
  "''STALE_WORK_LOCK_CLEARED'' \<noteq> failure_recorded"
  "''WORK_ITEM_CHECKED_OUT'' \<noteq> failure_recorded"
  "''WORK_ITEM_CREATED'' \<noteq> failure_recorded"
  "''WORK_ITEM_EXECUTION_STARTED'' \<noteq> failure_recorded"
  "''WORK_ITEM_LOCKS_RELEASED'' \<noteq> failure_recorded"
  "''WORK_ITEM_POLICY_DECISION'' \<noteq> failure_recorded"
  "''WORK_ITEM_POLICY_SUBMITTED'' \<noteq> failure_recorded"
  "''WORK_ITEM_QUALITY_GATE_RECORDED'' \<noteq> failure_recorded"
  "''WORK_ITEM_REASSIGNED'' \<noteq> failure_recorded"
  "''WORK_ITEM_RECOVERY_COMPLETED'' \<noteq> failure_recorded"
  "''WORK_ITEM_RECOVERY_STARTED'' \<noteq> failure_recorded"
  "''WORK_ITEM_STATE_CHANGED'' \<noteq> failure_recorded"
  by (simp_all add: failure_recorded_def)

lemma decide_change:
  "gate_ok (wi_policy w) (wi_exec w) \<Longrightarrow> (case stage_at (wi_policy w) (es_index (wi_exec w)) of None \<Rightarrow> Inl x | Some s \<Rightarrow> Inr s) = Inr s \<Longrightarrow>
   actor_allowed s at' actor \<Longrightarrow> decided (wi_policy w) s d (wi_exec w) = (target, e) \<Longrightarrow>
   d \<in> {''approved'', ''changes_requested'', ''rejected''} \<Longrightarrow>
   item_change (g\<lparr>gv_decisions := gv_decisions g @ [\<lparr>rd_id = n, rd_owner = owner, rd_item = i, rd_stage = sg_id s, rd_type = ty,
     rd_actor_type = at', rd_actor = actor, rd_decision = d, rd_comment = c, rd_evidence = ev, rd_at = now\<rparr>]\<rparr>) i w
     (w\<lparr>wi_state := target, wi_exec := e, wi_updated := now\<rparr>)"
  by (rule ch_decide [where x = "\<lparr>rd_id = n, rd_owner = owner, rd_item = i, rd_stage = sg_id s, rd_type = ty,
     rd_actor_type = at', rd_actor = actor, rd_decision = d, rd_comment = c, rd_evidence = ev, rd_at = now\<rparr>"]) (simp_all split: option.splits)

lemma at_case_prod: "(\<And>a b. x = (a, b) \<Longrightarrow> P (snd (f a b s))) \<Longrightarrow> P (snd ((case x of (a, b) \<Rightarrow> f a b) s))"
  by (cases x) simp

lemma keep_atomically: "(\<And>s. P s \<Longrightarrow> P (snd (m s))) \<Longrightarrow> keep P (atomically m)"
  by (rule keepI, rule at_atomically)

lemma at_item: "P s \<Longrightarrow> (\<And>w. dget (gv_items s) i = Some w \<Longrightarrow> wi_owner w = owner \<Longrightarrow> P (snd (f w s))) \<Longrightarrow>
    P (snd (bnd (item_info i owner) f s))"
  by (cases "dget (gv_items s) i") (auto simp: item_info_def bnd_run andthen_run require_def)

lemma at_bnd_bnd: "P (snd (bnd m (\<lambda>x. bnd (k x) f) s)) \<Longrightarrow> P (snd (bnd (bnd m k) f s))"
  by (auto simp: bnd_run split: prod.splits sum.splits)

lemma at_bnd_then: "P (snd (andthen m (bnd n f) s)) \<Longrightarrow> P (snd (bnd (andthen m n) f s))"
  by (auto simp: bnd_run andthen_run split: prod.splits sum.splits)

lemma at_bnd_ret: "P (snd (f x s)) \<Longrightarrow> P (snd (bnd (ret x) f s))"
  by (simp add: bnd_run)

lemma at_bnd_if: "(b \<Longrightarrow> P (snd (bnd m f s))) \<Longrightarrow> (\<not> b \<Longrightarrow> P (snd (bnd n f s))) \<Longrightarrow> P (snd (bnd (if b then m else n) f s))"
  by simp

lemma keep_case_prod: "(\<And>a b. keep P (f a b)) \<Longrightarrow> keep P (case x of (a, b) \<Rightarrow> f a b)"
  by (cases x) simp

lemma at_end_modify: "P (f s) \<Longrightarrow> P (snd (modify f s))"
  by simp

locale gov_invariant =
  fixes P :: "gov \<Rightarrow> bool"
  assumes on_change: "P g \<Longrightarrow> dget (gv_items g) i = Some w \<Longrightarrow> item_change g i w w' \<Longrightarrow> P (set_item i w' g)"
    and on_new: "P g \<Longrightarrow> i \<noteq> [] \<Longrightarrow> dget (gv_items g) i = None \<Longrightarrow> first_row g w \<Longrightarrow> P (set_item i w g)"
    and on_failure: "P g \<Longrightarrow> dget (gv_items g) i = Some w \<Longrightarrow> action = next_action (wi_retry w) cls effect (wi_retries w + 1) \<Longrightarrow>
      dget payload ''next_action'' = Some (JStr action) \<Longrightarrow>
      P (append_work_event now owner i failure_recorded payload (set_item i (failed_item now c action w) g))"
    and on_event: "P g \<Longrightarrow> t \<noteq> failure_recorded \<Longrightarrow> P (append_work_event now owner i t payload g)"
    and on_activity: "P g \<Longrightarrow> P (g\<lparr>gv_activity := as\<rparr>)"
    and on_decision: "P g \<Longrightarrow> P (g\<lparr>gv_decisions := gv_decisions g @ [x]\<rparr>)"
begin

lemmas at = at_rules [where P = P] at_item [where P = P] at_bnd_bnd [where P = P] at_bnd_then [where P = P]
  at_bnd_ret [where P = P] at_end_modify [where P = P]

lemma keep_item_info: "keep P (item_info i owner)"
  by (auto simp: keep_def item_info_def bnd_run andthen_run require_def split: option.split)

lemma keep_log_activity: "keep P (log_activity a)"
  unfolding log_activity_def by (intro keepI at on_activity)

lemma keep_require_then: "(b \<Longrightarrow> keep P n) \<Longrightarrow> keep P (andthen (require b e) n)"
  by (auto simp: keep_def require_def andthen_run)

lemma keep_lift_bnd: "(\<And>a. r = Inr a \<Longrightarrow> keep P (f a)) \<Longrightarrow> keep P (bnd (lift_sum r) f)"
  by (cases r) (auto simp: keep_def lift_sum_def bnd_run)

lemmas outer = keep_require_then keep_lift_bnd keep_bnd keep_andthen keep_lift_sum keep_require keep_ret keep_item_info keep_log_activity
  keep_throw keep_atomically

lemmas inner = at on_event on_change

lemma keep_transition: "keep P (transition_work_item now i owner state reason extra)"
  unfolding transition_work_item_def Let_def
  by (intro outer) (intro inner; (assumption | rule ch_transition | simp)+)

text \<open>The two healings: the lock stays, or the run it names has ended and it is cleared.\<close>

lemma at_heal_checkout:
  assumes "P s" and "dget (gv_items s) i = Some w" and "wi_owner w = owner" and "P (snd (f w s))"
    and "\<And>s' w'. P s' \<Longrightarrow> w' = w\<lparr>wi_checkout := None, wi_updated := now\<rparr> \<Longrightarrow> gv_items s' = dset i w' (gv_items s) \<Longrightarrow>
      (\<And>owner deps. dependencies_done owner deps s' = dependencies_done owner deps s) \<Longrightarrow> P (snd (f w' s'))"
  shows "P (snd (bnd (heal_checkout durable now i owner w) f s))"
proof (cases "stale_lock durable owner (wi_checkout w)")
  case (Inr b)
  define w' where "w' = w\<lparr>wi_checkout := None, wi_updated := now\<rparr>"
  define t where "t = append_work_event now owner i ''STALE_WORK_LOCK_CLEARED'' [(''column'', JStr ''checkout_run_id''), (''run_id'', jopt (wi_checkout w))] (set_item i w' s)"
  have "b \<Longrightarrow> P (set_item i (w\<lparr>wi_checkout := None, wi_updated := now\<rparr>) s)"
    using assms(1-3) Inr by (auto intro!: on_change ch_heal_checkout)
  then have "b \<Longrightarrow> P t"
    by (simp add: t_def w'_def on_event)
  moreover have "dependencies_done owner deps t = dependencies_done owner deps s" for owner deps
    by (rule dependencies_unmoved [OF _ assms(2), where w' = w']) (simp_all add: t_def w'_def)
  ultimately have "b \<Longrightarrow> P (snd (f w' t))"
    by (intro assms(5)) (simp_all add: t_def w'_def)
  then show ?thesis using assms(4) Inr
    by (simp add: heal_checkout_def lift_sum_def bnd_run lock_cleared_def Let_def w'_def t_def)
qed (simp add: heal_checkout_def lift_sum_def bnd_run assms(1))

lemma at_heal_execution:
  assumes "P s" and "dget (gv_items s) i = Some w" and "wi_owner w = owner" and "P (snd (f w s))"
    and "\<And>s' w'. P s' \<Longrightarrow> w' = w\<lparr>wi_execution := None, wi_updated := now\<rparr> \<Longrightarrow> gv_items s' = dset i w' (gv_items s) \<Longrightarrow>
      (\<And>owner deps. dependencies_done owner deps s' = dependencies_done owner deps s) \<Longrightarrow> P (snd (f w' s'))"
  shows "P (snd (bnd (heal_execution durable now i owner w) f s))"
proof (cases "stale_lock durable owner (wi_execution w)")
  case (Inr b)
  define w' where "w' = w\<lparr>wi_execution := None, wi_updated := now\<rparr>"
  define t where "t = append_work_event now owner i ''STALE_WORK_LOCK_CLEARED'' [(''column'', JStr ''execution_run_id''), (''run_id'', jopt (wi_execution w))] (set_item i w' s)"
  have "b \<Longrightarrow> P (set_item i (w\<lparr>wi_execution := None, wi_updated := now\<rparr>) s)"
    using assms(1-3) Inr by (auto intro!: on_change ch_heal_execution)
  then have "b \<Longrightarrow> P t"
    by (simp add: t_def w'_def on_event)
  moreover have "dependencies_done owner deps t = dependencies_done owner deps s" for owner deps
    by (rule dependencies_unmoved [OF _ assms(2), where w' = w']) (simp_all add: t_def w'_def)
  ultimately have "b \<Longrightarrow> P (snd (f w' t))"
    by (intro assms(5)) (simp_all add: t_def w'_def)
  then show ?thesis using assms(4) Inr
    by (simp add: heal_execution_def lift_sum_def bnd_run lock_cleared_def Let_def w'_def t_def)
qed (simp add: heal_execution_def lift_sum_def bnd_run assms(1))

lemma keep_checkout: "keep P (checkout durable now i owner run agent)"
  unfolding checkout_def
  by (intro outer) (intro at at_heal_checkout on_event on_change; (assumption | rule ch_checkout | simp)+)

lemma keep_start: "keep P (start_execution durable now i owner run agent expected)"
  unfolding start_execution_def
  by (intro outer) (intro at at_heal_execution on_event on_change; (assumption | rule start_change | simp cong: option.case_cong)+)

lemma keep_release: "keep P (release_run_locks now i owner run)"
  unfolding release_run_locks_def Let_def
  by (intro outer) (intro inner; (assumption | rule ch_release | simp)+)

lemma keep_reassign: "keep P (reassign_work_item now i owner agent expected)"
  unfolding reassign_work_item_def
  by (intro outer) (intro inner; (assumption | rule ch_reassign | simp)+)

lemma keep_failure: "keep P (record_failure now generated i owner cls effect given)"
proof -
  have "P (snd (andthen (modify (set_item i (w\<lparr>wi_retries := wi_retries w + 1, wi_chain := Some c,
         wi_state := (if action \<in> {''RECONCILE'', ''RETRY''} then ''RECOVERING'' else ''BLOCKED''), wi_updated := now\<rparr>)))
      (andthen (modify (append_work_event now owner i ''WORK_ITEM_FAILURE_RECORDED''
            [(''error_class'', JStr cls), (''attempt'', JNum (of_int (wi_retries w + 1))), (''failure_chain_id'', JStr c),
             (''side_effect_may_have_started'', JBool effect), (''replay_safe'', JBool safe), (''next_action'', JStr action)]))
          (ret out)) s))"
    if "P s" "dget (gv_items s) i = Some w" "action = next_action (wi_retry w) cls effect (wi_retries w + 1)"
    for s w c action safe and out :: "string \<times> int \<times> string \<times> bool"
    using on_failure [OF that(1,2,3), where c = c and now = now and owner = owner and payload = "[(''error_class'', JStr cls),
        (''attempt'', JNum (of_int (wi_retries w + 1))), (''failure_chain_id'', JStr c),
        (''side_effect_may_have_started'', JBool effect), (''replay_safe'', JBool safe), (''next_action'', JStr action)]"]
    by (simp add: failed_item_def failure_recorded_def)
  then show ?thesis
    unfolding record_failure_def Let_def by (intro outer keep_case_prod) (rule at_item; blast)
qed

lemma keep_begin_recovery: "keep P (begin_recovery now i owner cls run agent)"
  unfolding begin_recovery_def Let_def
  by (intro outer) (intro inner; (assumption | rule ch_recover | simp)+)

lemma keep_complete_recovery: "keep P (complete_recovery now i owner outcome reason)"
  unfolding complete_recovery_def Let_def
  by (intro outer) (intro inner; (assumption | rule ch_recovered | auto simp: recovery_target_def split: if_splits option.splits; fail | simp)+)

lemma keep_gate: "keep P (record_quality_gate now i owner passed reason ev revision extra)"
  unfolding record_quality_gate_def Let_def
  by (intro outer keep_case_prod) (intro inner; (assumption | rule gate_change | simp)+)

lemma keep_submit: "keep P (submit_for_policy now i owner ev)"
  unfolding submit_for_policy_def Let_def
  by (intro outer) (intro inner; (assumption | rule ch_submit | simp)+)

lemma keep_receipt: "keep P (complete_receipted_interaction durable now i owner oid)"
  unfolding complete_receipted_interaction_def
  by (intro outer) (intro inner; (assumption | rule ch_receipt | simp)+)

lemma keep_control: "keep P (complete_control_mutation receipt now i owner rid)"
  unfolding complete_control_mutation_def
  by (intro outer keep_case_prod) (intro inner; (assumption | rule ch_control | simp)+)

lemma keep_decide: "keep P (decide_policy_stage now generated i owner actor_type actor decision comment ev)"
  unfolding decide_policy_stage_def Let_def
  by (intro outer) (intro at at_case_prod [where P = P] on_event on_change on_decision; (assumption | rule decide_change | simp)+)

lemma keep_insert:
  assumes "i \<noteq> []" and "read_exec_policy cv v = Inr ep" and "read_retry_policy cv v' = Inr rp"
  shows "keep P (insert_item now i owner run ep rp x)"
  unfolding insert_item_def
proof (rule keep_atomically, intro at)
  fix s w
  assume "P s" and ok: "case nonempty (ii_parent x) of None \<Rightarrow> True
      | Some p \<Rightarrow> (case dget (gv_items s) p of None \<Rightarrow> False | Some w \<Rightarrow> wi_owner w = owner \<and> wi_run w = run)"
    and new: "new_item now owner run ep rp x = Inr w"
  have policies: "policies_read ep rp"
    unfolding policies_read_def using assms by blast
  have first: "first_row s w"
    using new ok policies by (cases "nonempty (ii_parent x)") (auto simp: new_item_def sbind_Inr first_row_def split: option.splits)
  have "\<not> item_taken i w s \<Longrightarrow> P (set_item i w s)"
    using \<open>P s\<close> first assms(1) by (intro on_new) (auto simp: item_taken_def)
  then show "P (snd ((if item_taken i w s then case nonempty (ii_external x) of None \<Rightarrow> throw IntegrityError
        | Some k \<Rightarrow> bnd (gets (item_by_key owner k)) (\<lambda>old. case old of None \<Rightarrow> throw IntegrityError | Some (j, w') \<Rightarrow> ret (False, j, w'))
      else andthen (modify (set_item i w))
        (andthen (modify (append_work_event now owner i ''WORK_ITEM_CREATED'' [(''state'', JStr ''PENDING'')])) (ret (True, i, w)))) s))"
    using \<open>P s\<close>
    by (cases "item_taken i w s"; cases "nonempty (ii_external x)"; cases "item_by_key owner (the (nonempty (ii_external x))) s")
      (simp_all add: bnd_run on_event split_beta)
qed assumption

lemma keep_create: "keep P (create_work_item cv now generated run owner x)"
  unfolding create_work_item_def
  by (rule keep_lift_bnd, rule keep_lift_bnd, rule keep_lift_bnd, rule keep_bnd, rule keep_insert, (simp add: text_of_Inr), assumption, assumption)
    (intro outer keep_case_prod keep_if)

end

section \<open>Reachable states\<close>

text \<open>One call of the service, whether it returns or raises; the durable runtime is as it is found.\<close>

datatype work_call =
    Create conversions rat string string string item_input
  | Transition rat string string string string "jobj option"
  | Checkout "db option" rat string string string "string option"
  | Start "db option" rat string string string "string option" "string option"
  | Release rat string string string
  | Reassign rat string string string "string option"
  | Failure rat string string string string bool "string option"
  | Begin_Recovery rat string string string "string option" "string option"
  | Complete_Recovery rat string string string string
  | Quality_Gate rat string string bool string "string list option" string "jobj option"
  | Submit rat string string "string list option"
  | Decide rat string string string string string string string "string list option"
  | Interaction "db option" rat string string string
  | Control "(string \<times> string) option" rat string string string
  | Activity activity

fun after_call :: "work_call \<Rightarrow> gov \<Rightarrow> gov" where
  "after_call (Create cv now generated run owner x) g = snd (create_work_item cv now generated run owner x g)"
| "after_call (Transition now i owner state reason extra) g = snd (transition_work_item now i owner state reason extra g)"
| "after_call (Checkout durable now i owner run agent) g = snd (checkout durable now i owner run agent g)"
| "after_call (Start durable now i owner run agent expected) g = snd (start_execution durable now i owner run agent expected g)"
| "after_call (Release now i owner run) g = snd (release_run_locks now i owner run g)"
| "after_call (Reassign now i owner agent expected) g = snd (reassign_work_item now i owner agent expected g)"
| "after_call (Failure now generated i owner cls effect given) g = snd (record_failure now generated i owner cls effect given g)"
| "after_call (Begin_Recovery now i owner cls run agent) g = snd (begin_recovery now i owner cls run agent g)"
| "after_call (Complete_Recovery now i owner outcome reason) g = snd (complete_recovery now i owner outcome reason g)"
| "after_call (Quality_Gate now i owner passed reason ev revision extra) g =
     snd (record_quality_gate now i owner passed reason ev revision extra g)"
| "after_call (Submit now i owner ev) g = snd (submit_for_policy now i owner ev g)"
| "after_call (Decide now generated i owner actor_type actor decision comment ev) g =
     snd (decide_policy_stage now generated i owner actor_type actor decision comment ev g)"
| "after_call (Interaction durable now i owner oid) g = snd (complete_receipted_interaction durable now i owner oid g)"
| "after_call (Control receipt now i owner rid) g = snd (complete_control_mutation receipt now i owner rid g)"
| "after_call (Activity a) g = snd (log_activity a g)"

definition after_calls :: "work_call list \<Rightarrow> gov" where
  "after_calls cs = fold after_call cs empty_gov"

context gov_invariant
begin

text \<open>What holds at first and is kept holds after any calls.\<close>

lemma after_call: "P g \<Longrightarrow> P (after_call c g)"
  by (cases c) (simp_all add: keepD [where P = P] keep_create keep_transition keep_checkout keep_start keep_release keep_reassign
      keep_failure keep_begin_recovery keep_complete_recovery keep_gate keep_submit keep_decide keep_receipt keep_control keep_log_activity)

lemma after_calls: "P empty_gov \<Longrightarrow> P (after_calls cs)"
  unfolding after_calls_def by (induction cs rule: rev_induct) (simp_all add: after_call)

end

text \<open>
  A property of every row, given the decisions taken so far: what the changes, the first row, a
  recorded failure and a further decision keep holds of all rows after any calls.
\<close>

locale item_invariant =
  fixes Q :: "review_decision list \<Rightarrow> string \<Rightarrow> work_item \<Rightarrow> bool"
  assumes item_change: "item_change g i w w' \<Longrightarrow> Q (gv_decisions g) i w \<Longrightarrow> Q (gv_decisions g) i w'"
    and item_new: "first_row g w \<Longrightarrow> Q ds i w"
    and item_failure: "Q ds i w \<Longrightarrow> Q ds i (failed_item now c action w)"
    and item_decision: "Q ds i w \<Longrightarrow> Q (ds @ [x]) i w"

sublocale item_invariant \<subseteq> gov_invariant "\<lambda>g. \<forall>i w. dget (gv_items g) i = Some w \<longrightarrow> Q (gv_decisions g) i w"
proof
  fix g i w w'
  assume "\<forall>i w. dget (gv_items g) i = Some w \<longrightarrow> Q (gv_decisions g) i w" and "dget (gv_items g) i = Some w" and "item_change g i w w'"
  then show "\<forall>j v. dget (gv_items (set_item i w' g)) j = Some v \<longrightarrow> Q (gv_decisions (set_item i w' g)) j v"
    using item_change by simp
qed (simp_all add: item_new item_failure item_decision)

context item_invariant
begin

lemma always: "dget (gv_items (after_calls cs)) i = Some w \<Longrightarrow> Q (gv_decisions (after_calls cs)) i w"
  using after_calls [of cs] by (simp add: empty_gov_def)

end

end
