(* ===== verification/Work_Properties.thy ===== *)
theory Work_Properties
  imports Work_Invariants
begin

text \<open>
  What holds of the work items after any calls of the governance service: the quality gate, the
  stages of review, the retries and the locks of execution. Each part is a predicate that
  interprets \<open>gov_invariant\<close>.
\<close>

section \<open>What the policies promise\<close>

lemma read_stages_distinct:
  "read_stages cv done' xs = Inr ss \<Longrightarrow> distinct (map sg_id done') \<Longrightarrow> distinct (map sg_id ss)"
proof (induction xs arbitrary: done')
  case (Cons x xs)
  then obtain s where s: "read_stage cv (map sg_id done') x = Inr s" "read_stages cv (done' @ [s]) xs = Inr ss"
    by (auto simp: sbind_Inr)
  then have "sg_id s \<notin> set (map sg_id done')"
    by (cases x) (auto simp: read_stage_def sbind_Inr scheck_Inr Let_def)
  then show ?case using Cons.IH [OF s(2)] Cons.prems(2) by auto
qed simp

lemma policy_stages_distinct: "read_exec_policy cv v = Inr p \<Longrightarrow> distinct (map sg_id (ep_stages p))"
  unfolding read_exec_policy_def Let_def sbind_Inr
  by (auto dest!: read_stages_distinct split: option.splits json.splits)

lemma number_case_Inr:
  "(case v of Some (JNum q) \<Rightarrow> f q | _ \<Rightarrow> Inl e) = Inr p \<Longrightarrow> \<exists>q. v = Some (JNum q) \<and> f q = Inr p"
  by (auto split: option.splits json.splits)

lemma retry_attempts_bounded: "read_retry_policy cv v = Inr p \<Longrightarrow> 0 \<le> rp_attempts p \<and> rp_attempts p \<le> 100"
  unfolding read_retry_policy_def Let_def
  by (drule number_case_Inr) (auto simp only: sbind_Inr scheck_Inr Inr_Inl_False sum.inject retry_policy.simps; linarith)

section \<open>The quality gate\<close>

definition gate_passed :: "exec_state \<Rightarrow> bool" where
  "gate_passed e \<longleftrightarrow> (case es_gate e of None \<Rightarrow> False | Some q \<Rightarrow> qg_passed q)"

definition gated :: "work_item \<Rightarrow> bool" where
  "gated w \<longleftrightarrow> (wi_state w \<in> {''RUNNING'', ''REPAIRING''} \<longrightarrow> \<not> gate_passed (wi_exec w))
     \<and> (wi_state w \<in> {''IN_REVIEW'', ''APPROVAL_REQUIRED'', ''READY_FOR_PROMOTION''} \<longrightarrow> gate_ok (wi_policy w) (wi_exec w))
     \<and> (wi_state w = ''COMPLETED'' \<longrightarrow> gate_ok (wi_policy w) (wi_exec w) \<or> dget (wi_meta w) ''control_receipt_id'' \<noteq> None)"

lemma stale_not_passed [simp]: "\<not> gate_passed (stale_gate now why e)"
  by (simp add: gate_passed_def stale_gate_def split: option.split)

lemma keys_survive_update: "dget d k \<noteq> None \<Longrightarrow> dget (dupdate d e) k \<noteq> None"
  by (simp add: dget_dupdate split: option.split)

lemma completed_from: "''COMPLETED'' \<in> set (row_of work_transitions s) \<longleftrightarrow> s = ''READY_FOR_PROMOTION''"
  by (auto simp: row_of_def work_transitions_def)

lemma gate_ok_same: "es_gate e = es_gate e' \<Longrightarrow> gate_ok p e = gate_ok p e'"
  by (simp add: gate_ok_def)

lemma decided_gate: "decided p s d e = (t, e') \<Longrightarrow> es_gate e' = es_gate e"
  by (auto simp: decided_def at_stage_def Let_def split: if_splits)

lemma decided_state:
  "decided p s d e = (t, e') \<Longrightarrow> t \<in> {''CHANGES_REQUESTED'', ''FAILED'', ''READY_FOR_PROMOTION'', ''IN_REVIEW'', ''APPROVAL_REQUIRED''}"
  by (auto simp: decided_def stage_target_def Let_def split: if_splits option.splits)

lemma receipt_meta_key: "dget (receipt_meta k r d) k \<noteq> None"
  by (simp add: receipt_meta_def)

lemma receipt_meta_keeps: "dget d k \<noteq> None \<Longrightarrow> dget (receipt_meta k' r d) k \<noteq> None"
  by (simp add: receipt_meta_def)

text \<open>A change that leaves the policy and the gate and moves to a state the gate has no part in, or where it has passed.\<close>

lemma gated_ok:
  "gate_ok (wi_policy w) (wi_exec w) \<Longrightarrow> wi_state w \<notin> {''RUNNING'', ''REPAIRING''} \<Longrightarrow> gated w"
  by (auto simp: gated_def)

lemma gated_free:
  "wi_state w \<notin> {''RUNNING'', ''REPAIRING'', ''IN_REVIEW'', ''APPROVAL_REQUIRED'', ''READY_FOR_PROMOTION'', ''COMPLETED''} \<Longrightarrow> gated w"
  by (simp add: gated_def)

lemma gated_same:
  "gated w \<Longrightarrow> wi_state w' = wi_state w \<Longrightarrow> wi_exec w' = wi_exec w \<Longrightarrow> wi_policy w' = wi_policy w \<Longrightarrow> wi_meta w' = wi_meta w \<Longrightarrow> gated w'"
  by (simp add: gated_def)

lemma gated_change:
  assumes "item_change g i w w'" and "gated w"
  shows "gated w'"
  using assms(1)
proof cases
  case (ch_transition target now extra)
  consider "target = wi_state w" | "target \<noteq> wi_state w" "target \<in> {''RUNNING'', ''REPAIRING''}"
    | "target \<noteq> wi_state w" "target = ''COMPLETED''"
    | "target \<in> {''IN_REVIEW'', ''APPROVAL_REQUIRED'', ''READY_FOR_PROMOTION''}"
    | "target \<notin> {''RUNNING'', ''REPAIRING''}" "target \<notin> {''IN_REVIEW'', ''APPROVAL_REQUIRED'', ''READY_FOR_PROMOTION''}" "target \<noteq> ''COMPLETED''"
    by argo
  then show ?thesis
  proof cases
    case 1
    then show ?thesis using assms(2) keys_survive_update [of "wi_meta w" "''control_receipt_id''" extra]
      unfolding ch_transition(1) gated_def by (simp, blast)
  next
    case 2
    then show ?thesis unfolding ch_transition(1) by (auto simp: gated_def)
  next
    case 3
    then have "wi_state w = ''READY_FOR_PROMOTION''" using ch_transition(4) completed_from by simp
    then have "gate_ok (wi_policy w) (wi_exec w)" using assms(2) by (simp add: gated_def)
    then show ?thesis unfolding ch_transition(1) using 3 by (intro gated_ok) simp_all
  next
    case 4
    then have "gate_ok (wi_policy w) (wi_exec w)" and "target \<notin> {''RUNNING'', ''REPAIRING''}" using ch_transition(5) by auto
    then show ?thesis unfolding ch_transition(1) by (intro gated_ok) auto
  next
    case 5
    then show ?thesis unfolding ch_transition(1) by (intro gated_free) simp
  qed
next
  case (ch_start run agent durable now)
  then show ?thesis by (simp add: gated_def)
next
  case (ch_release run now)
  then show ?thesis using assms(2) by (auto intro: gated_same)
next
  case (ch_gate q now)
  then show ?thesis by (simp add: gated_def gate_passed_def)
next
  case (ch_submit n es now)
  then have "gate_ok (wi_policy w') (wi_exec w')" using gate_ok_same [of "wi_exec w'" "wi_exec w"] by (simp add: at_stage_def)
  then show ?thesis using ch_submit(1) by (intro gated_ok) (simp_all add: stage_target_def split: option.split)
next
  case (ch_decide s x d target e now)
  then have "gate_ok (wi_policy w') (wi_exec w')" using gate_ok_same [of e "wi_exec w"] decided_gate by fastforce
  then show ?thesis using ch_decide decided_state by (intro gated_ok) fastforce+
next
  case (ch_receipt oid now)
  then show ?thesis by (simp add: gated_def gate_ok_def)
next
  case (ch_control rid now)
  then show ?thesis by (simp add: gated_def receipt_meta_key)
qed (use assms(2) in \<open>auto intro: gated_same gated_free\<close>)

interpretation work_gate: item_invariant "\<lambda>_ _. gated"
proof
  show "first_row g w \<Longrightarrow> gated w" for g w
    by (rule gated_free) (simp add: first_row_def)
  show "gated w \<Longrightarrow> gated (failed_item now c action w)" for now c action w
    by (rule gated_free) (simp add: failed_item_def)
qed (auto intro: gated_change)

section \<open>The stages of review\<close>

text \<open>An approval of the stage on the item by an actor the stage allows.\<close>

definition approves :: "string \<Rightarrow> review_stage \<Rightarrow> review_decision \<Rightarrow> bool" where
  "approves i s x \<longleftrightarrow> rd_item x = i \<and> rd_stage x = sg_id s \<and> rd_decision x = ''approved'' \<and> actor_allowed s (rd_actor_type x) (rd_actor x)"

definition reviewed :: "review_decision list \<Rightarrow> string \<Rightarrow> work_item \<Rightarrow> bool" where
  "reviewed ds i w \<longleftrightarrow> (\<forall>s \<in> set (take (es_index (wi_exec w)) (ep_stages (wi_policy w))). \<exists>x \<in> set ds. approves i s x)
     \<and> (es_status (wi_exec w) = Some ''passed'' \<longrightarrow> length (ep_stages (wi_policy w)) \<le> es_index (wi_exec w))"

lemma reviewed_same:
  "reviewed ds i w \<Longrightarrow> wi_policy w' = wi_policy w \<Longrightarrow> es_index (wi_exec w') = es_index (wi_exec w) \<Longrightarrow>
   es_status (wi_exec w') = es_status (wi_exec w) \<Longrightarrow> reviewed ds i w'"
  by (simp add: reviewed_def)

lemma stale_gate_review [simp]: "es_index (stale_gate now why e) = es_index e" "es_status (stale_gate now why e) = es_status e"
  by (simp_all add: stale_gate_def)

lemma at_stage_review [simp]: "es_index (at_stage n s e) = n" "es_status (at_stage n s e) = Some (if s = None then ''passed'' else ''pending'')"
  by (simp_all add: at_stage_def split: option.split)

lemma stage_at_None: "stage_at p n = None \<longleftrightarrow> length (ep_stages p) \<le> n"
  by (auto simp: stage_at_def)

lemma reviewed_change:
  assumes "item_change g i w w'" and "reviewed (gv_decisions g) i w"
  shows "reviewed (gv_decisions g) i w'"
  using assms(1)
proof cases
  case (ch_submit n es now)
  then show ?thesis using assms(2) by (auto simp: reviewed_def stage_at_None)
next
  case (ch_decide s x d target e now)
  consider "d = ''approved''" | "d = ''changes_requested''" | "d = ''rejected''" using ch_decide by auto
  then show ?thesis
  proof cases
    case 1
    have s: "es_index (wi_exec w) < length (ep_stages (wi_policy w))" "s = ep_stages (wi_policy w) ! es_index (wi_exec w)"
      using ch_decide(3) by (simp_all add: stage_at_def split: if_splits)
    have "approves i s x" using ch_decide 1 by (simp add: approves_def)
    moreover have "wi_exec w' = e" "wi_policy w' = wi_policy w" using ch_decide(1) by simp_all
    moreover have "es_index e = es_index (wi_exec w) + 1"
        "es_status e = Some (if stage_at (wi_policy w) (es_index (wi_exec w) + 1) = None then ''passed'' else ''pending'')"
      using ch_decide 1 by (auto simp: decided_def Let_def)
    ultimately show ?thesis
      using assms(2) s ch_decide(4) by (auto simp: reviewed_def take_Suc_conv_app_nth stage_at_None)
  next
    case 2
    then show ?thesis using assms(2) ch_decide by (auto simp: reviewed_def decided_def)
  next
    case 3
    then show ?thesis using assms(2) ch_decide by (auto simp: reviewed_def decided_def)
  qed
qed (use assms(2) in \<open>simp_all add: reviewed_def split: if_split\<close>)

lemma reviewed_more: "reviewed ds i w \<Longrightarrow> reviewed (ds @ [x]) i w"
  by (auto simp: reviewed_def)

interpretation work_review: item_invariant reviewed
proof
  show "first_row g w \<Longrightarrow> reviewed ds i w" for g w ds i
    by (simp add: first_row_def reviewed_def fresh_exec_def)
qed (simp_all add: reviewed_change reviewed_more, simp add: failed_item_def reviewed_def)

section \<open>Retries\<close>

lemma change_keeps:
  "item_change g i w w' \<Longrightarrow> wi_retries w' = wi_retries w \<and> wi_retry w' = wi_retry w \<and> wi_policy w' = wi_policy w"
  by (cases rule: item_change.cases, assumption) simp_all

interpretation work_policies: item_invariant "\<lambda>_ _ w. policies_read (wi_policy w) (wi_retry w)"
  by standard (use change_keeps in \<open>fastforce simp: first_row_def failed_item_def\<close>)+

lemma retry_exhausted: "read_retry_policy cv v = Inr p \<Longrightarrow> rp_exhausted p \<noteq> ''RETRY''"
  unfolding read_retry_policy_def Let_def
  by (drule number_case_Inr) (auto simp only: sbind_Inr scheck_Inr Inr_Inl_False sum.inject retry_policy.simps; simp)

lemma next_action_retry:
  "policies_read ep rp \<Longrightarrow> next_action rp cls effect n = ''RETRY'' \<Longrightarrow> n \<le> rp_attempts rp"
  using retry_exhausted by (auto simp: policies_read_def next_action_def Let_def split: if_splits)

definition granted_retries :: "string \<Rightarrow> gov \<Rightarrow> int" where
  "granted_retries i g = int (length (filter (grants_retry i) (gv_events g)))"

definition retry_row :: "work_item option \<Rightarrow> int \<Rightarrow> bool" where
  "retry_row row n \<longleftrightarrow> (case row of None \<Rightarrow> n = 0
     | Some w \<Rightarrow> policies_read (wi_policy w) (wi_retry w) \<and> n \<le> wi_retries w \<and> n \<le> rp_attempts (wi_retry w))"

definition retries_counted :: "gov \<Rightarrow> bool" where
  "retries_counted g \<longleftrightarrow> (\<forall>i. retry_row (dget (gv_items g) i) (granted_retries i g))"

lemma granted_set_item [simp]: "granted_retries j (set_item i w g) = granted_retries j g"
  by (simp add: granted_retries_def set_item_def)

lemma granted_other: "t \<noteq> failure_recorded \<Longrightarrow> granted_retries j (append_work_event now owner i t payload g) = granted_retries j g"
  by (simp add: granted_retries_def append_work_event_def grants_retry_def)

lemma granted_failure:
  "dget payload ''next_action'' = Some (JStr action) \<Longrightarrow>
   granted_retries j (append_work_event now owner i failure_recorded payload g) = granted_retries j g + (if j = i \<and> action = ''RETRY'' then 1 else 0)"
  by (simp add: granted_retries_def append_work_event_def grants_retry_def)

interpretation work_retries: gov_invariant retries_counted
proof
  fix g i w w' assume "retries_counted g" and "dget (gv_items g) i = Some w" and "item_change g i w w'"
  moreover from this have "retry_row (Some w) (granted_retries i g)" by (metis retries_counted_def)
  ultimately show "retries_counted (set_item i w' g)"
    using change_keeps by (simp add: retries_counted_def retry_row_def)
next
  fix g i w assume *: "retries_counted g" "dget (gv_items g) i = None" "first_row g w"
  then have "0 \<le> rp_attempts (wi_retry w)"
    using retry_attempts_bounded by (auto simp: first_row_def policies_read_def)
  moreover have "retry_row None (granted_retries i g)" using * by (metis retries_counted_def)
  ultimately show "retries_counted (set_item i w g)"
    using * by (simp add: retries_counted_def first_row_def retry_row_def)
next
  fix g i w action cls effect payload now owner c
  assume *: "retries_counted g" "dget (gv_items g) i = Some w" "action = next_action (wi_retry w) cls effect (wi_retries w + 1)"
    "dget payload ''next_action'' = Some (JStr action)"
  then have row: "retry_row (Some w) (granted_retries i g)" by (metis retries_counted_def)
  have again: "action = ''RETRY'' \<Longrightarrow> policies_read (wi_policy w) (wi_retry w) \<Longrightarrow> wi_retries w + 1 \<le> rp_attempts (wi_retry w)"
    unfolding *(3) by (rule next_action_retry; assumption)
  let ?g = "append_work_event now owner i failure_recorded payload (set_item i (failed_item now c action w) g)"
  have "retry_row (dget (gv_items ?g) j) (granted_retries j ?g)" for j
  proof (cases "j = i")
    case True
    then show ?thesis using row again
      by (cases "action = ''RETRY''") (simp_all add: granted_failure [OF *(4)] failed_item_def retry_row_def)
  next
    case False
    then show ?thesis using *(1) by (simp add: granted_failure [OF *(4)] retries_counted_def)
  qed
  then show "retries_counted ?g" by (simp add: retries_counted_def)
next
  fix g t now owner i payload assume "retries_counted g" and "t \<noteq> failure_recorded"
  then show "retries_counted (append_work_event now owner i t payload g)"
    by (simp add: retries_counted_def granted_other)
qed (simp_all add: retries_counted_def granted_retries_def)

section \<open>Starting an execution\<close>

text \<open>What a call to start the item needs.\<close>

definition startable :: "db option \<Rightarrow> string \<Rightarrow> string \<Rightarrow> string option \<Rightarrow> string option \<Rightarrow> gov \<Rightarrow> work_item \<Rightarrow> bool" where
  "startable durable owner run agent expected g w \<longleftrightarrow>
     wi_owner w = owner \<and> wi_run w = run \<and> wi_state w \<in> {''PENDING'', ''QUEUED'', ''RUNNING''} \<and> wi_blockers w = []
   \<and> (\<forall>e. expected = Some e \<longrightarrow> wi_state w = e)
   \<and> (\<forall>a b. nonempty agent = Some a \<longrightarrow> wi_agent w = Some b \<longrightarrow> a = b)
   \<and> (\<forall>j \<in> set (wi_dependencies w). \<exists>v. dget (gv_items g) j = Some v \<and> wi_owner v = owner \<and> wi_state v = ''COMPLETED'')
   \<and> (stale_lock durable owner (wi_execution w) = Inr True
      \<or> stale_lock durable owner (wi_execution w) = Inr False \<and> lock_free (wi_execution w) run)
   \<and> (lock_free (wi_checkout w) run \<or> stale_lock durable owner (wi_checkout w) = Inr True)"

lemma dependencies_done_iff:
  "dependencies_done owner deps g \<longleftrightarrow> (\<forall>j \<in> set deps. \<exists>v. dget (gv_items g) j = Some v \<and> wi_owner v = owner \<and> wi_state v = ''COMPLETED'')"
  by (auto simp: dependencies_done_def list_all_iff split: option.splits)

lemma item_info_Inr: "bnd (item_info i owner) f g = (Inr x, g') \<longleftrightarrow> (\<exists>w. dget (gv_items g) i = Some w \<and> wi_owner w = owner \<and> f w g = (Inr x, g'))"
  by (cases "dget (gv_items g) i") (auto simp: item_info_def bnd_run andthen_run require_def)

lemma item_info_done: "item_info i owner g = (Inr w, g') \<longleftrightarrow> dget (gv_items g) i = Some w \<and> wi_owner w = owner \<and> g' = g"
  by (cases "dget (gv_items g) i") (auto simp: item_info_def bnd_run andthen_run require_def)

lemma heal_execution_Inr:
  "bnd (heal_execution durable now i owner w) f g = (Inr x, g') \<longleftrightarrow>
     stale_lock durable owner (wi_execution w) = Inr False \<and> f w g = (Inr x, g')
   \<or> stale_lock durable owner (wi_execution w) = Inr True \<and> f (w\<lparr>wi_execution := None, wi_updated := now\<rparr>)
       (lock_cleared now owner i ''execution_run_id'' (wi_execution w) (set_item i (w\<lparr>wi_execution := None, wi_updated := now\<rparr>) g)) = (Inr x, g')"
  by (cases "stale_lock durable owner (wi_execution w)") (auto simp: heal_execution_def lift_sum_def bnd_run Let_def)

lemma log_activity_ok:
  "text_of 80 (av_actor_type a) = Inr (av_actor_type a) \<Longrightarrow> opt_text 256 (av_actor a) = Inr (av_actor a) \<Longrightarrow>
   text_of 160 (av_action a) = Inr (av_action a) \<Longrightarrow> text_of 80 (av_outcome a) = Inr (av_outcome a) \<Longrightarrow>
   log_activity a g = (Inr (), g\<lparr>gv_activity := gv_activity g @ [a]\<rparr>)"
  by (simp add: log_activity_def lift_sum_def bnd_run)

lemmas start_steps = then_Inr [where m = "atomically n" for n] then_Inr [where m = "log_activity a" for a] atomically_Inr item_info_Inr
  item_info_done require_Inr gets_Inr heal_execution_Inr lift_sum_Inr andthen_modify modify_Inr

lemma activity_fields [simp]:
  "av_actor_type (system_activity now owner a out i) = ''system''" "av_actor (system_activity now owner a out i) = []"
  "av_action (system_activity now owner a out i) = a" "av_outcome (system_activity now owner a out i) = out"
  by (simp_all add: system_activity_def)

lemma fixed_texts:
  "text_of 80 ''system'' = Inr ''system''" "text_of 160 ''work_item.execution.start'' = Inr ''work_item.execution.start''"
  "text_of 80 ''ok'' = Inr ''ok''" "opt_text 256 [] = Inr []"
  by code_simp+

lemma log_start:
  "log_activity ((system_activity now owner ''work_item.execution.start'' ''ok'' i)\<lparr>av_run := r, av_agent := a\<rparr>) g = (Inr x, g')
   \<longleftrightarrow> g' = g\<lparr>gv_activity := gv_activity g @ [(system_activity now owner ''work_item.execution.start'' ''ok'' i)\<lparr>av_run := r, av_agent := a\<rparr>]\<rparr>"
  by (subst log_activity_ok) (auto simp: fixed_texts)

definition started :: "rat \<Rightarrow> string \<Rightarrow> string option \<Rightarrow> work_item \<Rightarrow> work_item" where
  "started now run agent w = w\<lparr>wi_checkout := Some run, wi_execution := Some run, wi_agent := coalesce agent (wi_agent w),
     wi_state := ''RUNNING'', wi_exec := stale_gate now (arrow (wi_state w) ''RUNNING'') (wi_exec w), wi_updated := now\<rparr>"

lemma started_healed: "started now run agent (w\<lparr>wi_execution := None, wi_updated := now\<rparr>) = started now run agent w"
  by (simp add: started_def)

lemma started_owner: "wi_owner (started now run agent w) = wi_owner w"
  by (simp add: started_def)

lemma ex_true: "(\<exists>a. r = Inr a \<and> a \<and> Q) \<longleftrightarrow> r = Inr True \<and> Q"
  by auto

lemma lock_free_None: "lock_free (wi_execution (w\<lparr>wi_execution := None, wi_updated := now\<rparr>)) run \<longleftrightarrow> True"
  by (simp add: lock_free_def nonempty_def)

lemma healed_checkout: "wi_checkout (w\<lparr>wi_execution := None, wi_updated := now\<rparr>) = wi_checkout w"
  by simp

lemma startable_code:
  "startable durable owner run agent expected g w \<longleftrightarrow> wi_owner w = owner
     \<and> (case expected of None \<Rightarrow> True | Some e \<Rightarrow> wi_state w = e \<and> wi_blockers w = []) \<and> wi_state w \<noteq> ''RECOVERING''
     \<and> (wi_run w = run \<and> wi_state w \<in> {''PENDING'', ''QUEUED'', ''RUNNING''} \<and> wi_blockers w = [])
     \<and> (case nonempty agent of None \<Rightarrow> True | Some a \<Rightarrow> wi_agent w = None \<or> wi_agent w = Some a)
     \<and> dependencies_done owner (wi_dependencies w) g
     \<and> (stale_lock durable owner (wi_execution w) = Inr True
        \<or> stale_lock durable owner (wi_execution w) = Inr False \<and> lock_free (wi_execution w) run)
     \<and> (if lock_free (wi_checkout w) run then Inr True else stale_lock durable owner (wi_checkout w)) = Inr True"
  unfolding startable_def dependencies_done_iff
  by (cases expected; cases "nonempty agent"; cases "wi_agent w") auto

lemma start_iff:
  "start_execution durable now i owner run agent expected g = (Inr w', g') \<longleftrightarrow>
   (\<exists>w. dget (gv_items g) i = Some w \<and> startable durable owner run agent expected g w \<and> w' = started now run agent w \<and>
     g' = (let h = append_work_event now owner i ''WORK_ITEM_EXECUTION_STARTED'' [(''run_id'', JStr run), (''agent_id'', jopt agent)]
        (set_item i w' (if stale_lock durable owner (wi_execution w) = Inr True
           then lock_cleared now owner i ''execution_run_id'' (wi_execution w) (set_item i (w\<lparr>wi_execution := None, wi_updated := now\<rparr>) g)
           else g)) in h\<lparr>gv_activity := gv_activity h @ [(system_activity now owner ''work_item.execution.start'' ''ok'' i)
             \<lparr>av_run := Some run, av_agent := agent\<rparr>]\<rparr>))"
proof (cases "dget (gv_items g) i")
  case (Some v)
  then have row: "(\<exists>w. dget (gv_items g) i = Some w \<and> Q w) \<longleftrightarrow> Q v" for Q by simp
  show ?thesis
    unfolding start_execution_def startable_code
    apply (simp only: start_steps log_start started_def [symmetric] started_healed ex_true lock_free_None healed_checkout row)
    apply (cases "stale_lock durable owner (wi_execution v) = Inr True")
     apply (simp add: Let_def split del: if_split)
     apply (rule iffI; elim exE conjE; simp add: started_owner split del: if_split)
    apply (cases "stale_lock durable owner (wi_execution v) = Inr False")
     apply (simp add: Let_def split del: if_split)
     apply (rule iffI; elim exE conjE; simp add: started_owner split del: if_split)
    by simp
qed (simp add: start_execution_def then_Inr atomically_Inr item_info_Inr)

lemma displaced_runs_have_ended:
  assumes "startable durable owner run agent expected g w" and "r \<notin> {[], run}" and "wi_execution w = Some r \<or> wi_checkout w = Some r"
  shows "run_terminal durable r owner = Inr True"
  using assms(3)
proof
  assume "wi_execution w = Some r"
  then have "stale_lock durable owner (wi_execution w) = run_terminal durable r owner" and "\<not> lock_free (wi_execution w) run"
    using assms(2) by (auto simp: stale_lock_def lock_free_def nonempty_def)
  with assms(1) show ?thesis by (auto simp: startable_def)
next
  assume "wi_checkout w = Some r"
  then have "stale_lock durable owner (wi_checkout w) = run_terminal durable r owner" and "\<not> lock_free (wi_checkout w) run"
    using assms(2) by (auto simp: stale_lock_def lock_free_def nonempty_def)
  with assms(1) show ?thesis by (auto simp: startable_def)
qed

lemma start_effect:
  assumes "start_execution durable now i owner run agent expected g = (Inr w', g')"
  shows "dget (gv_items g') i = Some w'" "wi_state w' = ''RUNNING''" "wi_checkout w' = Some run" "wi_execution w' = Some run"
    "\<not> gate_passed (wi_exec w')" "j \<noteq> i \<Longrightarrow> dget (gv_items g') j = dget (gv_items g) j"
  using assms unfolding start_iff by (auto simp: Let_def started_def lock_cleared_def)

section \<open>Revived and resubmitted work\<close>

lemmas work_steps = then_Inr [where m = "atomically n" for n] then_Inr [where m = "log_activity a" for a] bnd_Inr [where m = "atomically n" for n]
  bnd_Inr [where m = "item_info i owner" for i owner] atomically_Inr item_info_Inr item_info_done require_Inr gets_Inr lift_sum_Inr andthen_modify
  modify_Inr ret_Inr

lemma after_activity [simp]:
  "gv_items (g\<lparr>gv_activity := a\<rparr>) = gv_items g" "gv_decisions (g\<lparr>gv_activity := a\<rparr>) = gv_decisions g"
  by simp_all

lemma no_way_out: "s \<in> set terminal_work_states \<Longrightarrow> t \<notin> set (row_of work_transitions s)"
  by (auto simp: terminal_work_states_def row_of_def work_transitions_def)

lemma terminal_transition_fails:
  assumes "dget (gv_items g) i = Some w" and "wi_state w \<in> set terminal_work_states" and "py_upper state \<noteq> wi_state w"
  shows "isl (fst (transition_work_item now i owner state reason extra g)) \<and> snd (transition_work_item now i owner state reason extra g) = g"
  using assms no_way_out [OF assms(2)]
  by (auto simp: transition_work_item_def Let_def andthen_run bnd_run require_def atomically_def item_info_def)

lemma call_texts:
  "text_of 160 ''work_item.recovery.start'' = Inr ''work_item.recovery.start''"
  "text_of 160 ''work_item.recovery.complete'' = Inr ''work_item.recovery.complete''"
  "text_of 160 ''work_item.policy.decision'' = Inr ''work_item.policy.decision''"
  "text_of 80 ''changes_requested'' = Inr ''changes_requested''" "py_lower ''changes_requested'' = ''changes_requested''"
  "text_of 80 ''resume'' = Inr ''resume''" "py_lower ''resume'' = ''resume''" "recovery_target ''resume'' = Some ''QUEUED''"
  by code_simp+

lemma begin_recovery_ok:
  assumes "dget (gv_items g) i = Some w" and "wi_owner w = owner" and "dget recovery_capabilities (py_upper cls) = Some cs"
  shows "\<exists>g'. begin_recovery now i owner cls run agent g = (Inr (w\<lparr>wi_recovery := Some (py_upper cls), wi_state := ''RECOVERING'', wi_updated := now\<rparr>, cs), g')
    \<and> dget (gv_items g') i = Some (w\<lparr>wi_recovery := Some (py_upper cls), wi_state := ''RECOVERING'', wi_updated := now\<rparr>)"
  unfolding begin_recovery_def Let_def by (simp only: work_steps) (simp add: assms log_activity_ok call_texts fixed_texts)

lemma complete_recovery_ok:
  assumes "dget (gv_items g) i = Some w" and "wi_owner w = owner" and "wi_state w = ''RECOVERING''" and "opt_text 4000 reason = Inr why"
  shows "\<exists>g'. complete_recovery now i owner ''resume'' reason g = (Inr (w\<lparr>wi_state := ''QUEUED'', wi_recovery := None, wi_updated := now\<rparr>), g')
    \<and> dget (gv_items g') i = Some (w\<lparr>wi_state := ''QUEUED'', wi_recovery := None, wi_updated := now\<rparr>)"
  unfolding complete_recovery_def Let_def by (simp only: work_steps) (simp add: assms log_activity_ok call_texts fixed_texts)

lemma decide_changes_ok:
  assumes "dget (gv_items g) i = Some w" and "wi_owner w = owner" and "gate_ok (wi_policy w) (wi_exec w)"
    and "stage_at (wi_policy w) (es_index (wi_exec w)) = Some s" and "actor_allowed s actor_type actor"
    and "opt_text 10000 comment = Inr c" and "strings_of ev = Inr es" and "text_of 80 actor_type = Inr actor_type" and "opt_text 256 actor = Inr actor"
  shows "\<exists>g'. decide_policy_stage now n i owner actor_type actor ''changes_requested'' comment ev g =
      (Inr (w\<lparr>wi_state := ''CHANGES_REQUESTED'', wi_exec := (wi_exec w)\<lparr>es_status := Some ''changes_requested''\<rparr>, wi_updated := now\<rparr>), g')
    \<and> dget (gv_items g') i = Some (w\<lparr>wi_state := ''CHANGES_REQUESTED'', wi_exec := (wi_exec w)\<lparr>es_status := Some ''changes_requested''\<rparr>, wi_updated := now\<rparr>)"
  unfolding decide_policy_stage_def Let_def
  by (simp only: work_steps call_texts) (simp add: assms decided_def call_texts fixed_texts log_activity_ok)

lemma submit_ok:
  assumes "dget (gv_items g) i = Some w" and "wi_owner w = owner" and "gate_ok (wi_policy w) (wi_exec w)" and "strings_of ev = Inr es"
  shows "\<exists>w' g'. submit_for_policy now i owner ev g = (Inr w', g')
    \<and> wi_state w' = stage_target (stage_at (wi_policy w) (if es_status (wi_exec w) = Some ''changes_requested'' then es_index (wi_exec w) else 0))
    \<and> es_gate (wi_exec w') = es_gate (wi_exec w)"
  unfolding submit_for_policy_def Let_def by (simp only: work_steps) (simp add: assms at_stage_def)

section \<open>An example\<close>

text \<open>
  An item with one stage of review, for the witnesses: it is created, started, passes the gate, is
  submitted and approved; or it fails.
\<close>

definition demo_conv :: conversions where
  "demo_conv = \<lparr>cv_float = (\<lambda>_. Unusable), cv_str = (\<lambda>_. []), cv_clean = (\<lambda>s. s)\<rparr>"

definition demo_input :: item_input where
  "demo_input = \<lparr>ii_objective = ''o'', ii_goal = None, ii_external = None, ii_parent = None, ii_criteria = None, ii_blockers = None,
     ii_dependencies = None, ii_agent = None, ii_user = None, ii_required = None, ii_files = None, ii_resources = None, ii_scope = ''NONE'',
     ii_policy = Some [(''stages'', JList [JObj [(''id'', JStr ''s''), (''type'', JStr ''review''), (''allow_any_authorized'', JBool True)]])],
     ii_retry = None, ii_budget = None, ii_meta = None, ii_id = Some ''w''\<rparr>"

definition demo_row :: work_item where
  "demo_row = \<lparr>wi_owner = ''op'', wi_run = ''r'', wi_goal = None, wi_external = None, wi_parent = None, wi_objective = ''o'',
     wi_criteria = [], wi_blockers = [], wi_dependencies = [], wi_agent = None, wi_user = None, wi_required = [], wi_files = [],
     wi_resources = [], wi_scope = ''NONE'', wi_policy = \<lparr>ep_stages = [\<lparr>sg_id = ''s'', sg_type = ''review'', sg_agent = None,
       sg_user = None, sg_any = True\<rparr>], ep_gate = True\<rparr>, wi_exec = fresh_exec, wi_retry = \<lparr>rp_attempts = 3,
       rp_exhausted = ''REQUIRE_OPERATOR'', rp_replay = ''RECONCILE_FIRST'', rp_classes = [''dependency'', ''transport'', ''rate_limit'']\<rparr>,
     wi_recovery = None, wi_state = ''PENDING'', wi_checkout = None, wi_execution = None, wi_retries = 0, wi_chain = None,
     wi_budget = [], wi_meta = [], wi_created = 0, wi_updated = 0\<rparr>"

definition demo_gov :: gov where
  "demo_gov = \<lparr>gv_items = [(''w'', demo_row)],
     gv_events = [\<lparr>we_owner = ''op'', we_item = ''w'', we_type = ''WORK_ITEM_CREATED'', we_payload = [(''state'', JStr ''PENDING'')], we_at = 0\<rparr>],
     gv_decisions = [], gv_activity = [system_activity 0 ''op'' ''work_item.create'' ''ok'' ''w''\<lparr>av_run := Some ''r'', av_goal := None, av_agent := None\<rparr>]\<rparr>"

definition demo_create :: work_call where
  "demo_create = Create demo_conv 0 ''g'' ''r'' ''op'' demo_input"

definition demo_calls :: "work_call list" where
  "demo_calls = [Start None 1 ''w'' ''op'' ''r'' None None, Quality_Gate 2 ''w'' ''op'' True [] None [] None, Submit 3 ''w'' ''op'' None,
     Decide 4 ''d'' ''w'' ''op'' ''user'' ''me'' ''approved'' [] None, Failure 5 ''c'' ''w'' ''op'' ''transport'' False None]"

lemma demo_texts:
  "py_strip ''o'' = ''o''" "text_of 80 ''NONE'' = Inr ''NONE''" "text_of 160 ''work_item.create'' = Inr ''work_item.create''"
  "text_of 128 ''w'' = Inr ''w''"
  by code_simp+

lemma demo_fields:
  "ii_id demo_input = Some ''w''" "ii_parent demo_input = None" "ii_external demo_input = None" "ii_retry demo_input = None"
  "ii_goal demo_input = None" "ii_agent demo_input = None"
  by (simp_all add: demo_input_def)

lemma demo_policies:
  "read_exec_policy demo_conv (ii_policy demo_input) = Inr (wi_policy demo_row)"
  "read_retry_policy demo_conv None = Inr (wi_retry demo_row)"
  by code_simp+

lemma demo_new: "new_item 0 ''op'' ''r'' (wi_policy demo_row) (wi_retry demo_row) demo_input = Inr demo_row"
  by (simp add: new_item_def demo_input_def strings_of_def text_of_def opt_text_def scheck_def
      demo_texts [unfolded text_of_def opt_text_def scheck_def] object_of_def demo_row_def)

lemma demo_created: "after_calls (demo_create # cs) = fold after_call cs demo_gov"
proof -
  have "after_call demo_create empty_gov = demo_gov"
    by (simp add: demo_create_def demo_gov_def create_work_item_def insert_item_def demo_fields nonempty_def demo_texts demo_policies demo_new
        item_taken_def lift_sum_def bnd_run andthen_run require_def atomically_def empty_gov_def set_item_def append_work_event_def log_activity_ok
        fixed_texts item_info_def) (simp add: demo_row_def)
  then show ?thesis by (simp add: after_calls_def)
qed

definition demo_at :: "nat \<Rightarrow> work_item" where
  "demo_at n = the (dget (gv_items (fold after_call (take n demo_calls) demo_gov)) ''w'')"

lemma demo_has: "dget (gv_items (after_calls (demo_create # take n demo_calls))) ''w'' = Some (demo_at n)" if "n \<le> 5"
proof -
  have "list_all (\<lambda>n. dget (gv_items (fold after_call (take n demo_calls) demo_gov)) ''w'' \<noteq> None) [0,1,2,3,4,5]"
    by code_simp
  then have "dget (gv_items (fold after_call (take n demo_calls) demo_gov)) ''w'' \<noteq> None"
    using that by (auto simp: le_Suc_eq numeral_eq_Suc)
  then show ?thesis by (simp add: demo_created demo_at_def)
qed

lemma demo_story:
  "wi_state (demo_at 1) = ''RUNNING''" "wi_state (demo_at 3) = ''IN_REVIEW''" "wi_state (demo_at 4) = ''READY_FOR_PROMOTION''"
  "es_status (wi_exec (demo_at 4)) = Some ''passed''" "wi_state (demo_at 5) = ''RECOVERING''"
  by code_simp+

section \<open>Properties\<close>

text \<open>C36: After any calls of the governance service, failed ones included, an item that runs or is repaired carries
  no passed quality gate; one in review, in approval or ready for promotion has passed the gate its policy asks for; and
  one that is completed has passed it or was completed by a receipt of a control mutation.\<close>

theorem promotion_rests_on_the_gate:
  assumes "dget (gv_items (after_calls cs)) i = Some w"
  shows "(wi_state w \<in> {''RUNNING'', ''REPAIRING''} \<longrightarrow> \<not> gate_passed (wi_exec w))
    \<and> (wi_state w \<in> {''IN_REVIEW'', ''APPROVAL_REQUIRED'', ''READY_FOR_PROMOTION''} \<longrightarrow> gate_ok (wi_policy w) (wi_exec w))
    \<and> (wi_state w = ''COMPLETED'' \<longrightarrow> gate_ok (wi_policy w) (wi_exec w) \<or> dget (wi_meta w) ''control_receipt_id'' \<noteq> None)"
  using work_gate.always [OF assms] unfolding gated_def .

theorem promotion_rests_on_the_gate_witness:
  "(\<exists>w. dget (gv_items (after_calls (demo_create # take 1 demo_calls))) ''w'' = Some w \<and> \<not> gate_passed (wi_exec w))
   \<and> (\<exists>w. dget (gv_items (after_calls (demo_create # take 3 demo_calls))) ''w'' = Some w \<and> gate_ok (wi_policy w) (wi_exec w))"
  using promotion_rests_on_the_gate [OF demo_has [of 1]] promotion_rests_on_the_gate [OF demo_has [of 3]] demo_has [of 1] demo_has [of 3]
  by (simp add: demo_story(1) [simplified] demo_story)

text \<open>C38: When an item's review has passed, every stage of its policy has an approving decision on record, by an actor the
  stage allows, and the identifiers of the stages differ, so that no decision counts for two of them.\<close>

theorem passed_review_has_every_approval:
  assumes "dget (gv_items (after_calls cs)) i = Some w" and "es_status (wi_exec w) = Some ''passed''"
  shows "distinct (map sg_id (ep_stages (wi_policy w))) \<and> (\<forall>s \<in> set (ep_stages (wi_policy w)). \<exists>x \<in> set (gv_decisions (after_calls cs)).
    rd_item x = i \<and> rd_stage x = sg_id s \<and> rd_decision x = ''approved'' \<and> actor_allowed s (rd_actor_type x) (rd_actor x))"
proof -
  have "distinct (map sg_id (ep_stages (wi_policy w)))"
    using work_policies.always [OF assms(1)] policy_stages_distinct by (auto simp: policies_read_def)
  moreover have "\<exists>x \<in> set (gv_decisions (after_calls cs)). approves i s x" if "s \<in> set (ep_stages (wi_policy w))" for s
    using work_review.always [OF assms(1)] assms(2) that by (simp add: reviewed_def)
  ultimately show ?thesis by (simp add: approves_def)
qed

theorem passed_review_has_every_approval_witness:
  "\<exists>w. dget (gv_items (after_calls (demo_create # take 4 demo_calls))) ''w'' = Some w \<and> distinct (map sg_id (ep_stages (wi_policy w)))"
  using passed_review_has_every_approval [OF demo_has [of 4]] demo_has [of 4] by (simp add: demo_story)

text \<open>C39: However often an item fails, at most as many of its failures are answered with a retry as its policy allows attempts,
  which are never more than a hundred; and its counter of failures is at least the number of retries granted.\<close>

theorem retries_are_bounded:
  assumes "dget (gv_items (after_calls cs)) i = Some w"
  shows "granted_retries i (after_calls cs) \<le> rp_attempts (wi_retry w) \<and> rp_attempts (wi_retry w) \<le> 100
    \<and> granted_retries i (after_calls cs) \<le> wi_retries w"
proof -
  have "retries_counted empty_gov" by (simp add: retries_counted_def retry_row_def granted_retries_def empty_gov_def)
  then have "retry_row (Some w) (granted_retries i (after_calls cs))"
    using work_retries.after_calls [of cs] assms by (metis retries_counted_def)
  then show ?thesis using retry_attempts_bounded by (auto simp: retry_row_def policies_read_def)
qed

theorem retries_are_bounded_witness:
  "\<exists>w. dget (gv_items (after_calls (demo_create # take 5 demo_calls))) ''w'' = Some w \<and> rp_attempts (wi_retry w) \<le> 100"
  using retries_are_bounded [OF demo_has [of 5]] demo_has [of 5] by simp

text \<open>C37: A call to start an item returns exactly when the item is the owner's and the run's, waits to run, has no blockers and
  no other agent, all its dependencies are the owner's completed items, and no live run of another executes it or has checked
  it out. It then runs for this run alone, its gate no longer passed; no other item changes; and a lock of another run is
  displaced only when that run has ended.\<close>

theorem execution_starts_exactly_when_free:
  "((\<exists>w' g'. start_execution durable now i owner run agent expected g = (Inr w', g'))
      \<longleftrightarrow> (\<exists>w. dget (gv_items g) i = Some w \<and> startable durable owner run agent expected g w))
   \<and> (\<forall>w w' g'. start_execution durable now i owner run agent expected g = (Inr w', g') \<and> dget (gv_items g) i = Some w \<longrightarrow>
        dget (gv_items g') i = Some w' \<and> wi_state w' = ''RUNNING'' \<and> wi_checkout w' = Some run \<and> wi_execution w' = Some run
      \<and> \<not> gate_passed (wi_exec w') \<and> (\<forall>j. j \<noteq> i \<longrightarrow> dget (gv_items g') j = dget (gv_items g) j)
      \<and> (\<forall>r. r \<notin> {[], run} \<and> (wi_execution w = Some r \<or> wi_checkout w = Some r) \<longrightarrow> run_terminal durable r owner = Inr True))"
proof (intro conjI allI impI; (elim conjE)?)
  show "(\<exists>w' g'. start_execution durable now i owner run agent expected g = (Inr w', g'))
      \<longleftrightarrow> (\<exists>w. dget (gv_items g) i = Some w \<and> startable durable owner run agent expected g w)"
    unfolding start_iff by simp
next
  fix w w' g' r
  assume "start_execution durable now i owner run agent expected g = (Inr w', g')" and row: "dget (gv_items g) i = Some w"
    and r: "r \<notin> {[], run}" "wi_execution w = Some r \<or> wi_checkout w = Some r"
  then have "startable durable owner run agent expected g w" unfolding start_iff by auto
  with r show "run_terminal durable r owner = Inr True" by (rule displaced_runs_have_ended [rotated])
qed (simp_all add: start_effect)

theorem execution_starts_exactly_when_free_witness:
  "wi_state (demo_at 1) = ''RUNNING'' \<and> (\<exists>w' g'. start_execution None 1 ''w'' ''op'' ''r'' None None demo_gov = (Inr w', g'))"
proof -
  have "startable None ''op'' ''r'' None None demo_gov demo_row" "dget (gv_items demo_gov) ''w'' = Some demo_row"
    by (simp_all add: startable_def demo_row_def demo_gov_def stale_lock_def lock_free_def nonempty_def)
  then show ?thesis
    using execution_starts_exactly_when_free [of None 1 "''w''" "''op''" "''r''" None None demo_gov] demo_story(1) by blast
qed

text \<open>C40: The state machine refuses every transition of a completed, failed or cancelled item; yet starting a recovery looks at no
  state, and resuming from it puts the finished item back into the queue.\<close>

theorem final_states_are_not_final:
  assumes "dget (gv_items g) i = Some w" and "wi_owner w = owner" and "wi_state w \<in> set terminal_work_states"
    and "dget recovery_capabilities (py_upper cls) = Some cs" and "opt_text 4000 reason = Inr why"
  shows "(\<forall>state extra. py_upper state \<noteq> wi_state w \<longrightarrow> (\<exists>e. transition_work_item now i owner state reason extra g = (Inl e, g)))
    \<and> (\<exists>x g\<^sub>1 v g\<^sub>2. begin_recovery now i owner cls run agent g = (Inr x, g\<^sub>1)
        \<and> complete_recovery now i owner ''resume'' reason g\<^sub>1 = (Inr v, g\<^sub>2) \<and> dget (gv_items g\<^sub>2) i = Some v \<and> wi_state v = ''QUEUED'')"
proof (intro conjI allI impI)
  fix state extra assume "py_upper state \<noteq> wi_state w"
  from terminal_transition_fails [OF assms(1,3) this]
  show "\<exists>e. transition_work_item now i owner state reason extra g = (Inl e, g)"
    by (metis isl_def prod.collapse)
next
  let ?v = "w\<lparr>wi_recovery := Some (py_upper cls), wi_state := ''RECOVERING'', wi_updated := now\<rparr>"
  obtain g\<^sub>1 where 1: "begin_recovery now i owner cls run agent g = (Inr (?v, cs), g\<^sub>1)" "dget (gv_items g\<^sub>1) i = Some ?v"
    using begin_recovery_ok [OF assms(1,2,4)] by blast
  from complete_recovery_ok [OF 1(2) _ _ assms(5)] assms(2) 1(1)
  show "\<exists>x g\<^sub>1 v g\<^sub>2. begin_recovery now i owner cls run agent g = (Inr x, g\<^sub>1)
      \<and> complete_recovery now i owner ''resume'' reason g\<^sub>1 = (Inr v, g\<^sub>2) \<and> dget (gv_items g\<^sub>2) i = Some v \<and> wi_state v = ''QUEUED''"
    by fastforce
qed

theorem final_states_are_not_final_witness:
  "\<exists>e. transition_work_item 1 ''w'' ''op'' ''QUEUED'' [] None (set_item ''w'' (demo_row\<lparr>wi_state := ''COMPLETED''\<rparr>) demo_gov)
     = (Inl e, set_item ''w'' (demo_row\<lparr>wi_state := ''COMPLETED''\<rparr>) demo_gov)"
proof -
  have "py_upper ''QUEUED'' = ''QUEUED''" "dget recovery_capabilities (py_upper ''STATUS_REPAIR'') = Some [''read'', ''status'']"
      "opt_text 4000 [] = Inr []"
    by code_simp+
  with final_states_are_not_final [of "set_item ''w'' (demo_row\<lparr>wi_state := ''COMPLETED''\<rparr>) demo_gov" "''w''"
      "demo_row\<lparr>wi_state := ''COMPLETED''\<rparr>" "''op''" "''STATUS_REPAIR''" "[''read'', ''status'']" "[]" "[]" 1]
  show ?thesis by (simp add: demo_row_def terminal_work_states_def)
qed

text \<open>When a reviewer asks for changes, the passed gate stays: the item can be submitted again at once, without a new
  validation, and is back at the stage that asked for them.\<close>

theorem requested_changes_need_no_validation:
  assumes "dget (gv_items g) i = Some w" and "wi_owner w = owner" and "gate_ok (wi_policy w) (wi_exec w)"
    and "stage_at (wi_policy w) (es_index (wi_exec w)) = Some s" and "actor_allowed s actor_type actor"
    and "opt_text 10000 comment = Inr c" and "strings_of ev = Inr es" and "text_of 80 actor_type = Inr actor_type" and "opt_text 256 actor = Inr actor"
  shows "\<exists>u g\<^sub>1 v g\<^sub>2. decide_policy_stage now n i owner actor_type actor ''changes_requested'' comment ev g = (Inr u, g\<^sub>1)
    \<and> wi_state u = ''CHANGES_REQUESTED'' \<and> submit_for_policy now i owner ev g\<^sub>1 = (Inr v, g\<^sub>2)
    \<and> wi_state v = stage_target (Some s) \<and> es_gate (wi_exec v) = es_gate (wi_exec w)"
proof -
  let ?u = "w\<lparr>wi_state := ''CHANGES_REQUESTED'', wi_exec := (wi_exec w)\<lparr>es_status := Some ''changes_requested''\<rparr>, wi_updated := now\<rparr>"
  obtain g\<^sub>1 where 1: "decide_policy_stage now n i owner actor_type actor ''changes_requested'' comment ev g = (Inr ?u, g\<^sub>1)"
      "dget (gv_items g\<^sub>1) i = Some ?u"
    using decide_changes_ok [OF assms, of now n] by (elim exE conjE) (rule that)
  have "gate_ok (wi_policy ?u) (wi_exec ?u)" using assms(3) by (simp add: gate_ok_def)
  then obtain v g\<^sub>2 where 2: "submit_for_policy now i owner ev g\<^sub>1 = (Inr v, g\<^sub>2)"
      "wi_state v = stage_target (stage_at (wi_policy w) (es_index (wi_exec w)))" "es_gate (wi_exec v) = es_gate (wi_exec w)"
    using submit_ok [OF 1(2) _ _ assms(7), of owner now] assms(2) by auto
  then show ?thesis using 1(1) assms(4) by (intro exI [of _ ?u] exI [of _ g\<^sub>1] exI [of _ v] exI [of _ g\<^sub>2]) simp
qed

theorem requested_changes_need_no_validation_witness:
  "\<exists>u g\<^sub>1 v g\<^sub>2. decide_policy_stage 4 ''d'' ''w'' ''op'' ''user'' ''me'' ''changes_requested'' [] None
      (set_item ''w'' (demo_at 3) demo_gov) = (Inr u, g\<^sub>1) \<and> submit_for_policy 4 ''w'' ''op'' None g\<^sub>1 = (Inr v, g\<^sub>2) \<and> wi_state v = ''IN_REVIEW''"
proof -
  define s where "s = \<lparr>sg_id = ''s'', sg_type = ''review'', sg_agent = None, sg_user = None, sg_any = True\<rparr>"
  have "wi_owner (demo_at 3) = ''op'' \<and> gate_ok (wi_policy (demo_at 3)) (wi_exec (demo_at 3))
      \<and> stage_at (wi_policy (demo_at 3)) (es_index (wi_exec (demo_at 3))) = Some s \<and> actor_allowed s ''user'' ''me''
      \<and> stage_target (Some s) = ''IN_REVIEW''"
    unfolding s_def by code_simp
  moreover have "opt_text 10000 [] = Inr []" "strings_of None = Inr []" "text_of 80 ''user'' = Inr ''user''" "opt_text 256 ''me'' = Inr ''me''"
    by code_simp+
  ultimately show ?thesis
    using requested_changes_need_no_validation [of "set_item ''w'' (demo_at 3) demo_gov" "''w''" "demo_at 3" "''op''" s "''user''" "''me''"
        "[]" "[]" None "[]" 4 "''d''"] by (simp add: set_item_def demo_gov_def) metis
qed

end
