(* ===== verification/Execution_Workspace.thy ===== *)
theory Execution_Workspace
  imports Work_Items Durable_Operations
begin

text \<open>
  ExecutionWorkspaceService (\<open>sentra_mcp/services/execution_workspace.py\<close>): the durable wrapper around
  a sandbox, worktree or remote device, whose physical owner is fenced by a lease of the durable
  runtime. Its table and the runtime's database are separate: a call that raises rolls back the
  former only.
\<close>

section \<open>States\<close>

definition workspace_states :: "string list" where
  "workspace_states = [''PROVISIONING'', ''READY'', ''LEASED'', ''DIRTY'', ''VALIDATING'', ''PROMOTING'', ''PROMOTED'', ''DISCARDED'', ''FAILED'']"

definition workspace_transitions :: "(string, string list) dict" where
  "workspace_transitions = [
    (''PROVISIONING'', [''READY'', ''FAILED'', ''DISCARDED'']),
    (''READY'', [''LEASED'', ''DISCARDED'', ''FAILED'']),
    (''LEASED'', [''READY'', ''DIRTY'', ''VALIDATING'', ''FAILED'', ''DISCARDED'']),
    (''DIRTY'', [''LEASED'', ''VALIDATING'', ''DISCARDED'', ''FAILED'']),
    (''VALIDATING'', [''DIRTY'', ''PROMOTING'', ''FAILED'', ''DISCARDED'']),
    (''PROMOTING'', [''PROMOTED'', ''DIRTY'', ''FAILED'']),
    (''PROMOTED'', []), (''DISCARDED'', []), (''FAILED'', [''DISCARDED''])]"

record workspace_row =
  xw_owner :: string
  xw_run :: string
  xw_item :: "string option"
  xw_backend :: string
  xw_state :: string
  xw_ref :: "string option"
  xw_device :: "string option"
  xw_base :: "string option"
  xw_current :: "string option"
  xw_lease :: "string option"
  xw_token :: "int option"
  xw_meta :: jobj
  xw_created :: rat
  xw_updated :: rat

record workspaces =
  xs_rows :: "(string, workspace_row) dict"
  xs_db :: db

definition on_runtime :: "(db, 'a) sx \<Rightarrow> (workspaces, 'a) sx" where
  "on_runtime m s = (case m (xs_db s) of (r, d) \<Rightarrow> (r, s\<lparr>xs_db := d\<rparr>))"

definition table_tx :: "(workspaces, 'a) sx \<Rightarrow> (workspaces, 'a) sx" where
  "table_tx m s = (case m s of (Inl e, t) \<Rightarrow> (Inl e, t\<lparr>xs_rows := xs_rows s\<rparr>) | (Inr a, t) \<Rightarrow> (Inr a, t))"

definition put_workspace :: "string \<Rightarrow> workspace_row \<Rightarrow> workspaces \<Rightarrow> workspaces" where
  "put_workspace i w s = s\<lparr>xs_rows := dset i w (xs_rows s)\<rparr>"

definition workspace_info :: "string \<Rightarrow> string \<Rightarrow> (workspaces, workspace_row) sx" where
  "workspace_info i owner = bnd (gets (\<lambda>s. dget (xs_rows s) i)) (\<lambda>row. case row of
      None \<Rightarrow> throw (FileNotFound ''execution workspace not found'')
    | Some w \<Rightarrow> andthen (require (xw_owner w = owner) (FileNotFound ''execution workspace not found'')) (ret w))"

section \<open>Creation and transitions\<close>

definition backends :: "string list" where
  "backends = [''sandbox'', ''worktree'', ''workspace'', ''remote'', ''vm'', ''container'']"

definition create_workspace ::
  "rat \<Rightarrow> string \<Rightarrow> string \<Rightarrow> string \<Rightarrow> string option \<Rightarrow> string \<Rightarrow> string option \<Rightarrow> string option \<Rightarrow> string option \<Rightarrow>
   jobj option \<Rightarrow> string option \<Rightarrow> string \<Rightarrow> (workspaces, workspace_row) sx" where
  "create_workspace now generated owner run item backend ref device base extra given initial =
     (let state = py_upper initial; b = py_lower (py_strip backend);
          i = (case nonempty given of None \<Rightarrow> generated | Some g \<Rightarrow> g) in
      andthen (on_runtime (run_status run owner))
      (andthen (require (state \<in> set workspace_states) (ValueError ''invalid execution workspace state''))
      (andthen (require (b \<in> set backends) (ValueError ''unsupported execution workspace backend''))
      (bnd (gets (\<lambda>s. dget (xs_rows s) i)) (\<lambda>row.
       andthen (require (row = None) IntegrityError)
       (andthen (modify (put_workspace i \<lparr>xw_owner = owner, xw_run = run, xw_item = item, xw_backend = b, xw_state = state,
           xw_ref = ref, xw_device = device, xw_base = base, xw_current = base, xw_lease = None, xw_token = None,
           xw_meta = object_of extra, xw_created = now, xw_updated = now\<rparr>))
         (workspace_info i owner)))))))"

definition transition_workspace ::
  "rat \<Rightarrow> string \<Rightarrow> string \<Rightarrow> string \<Rightarrow> string option \<Rightarrow> jobj option \<Rightarrow> (workspaces, workspace_row) sx" where
  "transition_workspace now i owner state revision extra =
     (let target = py_upper state in
      andthen (require (target \<in> set workspace_states) (ValueError ''invalid execution workspace state''))
      (andthen (table_tx (bnd (workspace_info i owner) (\<lambda>w.
         andthen (require (target = xw_state w \<or> target \<in> set (row_of workspace_transitions (xw_state w)))
           (WorkspaceConflict ''invalid execution workspace transition''))
           (modify (put_workspace i (w\<lparr>xw_state := target, xw_current := coalesce revision (xw_current w),
             xw_meta := dupdate (xw_meta w) (object_of extra), xw_updated := now\<rparr>))))))
       (workspace_info i owner)))"

section \<open>Leases\<close>

definition execution_key :: "string \<Rightarrow> string" where
  "execution_key i = ''execution-workspace:'' @ i"

text \<open>The recorded holder is another run: it must have ended, and its traces are cleared.\<close>

definition clear_stale_holder :: "string \<Rightarrow> string \<Rightarrow> string \<Rightarrow> workspace_row \<Rightarrow> (workspaces, workspace_row) sx" where
  "clear_stale_holder i owner run w = (case nonempty (xw_lease w) of
      None \<Rightarrow> ret w
    | Some holder \<Rightarrow> if holder = run then ret w else
        bnd (gets (\<lambda>s. run_terminal (Some (xs_db s)) holder owner)) (\<lambda>answer.
        bnd (lift_sum answer) (\<lambda>ended.
        andthen (require ended (WorkspaceConflict ''workspace is leased by live run''))
        (let w' = w\<lparr>xw_lease := None, xw_token := None\<rparr> in andthen (modify (put_workspace i w')) (ret w')))))"

definition acquire_workspace ::
  "rat \<Rightarrow> string \<Rightarrow> string \<Rightarrow> string \<Rightarrow> string option \<Rightarrow> rat \<Rightarrow> (workspaces, workspace_row \<times> lease_row \<times> bool) sx" where
  "acquire_workspace now i owner run opid ttl =
     andthen (on_runtime (run_status run owner))
     (bnd (table_tx (bnd (workspace_info i owner) (\<lambda>w\<^sub>0.
        andthen (require (xw_state w\<^sub>0 \<in> {''READY'', ''DIRTY'', ''LEASED''}) (WorkspaceConflict ''workspace state cannot be leased''))
        (bnd (clear_stale_holder i owner run w\<^sub>0) (\<lambda>w.
        bnd (on_runtime (acquire_lease now run owner (execution_key i) opid ttl)) (\<lambda>(l, replay).
        andthen (modify (put_workspace i (w\<lparr>xw_state := ''LEASED'', xw_lease := Some run, xw_token := Some (le_token l), xw_updated := now\<rparr>)))
          (ret (l, replay)))))))) (\<lambda>(l, replay).
      bnd (workspace_info i owner) (\<lambda>w. ret (w, l, replay))))"

definition renew_workspace :: "rat \<Rightarrow> string \<Rightarrow> string \<Rightarrow> int \<Rightarrow> rat \<Rightarrow> (workspaces, workspace_row \<times> rat) sx" where
  "renew_workspace now i owner token ttl =
     bnd (workspace_info i owner) (\<lambda>w.
     andthen (require (xw_token w = Some token) (WorkspaceConflict ''stale execution-workspace fencing token''))
     (bnd (on_runtime (renew_lease now (execution_key i) owner token ttl)) (\<lambda>until.
      bnd (workspace_info i owner) (\<lambda>w. ret (w, until)))))"

definition release_workspace :: "rat \<Rightarrow> string \<Rightarrow> string \<Rightarrow> int \<Rightarrow> bool \<Rightarrow> (workspaces, workspace_row) sx" where
  "release_workspace now i owner token dirty =
     bnd (workspace_info i owner) (\<lambda>w.
     andthen (require (xw_token w = Some token) (WorkspaceConflict ''stale execution-workspace fencing token''))
     (andthen (on_runtime (release_lease now (execution_key i) owner token))
     (andthen (modify (put_workspace i (w\<lparr>xw_state := (if dirty then ''DIRTY'' else ''READY''), xw_lease := None, xw_token := None,
         xw_updated := now\<rparr>)))
       (workspace_info i owner))))"

end
