(* ===== verification/Workspace_Properties.thy ===== *)
theory Workspace_Properties
  imports Execution_Workspace Durable_Properties
begin

text \<open>
  Histories of execution workspaces over the durable runtime, whose calls others make in between: who
  may still renew or release a workspace, and what its state machine leaves open.
\<close>

section \<open>Outcomes of the calls\<close>

lemma workspace_after [simp]:
  "xs_rows (put_workspace i w s) = dset i w (xs_rows s)" "xs_db (put_workspace i w s) = xs_db s"
  by (simp_all add: put_workspace_def)

lemma run_status_same [simp]: "snd (run_status run owner d) = d"
  by (auto simp: run_status_def fetch_run_row_def lookup_def bnd_run split: option.split)

lemma on_runtime_status: "on_runtime (run_status run owner) s = (fst (run_status run owner (xs_db s)), s)"
  by (simp add: on_runtime_def split_beta)

lemma workspace_info_run:
  "workspace_info i owner s = (case dget (xs_rows s) i of
     Some w \<Rightarrow> if xw_owner w = owner then (Inr w, s) else (Inl (FileNotFound ''execution workspace not found''), s)
   | None \<Rightarrow> (Inl (FileNotFound ''execution workspace not found''), s))"
  by (simp add: workspace_info_def bnd_run andthen_run require_def split: option.split)

text \<open>The holder that is cleared before the lease is asked for.\<close>

lemma clear_stale_cases:
  assumes "clear_stale_holder i owner run w s = (r, t)"
  shows "(\<exists>e. r = Inl e \<and> t = s) \<or> r = Inr w \<and> t = s
    \<or> r = Inr (w\<lparr>xw_lease := None, xw_token := None\<rparr>) \<and> t = put_workspace i (w\<lparr>xw_lease := None, xw_token := None\<rparr>) s"
  using assms
  by (auto simp: clear_stale_holder_def bnd_run andthen_run lift_sum_def require_def Let_def split: option.splits if_splits sum.splits prod.splits)

lemma acquire_cases:
  assumes "acquire_workspace now i owner run opid ttl s = (r, s')"
  shows "(\<exists>e. r = Inl e) \<and> (s' = s \<or> s' = s\<lparr>xs_db := snd (acquire_lease now run owner (execution_key i) opid ttl (xs_db s))\<rparr>)
    \<or> (\<exists>w w' t l b. dget (xs_rows s) i = Some w \<and> (t = s \<or> t = put_workspace i (w\<lparr>xw_lease := None, xw_token := None\<rparr>) s)
        \<and> acquire_lease now run owner (execution_key i) opid ttl (xs_db s) = (Inr (l, b), xs_db s')
        \<and> s' = put_workspace i w' (t\<lparr>xs_db := xs_db s'\<rparr>) \<and> r = Inr (w', l, b) \<and> xw_token w' = Some (le_token l) \<and> xw_lease w' = Some run
        \<and> xw_owner w' = owner \<and> xw_state w' = ''LEASED'')"
proof (cases "\<exists>w. dget (xs_rows s) i = Some w \<and> xw_owner w = owner \<and> (\<exists>v. fst (run_status run owner (xs_db s)) = Inr v)
    \<and> xw_state w \<in> {''READY'', ''DIRTY'', ''LEASED''}")
  case False
  then have "(\<exists>e. r = Inl e) \<and> s' = s"
    using assms by (cases "run_status run owner (xs_db s)")
      (auto simp: acquire_workspace_def on_runtime_status table_tx_def andthen_run bnd_run workspace_info_run require_def
        split: option.splits sum.splits if_splits)
  then show ?thesis by blast
next
  case True
  then obtain w where w: "dget (xs_rows s) i = Some w" "xw_owner w = owner" "xw_state w \<in> {''READY'', ''DIRTY'', ''LEASED''}"
    and run: "\<exists>v. fst (run_status run owner (xs_db s)) = Inr v" by blast
  obtain c t where c: "clear_stale_holder i owner run w s = (c, t)" by (cases "clear_stale_holder i owner run w s")
  show ?thesis
  proof (cases c)
    case (Inl e)
    with clear_stale_cases [OF c] have "t = s" by auto
    with Inl c w run assms have "(\<exists>e. r = Inl e) \<and> s' = s"
      by (auto simp: acquire_workspace_def on_runtime_status table_tx_def andthen_run bnd_run workspace_info_run require_def)
    then show ?thesis by blast
  next
    case (Inr v)
    have t: "t = s \<or> t = put_workspace i (w\<lparr>xw_lease := None, xw_token := None\<rparr>) s" and v: "xw_owner v = owner" "xs_db t = xs_db s"
      using clear_stale_cases [OF c] Inr w by auto
    obtain a d where a: "acquire_lease now run owner (execution_key i) opid ttl (xs_db s) = (a, d)" by fastforce
    have m: "on_runtime (acquire_lease now run owner (execution_key i) opid ttl) t = (a, t\<lparr>xs_db := d\<rparr>)"
      using a v by (simp add: on_runtime_def)
    show ?thesis
    proof (cases a)
      case (Inl e)
      with Inr c w run assms m t have "(\<exists>e. r = Inl e) \<and> s' = s\<lparr>xs_db := d\<rparr>"
        by (auto simp: acquire_workspace_def on_runtime_status table_tx_def andthen_run bnd_run workspace_info_run require_def
            put_workspace_def)
      with a show ?thesis by simp
    next
      case (Inr lb)
      obtain l b where lb: "lb = (l, b)" by (cases lb)
      let ?w = "v\<lparr>xw_state := ''LEASED'', xw_lease := Some run, xw_token := Some (le_token l), xw_updated := now\<rparr>"
      have "r = Inr (?w, l, b) \<and> s' = put_workspace i ?w (t\<lparr>xs_db := d\<rparr>)"
        using assms c \<open>c = Inr v\<close> w run m v Inr lb
        by (auto simp: acquire_workspace_def on_runtime_status table_tx_def andthen_run bnd_run workspace_info_run require_def)
      with w t a Inr lb v show ?thesis
        by (intro disjI2 exI [of _ w] exI [of _ ?w] exI [of _ t] exI [of _ l] exI [of _ b]) simp
    qed
  qed
qed

section \<open>Histories\<close>

text \<open>A call of the service, or a call anybody makes to the durable runtime.\<close>

inductive workspace_step :: "workspaces \<Rightarrow> workspaces \<Rightarrow> bool" where
  Create: "workspace_step s (snd (create_workspace now gen owner run item backend ref device base extra given initial s))"
| Transition: "workspace_step s (snd (transition_workspace now i owner state revision extra s))"
| Acquire: "workspace_step s (snd (acquire_workspace now i owner run opid ttl s))"
| Renew: "workspace_step s (snd (renew_workspace now i owner token ttl s))"
| Release: "workspace_step s (snd (release_workspace now i owner token dirty s))"
| Runtime: "db_step (xs_db s) d \<Longrightarrow> workspace_step s (s\<lparr>xs_db := d\<rparr>)"

definition no_workspaces :: workspaces where
  "no_workspaces = \<lparr>xs_rows = [], xs_db = empty_db\<rparr>"

text \<open>What is kept by each change of a row and by the runtime is kept by every call.\<close>

locale workspace_invariant =
  fixes P :: "workspaces \<Rightarrow> bool"
  assumes on_row: "P s \<Longrightarrow> dget (xs_rows s) i = Some w \<Longrightarrow> xw_token w' = xw_token w \<or> xw_token w' = None \<Longrightarrow> P (put_workspace i w' s)"
    and on_new: "P s \<Longrightarrow> dget (xs_rows s) i = None \<Longrightarrow> xw_token w = None \<Longrightarrow> P (put_workspace i w s)"
    and on_db: "P s \<Longrightarrow> db_step (xs_db s) d \<Longrightarrow> P (s\<lparr>xs_db := d\<rparr>)"
    and on_lease: "P s \<Longrightarrow> dget (xs_rows s) i = Some w \<Longrightarrow>
      acquire_lease now run owner (execution_key i) opid ttl (xs_db s) = (Inr (l, b), d) \<Longrightarrow> xw_token w' = Some (le_token l) \<Longrightarrow>
      P (put_workspace i w' (s\<lparr>xs_db := d\<rparr>))"
begin

lemma keep_created:
  assumes "P s"
  shows "P (snd (create_workspace now gen owner run item backend ref device base extra given initial s))"
proof -
  have "P (snd (andthen (modify (put_workspace i w)) (workspace_info i owner) s))" if "dget (xs_rows s) i = None" "xw_token w = None" for i w
    using on_new [OF assms that] by (simp add: workspace_info_run split: option.split)
  then show ?thesis using assms
    by (simp add: create_workspace_def Let_def andthen_run bnd_run require_def on_runtime_status split: sum.split)
qed

lemma keep_transitioned: "P s \<Longrightarrow> P (snd (transition_workspace now i owner state revision extra s))"
  by (auto simp: transition_workspace_def Let_def table_tx_def andthen_run bnd_run require_def workspace_info_run intro!: on_row
      split: option.split)

lemma keep_acquired: assumes "P s" shows "P (snd (acquire_workspace now i owner run opid ttl s))"
proof -
  obtain r s' where a: "acquire_workspace now i owner run opid ttl s = (r, s')" by fastforce
  from acquire_cases [OF a] show ?thesis
  proof
    assume "(\<exists>e. r = Inl e) \<and> (s' = s \<or> s' = s\<lparr>xs_db := snd (acquire_lease now run owner (execution_key i) opid ttl (xs_db s))\<rparr>)"
    then show ?thesis using a assms on_db [OF assms db_step.Acquire] by auto
  next
    assume "\<exists>w w' t l b. dget (xs_rows s) i = Some w \<and> (t = s \<or> t = put_workspace i (w\<lparr>xw_lease := None, xw_token := None\<rparr>) s)
        \<and> acquire_lease now run owner (execution_key i) opid ttl (xs_db s) = (Inr (l, b), xs_db s')
        \<and> s' = put_workspace i w' (t\<lparr>xs_db := xs_db s'\<rparr>) \<and> r = Inr (w', l, b) \<and> xw_token w' = Some (le_token l) \<and> xw_lease w' = Some run
        \<and> xw_owner w' = owner \<and> xw_state w' = ''LEASED''"
    then obtain w w' t l b where *: "dget (xs_rows s) i = Some w"
      "t = s \<or> t = put_workspace i (w\<lparr>xw_lease := None, xw_token := None\<rparr>) s"
      "acquire_lease now run owner (execution_key i) opid ttl (xs_db s) = (Inr (l, b), xs_db s')"
      "s' = put_workspace i w' (t\<lparr>xs_db := xs_db s'\<rparr>)" "xw_token w' = Some (le_token l)" by blast
    then have t: "P t" "xs_db t = xs_db s" using assms by (auto intro: on_row)
    have "\<exists>v. dget (xs_rows t) i = Some v" using * by auto
    then obtain v where v: "dget (xs_rows t) i = Some v" ..
    have "P (put_workspace i w' (t\<lparr>xs_db := xs_db s'\<rparr>))"
      using on_lease [OF t(1) v _ *(5)] *(3) t(2) by metis
    then show ?thesis using a *(4) by simp
  qed
qed

lemma keep_on_runtime: "P s \<Longrightarrow> db_step (xs_db s) (snd (m (xs_db s))) \<Longrightarrow> P (snd (on_runtime m s))"
  using on_db by (simp add: on_runtime_def split_beta)

lemma keep_renewed: "P s \<Longrightarrow> P (snd (renew_workspace now i owner token ttl s))"
  using keep_on_runtime [where s = s and m = "renew_lease now (execution_key i) owner token ttl"]
    db_step.Renew [of "xs_db s" now "execution_key i" owner token ttl]
  by (auto simp: renew_workspace_def andthen_run bnd_run require_def workspace_info_run split: option.split sum.split prod.split)

lemma keep_released: assumes "P s" shows "P (snd (release_workspace now i owner token dirty s))"
proof -
  obtain r t where m: "on_runtime (release_lease now (execution_key i) owner token) s = (r, t)" by fastforce
  then have t: "P t" "xs_rows t = xs_rows s"
    using keep_on_runtime [where s = s and m = "release_lease now (execution_key i) owner token"] assms
      db_step.Release [of "xs_db s" now "execution_key i" owner token]
    by (auto simp: on_runtime_def split: prod.splits)
  then show ?thesis using assms m on_row [OF t(1)]
    by (auto simp: release_workspace_def andthen_run bnd_run require_def workspace_info_run split: option.split sum.split)
qed

lemma step_keeps: "workspace_step s s' \<Longrightarrow> P s \<Longrightarrow> P s'"
  by (induction rule: workspace_step.induct)
    (simp_all add: keep_created keep_transitioned keep_acquired keep_renewed keep_released on_db)

lemma steps_keep: "workspace_step\<^sup>*\<^sup>* s s' \<Longrightarrow> P s \<Longrightarrow> P s'"
  by (induction rule: rtranclp_induct) (simp_all add: step_keeps)

end

section \<open>Fencing tokens of workspaces\<close>

lemma acquire_lease_fence:
  assumes "fences_ok d" "acquire_lease now run owner rk opid ttl d = (Inr (l, b), d')"
  shows "\<exists>key. validate_id ''resource_key'' rk = Inr key \<and> dget (tb_fences d') key = Some (le_token l)
    \<and> (\<forall>f. dget (tb_fences d) key = Some f \<longrightarrow> f \<le> le_token l \<and> (\<not> b \<longrightarrow> f < le_token l))"
proof -
  obtain key where key: "validate_id ''resource_key'' rk = Inr key" and
    c: "(\<exists>h. dget (tb_leases d) key = Some h \<and> l = h \<and> d' = d \<and> b)
      \<or> grant now key run owner opid ttl (next_token key d) d = (Inr (l, b), d')"
    using assms(2) unfolding acquire_lease_def row_defs by (auto simp: call_Inr split: option.splits if_splits)
  from c have "dget (tb_fences d') key = Some (le_token l)
    \<and> (\<forall>f. dget (tb_fences d) key = Some f \<longrightarrow> f \<le> le_token l \<and> (\<not> b \<longrightarrow> f < le_token l))"
  proof
    assume "\<exists>h. dget (tb_leases d) key = Some h \<and> l = h \<and> d' = d \<and> b"
    then show ?thesis using fences_okD(1) [OF assms(1), of key l] by auto
  next
    assume "grant now key run owner opid ttl (next_token key d) d = (Inr (l, b), d')"
    then have "dget (tb_fences d') key = Some (next_token key d)" "le_token l = next_token key d" "\<not> b"
      by (auto simp: grant_def andthen_run append_event_def row_defs lookup_def bnd_run Let_def grant_lease_def split: option.splits)
    then show ?thesis using next_token_fence [of d key] by (auto intro: less_imp_le)
  qed
  with key show ?thesis by blast
qed

text \<open>The fence of a lease key never falls below a value it has reached.\<close>

definition fence_floor :: "string \<Rightarrow> int \<Rightarrow> workspaces \<Rightarrow> bool" where
  "fence_floor key n s \<longleftrightarrow> reachable_db (xs_db s) \<and> (\<exists>f. dget (tb_fences (xs_db s)) key = Some f \<and> n \<le> f)"

lemma fence_floor_step:
  assumes "fence_floor key n s" "db_step (xs_db s) d"
  shows "fence_floor key n (s\<lparr>xs_db := d\<rparr>)"
proof -
  from assms(1) obtain f where f: "reachable_db (xs_db s)" "dget (tb_fences (xs_db s)) key = Some f" "n \<le> f"
    by (auto simp: fence_floor_def)
  have "follows (xs_db s) d" using reachable_onward(5) [OF f(1) r_into_rtranclp [where r = db_step, OF assms(2)]] .
  from later_fence [OF this f(2)] f reach_step [OF f(1) assms(2)] show ?thesis by (auto simp: fence_floor_def)
qed

lemma fence_floor_rows [simp]: "fence_floor key n (put_workspace i w s) = fence_floor key n s"
  by (simp add: fence_floor_def)

lemma acquire_is_step: "acquire_lease now run owner rk opid ttl d = (r, d') \<Longrightarrow> db_step d d'"
  using db_step.Acquire [of d now run owner rk opid ttl] by simp

interpretation workspace_database: workspace_invariant "\<lambda>s. reachable_db (xs_db s)"
  by unfold_locales (auto intro: reach_step acquire_is_step)

interpretation workspace_fence: workspace_invariant "fence_floor key n" for key n
  by unfold_locales (auto intro: fence_floor_step acquire_is_step)

text \<open>Every token recorded for a workspace is at least a value its fence has reached.\<close>

definition tokens_from :: "string \<Rightarrow> string \<Rightarrow> int \<Rightarrow> workspaces \<Rightarrow> bool" where
  "tokens_from i key n s \<longleftrightarrow> fence_floor key n s
     \<and> (\<forall>w t. dget (xs_rows s) i = Some w \<longrightarrow> xw_token w = Some t \<longrightarrow> n \<le> t)"

interpretation workspace_tokens: workspace_invariant "\<lambda>s. validate_id ''resource_key'' (execution_key i) = Inr key \<longrightarrow> tokens_from i key n s"
  for i key n
proof
  fix s j w now run owner opid ttl l b d and w' :: workspace_row
  assume P: "validate_id ''resource_key'' (execution_key i) = Inr key \<longrightarrow> tokens_from i key n s"
    and a: "acquire_lease now run owner (execution_key j) opid ttl (xs_db s) = (Inr (l, b), d)" and w: "xw_token w' = Some (le_token l)"
  show "validate_id ''resource_key'' (execution_key i) = Inr key \<longrightarrow> tokens_from i key n (put_workspace j w' (s\<lparr>xs_db := d\<rparr>))"
  proof
    assume key: "validate_id ''resource_key'' (execution_key i) = Inr key"
    with P have t: "tokens_from i key n s" by blast
    then have f: "fence_floor key n s" by (simp add: tokens_from_def)
    then have ok: "fences_ok (xs_db s)"
      using reachable_onward(1) [OF _ rtranclp.rtrancl_refl] by (auto simp: fence_floor_def fencing_ok_def)
    have "n \<le> le_token l" if "j = i"
      using acquire_lease_fence [OF ok a] f key that by (auto simp: fence_floor_def)
    then show "tokens_from i key n (put_workspace j w' (s\<lparr>xs_db := d\<rparr>))"
      using t w fence_floor_step [OF f acquire_is_step [OF a]] by (auto simp: tokens_from_def)
  qed
qed (auto simp: tokens_from_def intro: fence_floor_step)

text \<open>What an acquisition that returned left behind.\<close>

lemma acquired_tokens:
  assumes "reachable_db (xs_db s)" "acquire_workspace now i owner run opid ttl s = (Inr (w, l, b), s')"
  shows "\<exists>key. validate_id ''resource_key'' (execution_key i) = Inr key \<and> tokens_from i key (le_token l) s'
    \<and> (\<forall>f. dget (tb_fences (xs_db s)) key = Some f \<longrightarrow> \<not> b \<longrightarrow> f < le_token l)"
proof -
  from acquire_cases [OF assms(2)] obtain t where
    a: "acquire_lease now run owner (execution_key i) opid ttl (xs_db s) = (Inr (l, b), xs_db s')"
    and s': "s' = put_workspace i w (t\<lparr>xs_db := xs_db s'\<rparr>)" "xw_token w = Some (le_token l)" by auto
  have "fences_ok (xs_db s)" using reachable_onward(1) [OF assms(1) rtranclp.rtrancl_refl] by (simp add: fencing_ok_def)
  from acquire_lease_fence [OF this a] obtain key where key: "validate_id ''resource_key'' (execution_key i) = Inr key"
    "dget (tb_fences (xs_db s')) key = Some (le_token l)"
    "\<forall>f. dget (tb_fences (xs_db s)) key = Some f \<longrightarrow> f \<le> le_token l \<and> (\<not> b \<longrightarrow> f < le_token l)" by blast
  have "reachable_db (xs_db s')" using reach_step [OF assms(1) acquire_is_step [OF a]] .
  moreover have "dget (xs_rows s') i = Some w" by (subst s'(1)) simp
  ultimately have "tokens_from i key (le_token l) s'" using key(2) s'(2) by (simp add: tokens_from_def fence_floor_def)
  with key show ?thesis by blast
qed

lemma stale_token_refused:
  assumes "\<And>w. dget (xs_rows s) i = Some w \<Longrightarrow> xw_token w \<noteq> Some t"
  shows "(\<exists>e. renew_workspace now i owner t ttl s = (Inl e, s)) \<and> (\<exists>e. release_workspace now i owner t dirty s = (Inl e, s))"
  using assms by (cases "dget (xs_rows s) i")
    (auto simp: renew_workspace_def release_workspace_def bnd_run andthen_run workspace_info_run require_def)

text \<open>
  C30: once an execution workspace has been leased again, the previous holder is out: whatever calls
  anybody makes to the service and to the durable runtime before and after, the new token is larger
  than the old one, and renewing or releasing the workspace with the old token is refused and changes
  neither the workspace table nor the database.
\<close>

theorem superseded_holder_is_refused:
  assumes "workspace_step\<^sup>*\<^sup>* no_workspaces s"
    and "acquire_workspace now1 i owner1 run1 opid1 ttl1 s = (Inr (w1, l1, b1), s1)" "workspace_step\<^sup>*\<^sup>* s1 s2"
    and "acquire_workspace now2 i owner2 run2 opid2 ttl2 s2 = (Inr (w2, l2, False), s3)" "workspace_step\<^sup>*\<^sup>* s3 s4"
  shows "le_token l1 < le_token l2
    \<and> (\<exists>e. renew_workspace now i owner (le_token l1) ttl s4 = (Inl e, s4))
    \<and> (\<exists>e. release_workspace now i owner (le_token l1) dirty s4 = (Inl e, s4))"
proof -
  have db: "reachable_db (xs_db s)"
    using workspace_database.steps_keep [OF assms(1)] by (simp add: no_workspaces_def reachable_db_def)
  from acquired_tokens [OF db assms(2)] obtain key where key: "validate_id ''resource_key'' (execution_key i) = Inr key"
    and t1: "tokens_from i key (le_token l1) s1" by blast
  then have "fence_floor key (le_token l1) s2"
    using workspace_fence.steps_keep [OF assms(3)] by (simp add: tokens_from_def)
  then obtain f where f: "reachable_db (xs_db s2)" "dget (tb_fences (xs_db s2)) key = Some f" "le_token l1 \<le> f"
    by (auto simp: fence_floor_def)
  from acquired_tokens [OF f(1) assms(4)] key f(2) have t2: "tokens_from i key (le_token l2) s3" "f < le_token l2" by auto
  then have "tokens_from i key (le_token l2) s4"
    using workspace_tokens.steps_keep [OF assms(5), of i key "le_token l2"] key by blast
  then have "xw_token w \<noteq> Some (le_token l1)" if "dget (xs_rows s4) i = Some w" for w
    using that t2(2) f(3) by (fastforce simp: tokens_from_def)
  with stale_token_refused [of s4 i "le_token l1"] t2(2) f(3) show ?thesis by auto
qed

definition workspace_ready :: workspaces where
  "workspace_ready = snd (create_workspace 11 ''g'' ''alice'' ''run-1'' None ''worktree'' None None (Some ''abc'') None (Some ''x1'') ''READY''
     (no_workspaces\<lparr>xs_db := running_db\<rparr>))"

definition workspace_leased :: workspaces where
  "workspace_leased = snd (acquire_workspace 20 ''x1'' ''alice'' ''run-1'' None 60 workspace_ready)"

definition workspace_again :: workspaces where
  "workspace_again = snd (acquire_workspace 200 ''x1'' ''alice'' ''run-1'' None 60 workspace_leased)"

lemma reach_workspace_ready: "workspace_step\<^sup>*\<^sup>* no_workspaces workspace_ready"
proof -
  have "db_step (xs_db no_workspaces) running_db"
    unfolding running_db_def no_workspaces_def by (simp add: db_step.CreateRun)
  then have "workspace_step no_workspaces (no_workspaces\<lparr>xs_db := running_db\<rparr>)" by (rule workspace_step.Runtime)
  moreover have "workspace_step (no_workspaces\<lparr>xs_db := running_db\<rparr>) workspace_ready"
    unfolding workspace_ready_def by (rule workspace_step.Create)
  ultimately show ?thesis by (meson r_into_rtranclp rtranclp.rtrancl_into_rtrancl)
qed

theorem superseded_holder_is_refused_witness:
  "\<exists>e. release_workspace 210 ''x1'' ''alice'' 1 False workspace_again = (Inl e, workspace_again)"
proof -
  let ?a = "acquire_workspace 20 ''x1'' ''alice'' ''run-1'' None 60 workspace_ready"
  let ?b = "acquire_workspace 200 ''x1'' ''alice'' ''run-1'' None 60 workspace_leased"
  have a: "(case fst ?a of Inr (w, l, b) \<Rightarrow> le_token l = 1 | Inl _ \<Rightarrow> False)" by code_simp
  have b: "(case fst ?b of Inr (w, l, b) \<Rightarrow> le_token l = 2 \<and> \<not> b | Inl _ \<Rightarrow> False)" by code_simp
  obtain w1 l1 b1 where 1: "?a = (Inr (w1, l1, b1), workspace_leased)" "le_token l1 = 1"
    using a by (cases ?a) (auto simp: workspace_leased_def split: sum.splits)
  obtain w2 l2 where 2: "?b = (Inr (w2, l2, False), workspace_again)"
    using b by (cases ?b) (auto simp: workspace_again_def split: sum.splits)
  show ?thesis
    using superseded_holder_is_refused [OF reach_workspace_ready 1(1) rtranclp.rtrancl_refl 2 rtranclp.rtrancl_refl,
        where owner = "''alice''" and now = 210 and dirty = False] 1(2)
    by simp
qed

section \<open>Final states\<close>

text \<open>
  The state machine of execution workspaces ends in PROMOTED and DISCARDED, where every transition
  to another state is refused and changes nothing. Releasing the lease does not consult it: with the
  recorded token a promoted or discarded workspace is put back to READY or DIRTY, whenever the
  durable runtime lets the lease go.
\<close>

theorem release_reopens_finished_workspaces:
  assumes "dget (xs_rows s) i = Some w" "xw_owner w = owner" "xw_token w = Some t" "xw_state w \<in> {''PROMOTED'', ''DISCARDED''}"
  shows "(\<forall>state revision extra. py_upper state \<noteq> xw_state w \<longrightarrow>
      (\<exists>e. transition_workspace now i owner state revision extra s = (Inl e, s)))
    \<and> ((\<exists>b. fst (release_lease now (execution_key i) owner t (xs_db s)) = Inr b) \<longrightarrow>
      (\<exists>w' s'. release_workspace now i owner t dirty s = (Inr w', s') \<and> dget (xs_rows s') i = Some w'
        \<and> xw_state w' = (if dirty then ''DIRTY'' else ''READY'') \<and> xw_lease w' = None \<and> xw_token w' = None))"
proof
  have "row_of workspace_transitions (xw_state w) = []"
    using assms(4) by (auto simp: workspace_transitions_def row_of_def)
  then show "\<forall>state revision extra. py_upper state \<noteq> xw_state w \<longrightarrow>
      (\<exists>e. transition_workspace now i owner state revision extra s = (Inl e, s))"
    using assms by (auto simp: transition_workspace_def Let_def table_tx_def bnd_run andthen_run workspace_info_run require_def)
  show "(\<exists>b. fst (release_lease now (execution_key i) owner t (xs_db s)) = Inr b) \<longrightarrow>
      (\<exists>w' s'. release_workspace now i owner t dirty s = (Inr w', s') \<and> dget (xs_rows s') i = Some w'
        \<and> xw_state w' = (if dirty then ''DIRTY'' else ''READY'') \<and> xw_lease w' = None \<and> xw_token w' = None)"
  proof
    assume "\<exists>b. fst (release_lease now (execution_key i) owner t (xs_db s)) = Inr b"
    then obtain b d where "release_lease now (execution_key i) owner t (xs_db s) = (Inr b, d)" by (metis prod.collapse)
    then have "on_runtime (release_lease now (execution_key i) owner t) s = (Inr b, s\<lparr>xs_db := d\<rparr>)" by (simp add: on_runtime_def)
    with assms show "\<exists>w' s'. release_workspace now i owner t dirty s = (Inr w', s') \<and> dget (xs_rows s') i = Some w'
        \<and> xw_state w' = (if dirty then ''DIRTY'' else ''READY'') \<and> xw_lease w' = None \<and> xw_token w' = None"
      by (auto simp: release_workspace_def bnd_run andthen_run workspace_info_run require_def put_workspace_def)
  qed
qed

definition workspace_promoted :: workspaces where
  "workspace_promoted = snd (transition_workspace 23 ''x1'' ''alice'' ''PROMOTED'' None None
     (snd (transition_workspace 22 ''x1'' ''alice'' ''PROMOTING'' None None
     (snd (transition_workspace 21 ''x1'' ''alice'' ''VALIDATING'' None None workspace_leased)))))"

theorem release_reopens_finished_workspaces_witness:
  "map_option xw_state (dget (xs_rows workspace_promoted) ''x1'') = Some ''PROMOTED''
   \<and> (\<exists>w' s'. release_workspace 24 ''x1'' ''alice'' 1 False workspace_promoted = (Inr w', s') \<and> xw_state w' = ''READY'')"
proof -
  have p: "map_option xw_state (dget (xs_rows workspace_promoted) ''x1'') = Some ''PROMOTED''" by code_simp
  have w: "case dget (xs_rows workspace_promoted) ''x1'' of None \<Rightarrow> False
      | Some w \<Rightarrow> xw_owner w = ''alice'' \<and> xw_token w = Some 1 \<and> xw_state w = ''PROMOTED''" by code_simp
  then obtain w where w: "dget (xs_rows workspace_promoted) ''x1'' = Some w" "xw_owner w = ''alice''" "xw_token w = Some 1"
    "xw_state w \<in> {''PROMOTED'', ''DISCARDED''}" by (auto split: option.splits)
  have "case fst (release_lease 24 (execution_key ''x1'') ''alice'' 1 (xs_db workspace_promoted)) of Inr b \<Rightarrow> b | Inl _ \<Rightarrow> False" by code_simp
  then have "\<exists>b. fst (release_lease 24 (execution_key ''x1'') ''alice'' 1 (xs_db workspace_promoted)) = Inr b" by (auto split: sum.splits)
  then show ?thesis
    using p release_reopens_finished_workspaces [OF w, of 24 False] by auto
qed

end
