(* ===== verification/Budget_Policy.thy ===== *)
theory Budget_Policy
  imports Work_Invariants
begin

text \<open>
  The cost ledger of the governance service (\<open>record_cost\<close>, \<open>cost_summary\<close>) and BudgetPolicyService
  (\<open>sentra_mcp/services/budget_policy.py\<close>): limits on what may be spent in a scope, checked against the
  ledger before an attempt is admitted. Amounts are exact; the order of a dictionary is not modelled.
\<close>

section \<open>The cost ledger\<close>

record spend_context =
  bx_workspace :: "string option"
  bx_goal :: "string option"
  bx_item :: "string option"
  bx_run :: "string option"
  bx_operation :: "string option"
  bx_agent :: "string option"
  bx_provider :: "string option"

record cost_event =
  ce_owner :: string
  ce_at :: rat
  ce_context :: spend_context
  ce_model :: "string option"
  ce_currency :: string
  ce_actual :: rat
  ce_market :: rat
  ce_quota :: rat
  ce_in :: int
  ce_out :: int
  ce_reasoning :: int
  ce_meta :: jobj

record budget_policy =
  bq_owner :: string
  bq_scope_type :: string
  bq_scope :: "string option"
  bq_mode :: string
  bq_limits :: "(string, rat) dict"
  bq_window :: "rat option"
  bq_enabled :: bool
  bq_meta :: jobj
  bq_created :: rat
  bq_updated :: rat

record budgets =
  bu_gov :: gov
  bu_costs :: "(string, cost_event) dict"
  bu_policies :: "(string, budget_policy) dict"

definition on_gov :: "(gov, 'a) sx \<Rightarrow> (budgets, 'a) sx" where
  "on_gov m s = (case m (bu_gov s) of (r, g) \<Rightarrow> (r, s\<lparr>bu_gov := g\<rparr>))"

text \<open>A finite number that is not negative.\<close>

definition amount :: "cost \<Rightarrow> rat option" where
  "amount c = (case c of Finite q \<Rightarrow> if q < 0 then None else Some q | _ \<Rightarrow> None)"

definition same_event :: "cost_event \<Rightarrow> cost_event \<Rightarrow> bool" where
  "same_event a b \<longleftrightarrow> a\<lparr>ce_at := 0\<rparr> = b\<lparr>ce_at := 0\<rparr>"

text \<open>The answer is the identifier, its time and whether the event was known.\<close>

definition write_cost :: "string \<Rightarrow> cost_event \<Rightarrow> (budgets, string \<times> rat \<times> bool) sx" where
  "write_cost i e = bnd (gets (\<lambda>s. dget (bu_costs s) i)) (\<lambda>previous. case previous of
      Some old \<Rightarrow> andthen (require (same_event old e) (GovernanceConflict ''cost event identity collision'')) (ret (i, ce_at old, True))
    | None \<Rightarrow>
        andthen (modify (\<lambda>s. s\<lparr>bu_costs := dset i e (bu_costs s)\<rparr>))
        (andthen (on_gov (log_activity \<lparr>av_owner = ce_owner e, av_action = ''cost.record'', av_outcome = ''ok'', av_actor_type = ''system'',
            av_actor = [], av_item = bx_item (ce_context e), av_run = bx_run (ce_context e), av_goal = bx_goal (ce_context e),
            av_agent = bx_agent (ce_context e),
            av_payload = [(''cost_event_id'', JStr i), (''actual_cost'', JNum (ce_actual e)), (''market_cost'', JNum (ce_market e)),
              (''quota_usage'', JNum (ce_quota e))],
            av_at = ce_at e\<rparr>))
          (ret (i, ce_at e, False))))"

definition record_cost ::
  "rat \<Rightarrow> string \<Rightarrow> string \<Rightarrow> cost \<Rightarrow> cost \<Rightarrow> cost \<Rightarrow> string \<Rightarrow> int \<Rightarrow> int \<Rightarrow> int \<Rightarrow> spend_context \<Rightarrow> string option \<Rightarrow>
   jobj option \<Rightarrow> string option \<Rightarrow> (budgets, string \<times> rat \<times> bool) sx" where
  "record_cost now generated owner actual market quota currency tin tout treason ctx model extra given =
     (case (amount actual, amount market, amount quota) of
        (Some a, Some m, Some q) \<Rightarrow>
          andthen (require (0 \<le> tin \<and> 0 \<le> tout \<and> 0 \<le> treason) (ValueError ''token counts must be non-negative integers''))
          (bnd (case nonempty given of None \<Rightarrow> ret generated | Some i \<Rightarrow> lift_sum (text_of 128 i)) (\<lambda>i.
           bnd (lift_sum (text_of 16 currency)) (\<lambda>cur.
             write_cost i \<lparr>ce_owner = owner, ce_at = now, ce_context = ctx, ce_model = model, ce_currency = cur, ce_actual = a,
               ce_market = m, ce_quota = q, ce_in = tin, ce_out = tout, ce_reasoning = treason, ce_meta = object_of extra\<rparr>)))
      | _ \<Rightarrow> throw (ValueError ''cost/quota values must be finite and non-negative''))"

definition reasoning_in_output :: "cost_event \<Rightarrow> bool" where
  "reasoning_in_output e \<longleftrightarrow> dget (ce_meta e) ''reasoning_in_output'' \<in> {Some (JBool True), Some (JNum 1)}"

definition budget_metrics :: "string list" where
  "budget_metrics = [''actual_cost'', ''market_cost'', ''quota_usage'', ''input_tokens'', ''output_tokens'', ''reasoning_tokens'', ''total_tokens'']"

text \<open>What an event adds to a metric.\<close>

definition metric_of :: "string \<Rightarrow> cost_event \<Rightarrow> rat" where
  "metric_of metric e =
     (if metric = ''actual_cost'' then ce_actual e
      else if metric = ''market_cost'' then ce_market e
      else if metric = ''quota_usage'' then ce_quota e
      else if metric = ''input_tokens'' then of_int (ce_in e)
      else if metric = ''output_tokens'' then of_int (ce_out e)
      else if metric = ''reasoning_tokens'' then of_int (ce_reasoning e)
      else if metric = ''total_tokens'' then of_int (ce_in e + ce_out e + (if reasoning_in_output e then 0 else ce_reasoning e))
      else 0)"

definition total :: "(cost_event \<Rightarrow> bool) \<Rightarrow> string \<Rightarrow> budgets \<Rightarrow> rat" where
  "total counted metric s = sum_list (map (metric_of metric) (filter counted (map snd (bu_costs s))))"

text \<open>A filter of \<open>cost_summary\<close> applies when its argument is there and not empty.\<close>

definition chosen :: "string option \<Rightarrow> string option \<Rightarrow> bool" where
  "chosen want have \<longleftrightarrow> (case nonempty want of None \<Rightarrow> True | Some v \<Rightarrow> have = Some v)"

definition cost_summary ::
  "string \<Rightarrow> string option \<Rightarrow> string option \<Rightarrow> string option \<Rightarrow> string option \<Rightarrow> budgets \<Rightarrow> nat \<times> (string \<times> rat) list" where
  "cost_summary owner item run goal agent s =
     (let counted = (\<lambda>e. ce_owner e = owner \<and> chosen item (bx_item (ce_context e)) \<and> chosen run (bx_run (ce_context e))
        \<and> chosen goal (bx_goal (ce_context e)) \<and> chosen agent (bx_agent (ce_context e))) in
      (length (filter counted (map snd (bu_costs s))), map (\<lambda>m. (m, total counted m s)) budget_metrics))"

section \<open>Policies\<close>

definition budget_scopes :: "string list" where
  "budget_scopes = [''instance'', ''workspace'', ''goal'', ''work_item'', ''run'', ''operation'', ''agent'', ''provider'']"

fun normalize_limits :: "(string \<times> cost) list \<Rightarrow> exn + (string \<times> rat) list" where
  "normalize_limits [] = Inr []"
| "normalize_limits ((name, raw) # rest) =
     scheck (name \<in> set budget_metrics) (ValueError ''unsupported budget metric'')
     (case amount raw of None \<Rightarrow> Inl (ValueError ''budget limit must be finite and non-negative'')
      | Some q \<Rightarrow> sbind (normalize_limits rest) (\<lambda>out. Inr ((name, q) # out)))"

definition policy_info :: "string \<Rightarrow> string \<Rightarrow> (budgets, budget_policy) sx" where
  "policy_info i owner = bnd (gets (\<lambda>s. dget (bu_policies s) i)) (\<lambda>row. case row of
      None \<Rightarrow> throw (FileNotFound ''budget policy not found'')
    | Some p \<Rightarrow> andthen (require (bq_owner p = owner) (FileNotFound ''budget policy not found'')) (ret p))"

definition read_window :: "cost option \<Rightarrow> exn + rat option" where
  "read_window w = (case w of None \<Rightarrow> Inr None
     | Some (Finite q) \<Rightarrow> scheck (60 \<le> q \<and> q \<le> 31536000) (ValueError ''window_seconds must be 60..31536000'') (Inr (Some q))
     | Some _ \<Rightarrow> Inl (ValueError ''window_seconds must be 60..31536000''))"

text \<open>\<open>str(value or "")\<close>.\<close>

definition or_blank :: "string option \<Rightarrow> string" where
  "or_blank v = (case v of None \<Rightarrow> [] | Some x \<Rightarrow> x)"

definition set_policy ::
  "rat \<Rightarrow> string \<Rightarrow> string \<Rightarrow> string \<Rightarrow> string option \<Rightarrow> (string \<times> cost) list \<Rightarrow> string \<Rightarrow> cost option \<Rightarrow> bool \<Rightarrow> jobj option \<Rightarrow>
   (budgets, budget_policy) sx" where
  "set_policy now generated owner scope_type sc limits mode window enabled extra =
     (let st = py_lower scope_type; md = py_lower mode in
      andthen (require (st \<in> set budget_scopes) (ValueError ''invalid budget scope_type''))
      (andthen (require (st = ''instance'' \<or> py_strip (or_blank sc) \<noteq> []) (ValueError ''budget scope_id is required outside instance scope''))
      (andthen (require (md \<in> {''hard_stop'', ''warn''}) (ValueError ''budget mode must be hard_stop or warn''))
      (andthen (require (limits \<noteq> []) (ValueError ''budget limits must be a non-empty object''))
      (bnd (lift_sum (normalize_limits limits)) (\<lambda>lims.
      bnd (lift_sum (read_window window)) (\<lambda>win.
      bnd (gets (\<lambda>s. dget (bu_policies s) generated)) (\<lambda>row.
      andthen (require (row = None) IntegrityError)
      (andthen (modify (\<lambda>s. s\<lparr>bu_policies := dset generated \<lparr>bq_owner = owner, bq_scope_type = st, bq_scope = map_option py_strip sc,
           bq_mode = md, bq_limits = lims, bq_window = win, bq_enabled = enabled, bq_meta = object_of extra, bq_created = now,
           bq_updated = now\<rparr> (bu_policies s)\<rparr>))
        (policy_info generated owner))))))))))"

definition list_policies :: "string \<Rightarrow> bool \<Rightarrow> budgets \<Rightarrow> (string \<times> budget_policy) list" where
  "list_policies owner enabled_only s =
     sort_key (\<lambda>(i, p). bq_created p) (filter (\<lambda>(i, p). bq_owner p = owner \<and> (enabled_only \<longrightarrow> bq_enabled p)) (bu_policies s))"

definition set_enabled :: "rat \<Rightarrow> string \<Rightarrow> string \<Rightarrow> bool \<Rightarrow> (budgets, budget_policy) sx" where
  "set_enabled now i owner enabled =
     bnd (policy_info i owner) (\<lambda>p.
     andthen (modify (\<lambda>s. s\<lparr>bu_policies := dset i (p\<lparr>bq_enabled := enabled, bq_updated := now\<rparr>) (bu_policies s)\<rparr>))
       (policy_info i owner))"

section \<open>Scopes\<close>

text \<open>
  \<open>_work_item_ancestors\<close>: the item and what is above it, at most 32 of them and all of one run.
\<close>

function item_lineage :: "gov \<Rightarrow> string \<Rightarrow> string list \<Rightarrow> string option \<Rightarrow> string option \<Rightarrow> exn + string list" where
  "item_lineage g owner out run current = (case nonempty current of
     None \<Rightarrow> Inr out
   | Some i \<Rightarrow>
       if i \<in> set out \<or> 32 \<le> length out then Inl (BudgetExceeded ''work item budget lineage is cyclic or exceeds the depth bound'')
       else (case fst (item_info i owner g) of
         Inl e \<Rightarrow> Inl e
       | Inr w \<Rightarrow>
           let scoped = (case nonempty run of None \<Rightarrow> wi_run w | Some r \<Rightarrow> r) in
           if wi_run w \<noteq> scoped then Inl (BudgetExceeded ''work item budget lineage crosses Runs'')
           else item_lineage g owner (out @ [i]) (Some scoped) (wi_parent w)))"
  by pat_completeness auto

termination by (relation "measure (\<lambda>(g, owner, out, run, current). 32 - length out)") auto

declare item_lineage.simps [simp del]

text \<open>\<open>_budget_tree_sql\<close>: the item and what is below it in its run, round by round.\<close>

definition tree_children :: "gov \<Rightarrow> string \<Rightarrow> (string \<times> string) list \<Rightarrow> (string \<times> string) list" where
  "tree_children g owner found = map (\<lambda>(i, w). (i, wi_run w))
     (filter (\<lambda>(i, w). wi_owner w = owner \<and> list_ex (\<lambda>(p, r). wi_parent w = Some p \<and> wi_run w = r) found \<and> (i, wi_run w) \<notin> set found) (gv_items g))"

fun tree_rounds :: "nat \<Rightarrow> gov \<Rightarrow> string \<Rightarrow> (string \<times> string) list \<Rightarrow> (string \<times> string) list" where
  "tree_rounds 0 g owner found = found"
| "tree_rounds (Suc n) g owner found = tree_rounds n g owner (found @ tree_children g owner found)"

definition budget_tree :: "gov \<Rightarrow> string \<Rightarrow> string \<Rightarrow> string list" where
  "budget_tree g owner apex = map fst (tree_rounds (length (gv_items g)) g owner
     (case dget (gv_items g) apex of None \<Rightarrow> [] | Some w \<Rightarrow> if wi_owner w = owner then [(apex, wi_run w)] else []))"

definition descendant_work_items :: "gov \<Rightarrow> string \<Rightarrow> string \<Rightarrow> exn + string list" where
  "descendant_work_items g owner apex = (let found = budget_tree g owner apex in
     scheck (length found \<le> 10000) (BudgetExceeded ''work item usage-report lineage exceeds the bounded read'') (Inr found))"

definition context_field :: "string \<Rightarrow> spend_context \<Rightarrow> string option" where
  "context_field scope_type x =
     (if scope_type = ''workspace'' then bx_workspace x else if scope_type = ''goal'' then bx_goal x
      else if scope_type = ''work_item'' then bx_item x else if scope_type = ''run'' then bx_run x
      else if scope_type = ''operation'' then bx_operation x else if scope_type = ''agent'' then bx_agent x
      else bx_provider x)"

definition policy_applies :: "budget_policy \<Rightarrow> spend_context \<Rightarrow> string list \<Rightarrow> bool" where
  "policy_applies p ctx lineage \<longleftrightarrow>
     (if bq_scope_type p = ''instance'' then True
      else if bq_scope_type p = ''work_item'' then (case bq_scope p of None \<Rightarrow> False | Some x \<Rightarrow> x \<in> set lineage)
      else or_blank (context_field (bq_scope_type p) ctx) = or_blank (bq_scope p))"

text \<open>\<open>_summary_for\<close>: the events a policy counts at a time.\<close>

definition in_scope :: "gov \<Rightarrow> string \<Rightarrow> budget_policy \<Rightarrow> spend_context \<Rightarrow> bool" where
  "in_scope g owner p ctx \<longleftrightarrow>
     (if bq_scope_type p = ''instance'' then True
      else if bq_scope_type p = ''work_item'' then (case (bq_scope p, bx_item ctx) of
          (Some apex, Some i) \<Rightarrow> i \<in> set (budget_tree g owner apex) | _ \<Rightarrow> False)
      else (case (bq_scope p, context_field (bq_scope_type p) ctx) of (Some x, Some y) \<Rightarrow> x = y | _ \<Rightarrow> False))"

definition counts :: "rat \<Rightarrow> gov \<Rightarrow> string \<Rightarrow> budget_policy \<Rightarrow> cost_event \<Rightarrow> bool" where
  "counts now g owner p e \<longleftrightarrow> ce_owner e = owner \<and> in_scope g owner p (ce_context e)
     \<and> (case bq_window p of None \<Rightarrow> True | Some w \<Rightarrow> now - w \<le> ce_at e)"

definition policy_usage :: "rat \<Rightarrow> string \<Rightarrow> budget_policy \<Rightarrow> string \<Rightarrow> budgets \<Rightarrow> rat" where
  "policy_usage now owner p metric s = total (counts now (bu_gov s) owner p) metric s"

section \<open>Decisions\<close>

fun read_proposed :: "(string, rat) dict \<Rightarrow> (string \<times> cost) list \<Rightarrow> exn + (string, rat) dict" where
  "read_proposed out [] = Inr out"
| "read_proposed out ((name, raw) # rest) =
     scheck (name \<in> set budget_metrics) (ValueError ''unsupported proposed budget metric'')
     (case amount raw of None \<Rightarrow> Inl (ValueError ''proposed budget values must be finite and non-negative'')
      | Some q \<Rightarrow> read_proposed (dset name q out) rest)"

definition num :: "(string, rat) dict \<Rightarrow> string \<Rightarrow> rat" where
  "num d k = (case dget d k of None \<Rightarrow> 0 | Some q \<Rightarrow> q)"

definition proposed_values :: "(string \<times> cost) list \<Rightarrow> exn + (string, rat) dict" where
  "proposed_values xs = sbind (read_proposed [] xs) (\<lambda>d.
     Inr (if num d ''total_tokens'' = 0
       then dset ''total_tokens'' (num d ''input_tokens'' + num d ''output_tokens'' + num d ''reasoning_tokens'') d else d))"

record evaluation =
  bv_policy :: string
  bv_scope_type :: string
  bv_scope :: "string option"
  bv_mode :: string
  bv_limits :: "(string \<times> rat) list"
  bv_usage :: "(string \<times> rat) list"
  bv_remaining :: "(string \<times> rat) list"
  bv_exceeded :: "(string \<times> rat \<times> rat \<times> rat \<times> rat) list"

text \<open>The exceeded metrics come with the current, the proposed and the projected value and the limit.\<close>

definition evaluate :: "rat \<Rightarrow> string \<Rightarrow> (string, rat) dict \<Rightarrow> budgets \<Rightarrow> string \<times> budget_policy \<Rightarrow> evaluation" where
  "evaluate now owner proposed s ip = (case ip of (i, p) \<Rightarrow>
     \<lparr>bv_policy = i, bv_scope_type = bq_scope_type p, bv_scope = bq_scope p, bv_mode = bq_mode p, bv_limits = bq_limits p,
       bv_usage = map (\<lambda>m. (m, policy_usage now owner p m s)) budget_metrics,
       bv_remaining = map (\<lambda>(m, limit). (m, max 0 (limit - policy_usage now owner p m s))) (bq_limits p),
       bv_exceeded = map (\<lambda>(m, limit). (m, policy_usage now owner p m s, num proposed m,
           policy_usage now owner p m s + num proposed m, limit))
         (filter (\<lambda>(m, limit). limit < policy_usage now owner p m s + num proposed m) (bq_limits p))\<rparr>)"

record verdict =
  vd_allowed :: bool
  vd_blocking :: "evaluation list"
  vd_warnings :: "evaluation list"
  vd_evaluations :: "evaluation list"

definition lineage_of :: "string \<Rightarrow> spend_context \<Rightarrow> gov \<Rightarrow> exn + string list" where
  "lineage_of owner ctx g = (case nonempty (bx_item ctx) of None \<Rightarrow> Inr [] | Some i \<Rightarrow> item_lineage g owner [] (bx_run ctx) (Some i))"

definition budget_check :: "rat \<Rightarrow> string \<Rightarrow> spend_context \<Rightarrow> (string \<times> cost) list \<Rightarrow> budgets \<Rightarrow> exn + verdict" where
  "budget_check now owner ctx proposed s =
     sbind (lineage_of owner ctx (bu_gov s)) (\<lambda>lineage.
     sbind (proposed_values proposed) (\<lambda>values.
       let evs = map (evaluate now owner values s) (filter (\<lambda>(i, p). policy_applies p ctx lineage) (list_policies owner True s));
           blocking = filter (\<lambda>e. bv_mode e = ''hard_stop'' \<and> bv_exceeded e \<noteq> []) evs in
       Inr \<lparr>vd_allowed = (blocking = []), vd_blocking = blocking,
         vd_warnings = filter (\<lambda>e. bv_mode e = ''warn'' \<and> bv_exceeded e \<noteq> []) evs, vd_evaluations = evs\<rparr>))"

definition budget_require :: "rat \<Rightarrow> string \<Rightarrow> spend_context \<Rightarrow> (string \<times> cost) list \<Rightarrow> budgets \<Rightarrow> exn + verdict" where
  "budget_require now owner ctx proposed s = sbind (budget_check now owner ctx proposed s) (\<lambda>v.
     scheck (vd_allowed v) (BudgetExceeded ''budget hard-stop exceeded'') (Inr v))"

text \<open>\<open>_quota_admission\<close>: the answer carries whether the attempt had been admitted, or nothing when it is not counted.\<close>

definition quota_admission :: "rat \<Rightarrow> string \<Rightarrow> string \<Rightarrow> bool \<Rightarrow> spend_context \<Rightarrow> (budgets, verdict \<times> bool option) sx" where
  "quota_admission now owner i reserve ctx =
     andthen (require (1 \<le> length i \<and> length i \<le> 128) (ValueError ''invalid quota event identity''))
     (bnd (gets (\<lambda>s. dget (bu_costs s) i)) (\<lambda>previous. case previous of
        Some e \<Rightarrow>
          andthen (require (ce_owner e = owner \<and> ce_quota e = 1 \<and> ce_context e = ctx) (ValueError ''quota event identity collision''))
          (bnd (gets (budget_check now owner ctx [])) (\<lambda>r. bnd (lift_sum r) (\<lambda>v. ret (v, Some True))))
      | None \<Rightarrow>
          bnd (gets (budget_check now owner ctx [(''quota_usage'', Finite 1)])) (\<lambda>r. bnd (lift_sum r) (\<lambda>v.
          if \<not> vd_allowed v \<or> \<not> reserve then ret (v, None)
          else andthen (modify (\<lambda>s. s\<lparr>bu_costs := dset i \<lparr>ce_owner = owner, ce_at = now, ce_context = ctx, ce_model = None,
                 ce_currency = ''USD'', ce_actual = 0, ce_market = 0, ce_quota = 1, ce_in = 0, ce_out = 0, ce_reasoning = 0,
                 ce_meta = [(''kind'', JStr ''execution_admission''), (''pricing_known'', JBool False)]\<rparr> (bu_costs s)\<rparr>))
            (ret (v, Some False))))))"

definition reserve_quota :: "rat \<Rightarrow> string \<Rightarrow> string \<Rightarrow> spend_context \<Rightarrow> (budgets, verdict \<times> bool option) sx" where
  "reserve_quota now owner i ctx = quota_admission now owner i True ctx"

definition check_quota :: "rat \<Rightarrow> string \<Rightarrow> string \<Rightarrow> spend_context \<Rightarrow> (budgets, verdict \<times> bool option) sx" where
  "check_quota now owner i ctx = quota_admission now owner i False ctx"

end
