(* ===== verification/Spending_Properties.thy ===== *)
theory Spending_Properties
  imports Budget_Policy Work_Properties
begin

text \<open>
  Properties of the budgets: the lineage of a work item and the tree below one are the same relation, and
  what is admitted stays within every hard limit of every scope, whatever calls come in between.
\<close>

section \<open>Work items and their parents\<close>

text \<open>
  In every state of the governance service the rows have different keys and the parent of an item is an
  item of the same owner and run. From an earlier state on no item disappears or moves.
\<close>

definition same_place :: "work_item \<Rightarrow> work_item \<Rightarrow> bool" where
  "same_place w w' \<longleftrightarrow> wi_owner w' = wi_owner w \<and> wi_run w' = wi_run w \<and> wi_parent w' = wi_parent w"

definition child_of :: "gov \<Rightarrow> work_item \<Rightarrow> bool" where
  "child_of g w \<longleftrightarrow> (case nonempty (wi_parent w) of None \<Rightarrow> True
     | Some p \<Rightarrow> (case dget (gv_items g) p of None \<Rightarrow> False | Some v \<Rightarrow> wi_owner v = wi_owner w \<and> wi_run v = wi_run w))"

definition family :: "gov \<Rightarrow> bool" where
  "family g \<longleftrightarrow> dict_ok (gv_items g) \<and> (\<forall>i w. dget (gv_items g) i = Some w \<longrightarrow> i \<noteq> [] \<and> child_of g w)"

definition grown :: "gov \<Rightarrow> gov \<Rightarrow> bool" where
  "grown g0 g \<longleftrightarrow> family g \<and> (\<forall>i w. dget (gv_items g0) i = Some w \<longrightarrow> (\<exists>w'. dget (gv_items g) i = Some w' \<and> same_place w w'))"

lemma change_in_place: "item_change g i w w' \<Longrightarrow> same_place w w'"
  by (cases rule: item_change.cases) (auto simp: same_place_def)

lemma same_place_trans: "same_place a b \<Longrightarrow> same_place b c \<Longrightarrow> same_place a c"
  by (simp add: same_place_def)

text \<open>A row written at an identifier that is free, or that holds a row of the same place.\<close>

lemma child_of_written:
  assumes "child_of g v" "gv_items g' = dset i w (gv_items g)" "\<forall>u. dget (gv_items g) i = Some u \<longrightarrow> same_place u w"
  shows "child_of g' v"
  using assms by (auto simp: child_of_def same_place_def split: option.splits)

lemma family_written:
  assumes "family g" "gv_items g' = dset i w (gv_items g)" "i \<noteq> []" "child_of g w"
    and "\<forall>u. dget (gv_items g) i = Some u \<longrightarrow> same_place u w"
  shows "family g'"
  unfolding family_def
proof (intro conjI allI impI)
  show "dict_ok (gv_items g')" using assms(1,2) by (simp add: family_def)
  fix j v assume j: "dget (gv_items g') j = Some v"
  then show "j \<noteq> []" using assms(1-3) by (auto simp: family_def split: if_splits)
  show "child_of g' v"
  proof (cases "j = i")
    case True
    with j assms(2) have "v = w" by simp
    with child_of_written [OF assms(4,2,5)] show ?thesis by simp
  next
    case False
    with j assms(1,2) have "child_of g v" by (auto simp: family_def)
    with child_of_written [OF _ assms(2,5)] show ?thesis by blast
  qed
qed

lemma grown_same:
  assumes "grown g0 g" "dget (gv_items g) i = Some w" "same_place w w'" "gv_items g' = dset i w' (gv_items g)"
  shows "grown g0 g'"
proof -
  have f: "family g" "i \<noteq> []" "child_of g w" using assms(1,2) by (auto simp: grown_def family_def)
  then have "child_of g w'" using assms(3) by (auto simp: child_of_def same_place_def split: option.splits)
  from family_written [OF f(1) assms(4) f(2) this] assms(2,3) have "family g'" by simp
  moreover have "\<exists>x'. dget (gv_items g') j = Some x' \<and> same_place x x'" if "dget (gv_items g0) j = Some x" for j x
  proof -
    from that assms(1) obtain y where "dget (gv_items g) j = Some y" "same_place x y" by (auto simp: grown_def)
    then show ?thesis using assms(2-4) same_place_trans by (cases "j = i") auto
  qed
  ultimately show ?thesis by (simp add: grown_def)
qed

lemma grown_new:
  assumes "grown g0 g" "i \<noteq> []" "dget (gv_items g) i = None" "first_row g w"
  shows "grown g0 (set_item i w g)"
proof -
  have "child_of g w" using assms(4) by (auto simp: first_row_def child_of_def split: option.split)
  then have "family (set_item i w g)"
    using family_written [of g "set_item i w g" i w] assms by (simp add: grown_def)
  moreover have "\<forall>j x. dget (gv_items g0) j = Some x \<longrightarrow> (\<exists>x'. dget (gv_items g) j = Some x' \<and> same_place x x')"
    using assms(1) by (simp add: grown_def)
  ultimately show ?thesis using assms(3) unfolding grown_def by (metis dget_dset items_after(1) option.distinct(1))
qed

lemma grown_cong: "gv_items g' = gv_items g \<Longrightarrow> grown g0 g' = grown g0 g"
  by (simp add: grown_def family_def child_of_def cong: option.case_cong)

interpretation work_families: gov_invariant "grown g0" for g0
proof
  fix g i w w'
  assume "grown g0 g" "dget (gv_items g) i = Some w" "item_change g i w w'"
  then show "grown g0 (set_item i w' g)" using grown_same [of g0 g i w w' "set_item i w' g"] change_in_place by simp
next
  fix g i w action cls effect payload now owner c
  assume g: "grown g0 g" "dget (gv_items g) i = Some w"
  have "same_place w (failed_item now c action w)" by (simp add: same_place_def failed_item_def)
  with grown_same [of g0 g i w _ "append_work_event now owner i failure_recorded payload (set_item i (failed_item now c action w) g)"] g
  show "grown g0 (append_work_event now owner i failure_recorded payload (set_item i (failed_item now c action w) g))"
    by simp
qed (simp_all add: grown_new grown_cong [of "append_work_event now owner i t payload g" g for now owner i t payload g]
    grown_cong [of "g\<lparr>gv_activity := as\<rparr>" g for as g] grown_cong [of "g\<lparr>gv_decisions := ds\<rparr>" g for ds g])

lemma family_reached: "family (after_calls cs)"
  using work_families.after_calls [of empty_gov cs] by (simp add: grown_def family_def empty_gov_def)

lemma grown_refl: "family g \<Longrightarrow> grown g g"
  by (simp add: grown_def same_place_def)

lemma grown_call: "family g \<Longrightarrow> grown g (after_call c g)"
  using work_families.after_call [OF grown_refl] .

section \<open>The tree below an item and the lineage above it\<close>

definition parent_edge :: "gov \<Rightarrow> string \<Rightarrow> (string \<times> string) set" where
  "parent_edge g owner = {(p, i). \<exists>w v. dget (gv_items g) i = Some w \<and> dget (gv_items g) p = Some v \<and> wi_owner w = owner \<and> wi_owner v = owner
     \<and> wi_parent w = Some p \<and> wi_run v = wi_run w}"

definition row_pair :: "gov \<Rightarrow> string \<Rightarrow> string \<times> string \<Rightarrow> bool" where
  "row_pair g owner x \<longleftrightarrow> (\<exists>w. dget (gv_items g) (fst x) = Some w \<and> wi_owner w = owner \<and> wi_run w = snd x)"

lemma tree_children_iff:
  assumes "family g" "\<forall>x \<in> set found. row_pair g owner x"
  shows "x \<in> set (found @ tree_children g owner found) \<longleftrightarrow>
     x \<in> set found \<or> row_pair g owner x \<and> (\<exists>p \<in> fst ` set found. (p, fst x) \<in> parent_edge g owner)"
proof -
  have d: "(i, w) \<in> set (gv_items g) \<longleftrightarrow> dget (gv_items g) i = Some w" for i w using assms(1) by (simp add: family_def)
  show ?thesis using assms(2)
    by (cases x) (fastforce simp: tree_children_def parent_edge_def row_pair_def d list_ex_iff image_iff)
qed

lemma tree_rounds_sound:
  assumes "family g" "\<forall>x \<in> set found. row_pair g owner x \<and> (apex, fst x) \<in> (parent_edge g owner)\<^sup>*"
  shows "\<forall>x \<in> set (tree_rounds n g owner found). row_pair g owner x \<and> (apex, fst x) \<in> (parent_edge g owner)\<^sup>*"
  using assms(2)
proof (induction n arbitrary: found)
  case (Suc n)
  have "\<forall>x \<in> set (found @ tree_children g owner found). row_pair g owner x \<and> (apex, fst x) \<in> (parent_edge g owner)\<^sup>*"
    using Suc.prems tree_children_iff [OF assms(1), of found owner] by (metis (no_types, lifting) image_iff rtrancl.rtrancl_into_rtrancl)
  from Suc.IH [OF this] show ?case by simp
qed simp

lemma tree_rounds_complete:
  assumes "family g" "\<forall>x \<in> set found. row_pair g owner x" "x \<in> set found" "(fst x, j) \<in> parent_edge g owner ^^ k" "k \<le> n"
  shows "j \<in> fst ` set (tree_rounds n g owner found)"
  using assms(2-5)
proof (induction n arbitrary: found x k)
  case 0
  then show ?case by (auto simp: image_iff)
next
  case (Suc n)
  let ?next = "found @ tree_children g owner found"
  note iff = tree_children_iff [OF assms(1) Suc.prems(1)]
  have rows: "\<forall>x \<in> set ?next. row_pair g owner x" using iff Suc.prems(1) by blast
  show ?case
  proof (cases k)
    case 0
    with Suc.prems(3) Suc.IH [OF rows, of x 0] Suc.prems(2) show ?thesis by simp
  next
    case (Suc m)
    with Suc.prems(3) obtain i where i: "(fst x, i) \<in> parent_edge g owner" "(i, j) \<in> parent_edge g owner ^^ m"
      by (metis relpow_Suc_D2)
    then obtain w where w: "dget (gv_items g) i = Some w" "wi_owner w = owner" by (auto simp: parent_edge_def)
    have "(i, wi_run w) \<in> set ?next"
      using iff [of "(i, wi_run w)"] i(1) w Suc.prems(2) by (auto simp: row_pair_def)
    from Suc.IH [OF rows this, of m] i(2) Suc.prems(4) Suc show ?thesis by simp
  qed
qed

lemma parent_edge_bound: "finite (parent_edge g owner)" "card (parent_edge g owner) \<le> length (gv_items g)"
proof -
  have inj: "inj_on snd (parent_edge g owner)" by (auto simp: inj_on_def parent_edge_def)
  have sub: "snd ` parent_edge g owner \<subseteq> fst ` set (gv_items g)" by (auto simp: parent_edge_def dest: dget_Some_key)
  then have fin: "finite (snd ` parent_edge g owner)" by (rule finite_subset) simp
  then show "finite (parent_edge g owner)" using inj by (rule finite_imageD)
  have "card (parent_edge g owner) = card (snd ` parent_edge g owner)" using card_image [OF inj] by simp
  also have "\<dots> \<le> card (fst ` set (gv_items g))" by (rule card_mono [OF _ sub]) simp
  also have "\<dots> \<le> length (gv_items g)" by (metis card_length length_map list.set_map)
  finally show "card (parent_edge g owner) \<le> length (gv_items g)" .
qed

lemma budget_tree_iff:
  assumes "family g"
  shows "j \<in> set (budget_tree g owner apex) \<longleftrightarrow>
    (\<exists>v. dget (gv_items g) apex = Some v \<and> wi_owner v = owner) \<and> (apex, j) \<in> (parent_edge g owner)\<^sup>*"
proof (cases "\<exists>v. dget (gv_items g) apex = Some v \<and> wi_owner v = owner")
  case False
  have "tree_rounds n g owner [] = []" for n by (induction n) (simp_all add: tree_children_def)
  with False show ?thesis by (auto simp: budget_tree_def split: option.split)
next
  case True
  then obtain v where v: "dget (gv_items g) apex = Some v" "wi_owner v = owner" by blast
  then have t: "budget_tree g owner apex = map fst (tree_rounds (length (gv_items g)) g owner [(apex, wi_run v)])"
    by (simp add: budget_tree_def)
  have row: "row_pair g owner (apex, wi_run v)" using v by (simp add: row_pair_def)
  show ?thesis
  proof
    assume "j \<in> set (budget_tree g owner apex)"
    with t tree_rounds_sound [OF assms, of "[(apex, wi_run v)]" owner apex] row v show "(\<exists>v. dget (gv_items g) apex = Some v \<and> wi_owner v = owner)
      \<and> (apex, j) \<in> (parent_edge g owner)\<^sup>*" by fastforce
  next
    assume "(\<exists>v. dget (gv_items g) apex = Some v \<and> wi_owner v = owner) \<and> (apex, j) \<in> (parent_edge g owner)\<^sup>*"
    then obtain k where "k \<le> card (parent_edge g owner)" "(apex, j) \<in> parent_edge g owner ^^ k"
      using rtrancl_finite_eq_relpow [OF parent_edge_bound(1) [of g owner]] by auto
    then have "k \<le> length (gv_items g)" "(apex, j) \<in> parent_edge g owner ^^ k"
      using parent_edge_bound(2) [of g owner] by auto
    with t tree_rounds_complete [OF assms, of "[(apex, wi_run v)]" owner "(apex, wi_run v)" j k] row show "j \<in> set (budget_tree g owner apex)"
      by simp
  qed
qed

lemma family_row: "family g \<Longrightarrow> dget (gv_items g) i = Some w \<Longrightarrow> i \<noteq> [] \<and> child_of g w"
  by (simp add: family_def)

text \<open>What is above an item: the item, and what is above its parent.\<close>

definition ancestors_of :: "gov \<Rightarrow> string \<Rightarrow> string option \<Rightarrow> string set" where
  "ancestors_of g owner current = (case nonempty current of None \<Rightarrow> {} | Some i \<Rightarrow> {p. (p, i) \<in> (parent_edge g owner)\<^sup>*})"

lemma ancestors_step:
  assumes "family g" "dget (gv_items g) i = Some w" "wi_owner w = owner"
  shows "ancestors_of g owner (Some i) = insert i (ancestors_of g owner (wi_parent w))"
proof -
  have i: "nonempty (Some i) = Some i" using family_row [OF assms(1,2)] by (simp add: nonempty_def)
  have up: "\<exists>v. dget (gv_items g) q = Some v \<and> wi_owner v = wi_owner w \<and> wi_run v = wi_run w" if "nonempty (wi_parent w) = Some q" for q
    using family_row [OF assms(1,2)] that by (auto simp: child_of_def split: option.splits)
  have edge: "(q, i) \<in> parent_edge g owner \<longleftrightarrow> nonempty (wi_parent w) = Some q" for q
    using assms(2,3) family_row [OF assms(1)] up [of q] by (auto simp: parent_edge_def nonempty_Some)
  show ?thesis
  proof (intro set_eqI)
    fix p
    have "(p, i) \<in> (parent_edge g owner)\<^sup>* \<longleftrightarrow> p = i \<or> (\<exists>q. (p, q) \<in> (parent_edge g owner)\<^sup>* \<and> nonempty (wi_parent w) = Some q)"
      using edge by (metis rtrancl.simps)
    then show "p \<in> ancestors_of g owner (Some i) \<longleftrightarrow> p \<in> insert i (ancestors_of g owner (wi_parent w))"
      using i by (auto simp: ancestors_of_def split: option.split)
  qed
qed

lemma item_info_found: "fst (item_info i owner g) = Inr w \<Longrightarrow> dget (gv_items g) i = Some w \<and> wi_owner w = owner"
  by (cases "dget (gv_items g) i") (auto simp: item_info_def bnd_run andthen_run require_def split: if_splits)

lemma lineage_ancestors:
  "family g \<Longrightarrow> item_lineage g owner out run current = Inr as \<Longrightarrow> set as = set out \<union> ancestors_of g owner current"
proof (induction g owner out run current rule: item_lineage.induct)
  case (1 g owner out run current)
  show ?case
  proof (cases "nonempty current")
    case None
    with "1.prems" show ?thesis by (simp add: item_lineage.simps ancestors_of_def)
  next
    case (Some i)
    have i: "current = Some i" using Some by (simp add: nonempty_Some)
    from "1.prems"(2) Some obtain w where free: "\<not> (i \<in> set out \<or> 32 \<le> length out)" and info: "fst (item_info i owner g) = Inr w"
      and run: "\<not> wi_run w \<noteq> (case nonempty run of None \<Rightarrow> wi_run w | Some r \<Rightarrow> r)"
      and rec: "item_lineage g owner (out @ [i]) (Some (case nonempty run of None \<Rightarrow> wi_run w | Some r \<Rightarrow> r)) (wi_parent w) = Inr as"
      by (subst (asm) item_lineage.simps) (auto simp: Let_def split: if_splits sum.splits)
    from "1.IH" [OF Some free info refl run "1.prems"(1) rec]
    have "set as = set (out @ [i]) \<union> ancestors_of g owner (wi_parent w)" .
    with ancestors_step [OF "1.prems"(1)] item_info_found [OF info] i show ?thesis by simp
  qed
qed

text \<open>
  C32: the two ways the budget service follows the work items agree: whenever the lineage of an item is
  returned, its members are exactly the items of the owner below which the recursive query of the ledger
  finds the item. What is spent for an item is checked against the policies of those items and no others.
\<close>

theorem lineage_is_the_budget_tree:
  assumes "item_lineage (after_calls cs) owner [] run (Some i) = Inr lineage" "i \<noteq> []"
  shows "p \<in> set lineage \<longleftrightarrow> i \<in> set (budget_tree (after_calls cs) owner p)"
proof -
  let ?g = "after_calls cs"
  have lin: "set lineage = {p. (p, i) \<in> (parent_edge ?g owner)\<^sup>*}"
    using lineage_ancestors [OF family_reached assms(1)] assms(2) by (simp add: ancestors_of_def nonempty_def)
  have item: "\<exists>w. dget (gv_items ?g) i = Some w \<and> wi_owner w = owner"
    using assms by (subst (asm) item_lineage.simps) (auto simp: nonempty_def dest: item_info_found split: sum.splits if_splits)
  have "\<exists>v. dget (gv_items ?g) p = Some v \<and> wi_owner v = owner" if "(p, i) \<in> (parent_edge ?g owner)\<^sup>*"
    using that item by (cases rule: converse_rtranclE) (auto simp: parent_edge_def)
  with lin show ?thesis using budget_tree_iff [OF family_reached] by blast
qed

section \<open>Histories of the ledger and of the policies\<close>

datatype budget_call =
    Govern work_call
  | Cost rat string string cost cost cost string int int int spend_context "string option" "jobj option" "string option"
  | Set_Policy rat string string string "string option" "(string \<times> cost) list" string "cost option" bool "jobj option"
  | Enable rat string string bool
  | Reserve_Quota rat string string spend_context

fun after_spending :: "budget_call \<Rightarrow> budgets \<Rightarrow> budgets" where
  "after_spending (Govern c) s = s\<lparr>bu_gov := after_call c (bu_gov s)\<rparr>"
| "after_spending (Cost now generated owner actual market quota currency tin tout treason ctx model extra given) s =
     snd (record_cost now generated owner actual market quota currency tin tout treason ctx model extra given s)"
| "after_spending (Set_Policy now generated owner scope_type sc limits mode window enabled extra) s =
     snd (set_policy now generated owner scope_type sc limits mode window enabled extra s)"
| "after_spending (Enable now i owner enabled) s = snd (set_enabled now i owner enabled s)"
| "after_spending (Reserve_Quota now owner i ctx) s = snd (reserve_quota now owner i ctx s)"

definition no_budgets :: budgets where
  "no_budgets = \<lparr>bu_gov = empty_gov, bu_costs = [], bu_policies = []\<rparr>"

text \<open>The quota recorded after the fact; a policy stays enabled; the clock does not go back.\<close>

fun recorded_quota :: "budget_call \<Rightarrow> rat" where
  "recorded_quota (Cost now generated owner actual market quota currency tin tout treason ctx model extra given) =
     (case amount quota of None \<Rightarrow> 0 | Some q \<Rightarrow> q)"
| "recorded_quota _ = 0"

definition recorded :: "budget_call list \<Rightarrow> rat" where
  "recorded cs = sum_list (map recorded_quota cs)"

fun keeps_enabled :: "string \<Rightarrow> budget_call \<Rightarrow> bool" where
  "keeps_enabled i (Enable now j owner enabled) = (j = i \<longrightarrow> enabled)"
| "keeps_enabled i _ = True"

fun call_time :: "budget_call \<Rightarrow> rat option" where
  "call_time (Reserve_Quota now owner i ctx) = Some now"
| "call_time _ = None"

fun in_order :: "rat \<Rightarrow> budget_call list \<Rightarrow> rat \<Rightarrow> bool" where
  "in_order t [] t' = (t \<le> t')"
| "in_order t (c # cs) t' = (case call_time c of None \<Rightarrow> in_order t cs t' | Some n \<Rightarrow> t \<le> n \<and> in_order n cs t')"

text \<open>
  Events record no negative quota; policies outside the instance name a scope. An event is unplaced
  while the work item it names does not exist: nothing was checked for it, and it counts for
  the policies above the item once the item is created.
\<close>

definition unplaced :: "gov \<Rightarrow> cost_event \<Rightarrow> bool" where
  "unplaced g e \<longleftrightarrow> (case nonempty (bx_item (ce_context e)) of None \<Rightarrow> False | Some j \<Rightarrow> dget (gv_items g) j = None)"

definition unplaced_quota :: "budgets \<Rightarrow> rat" where
  "unplaced_quota s = total (unplaced (bu_gov s)) ''quota_usage'' s"

definition scoped :: "budget_policy \<Rightarrow> bool" where
  "scoped p \<longleftrightarrow> bq_scope_type p = ''instance'' \<or> (\<exists>x. bq_scope p = Some x \<and> x \<noteq> [])"

definition ledger_ok :: "budgets \<Rightarrow> bool" where
  "ledger_ok s \<longleftrightarrow> family (bu_gov s) \<and> (\<forall>e \<in> snd ` set (bu_costs s). 0 \<le> ce_quota e)
     \<and> (\<forall>p \<in> snd ` set (bu_policies s). scoped p)"

lemma ball_dset: "\<forall>x \<in> set d. Q (snd x) \<Longrightarrow> Q v \<Longrightarrow> \<forall>x \<in> set (dset k v d). Q (snd x)"
  using set_dset_subset [of k v d] by fastforce

subsection \<open>Totals\<close>

lemma total_sum: "total counted m s = sum_list (map (\<lambda>e. if counted e then metric_of m e else 0) (map snd (bu_costs s)))"
  by (simp add: total_def sum_list_map_filter')

lemma quota_metric: "metric_of ''quota_usage'' e = ce_quota e"
  by (simp add: metric_of_def)

lemma total_le:
  assumes "bu_costs s' = bu_costs s"
    and "\<And>e. e \<in> snd ` set (bu_costs s) \<Longrightarrow> 0 \<le> ce_quota e \<and> (A e \<longrightarrow> B e)"
  shows "total A ''quota_usage'' s' \<le> total B ''quota_usage'' s"
  unfolding total_sum assms(1) quota_metric
proof (rule sum_list_mono)
  fix e assume "e \<in> set (map snd (bu_costs s))"
  with assms(2) [of e] show "(if A e then ce_quota e else 0) \<le> (if B e then ce_quota e else 0)" by auto
qed

lemma total_new:
  assumes "dget (bu_costs s) i = None" "bu_costs s' = dset i e (bu_costs s)"
  shows "total A m s' = total A m s + (if A e then metric_of m e else 0)"
  by (simp add: total_sum assms dset_fresh)

subsection \<open>Trees only grow at their leaves\<close>

lemma tree_stable:
  assumes "family g" "grown g g'" "dget (gv_items g) j \<noteq> None" "j \<in> set (budget_tree g' owner apex)"
  shows "j \<in> set (budget_tree g owner apex)"
proof -
  have g': "family g'" using assms(2) by (simp add: grown_def)
  have keep: "\<exists>w'. dget (gv_items g') k = Some w' \<and> same_place w w'" if "dget (gv_items g) k = Some w" for k w
    using that assms(2) by (simp add: grown_def)
  from assms(4) budget_tree_iff [OF g'] obtain v where v: "dget (gv_items g') apex = Some v" "wi_owner v = owner"
    and path: "(apex, j) \<in> (parent_edge g' owner)\<^sup>*" by blast
  from path have "(\<exists>w. dget (gv_items g) apex = Some w) \<and> (apex, j) \<in> (parent_edge g owner)\<^sup>*"
  proof (induction rule: converse_rtrancl_induct)
    case base
    then show ?case using assms(3) by auto
  next
    case (step y z)
    from step.IH obtain w where w: "dget (gv_items g) z = Some w" by blast
    from step.hyps(1) obtain w' u where e: "dget (gv_items g') z = Some w'" "dget (gv_items g') y = Some u" "wi_owner w' = owner"
      "wi_parent w' = Some y" "wi_run u = wi_run w'" by (auto simp: parent_edge_def)
    from keep [OF w] e(1) have p: "same_place w w'" by simp
    have "nonempty (wi_parent w) = Some y" using p e(4) family_row [OF g' e(2)] by (auto simp: same_place_def nonempty_def)
    with family_row [OF assms(1) w] obtain x where x: "dget (gv_items g) y = Some x" "wi_owner x = wi_owner w" "wi_run x = wi_run w"
      by (auto simp: child_of_def split: option.splits)
    have "(y, z) \<in> parent_edge g owner"
      using w x p e(3,4) by (auto simp: parent_edge_def same_place_def)
    with step.IH x(1) show ?case by (auto intro: converse_rtrancl_into_rtrancl)
  qed
  then obtain w where "dget (gv_items g) apex = Some w" "(apex, j) \<in> (parent_edge g owner)\<^sup>*" by blast
  with keep v show ?thesis by (fastforce simp: budget_tree_iff [OF assms(1)] same_place_def)
qed

subsection \<open>What each call does\<close>

definition quota_event :: "rat \<Rightarrow> string \<Rightarrow> spend_context \<Rightarrow> cost_event" where
  "quota_event now owner ctx = \<lparr>ce_owner = owner, ce_at = now, ce_context = ctx, ce_model = None,
     ce_currency = ''USD'', ce_actual = 0, ce_market = 0, ce_quota = 1, ce_in = 0, ce_out = 0, ce_reasoning = 0,
     ce_meta = [(''kind'', JStr ''execution_admission''), (''pricing_known'', JBool False)]\<rparr>"

lemma reserve_cases:
  "snd (reserve_quota now owner i ctx s) = s \<or>
   (\<exists>v. budget_check now owner ctx [(''quota_usage'', Finite 1)] s = Inr v \<and> vd_allowed v \<and> dget (bu_costs s) i = None \<and>
     snd (reserve_quota now owner i ctx s) = s\<lparr>bu_costs := dset i (quota_event now owner ctx) (bu_costs s)\<rparr>)"
  by (auto simp: reserve_quota_def quota_admission_def andthen_run bnd_run require_def lift_sum_def quota_event_def
      split: option.split sum.split)

lemma log_activity_items [simp]: "gv_items (snd (log_activity a g)) = gv_items g"
  by (auto simp: log_activity_def bnd_run lift_sum_def split: sum.split)

lemma write_cases:
  assumes "s' = snd (write_cost i e s)"
  shows "bu_policies s' = bu_policies s \<and> gv_items (bu_gov s') = gv_items (bu_gov s)
    \<and> (bu_costs s' = bu_costs s \<or> dget (bu_costs s) i = None \<and> bu_costs s' = dset i e (bu_costs s))"
proof (cases "dget (bu_costs s) i")
  case None
  define a where "a = \<lparr>av_owner = ce_owner e, av_action = ''cost.record'', av_outcome = ''ok'', av_actor_type = ''system'',
    av_actor = [], av_item = bx_item (ce_context e), av_run = bx_run (ce_context e), av_goal = bx_goal (ce_context e),
    av_agent = bx_agent (ce_context e),
    av_payload = [(''cost_event_id'', JStr i), (''actual_cost'', JNum (ce_actual e)), (''market_cost'', JNum (ce_market e)),
      (''quota_usage'', JNum (ce_quota e))],
    av_at = ce_at e\<rparr>"
  have "s' = s\<lparr>bu_costs := dset i e (bu_costs s), bu_gov := snd (log_activity a (bu_gov s))\<rparr>"
    using None unfolding assms write_cost_def a_def [symmetric]
    by (cases "log_activity a (bu_gov s)") (auto simp: bnd_run andthen_run on_gov_def split: sum.split)
  with None show ?thesis by simp
next
  case (Some old)
  then have "s' = s" unfolding assms write_cost_def by (simp add: bnd_run andthen_run require_def)
  then show ?thesis by simp
qed

lemma cost_cases:
  assumes "s' = snd (record_cost now generated owner actual market quota currency tin tout treason ctx model extra given s)"
  shows "bu_policies s' = bu_policies s \<and> gv_items (bu_gov s') = gv_items (bu_gov s)
    \<and> (bu_costs s' = bu_costs s \<or> (\<exists>i e. dget (bu_costs s) i = None \<and> bu_costs s' = dset i e (bu_costs s) \<and> amount quota = Some (ce_quota e)))"
proof -
  have "s' = s \<or> (\<exists>i a m q cur. amount quota = Some q \<and> s' = snd (write_cost i \<lparr>ce_owner = owner, ce_at = now, ce_context = ctx,
      ce_model = model, ce_currency = cur, ce_actual = a, ce_market = m, ce_quota = q, ce_in = tin, ce_out = tout, ce_reasoning = treason,
      ce_meta = object_of extra\<rparr> s))" (is "_ \<or> (\<exists>i a m q cur. amount quota = Some q \<and> s' = snd (write_cost i (?e a m q cur) s))")
    using assms by (auto simp: record_cost_def andthen_run bnd_run require_def lift_sum_def split: option.splits sum.splits)
  then consider "s' = s" | i a m q cur where "amount quota = Some q" "s' = snd (write_cost i (?e a m q cur) s)" by blast
  then show ?thesis
  proof cases
    case 2
    from write_cases [OF 2(2)] 2(1) show ?thesis by fastforce
  qed simp
qed

lemma policy_info_state [simp]: "snd (policy_info i owner s) = s"
  by (auto simp: policy_info_def bnd_run andthen_run require_def split: option.split)

lemma enable_cases:
  assumes "s' = snd (set_enabled now i owner enabled s)"
  shows "s' = s \<or> (\<exists>p. dget (bu_policies s) i = Some p \<and> bq_owner p = owner
     \<and> s' = s\<lparr>bu_policies := dset i (p\<lparr>bq_enabled := enabled, bq_updated := now\<rparr>) (bu_policies s)\<rparr>)"
  using assms by (cases "dget (bu_policies s) i")
    (auto simp: set_enabled_def policy_info_def bnd_run andthen_run require_def)

definition policy_row :: "rat \<Rightarrow> string \<Rightarrow> string \<Rightarrow> string option \<Rightarrow> string \<Rightarrow> bool \<Rightarrow> jobj option \<Rightarrow> (string \<times> rat) list \<Rightarrow> rat option \<Rightarrow> budget_policy" where
  "policy_row now owner st sc md enabled extra lims win = \<lparr>bq_owner = owner, bq_scope_type = st, bq_scope = map_option py_strip sc,
     bq_mode = md, bq_limits = lims, bq_window = win, bq_enabled = enabled, bq_meta = object_of extra, bq_created = now, bq_updated = now\<rparr>"

lemma policy_cases:
  assumes "s' = snd (set_policy now generated owner scope_type sc limits mode window enabled extra s)"
  shows "s' = s \<or> (\<exists>p. dget (bu_policies s) generated = None \<and> scoped p \<and> s' = s\<lparr>bu_policies := dset generated p (bu_policies s)\<rparr>)"
proof -
  let ?row = "policy_row now owner (py_lower scope_type) sc (py_lower mode) enabled extra"
  have "s' = s \<or> (\<exists>lims win. dget (bu_policies s) generated = None \<and> (py_lower scope_type = ''instance'' \<or> py_strip (or_blank sc) \<noteq> [])
      \<and> s' = s\<lparr>bu_policies := dset generated (?row lims win) (bu_policies s)\<rparr>)"
    unfolding assms set_policy_def Let_def policy_row_def [symmetric]
    by (simp add: bnd_run andthen_run require_def lift_sum_def split: sum.split) blast
  moreover have "scoped (?row lims win)" if "py_lower scope_type = ''instance'' \<or> py_strip (or_blank sc) \<noteq> []" for lims win
    using that by (cases sc) (auto simp: scoped_def policy_row_def or_blank_def py_strip_def py_lstrip_def)
  ultimately show ?thesis by blast
qed

subsection \<open>Admission\<close>

lemma quota_proposed: "proposed_values [(''quota_usage'', Finite 1)] = Inr d \<Longrightarrow> num d ''quota_usage'' = 1"
  by (auto simp: proposed_values_def amount_def budget_metrics_def scheck_def num_def)

lemma admitted_within:
  assumes "budget_check now owner ctx [(''quota_usage'', Finite 1)] s = Inr v" "vd_allowed v"
    and "(i, p) \<in> set (bu_policies s)" "bq_owner p = owner" "bq_enabled p" "bq_mode p = ''hard_stop''"
    and "(''quota_usage'', limit) \<in> set (bq_limits p)"
    and "\<And>lineage. lineage_of owner ctx (bu_gov s) = Inr lineage \<Longrightarrow> policy_applies p ctx lineage"
  shows "policy_usage now owner p ''quota_usage'' s + 1 \<le> limit"
proof -
  obtain lineage d where l: "lineage_of owner ctx (bu_gov s) = Inr lineage"
    and d: "proposed_values [(''quota_usage'', Finite 1)] = Inr d"
    and v: "vd_allowed v \<longleftrightarrow> filter (\<lambda>e. bv_mode e = ''hard_stop'' \<and> bv_exceeded e \<noteq> [])
        (map (evaluate now owner d s) (filter (\<lambda>(i, p). policy_applies p ctx lineage) (list_policies owner True s))) = []"
    using assms(1) unfolding budget_check_def Let_def sbind_Inr by auto
  have "(i, p) \<in> set (filter (\<lambda>(i, p). policy_applies p ctx lineage) (list_policies owner True s))"
    using assms(3-5,8) l by (simp add: list_policies_def)
  with v assms(2,6) have "bv_exceeded (evaluate now owner d s (i, p)) = []"
    unfolding filter_empty_conv by (force simp: evaluate_def)
  with assms(7) have "\<not> limit < policy_usage now owner p ''quota_usage'' s + num d ''quota_usage''"
    by (auto simp: evaluate_def filter_empty_conv)
  then show ?thesis using quota_proposed [OF d] by simp
qed

text \<open>An event a policy counts was checked against it.\<close>

lemma counted_was_checked:
  assumes "family (bu_gov s)" "scoped p" "counts now (bu_gov s) owner p (quota_event now owner ctx)"
    and "lineage_of owner ctx (bu_gov s) = Inr lineage"
  shows "policy_applies p ctx lineage"
proof (cases "bq_scope_type p = ''work_item''")
  case True
  with assms(3) obtain x i where x: "bq_scope p = Some x" "bx_item ctx = Some i" "i \<in> set (budget_tree (bu_gov s) owner x)"
    by (auto simp: counts_def in_scope_def quota_event_def split: option.splits)
  then have path: "(\<exists>v. dget (gv_items (bu_gov s)) x = Some v) \<and> (x, i) \<in> (parent_edge (bu_gov s) owner)\<^sup>*"
    using budget_tree_iff [OF assms(1)] by blast
  then have "dget (gv_items (bu_gov s)) i \<noteq> None"
    by (cases "x = i") (auto elim: rtranclE simp: parent_edge_def)
  then have i: "i \<noteq> []" using family_row [OF assms(1)] by blast
  then have "item_lineage (bu_gov s) owner [] (bx_run ctx) (Some i) = Inr lineage"
    using assms(4) x(2) by (simp add: lineage_of_def nonempty_def)
  from lineage_ancestors [OF assms(1) this] path i have "x \<in> set lineage" by (simp add: ancestors_of_def nonempty_def)
  with True x(1) show ?thesis by (simp add: policy_applies_def)
next
  case False
  with assms(2,3) show ?thesis
    by (auto simp: counts_def in_scope_def policy_applies_def quota_event_def or_blank_def split: option.splits if_splits)
qed

subsection \<open>What every call keeps\<close>

lemma checked_item:
  assumes "lineage_of owner ctx g = Inr lineage" "nonempty (bx_item ctx) = Some j"
  shows "dget (gv_items g) j \<noteq> None"
  using assms by (cases "fst (item_info j owner g)")
    (auto simp: lineage_of_def item_lineage.simps [of g owner "[]"] nonempty_def dest: item_info_found split: if_splits)

lemma quota_event_placed:
  assumes "budget_check now owner ctx proposed s = Inr v"
  shows "\<not> unplaced (bu_gov s) (quota_event now owner ctx)"
  using assms checked_item by (auto simp: budget_check_def sbind_Inr unplaced_def quota_event_def split: option.split)

lemma amount_Some: "amount c = Some q \<Longrightarrow> 0 \<le> q"
  by (auto simp: amount_def split: cost.splits if_splits)

lemma ledger_ok_gov: "ledger_ok s \<Longrightarrow> grown (bu_gov s) g \<Longrightarrow> ledger_ok (s\<lparr>bu_gov := g\<rparr>)"
  by (simp add: ledger_ok_def grown_def)

lemma grown_same_items: "family g \<Longrightarrow> gv_items g' = gv_items g \<Longrightarrow> grown g g'"
  using grown_refl grown_cong by blast

lemma ledger_ok_event:
  assumes "ledger_ok s" "0 \<le> ce_quota e" "family (bu_gov s')" "bu_policies s' = bu_policies s" "bu_costs s' = dset i e (bu_costs s)"
  shows "ledger_ok s'"
  using assms(1-3) ball_dset [of "bu_costs s" "\<lambda>e. 0 \<le> ce_quota e" e i] by (simp add: ledger_ok_def assms(4,5))

lemma ledger_ok_policy:
  assumes "ledger_ok s" "scoped p"
  shows "ledger_ok (s\<lparr>bu_policies := dset i p (bu_policies s)\<rparr>)"
  using assms ball_dset [of "bu_policies s" scoped p i] by (simp add: ledger_ok_def)

lemma ledger_step:
  assumes "ledger_ok s"
  shows "ledger_ok (after_spending c s)"
proof (cases c)
  case (Govern x)
  then show ?thesis using assms ledger_ok_gov grown_call by (simp add: ledger_ok_def [of s])
next
  case (Cost now generated owner actual market quota currency tin tout treason ctx model extra given)
  let ?s' = "after_spending c s"
  have "?s' = snd (record_cost now generated owner actual market quota currency tin tout treason ctx model extra given s)"
    using Cost by simp
  note c = cost_cases [OF this]
  have "family (bu_gov ?s')" using c grown_same_items [of "bu_gov s" "bu_gov ?s'"] assms by (simp add: ledger_ok_def grown_def)
  then show ?thesis using c assms amount_Some ledger_ok_event [OF assms, of _ ?s'] by (fastforce simp: ledger_ok_def [of s] ledger_ok_def [of ?s'])
next
  case (Set_Policy now generated owner scope_type sc limits mode window enabled extra)
  then show ?thesis
    using assms ledger_ok_policy policy_cases [OF refl, of now generated owner scope_type sc limits mode window enabled extra s] by auto
next
  case (Enable now i owner enabled)
  have "scoped (p\<lparr>bq_enabled := enabled, bq_updated := now\<rparr>)" if "dget (bu_policies s) i = Some p" for p
    using assms map_of_SomeD [OF that] by (fastforce simp: ledger_ok_def scoped_def)
  with Enable show ?thesis
    using assms ledger_ok_policy enable_cases [OF refl, of now i owner enabled s] by auto
next
  case (Reserve_Quota now owner i ctx)
  have "0 \<le> ce_quota (quota_event now owner ctx)" by (simp add: quota_event_def)
  then show ?thesis
    using assms reserve_cases [of now owner i ctx s] ledger_ok_event [OF assms, of _ "after_spending c s" i] Reserve_Quota
    by (auto simp: ledger_ok_def [of s])
qed

text \<open>A policy that is there, enabled, and whose quota is within the limit at a time.\<close>

definition same_policy :: "budget_policy \<Rightarrow> budget_policy \<Rightarrow> bool" where
  "same_policy p p' \<longleftrightarrow> bq_owner p' = bq_owner p \<and> bq_scope_type p' = bq_scope_type p \<and> bq_scope p' = bq_scope p \<and> bq_mode p' = bq_mode p
     \<and> bq_limits p' = bq_limits p \<and> bq_window p' = bq_window p"

definition in_force :: "string \<Rightarrow> budget_policy \<Rightarrow> budgets \<Rightarrow> bool" where
  "in_force i p s \<longleftrightarrow> (\<exists>p'. dget (bu_policies s) i = Some p' \<and> same_policy p p' \<and> bq_enabled p')"

definition quota_used :: "rat \<Rightarrow> budget_policy \<Rightarrow> budgets \<Rightarrow> rat" where
  "quota_used now p s = policy_usage now (bq_owner p) p ''quota_usage'' s"

lemma counts_same:
  assumes "same_policy p p'"
  shows "counts now g owner p' = counts now g owner p"
proof -
  have e: "bq_scope_type p' = bq_scope_type p" "bq_scope p' = bq_scope p" "bq_window p' = bq_window p"
    using assms by (simp_all add: same_policy_def)
  show ?thesis unfolding counts_def in_scope_def e ..
qed

lemma used_same:
  assumes "same_policy p p'"
  shows "quota_used now p' s = quota_used now p s"
  unfolding quota_used_def policy_usage_def counts_same [OF assms] using assms by (simp add: same_policy_def)

text \<open>Without a window the time of the question does not matter; with one, later times count less.\<close>

definition not_before :: "budget_policy \<Rightarrow> rat \<Rightarrow> rat \<Rightarrow> bool" where
  "not_before p t t' \<longleftrightarrow> bq_window p = None \<or> t \<le> t'"

lemma counts_later: "counts t' g owner p e \<Longrightarrow> not_before p t t' \<Longrightarrow> counts t g owner p e"
  by (cases "bq_window p") (simp_all add: counts_def not_before_def)

text \<open>What a policy counts or may come to count: its usage with the unplaced quota.\<close>

definition exposed :: "rat \<Rightarrow> budget_policy \<Rightarrow> gov \<Rightarrow> cost_event \<Rightarrow> bool" where
  "exposed t p g e \<longleftrightarrow> counts t g (bq_owner p) p e \<or> unplaced g e"

definition exposure :: "rat \<Rightarrow> budget_policy \<Rightarrow> budgets \<Rightarrow> rat" where
  "exposure t p s = total (exposed t p (bu_gov s)) ''quota_usage'' s"

lemma quota_nonneg: "ledger_ok s \<Longrightarrow> e \<in> snd ` set (bu_costs s) \<Longrightarrow> 0 \<le> ce_quota e"
  by (auto simp: ledger_ok_def)

lemma used_exposed: "ledger_ok s \<Longrightarrow> quota_used t p s \<le> exposure t p s"
  unfolding quota_used_def policy_usage_def exposure_def by (rule total_le [OF refl]) (simp add: quota_nonneg exposed_def)

lemma exposure_split:
  assumes "ledger_ok s"
  shows "exposure t p s \<le> quota_used t p s + unplaced_quota s"
  unfolding exposure_def quota_used_def policy_usage_def unplaced_quota_def total_sum quota_metric sum_list_addf [symmetric]
proof (rule sum_list_mono)
  fix e assume "e \<in> set (map snd (bu_costs s))"
  with quota_nonneg [OF assms, of e]
  show "(if exposed t p (bu_gov s) e then ce_quota e else 0)
      \<le> (if counts t (bu_gov s) (bq_owner p) p e then ce_quota e else 0) + (if unplaced (bu_gov s) e then ce_quota e else 0)"
    by (auto simp: exposed_def)
qed

lemma exposure_later: "ledger_ok s \<Longrightarrow> not_before p t t' \<Longrightarrow> exposure t' p s \<le> exposure t p s"
  unfolding exposure_def by (rule total_le [OF refl]) (auto simp: quota_nonneg exposed_def intro: counts_later)

lemma unplaced_grown:
  assumes "grown g g'" "unplaced g' e"
  shows "unplaced g e"
proof (rule ccontr)
  assume "\<not> unplaced g e"
  with assms(2) obtain j w where "nonempty (bx_item (ce_context e)) = Some j" "dget (gv_items g) j = Some w"
    by (auto simp: unplaced_def split: option.splits)
  with assms show False by (fastforce simp: unplaced_def grown_def)
qed

lemma exposed_grown:
  assumes "family g" "grown g g'" "exposed t p g' e"
  shows "exposed t p g e"
proof (cases "unplaced g e")
  case False
  then have c: "counts t g' (bq_owner p) p e" using assms(3) unplaced_grown [OF assms(2)] by (auto simp: exposed_def)
  have "counts t g (bq_owner p) p e"
  proof (cases "bq_scope_type p = ''work_item''")
    case True
    with c obtain x i where x: "bq_scope p = Some x" "bx_item (ce_context e) = Some i" "i \<in> set (budget_tree g' (bq_owner p) x)"
      by (auto simp: counts_def in_scope_def split: option.splits)
    have f: "family g'" using assms(2) by (simp add: grown_def)
    have "dget (gv_items g') i \<noteq> None"
      using x(3) budget_tree_iff [OF f, of i "bq_owner p" x] by (cases "x = i") (auto elim: rtranclE simp: parent_edge_def)
    then have "nonempty (bx_item (ce_context e)) = Some i" using family_row [OF f] x(2) by (auto simp: nonempty_def)
    then have "dget (gv_items g) i \<noteq> None" using False by (simp add: unplaced_def)
    from tree_stable [OF assms(1,2) this x(3)] have "i \<in> set (budget_tree g (bq_owner p) x)" .
    with c True x show ?thesis by (simp add: counts_def in_scope_def)
  next
    case False
    with c have "in_scope g (bq_owner p) p (ce_context e) = in_scope g' (bq_owner p) p (ce_context e)" by (simp add: in_scope_def)
    with c show ?thesis by (simp add: counts_def)
  qed
  then show ?thesis by (simp add: exposed_def)
qed (simp add: exposed_def)

lemma exposure_grown:
  assumes "ledger_ok s" "grown (bu_gov s) g" "bu_gov s' = g" "bu_costs s' = bu_costs s"
  shows "exposure t p s' \<le> exposure t p s" "unplaced_quota s' \<le> unplaced_quota s"
proof -
  have f: "family (bu_gov s)" using assms(1) by (simp add: ledger_ok_def)
  show "exposure t p s' \<le> exposure t p s" unfolding exposure_def assms(3)
    by (rule total_le [OF assms(4)]) (use assms f exposed_grown in \<open>auto simp: quota_nonneg\<close>)
  show "unplaced_quota s' \<le> unplaced_quota s" unfolding unplaced_quota_def assms(3)
    by (rule total_le [OF assms(4)]) (use assms unplaced_grown in \<open>auto simp: quota_nonneg\<close>)
qed

lemma exposure_cong:
  "bu_gov s' = bu_gov s \<Longrightarrow> bu_costs s' = bu_costs s \<Longrightarrow> exposure t p s' = exposure t p s \<and> unplaced_quota s' = unplaced_quota s"
  by (simp add: exposure_def unplaced_quota_def total_def)

text \<open>An event is written: what is exposed and unplaced grows by no more than its quota.\<close>

lemma exposure_event:
  assumes "ledger_ok s" "gv_items (bu_gov s') = gv_items (bu_gov s)" "dget (bu_costs s) i = None" "bu_costs s' = dset i e (bu_costs s)" "0 \<le> ce_quota e"
  shows "exposure t p s' \<le> exposure t p s + ce_quota e" "unplaced_quota s' \<le> unplaced_quota s + ce_quota e"
proof -
  let ?s = "s\<lparr>bu_gov := bu_gov s'\<rparr>"
  have g: "grown (bu_gov s) (bu_gov s')" using assms(1,2) grown_same_items by (simp add: ledger_ok_def)
  have new: "total A ''quota_usage'' s' \<le> total A ''quota_usage'' ?s + ce_quota e" for A
    using total_new [of ?s i s' e A "''quota_usage''"] assms(3-5) by (simp add: quota_metric)
  have "exposure t p ?s \<le> exposure t p s" "unplaced_quota ?s \<le> unplaced_quota s"
    using exposure_grown [OF assms(1) g, of ?s] by simp_all
  then show "exposure t p s' \<le> exposure t p s + ce_quota e" "unplaced_quota s' \<le> unplaced_quota s + ce_quota e"
    using new [of "exposed t p (bu_gov s')"] new [of "unplaced (bu_gov s')"] by (simp_all add: exposure_def unplaced_quota_def)
qed

lemma cost_exposure:
  assumes "ledger_ok s" "c = Cost now generated owner actual market quota currency tin tout treason ctx model extra given"
  shows "exposure t p (after_spending c s) \<le> exposure t p s + recorded_quota c
    \<and> unplaced_quota (after_spending c s) \<le> unplaced_quota s + recorded_quota c"
proof -
  let ?s' = "after_spending c s"
  have s': "?s' = snd (record_cost now generated owner actual market quota currency tin tout treason ctx model extra given s)"
    using assms(2) by simp
  note c = cost_cases [OF s']
  have q: "0 \<le> recorded_quota c" using amount_Some [of quota] assms(2) by (simp split: option.split)
  show ?thesis
  proof (cases "bu_costs ?s' = bu_costs s")
    case True
    with c have "grown (bu_gov s) (bu_gov ?s')" using assms(1) grown_same_items by (simp add: ledger_ok_def)
    from exposure_grown [OF assms(1) this refl True] q show ?thesis by (fastforce intro: add_increasing2)
  next
    case False
    with c obtain i e where e: "dget (bu_costs s) i = None" "bu_costs ?s' = dset i e (bu_costs s)" "amount quota = Some (ce_quota e)" by blast
    from exposure_event [OF assms(1) _ e(1,2) amount_Some [OF e(3)]] c e(3) assms(2) show ?thesis by simp
  qed
qed

text \<open>An attempt that a policy counts was admitted within its limit.\<close>

lemma reserve_within:
  assumes "ledger_ok s" "dget (bu_policies s) i = Some p" "bq_enabled p" "bq_mode p = ''hard_stop''" "(''quota_usage'', limit) \<in> set (bq_limits p)"
    and "s' = snd (reserve_quota now owner j ctx s)"
  shows "unplaced_quota s' = unplaced_quota s
    \<and> (quota_used now p s' \<le> limit \<or> quota_used now p s' = quota_used now p s \<and> exposure now p s' = exposure now p s)"
proof (cases "s' = s")
  case False
  then obtain v where v: "budget_check now owner ctx [(''quota_usage'', Finite 1)] s = Inr v" "vd_allowed v" "dget (bu_costs s) j = None"
    and s': "s' = s\<lparr>bu_costs := dset j (quota_event now owner ctx) (bu_costs s)\<rparr>"
    using reserve_cases [of now owner j ctx s] assms(6) by blast
  have new: "total A ''quota_usage'' s' = total A ''quota_usage'' s + (if A (quota_event now owner ctx) then 1 else 0)" for A
    using total_new [OF v(3), of s' "quota_event now owner ctx" A "''quota_usage''"] s' by (simp add: quota_metric quota_event_def)
  have g: "bu_gov s' = bu_gov s" using s' by simp
  note placed = quota_event_placed [OF v(1)]
  have sc: "scoped p" using assms(1) map_of_SomeD [OF assms(2)] by (fastforce simp: ledger_ok_def)
  show ?thesis
  proof (cases "counts now (bu_gov s) (bq_owner p) p (quota_event now owner ctx)")
    case True
    then have o: "bq_owner p = owner" by (simp add: counts_def quota_event_def)
    have "policy_usage now owner p ''quota_usage'' s + 1 \<le> limit"
    proof (rule admitted_within [OF v(1,2) map_of_SomeD [OF assms(2)] o assms(3,4,5)])
      show "policy_applies p ctx lineage" if "lineage_of owner ctx (bu_gov s) = Inr lineage" for lineage
        using counted_was_checked [OF _ sc _ that] assms(1) True o by (simp add: ledger_ok_def)
    qed
    with new placed True o show ?thesis by (simp add: quota_used_def policy_usage_def unplaced_quota_def g)
  next
    case False
    with new placed show ?thesis by (simp add: quota_used_def policy_usage_def unplaced_quota_def exposure_def exposed_def g)
  qed
qed simp

text \<open>Unplaced quota comes only from costs recorded after the fact.\<close>

lemma unplaced_step:
  assumes "ledger_ok s"
  shows "unplaced_quota (after_spending c s) \<le> unplaced_quota s + recorded_quota c"
proof (cases c)
  case (Govern x)
  have "grown (bu_gov s) (after_call x (bu_gov s))" using assms grown_call by (simp add: ledger_ok_def)
  from exposure_grown(2) [OF assms this] Govern show ?thesis by simp
next
  case (Cost now generated owner actual market quota currency tin tout treason ctx model extra given)
  then show ?thesis using cost_exposure [OF assms] by blast
next
  case (Set_Policy now generated owner scope_type sc limits mode window enabled extra)
  then show ?thesis using policy_cases [OF refl, of now generated owner scope_type sc limits mode window enabled extra s]
    exposure_cong [of "after_spending c s" s] by auto
next
  case (Enable now j owner enabled)
  then show ?thesis using enable_cases [OF refl, of now j owner enabled s] exposure_cong [of "after_spending c s" s] by auto
next
  case (Reserve_Quota now owner j ctx)
  from quota_event_placed [of now owner ctx _ s] reserve_cases [of now owner j ctx s]
  have "unplaced_quota (after_spending c s) = unplaced_quota s"
    using Reserve_Quota total_new [of s j "after_spending c s" "quota_event now owner ctx" "unplaced (bu_gov s)" "''quota_usage''"]
    by (auto simp: unplaced_quota_def)
  with Reserve_Quota show ?thesis by simp
qed

text \<open>What a policy is exposed to after a call, at the time of the call.\<close>

lemma exposure_step:
  assumes "ledger_ok s" "in_force i p s" "bq_mode p = ''hard_stop''" "(''quota_usage'', limit) \<in> set (bq_limits p)"
    and "\<And>n. call_time c = Some n \<Longrightarrow> not_before p t n"
  shows "exposure (case call_time c of None \<Rightarrow> t | Some n \<Rightarrow> n) p (after_spending c s)
    \<le> max (exposure t p s) (limit + unplaced_quota s) + recorded_quota c"
proof (cases c)
  case (Govern x)
  have "grown (bu_gov s) (after_call x (bu_gov s))" using assms(1) grown_call by (simp add: ledger_ok_def)
  from exposure_grown(1) [OF assms(1) this, of "after_spending c s" t p] Govern show ?thesis by simp
next
  case (Cost now generated owner actual market quota currency tin tout treason ctx model extra given)
  with cost_exposure [OF assms(1) Cost, of t p] show ?thesis by (auto simp: max_def)
next
  case (Set_Policy now generated owner scope_type sc limits mode window enabled extra)
  then show ?thesis using policy_cases [OF refl, of now generated owner scope_type sc limits mode window enabled extra s]
    exposure_cong [of "after_spending c s" s t p] by auto
next
  case (Enable now j owner enabled)
  then show ?thesis using enable_cases [OF refl, of now j owner enabled s] exposure_cong [of "after_spending c s" s t p] by auto
next
  case (Reserve_Quota now owner j ctx)
  let ?s' = "snd (reserve_quota now owner j ctx s)"
  have le: "exposure now p s \<le> exposure t p s" using exposure_later [OF assms(1)] assms(5) Reserve_Quota by simp
  from assms(2) obtain p' where p': "dget (bu_policies s) i = Some p'" "same_policy p p'" "bq_enabled p'" by (auto simp: in_force_def)
  have "bq_owner p' = bq_owner p" using p'(2) by (simp add: same_policy_def)
  then have "exposed now p' g = exposed now p g" for g by (intro ext) (simp add: exposed_def counts_same [OF p'(2)])
  then have same: "exposure now p' u = exposure now p u" for u by (simp add: exposure_def)
  have ok: "ledger_ok ?s'" using ledger_step [OF assms(1), of c] Reserve_Quota by simp
  have "bq_mode p' = ''hard_stop''" "(''quota_usage'', limit) \<in> set (bq_limits p')" using p'(2) assms(3,4) by (simp_all add: same_policy_def)
  from reserve_within [OF assms(1) p'(1,3) this refl, of now owner j ctx]
  have "exposure now p ?s' \<le> max (exposure now p s) (limit + unplaced_quota s)"
    using exposure_split [OF ok, of now p'] unfolding same by (auto simp: max_def)
  also have "\<dots> \<le> max (exposure t p s) (limit + unplaced_quota s)" using le by (rule max.mono) simp
  finally show ?thesis using Reserve_Quota by simp
qed

lemma force_step:
  assumes "in_force i p s" "keeps_enabled i c"
  shows "in_force i p (after_spending c s)"
proof -
  from assms(1) obtain p' where p': "dget (bu_policies s) i = Some p'" "same_policy p p'" "bq_enabled p'" by (auto simp: in_force_def)
  have same: ?thesis if "bu_policies (after_spending c s) = bu_policies s" using assms(1) that by (simp add: in_force_def)
  show ?thesis
  proof (cases c)
    case (Cost now generated owner actual market quota currency tin tout treason ctx model extra given)
    then show ?thesis using cost_cases [OF refl, of now generated owner actual market quota currency tin tout treason ctx model extra given s]
      by (intro same) simp
  next
    case (Set_Policy now generated owner scope_type sc limits mode window enabled extra)
    with policy_cases [OF refl, of now generated owner scope_type sc limits mode window enabled extra s]
    have "after_spending c s = s \<or> (\<exists>q. dget (bu_policies s) generated = None \<and> after_spending c s = s\<lparr>bu_policies := dset generated q (bu_policies s)\<rparr>)"
      by simp blast
    then have "dget (bu_policies (after_spending c s)) i = Some p'" using p'(1) by (elim disjE exE conjE) (auto split: if_splits)
    with p' show ?thesis by (auto simp: in_force_def)
  next
    case (Enable now j owner enabled)
    with enable_cases [OF refl, of now j owner enabled s]
    have "after_spending c s = s \<or> (\<exists>q. dget (bu_policies s) j = Some q
      \<and> after_spending c s = s\<lparr>bu_policies := dset j (q\<lparr>bq_enabled := enabled, bq_updated := now\<rparr>) (bu_policies s)\<rparr>)"
      by simp blast
    then show ?thesis
    proof (elim disjE exE conjE)
      fix q assume q: "dget (bu_policies s) j = Some q"
        "after_spending c s = s\<lparr>bu_policies := dset j (q\<lparr>bq_enabled := enabled, bq_updated := now\<rparr>) (bu_policies s)\<rparr>"
      show ?thesis using p' q assms(2) Enable by (cases "j = i") (simp_all add: in_force_def same_policy_def)
    qed (simp add: assms(1))
  next
    case (Reserve_Quota now owner j ctx)
    then show ?thesis using reserve_cases [of now owner j ctx s] by (intro same) (elim disjE exE conjE, simp_all)
  next
    case (Govern x)
    then show ?thesis by (intro same) simp
  qed
qed

lemma exposure_run:
  "ledger_ok s \<Longrightarrow> in_force i p s \<Longrightarrow> bq_mode p = ''hard_stop'' \<Longrightarrow> (''quota_usage'', limit) \<in> set (bq_limits p) \<Longrightarrow>
   exposure t p s \<le> limit + u \<Longrightarrow> unplaced_quota s \<le> u \<Longrightarrow> bq_window p = None \<or> in_order t ds t' \<Longrightarrow> list_all (keeps_enabled i) ds \<Longrightarrow>
   exposure t' p (fold after_spending ds s) \<le> limit + u + recorded ds"
proof (induction ds arbitrary: t s u)
  case Nil
  then show ?case using exposure_later [of s p t t'] by (simp add: recorded_def not_before_def)
next
  case (Cons c ds)
  let ?t = "case call_time c of None \<Rightarrow> t | Some n \<Rightarrow> n"
  have now: "not_before p t n" if "call_time c = Some n" for n using Cons.prems(7) that by (auto simp: not_before_def)
  have order: "bq_window p = None \<or> in_order ?t ds t'" using Cons.prems(7) by (auto split: option.splits)
  have "exposure ?t p (after_spending c s) \<le> limit + (u + recorded_quota c)"
    using exposure_step [OF Cons.prems(1-4) now] Cons.prems(5,6) by fastforce
  moreover have "unplaced_quota (after_spending c s) \<le> u + recorded_quota c"
    using unplaced_step [OF Cons.prems(1), of c] Cons.prems(6) by simp
  moreover have "ledger_ok (after_spending c s)" "in_force i p (after_spending c s)"
    using ledger_step [OF Cons.prems(1)] force_step [OF Cons.prems(2)] Cons.prems(8) by simp_all
  ultimately have "exposure t' p (fold after_spending ds (after_spending c s)) \<le> limit + (u + recorded_quota c) + recorded ds"
    using Cons.IH [of "after_spending c s" ?t "u + recorded_quota c"] Cons.prems(3,4,8) order by simp
  then show ?case by (simp add: recorded_def add.assoc)
qed

lemma ledger_run: "ledger_ok s \<Longrightarrow> ledger_ok (fold after_spending cs s)"
  by (induction cs arbitrary: s) (simp_all add: ledger_step)

lemma unplaced_run: "ledger_ok s \<Longrightarrow> unplaced_quota (fold after_spending cs s) \<le> unplaced_quota s + recorded cs"
proof (induction cs arbitrary: s)
  case (Cons c cs)
  from Cons.IH [OF ledger_step [OF Cons.prems]] unplaced_step [OF Cons.prems, of c] show ?case
    by (simp add: recorded_def add.assoc [symmetric]) (meson add_right_mono order_trans)
qed (simp add: recorded_def)

lemma ledger_none: "ledger_ok no_budgets"
  using family_reached [of "[]"] by (simp add: ledger_ok_def no_budgets_def after_calls_def)

section \<open>Hard limits hold\<close>

text \<open>
  C31: attempts are admitted within every hard limit. After any calls of the modelled service, in any
  order and at any times, an attempt that is admitted and counts for an enabled hard-stop policy
  leaves the policy's quota usage within its limit, for every scope a policy can have (of a
  work item: with all work below it in its run) and every window; one that does not count leaves the
  usage as it is. Whatever calls follow, as long as the policy is not disabled and, when it has
  a window, attempts are made and the usage is read in the order of the clock, a usage that was
  within the limit goes over it by no more than the quota recorded without admission: what
  \<open>record_cost\<close> adds later, and what it had added for work items that did not exist then. With
  no such costs the usage stays within the limit.
\<close>

theorem admissions_stay_within_hard_limits:
  assumes "s = fold after_spending cs no_budgets"
    and "dget (bu_policies s) i = Some p" "bq_enabled p" "bq_mode p = ''hard_stop''" "(''quota_usage'', limit) \<in> set (bq_limits p)"
  shows "(\<forall>now owner j ctx s'. s' = snd (reserve_quota now owner j ctx s) \<longrightarrow>
        policy_usage now (bq_owner p) p ''quota_usage'' s' \<le> limit
        \<or> policy_usage now (bq_owner p) p ''quota_usage'' s' = policy_usage now (bq_owner p) p ''quota_usage'' s)
    \<and> (\<forall>t ds t'. policy_usage t (bq_owner p) p ''quota_usage'' s \<le> limit \<and> list_all (keeps_enabled i) ds
          \<and> (bq_window p = None \<or> in_order t ds t') \<longrightarrow>
        policy_usage t' (bq_owner p) p ''quota_usage'' (fold after_spending ds s) \<le> limit + unplaced_quota s + recorded ds)
    \<and> unplaced_quota s \<le> recorded cs"
proof (intro conjI allI impI)
  have ok: "ledger_ok s" using ledger_run [OF ledger_none] assms(1) by simp
  show "unplaced_quota s \<le> recorded cs"
    using unplaced_run [OF ledger_none, of cs] assms(1) by (simp add: unplaced_quota_def total_def no_budgets_def)
  show "policy_usage now (bq_owner p) p ''quota_usage'' s' \<le> limit
      \<or> policy_usage now (bq_owner p) p ''quota_usage'' s' = policy_usage now (bq_owner p) p ''quota_usage'' s"
    if "s' = snd (reserve_quota now owner j ctx s)" for now owner j ctx s'
    using reserve_within [OF ok assms(2-5) that] by (auto simp: quota_used_def)
  show "policy_usage t' (bq_owner p) p ''quota_usage'' (fold after_spending ds s) \<le> limit + unplaced_quota s + recorded ds"
    if h: "policy_usage t (bq_owner p) p ''quota_usage'' s \<le> limit \<and> list_all (keeps_enabled i) ds
          \<and> (bq_window p = None \<or> in_order t ds t')" for t ds t'
  proof -
    have "in_force i p s" using assms(2,3) by (simp add: in_force_def same_policy_def)
    moreover have "exposure t p s \<le> limit + unplaced_quota s" using exposure_split [OF ok, of t p] h by (simp add: quota_used_def)
    ultimately have "exposure t' p (fold after_spending ds s) \<le> limit + unplaced_quota s + recorded ds"
      using exposure_run [OF ok _ assms(4,5), of i t "unplaced_quota s"] h by simp
    then show ?thesis using used_exposed [OF ledger_run [OF ok, of ds], of t' p] by (simp add: quota_used_def)
  qed
qed

definition demo_policy :: budget_call where
  "demo_policy = Set_Policy 5 ''b1'' ''op'' ''RUN'' (Some '' r '') [(''quota_usage'', Finite 1)] ''hard_stop'' (Some (Finite 60)) True None"

definition demo_context :: spend_context where
  "demo_context = \<lparr>bx_workspace = None, bx_goal = None, bx_item = None, bx_run = Some ''r'', bx_operation = None, bx_agent = None, bx_provider = None\<rparr>"

definition demo_attempts :: "budget_call list" where
  "demo_attempts = [Reserve_Quota 10 ''op'' ''a1'' demo_context, Reserve_Quota 20 ''op'' ''a2'' demo_context]"

definition demo_recorded :: budget_call where
  "demo_recorded = Cost 25 ''c1'' ''op'' (Finite 0) (Finite 0) (Finite 2) ''USD'' 0 0 0 demo_context None None None"

theorem admissions_stay_within_hard_limits_witness:
  "\<exists>p. dget (bu_policies (after_spending demo_policy no_budgets)) ''b1'' = Some p
     \<and> policy_usage 30 ''op'' p ''quota_usage'' (fold after_spending demo_attempts (after_spending demo_policy no_budgets)) \<le> 1
     \<and> policy_usage 30 ''op'' p ''quota_usage'' (fold after_spending (demo_attempts @ [demo_recorded]) (after_spending demo_policy no_budgets)) \<le> 3"
proof -
  have "case dget (bu_policies (after_spending demo_policy no_budgets)) ''b1'' of None \<Rightarrow> False
    | Some p \<Rightarrow> bq_owner p = ''op'' \<and> bq_enabled p \<and> bq_mode p = ''hard_stop'' \<and> bq_limits p = [(''quota_usage'', 1)]
        \<and> policy_usage 6 ''op'' p ''quota_usage'' (after_spending demo_policy no_budgets) = 0"
    by code_simp
  then obtain p where p: "dget (bu_policies (after_spending demo_policy no_budgets)) ''b1'' = Some p" "bq_owner p = ''op''" "bq_enabled p"
    "bq_mode p = ''hard_stop''" "(''quota_usage'', 1) \<in> set (bq_limits p)"
    "policy_usage 6 ''op'' p ''quota_usage'' (after_spending demo_policy no_budgets) \<le> 1" by (auto split: option.splits)
  have s: "after_spending demo_policy no_budgets = fold after_spending [demo_policy] no_budgets" by simp
  have zero: "unplaced_quota (after_spending demo_policy no_budgets) = 0" by code_simp
  have "policy_usage 30 ''op'' p ''quota_usage'' (fold after_spending ds (after_spending demo_policy no_budgets)) \<le> 1 + recorded ds"
    if "list_all (keeps_enabled ''b1'') ds" "in_order 6 ds 30" for ds
    using admissions_stay_within_hard_limits [OF s p(1,3-5), THEN conjunct2, THEN conjunct1, rule_format, of 6 ds 30] p(2,6) that zero
    by simp
  from this [of demo_attempts] this [of "demo_attempts @ [demo_recorded]"] p(1) show ?thesis
    by (simp add: demo_attempts_def demo_recorded_def recorded_def amount_def)
qed

theorem lineage_is_the_budget_tree_witness:
  "''w'' \<in> set (budget_tree (after_calls [demo_create]) ''op'' ''w'')"
proof -
  have "after_calls [demo_create] = demo_gov" using demo_created [of "[]"] by simp
  moreover have "item_lineage demo_gov ''op'' [] None (Some ''w'') = Inr [''w'']" by code_simp
  ultimately have "item_lineage (after_calls [demo_create]) ''op'' [] None (Some ''w'') = Inr [''w'']" by simp
  from lineage_is_the_budget_tree [OF this, of "''w''"] show ?thesis by simp
qed

end
