(* ===== verification/Governance_Assets.thy ===== *)
theory Governance_Assets
  imports Work_Items
begin

text \<open>
  What GovernanceService (\<open>sentra_mcp/services/governance.py\<close>) keeps beside the work items: secrets with
  their versions, bindings and accesses, work products, skills and the agents they are bound to,
  plugins and the capabilities they effectively have. How the operating system protects a secret is
  an argument, and so is SHA-256.
\<close>

section \<open>Tables\<close>

record secret_entry =
  se_owner :: string
  se_name :: string
  se_scope_type :: string
  se_scope :: "string option"
  se_version :: int
  se_meta :: jobj
  se_created :: rat
  se_updated :: rat

record secret_binding =
  sb_id :: string
  sb_owner :: string
  sb_secret :: string
  sb_type :: string
  sb_target :: string
  sb_env :: "string option"
  sb_purpose :: string
  sb_created :: rat

record secret_access =
  sx_id :: string
  sx_owner :: string
  sx_secret :: string
  sx_version :: int
  sx_type :: string
  sx_actor :: string
  sx_purpose :: string
  sx_at :: rat

record work_product =
  wp_owner :: string
  wp_item :: string
  wp_artifact :: string
  wp_kind :: string
  wp_title :: string
  wp_meta :: jobj
  wp_created :: rat

record skill =
  sk_owner :: string
  sk_name :: string
  sk_version :: string
  sk_content :: string
  sk_digest :: string
  sk_source :: string
  sk_meta :: jobj
  sk_created :: rat

record skill_binding =
  kb_owner :: string
  kb_skill :: string
  kb_run :: string
  kb_agent :: string
  kb_priority :: int
  kb_enabled :: bool
  kb_created :: rat
  kb_updated :: rat

record plugin =
  pl_owner :: string
  pl_name :: string
  pl_version :: string
  pl_state :: string
  pl_manifest :: jobj
  pl_declared :: "string list"
  pl_verified :: "string list"
  pl_narrowed :: "string list"
  pl_effective :: "string list"
  pl_ui :: bool
  pl_meta :: jobj
  pl_created :: rat
  pl_updated :: rat

record assets =
  as_gov :: gov
  as_secrets :: "(string, secret_entry) dict"
  as_versions :: "(string \<times> int, string) dict"
  as_bindings :: "secret_binding list"
  as_accesses :: "secret_access list"
  as_products :: "(string, work_product) dict"
  as_skills :: "(string, skill) dict"
  as_skill_bindings :: "(string, skill_binding) dict"
  as_plugins :: "(string, plugin) dict"

definition no_assets :: "gov \<Rightarrow> assets" where
  "no_assets g = \<lparr>as_gov = g, as_secrets = [], as_versions = [], as_bindings = [], as_accesses = [], as_products = [], as_skills = [],
     as_skill_bindings = [], as_plugins = []\<rparr>"

definition in_gov :: "(gov, 'a) sx \<Rightarrow> (assets, 'a) sx" where
  "in_gov m s = (case m (as_gov s) of (r, g) \<Rightarrow> (r, s\<lparr>as_gov := g\<rparr>))"

definition note_activity :: "rat \<Rightarrow> string \<Rightarrow> string \<Rightarrow> string \<Rightarrow> string \<Rightarrow> string \<Rightarrow> jobj \<Rightarrow> activity" where
  "note_activity now owner action outcome actor_type actor payload = \<lparr>av_owner = owner, av_action = action, av_outcome = outcome,
     av_actor_type = actor_type, av_actor = actor, av_item = None, av_run = None, av_goal = None, av_agent = None, av_payload = payload, av_at = now\<rparr>"

section \<open>Secrets\<close>

definition secret_scopes :: "string list" where
  "secret_scopes = [''instance'', ''workspace'', ''project'', ''goal'', ''agent'', ''user'']"

text \<open>\<open>UNIQUE(owner,name,scope_type,scope_id)\<close>: rows without a scope are all different to SQL.\<close>

definition secret_taken :: "string \<Rightarrow> secret_entry \<Rightarrow> assets \<Rightarrow> bool" where
  "secret_taken i e s \<longleftrightarrow> dget (as_secrets s) i \<noteq> None \<or> dget (as_versions s) (i, 1) \<noteq> None
     \<or> list_ex (\<lambda>(j, f). se_owner f = se_owner e \<and> se_name f = se_name e \<and> se_scope_type f = se_scope_type e
          \<and> se_scope f = se_scope e \<and> se_scope e \<noteq> None) (as_secrets s)"

definition secret_info :: "string \<Rightarrow> string \<Rightarrow> (assets, secret_entry) sx" where
  "secret_info i owner = bnd (gets (\<lambda>s. dget (as_secrets s) i)) (\<lambda>row. case row of
      None \<Rightarrow> throw (FileNotFound ''secret not found'')
    | Some e \<Rightarrow> andthen (require (se_owner e = owner) (FileNotFound ''secret not found'')) (ret e))"

definition create_secret ::
  "(string \<Rightarrow> exn + string) \<Rightarrow> rat \<Rightarrow> string \<Rightarrow> string \<Rightarrow> string \<Rightarrow> string \<Rightarrow> string \<Rightarrow> string option \<Rightarrow> jobj option \<Rightarrow>
   (assets, secret_entry) sx" where
  "create_secret protect now i owner name value scope_type sc extra =
     (let st = py_lower scope_type in
      andthen (require (st \<in> set secret_scopes) (ValueError ''invalid secret scope_type''))
      (bnd (lift_sum (sbind (text_of 1000000 value) protect)) (\<lambda>hidden.
      bnd (lift_sum (text_of 200 name)) (\<lambda>nm.
      let e = \<lparr>se_owner = owner, se_name = nm, se_scope_type = st, se_scope = sc, se_version = 1, se_meta = object_of extra,
        se_created = now, se_updated = now\<rparr> in
      bnd (gets (secret_taken i e)) (\<lambda>taken.
      andthen (require (\<not> taken) IntegrityError)
      (andthen (modify (\<lambda>s. s\<lparr>as_secrets := dset i e (as_secrets s), as_versions := dset (i, 1) hidden (as_versions s)\<rparr>))
      (andthen (in_gov (log_activity (note_activity now owner ''secret.create'' ''ok'' ''system'' [] [(''secret_id'', JStr i), (''name'', JStr name),
          (''scope_type'', JStr st), (''scope_id'', jopt sc)])))
        (secret_info i owner))))))))"

definition rotate_secret :: "(string \<Rightarrow> exn + string) \<Rightarrow> rat \<Rightarrow> string \<Rightarrow> string \<Rightarrow> string \<Rightarrow> (assets, secret_entry) sx" where
  "rotate_secret protect now i owner value =
     bnd (lift_sum (sbind (text_of 1000000 value) protect)) (\<lambda>hidden.
     bnd (secret_info i owner) (\<lambda>e.
     let version = se_version e + 1 in
     bnd (gets (\<lambda>s. dget (as_versions s) (i, version))) (\<lambda>there.
     andthen (require (there = None) IntegrityError)
     (andthen (modify (\<lambda>s. s\<lparr>as_versions := dset (i, version) hidden (as_versions s),
         as_secrets := dset i (e\<lparr>se_version := version, se_updated := now\<rparr>) (as_secrets s)\<rparr>))
     (andthen (in_gov (log_activity (note_activity now owner ''secret.rotate'' ''ok'' ''system'' []
         [(''secret_id'', JStr i), (''version'', JNum (of_int version))])))
       (secret_info i owner))))))"

definition bind_secret ::
  "rat \<Rightarrow> string \<Rightarrow> string \<Rightarrow> string \<Rightarrow> string \<Rightarrow> string \<Rightarrow> string \<Rightarrow> string \<Rightarrow> (assets, string) sx" where
  "bind_secret now generated i owner target_type target env purpose =
     andthen (secret_info i owner)
     (bnd (lift_sum (text_of 80 target_type)) (\<lambda>t.
      bnd (lift_sum (text_of 256 target)) (\<lambda>x.
      bnd (lift_sum (opt_text 256 env)) (\<lambda>v.
      bnd (lift_sum (text_of 512 purpose)) (\<lambda>p.
      andthen (modify (\<lambda>s. s\<lparr>as_bindings := as_bindings s @ [\<lparr>sb_id = generated, sb_owner = owner, sb_secret = i, sb_type = t, sb_target = x,
          sb_env = (if v = [] then None else Some v), sb_purpose = p, sb_created = now\<rparr>]\<rparr>))
        (ret generated))))))"

definition bound_to :: "string \<Rightarrow> string \<Rightarrow> string \<Rightarrow> string \<Rightarrow> string \<Rightarrow> secret_binding \<Rightarrow> bool" where
  "bound_to owner i t x p b \<longleftrightarrow> sb_owner b = owner \<and> sb_secret b = i \<and> sb_type b = t \<and> sb_target b = x \<and> sb_purpose b = p"

definition newest_binding :: "secret_binding list \<Rightarrow> secret_binding option" where
  "newest_binding bs = (case rev (sort_key sb_created bs) of [] \<Rightarrow> None | b # _ \<Rightarrow> Some b)"

definition resolve_secret ::
  "(string \<Rightarrow> exn + string) \<Rightarrow> rat \<Rightarrow> string \<Rightarrow> string \<Rightarrow> string \<Rightarrow> string \<Rightarrow> string \<Rightarrow> string \<Rightarrow> (assets, string) sx" where
  "resolve_secret unprotect now generated i owner actor_type actor purpose =
     bnd (secret_info i owner) (\<lambda>e.
     bnd (lift_sum (text_of 80 actor_type)) (\<lambda>t.
     bnd (lift_sum (text_of 256 actor)) (\<lambda>x.
     bnd (lift_sum (text_of 512 purpose)) (\<lambda>p.
     bnd (gets (\<lambda>s. newest_binding (filter (bound_to owner i t x p) (as_bindings s)))) (\<lambda>found. case found of
       None \<Rightarrow>
         andthen (in_gov (log_activity (note_activity now owner ''secret.access'' ''denied'' t x [(''secret_id'', JStr i),
             (''version'', JNum (of_int (se_version e))), (''purpose'', JStr p), (''reason'', JStr ''no matching secret binding'')])))
           (throw (PermissionDenied ''secret is not bound to the requesting runtime actor''))
     | Some b \<Rightarrow>
         bnd (gets (\<lambda>s. dget (as_versions s) (i, se_version e))) (\<lambda>row. case row of
           None \<Rightarrow> throw (FileNotFound ''secret version not found'')
         | Some hidden \<Rightarrow>
             andthen (modify (\<lambda>s. s\<lparr>as_accesses := as_accesses s @ [\<lparr>sx_id = generated, sx_owner = owner, sx_secret = i, sx_version = se_version e,
                 sx_type = t, sx_actor = x, sx_purpose = p, sx_at = now\<rparr>]\<rparr>))
             (andthen (in_gov (log_activity (note_activity now owner ''secret.access'' ''ok'' t x [(''secret_id'', JStr i),
                 (''version'', JNum (of_int (se_version e))), (''purpose'', JStr p), (''binding_id'', JStr (sb_id b))])))
               (lift_sum (unprotect hidden)))))))))"

section \<open>Work products\<close>

text \<open>
  A repeated product is looked up by the texts as they were given, not as they were stored: when no
  row has them, the code applies \<open>dict\<close> to \<open>None\<close>.
\<close>

definition register_work_product ::
  "rat \<Rightarrow> string \<Rightarrow> string \<Rightarrow> string \<Rightarrow> string \<Rightarrow> string \<Rightarrow> string \<Rightarrow> jobj option \<Rightarrow> (assets, string \<times> work_product) sx" where
  "register_work_product now generated item owner artifact kind title extra =
     andthen (in_gov (item_info item owner))
     (bnd (lift_sum (text_of 256 artifact)) (\<lambda>a.
      bnd (lift_sum (text_of 80 kind)) (\<lambda>k.
      bnd (lift_sum (opt_text 500 title)) (\<lambda>t.
      bnd (gets (\<lambda>s. dget (as_products s) generated \<noteq> None
        \<or> list_ex (\<lambda>(j, p). wp_item p = item \<and> wp_artifact p = a \<and> wp_kind p = k) (as_products s))) (\<lambda>taken.
      if taken then
        bnd (gets (\<lambda>s. List.find (\<lambda>(j, p). wp_item p = item \<and> wp_artifact p = artifact \<and> wp_kind p = kind) (as_products s))) (\<lambda>row. case row of
          None \<Rightarrow> throw (TypeError ''NoneType object is not iterable'')
        | Some old \<Rightarrow> ret old)
      else
        andthen (modify (\<lambda>s. s\<lparr>as_products := dset generated \<lparr>wp_owner = owner, wp_item = item, wp_artifact = a, wp_kind = k, wp_title = t,
            wp_meta = object_of extra, wp_created = now\<rparr> (as_products s)\<rparr>))
        (andthen (in_gov (log_activity ((note_activity now owner ''work_product.register'' ''ok'' ''system'' []
            [(''work_product_id'', JStr generated), (''kind'', JStr kind)])\<lparr>av_item := Some item\<rparr>)))
          (ret (generated, \<lparr>wp_owner = owner, wp_item = item, wp_artifact = artifact, wp_kind = kind, wp_title = title,
            wp_meta = object_of extra, wp_created = now\<rparr>))))))))"

section \<open>Skills\<close>

definition install_skill ::
  "(string \<Rightarrow> string) \<Rightarrow> rat \<Rightarrow> string \<Rightarrow> string \<Rightarrow> string \<Rightarrow> string \<Rightarrow> string \<Rightarrow> string \<Rightarrow> jobj option \<Rightarrow> (assets, string) sx" where
  "install_skill sha now i owner name version content source extra =
     andthen (require (content \<noteq> [] \<and> length content \<le> 1000000) (ValueError ''skill content must be 1..1000000 characters''))
     (bnd (lift_sum (text_of 200 name)) (\<lambda>nm.
      bnd (lift_sum (text_of 80 version)) (\<lambda>ver.
      bnd (lift_sum (text_of 512 source)) (\<lambda>src.
      bnd (gets (\<lambda>s. dget (as_skills s) i \<noteq> None \<or> list_ex (\<lambda>(j, k). sk_owner k = owner \<and> sk_name k = nm \<and> sk_version k = ver) (as_skills s)))
        (\<lambda>taken.
      andthen (require (\<not> taken) IntegrityError)
      (andthen (modify (\<lambda>s. s\<lparr>as_skills := dset i \<lparr>sk_owner = owner, sk_name = nm, sk_version = ver, sk_content = content, sk_digest = sha content,
          sk_source = src, sk_meta = object_of extra, sk_created = now\<rparr> (as_skills s)\<rparr>))
        (ret (sha content))))))))"

definition skill_info :: "string \<Rightarrow> string \<Rightarrow> (assets, skill) sx" where
  "skill_info i owner = bnd (gets (\<lambda>s. dget (as_skills s) i)) (\<lambda>row. case row of
      None \<Rightarrow> throw (FileNotFound ''skill not found'')
    | Some k \<Rightarrow> andthen (require (sk_owner k = owner) (FileNotFound ''skill not found'')) (ret k))"

definition list_skills :: "string \<Rightarrow> assets \<Rightarrow> (string \<times> skill) list" where
  "list_skills owner s = sort_key (\<lambda>(i, k). (sk_name k, sk_version k)) (filter (\<lambda>(i, k). sk_owner k = owner) (as_skills s))"

definition same_binding :: "string \<Rightarrow> string \<Rightarrow> string \<Rightarrow> string \<Rightarrow> skill_binding \<Rightarrow> bool" where
  "same_binding owner i run agent b \<longleftrightarrow> kb_owner b = owner \<and> kb_skill b = i \<and> kb_run b = run \<and> kb_agent b = agent"

definition bind_skill ::
  "rat \<Rightarrow> string \<Rightarrow> string \<Rightarrow> string \<Rightarrow> string \<Rightarrow> string \<Rightarrow> int \<Rightarrow> bool \<Rightarrow> (assets, string) sx" where
  "bind_skill now generated i owner run agent prio enabled =
     andthen (skill_info i owner)
     (andthen (require (-10000 \<le> prio \<and> prio \<le> 10000) (ValueError ''skill binding priority must be -10000..10000''))
     (bnd (gets (\<lambda>s. List.find (\<lambda>(j, b). same_binding owner i run agent b) (as_skill_bindings s))) (\<lambda>found.
      bnd (case found of
          None \<Rightarrow> andthen (modify (\<lambda>s. s\<lparr>as_skill_bindings := dset generated \<lparr>kb_owner = owner, kb_skill = i, kb_run = run, kb_agent = agent,
              kb_priority = prio, kb_enabled = enabled, kb_created = now, kb_updated = now\<rparr> (as_skill_bindings s)\<rparr>)) (ret generated)
        | Some (j, b) \<Rightarrow> andthen (modify (\<lambda>s. s\<lparr>as_skill_bindings := dset j (b\<lparr>kb_priority := prio, kb_enabled := enabled,
              kb_updated := now\<rparr>) (as_skill_bindings s)\<rparr>)) (ret j)) (\<lambda>j.
      andthen (in_gov (log_activity ((note_activity now owner ''skill.bind'' ''ok'' ''system'' [] [(''skill_id'', JStr i), (''binding_id'', JStr j),
          (''priority'', JNum (of_int prio))])\<lparr>av_run := Some run, av_agent := Some agent\<rparr>)))
        (ret j)))))"

text \<open>The skills bound to an agent, in the order they are given to it.\<close>

definition bound_skills :: "string \<Rightarrow> string \<Rightarrow> string \<Rightarrow> assets \<Rightarrow> (int \<times> string \<times> skill) list" where
  "bound_skills owner run agent s = sort_key (\<lambda>(n, i, k). (n, sk_name k, sk_version k))
     (concat (map (\<lambda>(j, b). if kb_owner b = owner \<and> kb_run b = run \<and> kb_agent b = agent \<and> kb_enabled b then
        (case dget (as_skills s) (kb_skill b) of None \<Rightarrow> []
         | Some k \<Rightarrow> if sk_owner k = kb_owner b then [(kb_priority b, kb_skill b, k)] else []) else []) (as_skill_bindings s)))"

definition skill_header :: "skill \<Rightarrow> string" where
  "skill_header k = ''[SKILL '' @ sk_name k @ ''@'' @ sk_version k @ '' sha256='' @ sk_digest k @ '']''"

definition newline :: string where
  "newline = [CHR 0x0A]"

fun join_with :: "string \<Rightarrow> string list \<Rightarrow> string" where
  "join_with sep [] = []"
| "join_with sep [x] = x"
| "join_with sep (x # y # xs) = x @ sep @ join_with sep (y # xs)"

text \<open>The loop over the rows: chunks so far, characters used, items with whether they are cut.\<close>

fun take_skills ::
  "int \<Rightarrow> int \<Rightarrow> string list \<Rightarrow> (string \<times> bool) list \<Rightarrow> (int \<times> string \<times> skill) list \<Rightarrow> (string \<times> bool) list \<times> string list \<times> bool" where
  "take_skills limit used chunks items [] = (items, chunks, False)"
| "take_skills limit used chunks items ((n, i, k) # rest) =
     (let header = skill_header k;
          chunk = header @ newline @ sk_content k;
          gap = (if chunks = [] then 0 else 2);
          extra = int (length chunk) + gap in
      if limit < used + extra then
        (let remaining = limit - used - gap in
         if int (length header) + 24 < remaining
         then (items @ [(i, True)], chunks @ [take (nat (max 0 (remaining - 22))) chunk @ newline @ ''[SKILL TRUNCATED]''], True)
         else (items, chunks, True))
      else take_skills limit (used + extra) (chunks @ [chunk]) (items @ [(i, False)]) rest)"

definition agent_skills :: "string \<Rightarrow> string \<Rightarrow> string \<Rightarrow> int \<Rightarrow> assets \<Rightarrow> (string \<times> bool) list \<times> string \<times> bool" where
  "agent_skills owner run agent max_chars s =
     (case take_skills (max 0 (min max_chars 50000)) 0 [] [] (bound_skills owner run agent s) of
        (items, chunks, truncated) \<Rightarrow> (items, join_with (newline @ newline) chunks, truncated))"

section \<open>Plugins\<close>

definition plugin_states :: "string list" where
  "plugin_states = [''REGISTERED'', ''VERIFIED'', ''DISABLED'', ''FAILED'']"

text \<open>\<open>_strings\<close> of a JSON value.\<close>

definition json_strings :: "conversions \<Rightarrow> json option \<Rightarrow> exn + string list" where
  "json_strings cv v = (case v of None \<Rightarrow> Inr [] | Some JNull \<Rightarrow> Inr []
     | Some (JList xs) \<Rightarrow> strings_of (Some (map (\<lambda>x. or_empty cv (Some x)) xs))
     | Some _ \<Rightarrow> Inl (ValueError ''must contain at most 1000 strings''))"

definition sorted_set :: "string list \<Rightarrow> string list" where
  "sorted_set xs = sort (remdups xs)"

definition method_capability :: "string \<Rightarrow> string" where
  "method_capability m = (if py_startswith m ''capability:'' then drop 11 m else m)"

definition plugin_info :: "string \<Rightarrow> string \<Rightarrow> (assets, plugin) sx" where
  "plugin_info i owner = bnd (gets (\<lambda>s. dget (as_plugins s) i)) (\<lambda>row. case row of
      None \<Rightarrow> throw (FileNotFound ''plugin not found'')
    | Some p \<Rightarrow> andthen (require (pl_owner p = owner) (FileNotFound ''plugin not found'')) (ret p))"

definition register_plugin ::
  "conversions \<Rightarrow> rat \<Rightarrow> string \<Rightarrow> string \<Rightarrow> jobj \<Rightarrow> string list option \<Rightarrow> string list option \<Rightarrow> bool \<Rightarrow> jobj option \<Rightarrow> (assets, plugin) sx" where
  "register_plugin cv now i owner manifest methods narrow ui extra =
     bnd (lift_sum (text_of 200 (or_empty cv (dget manifest ''name'')))) (\<lambda>name.
     bnd (lift_sum (text_of 80 (or_empty cv (dget manifest ''version'')))) (\<lambda>version.
     bnd (lift_sum (json_strings cv (dget manifest ''capabilities''))) (\<lambda>declared.
     bnd (lift_sum (strings_of methods)) (\<lambda>verified.
     bnd (lift_sum (strings_of narrow)) (\<lambda>given.
     let narrowed = (if given = [] then declared else given);
         effective = sorted_set (filter (\<lambda>c. c \<in> set narrowed \<and> c \<in> set (map method_capability verified)) declared);
         p = \<lparr>pl_owner = owner, pl_name = name, pl_version = version, pl_state = (if verified = [] then ''REGISTERED'' else ''VERIFIED''),
           pl_manifest = manifest, pl_declared = declared, pl_verified = verified, pl_narrowed = narrowed, pl_effective = effective,
           pl_ui = ui, pl_meta = object_of extra, pl_created = now, pl_updated = now\<rparr> in
     bnd (gets (\<lambda>s. dget (as_plugins s) i \<noteq> None
       \<or> list_ex (\<lambda>(j, q). pl_owner q = owner \<and> pl_name q = name \<and> pl_version q = version) (as_plugins s))) (\<lambda>taken.
     andthen (require (\<not> taken) IntegrityError)
     (andthen (modify (\<lambda>s. s\<lparr>as_plugins := dset i p (as_plugins s)\<rparr>))
     (andthen (in_gov (log_activity (note_activity now owner ''plugin.register'' ''ok'' ''system'' [] [(''plugin_id'', JStr i), (''name'', JStr name),
         (''version'', JStr version), (''effective_capabilities'', JList (map JStr effective)), (''trusted_ui'', JBool ui)])))
       (ret p)))))))))"

definition update_plugin_verification ::
  "rat \<Rightarrow> string \<Rightarrow> string \<Rightarrow> string list option \<Rightarrow> string list option \<Rightarrow> string list \<Rightarrow> string \<Rightarrow> jobj option \<Rightarrow> (assets, plugin) sx" where
  "update_plugin_verification now i owner methods live narrow state extra =
     bnd (plugin_info i owner) (\<lambda>p.
     bnd (lift_sum (strings_of live)) (\<lambda>alive.
     bnd (lift_sum (strings_of methods)) (\<lambda>verified.
     let narrowed = (if narrow \<noteq> [] then narrow else if pl_narrowed p \<noteq> [] then pl_narrowed p else pl_declared p);
         effective = sorted_set (filter (\<lambda>c. c \<in> set narrowed \<and> c \<in> set alive) (pl_declared p));
         st = py_upper state in
     andthen (require (st \<in> set plugin_states) (ValueError ''invalid plugin state''))
     (andthen (modify (\<lambda>s. s\<lparr>as_plugins := dset i (p\<lparr>pl_state := st, pl_verified := verified, pl_narrowed := sorted_set narrowed,
         pl_effective := effective, pl_meta := dupdate (pl_meta p) (object_of extra), pl_updated := now\<rparr>) (as_plugins s)\<rparr>))
     (andthen (in_gov (log_activity (note_activity now owner ''plugin.verify'' (if st = ''VERIFIED'' then ''ok'' else py_lower st) ''system'' []
         [(''plugin_id'', JStr i), (''verified_methods'', JList (map JStr verified)), (''effective_capabilities'', JList (map JStr effective))])))
       (plugin_info i owner))))))"

definition list_plugins :: "string \<Rightarrow> assets \<Rightarrow> (string \<times> plugin) list" where
  "list_plugins owner s = sort_key (\<lambda>(i, p). (pl_name p, pl_version p)) (filter (\<lambda>(i, p). pl_owner p = owner) (as_plugins s))"

end
