(* ===== verification/Assets_Properties.thy ===== *)
theory Assets_Properties
  imports Governance_Assets Work_Properties
begin

text \<open>
  Properties of the secrets, skills and plugins: who obtains which value, what the tables and the log
  reveal, how much text an agent is given, and what a plugin may do.
\<close>

section \<open>Frames\<close>

definition log_only :: "(assets, 'a) sx \<Rightarrow> bool" where
  "log_only m \<longleftrightarrow> (\<forall>s. \<exists>g. snd (m s) = s\<lparr>as_gov := g\<rparr>)"

lemma in_gov_run: "in_gov m s = (fst (m (as_gov s)), s\<lparr>as_gov := snd (m (as_gov s))\<rparr>)"
  by (simp add: in_gov_def split_beta)

lemma secret_info_run:
  "secret_info i owner s = (case dget (as_secrets s) i of
     Some e \<Rightarrow> if se_owner e = owner then (Inr e, s) else (Inl (FileNotFound ''secret not found''), s)
   | None \<Rightarrow> (Inl (FileNotFound ''secret not found''), s))"
  by (simp add: secret_info_def bnd_run andthen_run require_def split: option.split)

lemma lookups_same [simp]:
  "snd (secret_info i owner s) = s" "snd (skill_info i owner s) = s" "snd (plugin_info i owner s) = s"
  by (auto simp: secret_info_run skill_info_def plugin_info_def bnd_run andthen_run require_def split: option.split)

text \<open>The calls on the tables.\<close>

datatype asset_call =
    New_Secret rat string string string string string "string option" "jobj option"
  | New_Version rat string string string
  | Bind_Secret rat string string string string string string string
  | Resolve rat string string string string string string
  | Product rat string string string string string string "jobj option"
  | Install rat string string string string string string "jobj option"
  | Bind_Skill rat string string string string string int bool
  | Register_Plugin conversions rat string string jobj "string list option" "string list option" bool "jobj option"
  | Verify_Plugin rat string string "string list option" "string list option" "string list" string "jobj option"

text \<open>The operating system's protection of secrets, and SHA-256.\<close>

record crypto =
  cr_protect :: "string \<Rightarrow> exn + string"
  cr_unprotect :: "string \<Rightarrow> exn + string"
  cr_sha :: "string \<Rightarrow> string"

fun after_asset :: "crypto \<Rightarrow> asset_call \<Rightarrow> assets \<Rightarrow> assets" where
  "after_asset cr (New_Secret now i owner name value scope_type sc extra) s = snd (create_secret (cr_protect cr) now i owner name value scope_type sc extra s)"
| "after_asset cr (New_Version now i owner value) s = snd (rotate_secret (cr_protect cr) now i owner value s)"
| "after_asset cr (Bind_Secret now generated i owner target_type target env purpose) s =
     snd (bind_secret now generated i owner target_type target env purpose s)"
| "after_asset cr (Resolve now generated i owner actor_type actor purpose) s =
     snd (resolve_secret (cr_unprotect cr) now generated i owner actor_type actor purpose s)"
| "after_asset cr (Product now generated item owner artifact kind title extra) s =
     snd (register_work_product now generated item owner artifact kind title extra s)"
| "after_asset cr (Install now i owner name version content source extra) s =
     snd (install_skill (cr_sha cr) now i owner name version content source extra s)"
| "after_asset cr (Bind_Skill now generated i owner run agent prio enabled) s = snd (bind_skill now generated i owner run agent prio enabled s)"
| "after_asset cr (Register_Plugin cv now i owner manifest methods narrow ui extra) s =
     snd (register_plugin cv now i owner manifest methods narrow ui extra s)"
| "after_asset cr (Verify_Plugin now i owner methods live narrow state extra) s =
     snd (update_plugin_verification now i owner methods live narrow state extra s)"

text \<open>Which secrets a call may create or rotate.\<close>

fun writes_only :: "(string \<Rightarrow> bool) \<Rightarrow> (string \<Rightarrow> bool) \<Rightarrow> asset_call \<Rightarrow> bool" where
  "writes_only new_secret new_version (New_Secret now i owner name value scope_type sc extra) = new_secret i"
| "writes_only new_secret new_version (New_Version now i owner value) = new_version i"
| "writes_only new_secret new_version _ = True"

section \<open>Predicates every call keeps\<close>

text \<open>The elementary writes of the calls.\<close>

locale asset_invariant =
  fixes P :: "assets \<Rightarrow> bool" and new_secret :: "string \<Rightarrow> bool" and new_version :: "string \<Rightarrow> bool"
  assumes on_gov: "P s \<Longrightarrow> P (s\<lparr>as_gov := g\<rparr>)"
    and on_secret: "P s \<Longrightarrow> new_secret i \<Longrightarrow> dget (as_secrets s) i = None \<Longrightarrow> dget (as_versions s) (i, 1) = None \<Longrightarrow> se_version e = 1 \<Longrightarrow>
      P (s\<lparr>as_secrets := dset i e (as_secrets s), as_versions := dset (i, 1) h (as_versions s)\<rparr>)"
    and on_version: "P s \<Longrightarrow> new_version i \<Longrightarrow> dget (as_secrets s) i = Some e \<Longrightarrow> dget (as_versions s) (i, se_version e + 1) = None \<Longrightarrow>
      P (s\<lparr>as_versions := dset (i, se_version e + 1) h (as_versions s),
        as_secrets := dset i (e\<lparr>se_version := se_version e + 1, se_updated := now\<rparr>) (as_secrets s)\<rparr>)"
    and on_bind: "P s \<Longrightarrow> P (s\<lparr>as_bindings := as_bindings s @ [b]\<rparr>)"
    and on_access: "P s \<Longrightarrow> P (s\<lparr>as_accesses := as_accesses s @ [a]\<rparr>)"
    and on_product: "P s \<Longrightarrow> P (s\<lparr>as_products := ps\<rparr>)"
    and on_skill: "P s \<Longrightarrow> P (s\<lparr>as_skills := ks\<rparr>)"
    and on_skill_binding: "P s \<Longrightarrow> P (s\<lparr>as_skill_bindings := kbs\<rparr>)"
    and on_plugin: "P s \<Longrightarrow> json_strings cv (dget (pl_manifest p) ''capabilities'') = Inr (pl_declared p) \<Longrightarrow>
      set (pl_effective p) \<subseteq> set (pl_declared p) \<inter> set (pl_narrowed p) \<Longrightarrow>
      set (pl_effective p) \<subseteq> set (map method_capability (pl_verified p)) \<Longrightarrow> P (s\<lparr>as_plugins := dset i p (as_plugins s)\<rparr>)"
    and on_verify: "P s \<Longrightarrow> dget (as_plugins s) i = Some p \<Longrightarrow> pl_manifest p' = pl_manifest p \<Longrightarrow> pl_declared p' = pl_declared p \<Longrightarrow>
      set (pl_effective p') \<subseteq> set (pl_declared p') \<inter> set (pl_narrowed p') \<Longrightarrow> P (s\<lparr>as_plugins := dset i p' (as_plugins s)\<rparr>)"
begin

lemma keep_in_gov: "keep P (in_gov m)"
  by (rule keepI) (simp add: in_gov_run on_gov)

lemma keep_lookups: "keep P (secret_info i owner)" "keep P (skill_info i owner)" "keep P (plugin_info i owner)"
  by (simp_all add: keep_def)

lemma at_in_gov: "P s \<Longrightarrow> (\<And>g. P (s\<lparr>as_gov := g\<rparr>) \<Longrightarrow> P (snd (n (s\<lparr>as_gov := g\<rparr>)))) \<Longrightarrow> P (snd (andthen (in_gov m) n s))"
  using on_gov by (simp add: andthen_run in_gov_run split: sum.split)

lemma at_secret: "P s \<Longrightarrow> (\<And>e. dget (as_secrets s) i = Some e \<Longrightarrow> se_owner e = owner \<Longrightarrow> P (snd (f e s))) \<Longrightarrow> P (snd (bnd (secret_info i owner) f s))"
  by (simp add: bnd_run secret_info_run split: option.split)

lemma keep_new_secret: "new_secret i \<Longrightarrow> keep P (create_secret protect now i owner name value scope_type sc extra)"
proof (rule keepI)
  fix s assume "new_secret i" "P s"
  then show "P (snd (create_secret protect now i owner name value scope_type sc extra s))"
    unfolding create_secret_def Let_def
    by (intro at_rules [where P = P] at_in_gov keepD [OF keep_lookups(1)] on_secret) (auto simp: secret_taken_def)
qed

lemma keep_rotate: "new_version i \<Longrightarrow> keep P (rotate_secret protect now i owner value)"
proof (rule keepI)
  fix s assume "new_version i" "P s"
  then show "P (snd (rotate_secret protect now i owner value s))"
    unfolding rotate_secret_def Let_def
    by (intro at_rules [where P = P] at_secret at_in_gov keepD [OF keep_lookups(1)] on_version) auto
qed

lemma at_secret_then: "P s \<Longrightarrow> P (snd (n s)) \<Longrightarrow> P (snd (andthen (secret_info i owner) n s))"
  unfolding andthen_def by (rule at_secret)

lemma at_maybe:
  "(v = None \<Longrightarrow> P (snd (m s))) \<Longrightarrow> (\<And>x. v = Some x \<Longrightarrow> P (snd (f x s))) \<Longrightarrow>
   P (snd ((case v of None \<Rightarrow> m | Some x \<Rightarrow> f x) s))"
  by (simp split: option.split)

lemma at_end_lift: "P s \<Longrightarrow> P (snd (lift_sum r s))"
  by (simp add: lift_sum_def split: sum.split)

lemma keep_bind_secret: "keep P (bind_secret now generated i owner target_type target env purpose)"
  by (rule keepI, unfold bind_secret_def) (intro at_rules [where P = P] at_secret_then on_bind; assumption)

lemma keep_resolve: "keep P (resolve_secret unprotect now generated i owner actor_type actor purpose)"
  by (rule keepI, unfold resolve_secret_def)
    (intro at_rules [where P = P] at_secret at_in_gov at_maybe at_end_lift on_access; assumption)

lemma keep_product: "keep P (register_work_product now generated item owner artifact kind title extra)"
  unfolding register_work_product_def
  by (intro keeps keep_in_gov keep_modify on_product) (auto split: prod.split intro: keeps)

lemma keep_install: "keep P (install_skill sha now i owner name version content source extra)"
  unfolding install_skill_def by (intro keeps keep_modify on_skill)

lemma keep_bind_skill: "keep P (bind_skill now generated i owner run agent prio enabled)"
  unfolding bind_skill_def
  by (intro keeps keep_in_gov keep_lookups keep_modify on_skill_binding) (auto split: prod.split intro!: keeps keep_modify on_skill_binding)

lemma keep_register: "keep P (register_plugin cv now i owner manifest methods narrow ui extra)"
proof (rule keepI)
  fix s assume s: "P s"
  show "P (snd (register_plugin cv now i owner manifest methods narrow ui extra s))"
    unfolding register_plugin_def Let_def
    by (intro at_rules [where P = P] at_in_gov on_plugin [where cv = cv] s) (auto simp: sorted_set_def)
qed

lemma at_plugin: "P s \<Longrightarrow> (\<And>p. dget (as_plugins s) i = Some p \<Longrightarrow> P (snd (f p s))) \<Longrightarrow> P (snd (bnd (plugin_info i owner) f s))"
  by (simp add: bnd_run plugin_info_def andthen_run require_def split: option.split)

lemma keep_verify: "keep P (update_plugin_verification now i owner methods live narrow state extra)"
proof (rule keepI)
  fix s assume s: "P s"
  show "P (snd (update_plugin_verification now i owner methods live narrow state extra s))"
    unfolding update_plugin_verification_def Let_def
    by (intro at_rules [where P = P] at_plugin at_in_gov keepD [OF keep_lookups(3)] on_verify s) (auto simp: sorted_set_def)
qed

text \<open>What is kept by the elementary writes is kept by a call that makes no secret or version the predicate excludes.\<close>

lemma after_asset: "writes_only new_secret new_version c \<Longrightarrow> P s \<Longrightarrow> P (after_asset cr c s)"
  by (cases c) (simp_all add: keepD [where P = P] keep_new_secret keep_rotate keep_bind_secret keep_resolve keep_product keep_install keep_bind_skill
      keep_register keep_verify)

lemma after_assets: "list_all (writes_only new_secret new_version) cs \<Longrightarrow> P s \<Longrightarrow> P (fold (after_asset cr) cs s)"
  by (induction cs arbitrary: s) (simp_all add: after_asset)

end

interpretation secret_value: asset_invariant
  "\<lambda>s. \<exists>e. dget (as_secrets s) i = Some e \<and> se_owner e = owner \<and> se_version e = n \<and> dget (as_versions s) (i, n) = Some h"
  "\<lambda>j. j \<noteq> i" "\<lambda>j. j \<noteq> i" for i owner n h
  by unfold_locales auto

definition plugin_ok :: "plugin \<Rightarrow> bool" where
  "plugin_ok p \<longleftrightarrow> (\<exists>cv. json_strings cv (dget (pl_manifest p) ''capabilities'') = Inr (pl_declared p))
     \<and> set (pl_effective p) \<subseteq> set (pl_declared p) \<inter> set (pl_narrowed p)"

interpretation plugin_authority: asset_invariant "\<lambda>s. \<forall>i p. dget (as_plugins s) i = Some p \<longrightarrow> plugin_ok p" "\<lambda>_. True" "\<lambda>_. True"
proof
  fix s i p and p' :: plugin
  assume "\<forall>i p. dget (as_plugins s) i = Some p \<longrightarrow> plugin_ok p" "dget (as_plugins s) i = Some p" "pl_manifest p' = pl_manifest p"
    "pl_declared p' = pl_declared p" "set (pl_effective p') \<subseteq> set (pl_declared p') \<inter> set (pl_narrowed p')"
  moreover from this have "plugin_ok p'" by (metis plugin_ok_def)
  ultimately show "\<forall>j q. dget (as_plugins (s\<lparr>as_plugins := dset i p' (as_plugins s)\<rparr>)) j = Some q \<longrightarrow> plugin_ok q" by simp
qed (auto simp: plugin_ok_def)

section \<open>Secrets\<close>

lemma secret_info_Inr:
  "bnd (secret_info i owner) f s = (Inr x, s') \<longleftrightarrow> (\<exists>e. dget (as_secrets s) i = Some e \<and> se_owner e = owner \<and> f e s = (Inr x, s'))"
  by (auto simp: bnd_run secret_info_run split: option.split)

lemma secret_info_done: "secret_info i owner s = (Inr e, s') \<longleftrightarrow> dget (as_secrets s) i = Some e \<and> se_owner e = owner \<and> s' = s"
  by (auto simp: secret_info_run split: option.split)

lemma in_gov_Inr:
  "andthen (in_gov m) n s = (Inr x, s') \<longleftrightarrow> (\<exists>a. fst (m (as_gov s)) = Inr a) \<and> n (s\<lparr>as_gov := snd (m (as_gov s))\<rparr>) = (Inr x, s')"
  by (auto simp: andthen_run in_gov_run split: sum.split)

lemmas asset_steps = require_Inr lift_sum_Inr gets_Inr secret_info_Inr secret_info_done in_gov_Inr sbind_Inr text_of_Inr

lemma written_secret:
  assumes "rotate_secret protect now i owner value s = (Inr e, s1)
    \<or> create_secret protect now i owner name value scope_type sc extra s = (Inr e, s1)"
  shows "\<exists>h. protect (py_strip value) = Inr h \<and> dget (as_secrets s1) i = Some e \<and> se_owner e = owner
    \<and> dget (as_versions s1) (i, se_version e) = Some h"
  using assms
proof
  assume "rotate_secret protect now i owner value s = (Inr e, s1)"
  then show ?thesis
    by (auto simp: rotate_secret_def Let_def asset_steps)
next
  assume "create_secret protect now i owner name value scope_type sc extra s = (Inr e, s1)"
  then show ?thesis
    by (auto simp: create_secret_def Let_def asset_steps)
qed

lemma newest_binding_in:
  assumes "newest_binding bs = Some b"
  shows "b \<in> set bs"
proof -
  obtain cs where "rev (sort_key sb_created bs) = b # cs" using assms by (auto simp: newest_binding_def split: list.splits)
  then have "b \<in> set (rev (sort_key sb_created bs))" by simp
  then show ?thesis by simp
qed

lemma resolved_secret:
  assumes "resolve_secret unprotect now generated i owner actor_type actor purpose s = (Inr x, s')"
  shows "\<exists>e h b. dget (as_secrets s) i = Some e \<and> se_owner e = owner \<and> dget (as_versions s) (i, se_version e) = Some h \<and> unprotect h = Inr x
    \<and> b \<in> set (as_bindings s) \<and> bound_to owner i (py_strip actor_type) (py_strip actor) (py_strip purpose) b
    \<and> as_accesses s' = as_accesses s @ [\<lparr>sx_id = generated, sx_owner = owner, sx_secret = i, sx_version = se_version e,
        sx_type = py_strip actor_type, sx_actor = py_strip actor, sx_purpose = py_strip purpose, sx_at = now\<rparr>]"
proof -
  from assms obtain e b where e: "dget (as_secrets s) i = Some e" "se_owner e = owner"
    and b: "newest_binding (filter (bound_to owner i (py_strip actor_type) (py_strip actor) (py_strip purpose)) (as_bindings s)) = Some b"
    by (auto simp: resolve_secret_def bnd_run andthen_run lift_sum_def secret_info_run text_of_Inr in_gov_run split: option.splits sum.splits if_splits)
  from newest_binding_in [OF b] have "b \<in> set (as_bindings s) \<and> bound_to owner i (py_strip actor_type) (py_strip actor) (py_strip purpose) b"
    by simp
  with assms e b show ?thesis
    by (auto simp: resolve_secret_def bnd_run andthen_run lift_sum_def secret_info_run text_of_Inr in_gov_run split: option.splits sum.splits if_splits)
qed

text \<open>
  C33: a secret reaches bound actors only, and as it was last written: after a call that created or
  rotated a secret, whatever other calls come in between, a resolution that returns was asked for by
  the owner, for an actor and a purpose the secret is bound to, gives the text written (without the
  blanks around it), and has left a record of the access with the version read.
\<close>

theorem bound_actors_read_the_last_value:
  assumes "\<And>v p. cr_protect cr v = Inr p \<Longrightarrow> cr_unprotect cr p = Inr v"
    and "rotate_secret (cr_protect cr) now i owner value s = (Inr e, s1)
      \<or> create_secret (cr_protect cr) now i owner name value scope_type sc extra s = (Inr e, s1)"
    and "list_all (writes_only (\<lambda>j. j \<noteq> i) (\<lambda>j. j \<noteq> i)) cs" "s2 = fold (after_asset cr) cs s1"
    and "resolve_secret (cr_unprotect cr) later generated i owner' actor_type actor purpose s2 = (Inr x, s3)"
  shows "owner' = owner \<and> x = py_strip value
    \<and> (\<exists>b \<in> set (as_bindings s2). bound_to owner i (py_strip actor_type) (py_strip actor) (py_strip purpose) b)
    \<and> as_accesses s3 = as_accesses s2 @ [\<lparr>sx_id = generated, sx_owner = owner, sx_secret = i, sx_version = se_version e,
        sx_type = py_strip actor_type, sx_actor = py_strip actor, sx_purpose = py_strip purpose, sx_at = later\<rparr>]"
proof -
  from written_secret [OF assms(2)] obtain h where h: "cr_protect cr (py_strip value) = Inr h"
    and s1: "\<exists>e'. dget (as_secrets s1) i = Some e' \<and> se_owner e' = owner \<and> se_version e' = se_version e \<and> dget (as_versions s1) (i, se_version e) = Some h"
    by auto
  from secret_value.after_assets [OF assms(3) s1, of cr] assms(4) obtain e' where
    e': "dget (as_secrets s2) i = Some e'" "se_owner e' = owner" "se_version e' = se_version e" "dget (as_versions s2) (i, se_version e) = Some h"
    by blast
  from resolved_secret [OF assms(5)] obtain e'' h' b where
    r: "dget (as_secrets s2) i = Some e''" "se_owner e'' = owner'" "dget (as_versions s2) (i, se_version e'') = Some h'" "cr_unprotect cr h' = Inr x"
    "b \<in> set (as_bindings s2)" "bound_to owner' i (py_strip actor_type) (py_strip actor) (py_strip purpose) b"
    and a: "as_accesses s3 = as_accesses s2 @ [\<lparr>sx_id = generated, sx_owner = owner', sx_secret = i, sx_version = se_version e'',
        sx_type = py_strip actor_type, sx_actor = py_strip actor, sx_purpose = py_strip purpose, sx_at = later\<rparr>]" by blast
  have "e'' = e'" "h' = h" "owner' = owner" using e' r(1-3) by auto
  with r(4-6) a e'(3) assms(1) [OF h] show ?thesis by auto
qed

text \<open>
  Two states that agree on everything but the protected values, and two calls that agree on everything
  but the values they give, which both are acceptable and can be protected.
\<close>

definition look_alike :: "assets \<Rightarrow> assets \<Rightarrow> bool" where
  "look_alike s t \<longleftrightarrow> s\<lparr>as_versions := []\<rparr> = t\<lparr>as_versions := []\<rparr> \<and> (\<forall>k. dget (as_versions s) k = None \<longleftrightarrow> dget (as_versions t) k = None)"

definition acceptable :: "crypto \<Rightarrow> string \<Rightarrow> bool" where
  "acceptable cr v \<longleftrightarrow> (\<exists>t h. text_of 1000000 v = Inr t \<and> cr_protect cr t = Inr h)"

fun same_call :: "crypto \<Rightarrow> asset_call \<Rightarrow> asset_call \<Rightarrow> bool" where
  "same_call cr (New_Secret now i owner name v scope_type sc extra) c =
     (\<exists>w. c = New_Secret now i owner name w scope_type sc extra \<and> acceptable cr v \<and> acceptable cr w)"
| "same_call cr (New_Version now i owner v) c = (\<exists>w. c = New_Version now i owner w \<and> acceptable cr v \<and> acceptable cr w)"
| "same_call cr b c = (c = b)"

lemma look_alikeE:
  assumes "look_alike s t"
  obtains vs where "t = s\<lparr>as_versions := vs\<rparr>" "\<forall>k. dget (as_versions s) k = None \<longleftrightarrow> dget vs k = None"
proof
  show "t = s\<lparr>as_versions := as_versions t\<rparr>" using assms by (cases s, cases t) (simp add: look_alike_def)
  show "\<forall>k. dget (as_versions s) k = None \<longleftrightarrow> dget (as_versions t) k = None" using assms by (simp add: look_alike_def)
qed

lemma look_alikeI: "(\<forall>k. dget (as_versions s) k = None \<longleftrightarrow> dget vs k = None) \<Longrightarrow> look_alike s (s\<lparr>as_versions := vs\<rparr>)"
  by (simp add: look_alike_def)

text \<open>A computation that never looks at the values.\<close>

definition blind :: "(assets, 'a) sx \<Rightarrow> bool" where
  "blind m \<longleftrightarrow> (\<forall>s vs. m (s\<lparr>as_versions := vs\<rparr>) = (fst (m s), (snd (m s))\<lparr>as_versions := vs\<rparr>))"

lemma blind_keeps: "blind m \<Longrightarrow> as_versions (snd (m s)) = as_versions s"
proof -
  assume "blind m"
  then have "m (s\<lparr>as_versions := as_versions s\<rparr>) = (fst (m s), (snd (m s))\<lparr>as_versions := as_versions s\<rparr>)" unfolding blind_def by blast
  then have "snd (m s) = (snd (m s))\<lparr>as_versions := as_versions s\<rparr>" by (metis assets.surjective assets.update_convs(3) snd_conv)
  then show ?thesis by (metis assets.select_convs(3) assets.surjective assets.update_convs(3))
qed

lemma blind_look_alike: "blind m \<Longrightarrow> look_alike s t \<Longrightarrow> look_alike (snd (m s)) (snd (m t))"
  by (erule look_alikeE) (auto simp: blind_def blind_keeps intro!: look_alikeI)

named_theorems blinds

lemma blind_bnd [blinds]: "blind m \<Longrightarrow> (\<And>a. blind (f a)) \<Longrightarrow> blind (bnd m f)"
  unfolding blind_def bnd_run by (auto simp: split_beta split: sum.split)

lemma blind_andthen [blinds]: "blind m \<Longrightarrow> blind n \<Longrightarrow> blind (andthen m n)"
  unfolding andthen_def by (rule blind_bnd)

lemma blind_basic [blinds]: "blind (ret a)" "blind (throw e)" "blind (require b e)" "blind (lift_sum r)" "blind (in_gov m)"
  by (simp_all add: blind_def require_def lift_sum_def in_gov_run split: sum.split)

lemma blind_gets: "(\<And>s vs. f (s\<lparr>as_versions := vs\<rparr>) = f s) \<Longrightarrow> blind (gets f)"
  by (simp add: blind_def)

lemma blind_modify: "(\<And>s vs. f (s\<lparr>as_versions := vs\<rparr>) = (f s)\<lparr>as_versions := vs\<rparr>) \<Longrightarrow> blind (modify f)"
  by (simp add: blind_def)

lemma blind_if [blinds]: "blind m \<Longrightarrow> blind n \<Longrightarrow> blind (if b then m else n)"
  by simp

lemma blind_option [blinds]: "blind m \<Longrightarrow> (\<And>x. blind (f x)) \<Longrightarrow> blind (case v of None \<Rightarrow> m | Some x \<Rightarrow> f x)"
  by (simp split: option.split)

lemma blind_prod [blinds]: "(\<And>x y. blind (f x y)) \<Longrightarrow> blind (case v of (x, y) \<Rightarrow> f x y)"
  by (simp split: prod.split)

lemma blind_secret_info [blinds]: "blind (secret_info i owner)"
  unfolding secret_info_def by (intro blinds blind_gets) simp

lemma blind_skill_info [blinds]: "blind (skill_info i owner)"
  unfolding skill_info_def by (intro blinds blind_gets) simp

lemma blind_plugin_info [blinds]: "blind (plugin_info i owner)"
  unfolding plugin_info_def by (intro blinds blind_gets) simp

lemma blind_calls:
  "blind (bind_secret now generated i owner target_type target env purpose)"
  "blind (register_work_product now generated item owner artifact kind title extra)"
  "blind (install_skill sha now i owner name version content source extra)"
  "blind (bind_skill now generated i owner run agent prio enabled)"
  unfolding bind_secret_def register_work_product_def install_skill_def bind_skill_def
  by (intro blinds blind_gets blind_modify; simp)+

lemma blind_plugins:
  "blind (register_plugin cv now i owner manifest methods narrow ui extra)"
  "blind (update_plugin_verification now i owner methods live narrowed state extra)"
  unfolding register_plugin_def update_plugin_verification_def Let_def
  by (intro blinds blind_gets blind_modify; simp)+

text \<open>The three calls on secrets.\<close>

lemma first_steps:
  "andthen (ret u) n = n" "bnd (ret a) f = f a" "bnd (gets g) f x = f (g x) x" "andthen (throw e) n x = (Inl e, x)" "bnd (throw e) f x = (Inl e, x)"
  by (simp_all add: fun_eq_iff andthen_run bnd_run)

lemma alike_create:
  assumes "look_alike s t" "acceptable cr v" "acceptable cr w"
  shows "look_alike (snd (create_secret (cr_protect cr) now i owner name v scope_type sc extra s))
    (snd (create_secret (cr_protect cr) now i owner name w scope_type sc extra t))"
proof -
  from assms(1) obtain vs where t: "t = s\<lparr>as_versions := vs\<rparr>" and vs: "\<forall>k. dget (as_versions s) k = None \<longleftrightarrow> dget vs k = None"
    by (rule look_alikeE)
  from assms(2,3) obtain h h' where h: "sbind (text_of 1000000 v) (cr_protect cr) = Inr h" "sbind (text_of 1000000 w) (cr_protect cr) = Inr h'"
    by (auto simp: acceptable_def)
  show ?thesis
  proof (cases "py_lower scope_type \<in> set secret_scopes \<and> (\<exists>nm. text_of 200 name = Inr nm)")
    case False
    then show ?thesis using assms(1) by (auto simp: create_secret_def Let_def andthen_run bnd_run require_def lift_sum_def h split: sum.split)
  next
    case True
    then obtain nm where nm: "text_of 200 name = Inr nm" by blast
    define e where "e = \<lparr>se_owner = owner, se_name = nm, se_scope_type = py_lower scope_type, se_scope = sc, se_version = 1,
      se_meta = object_of extra, se_created = now, se_updated = now\<rparr>"
    define rest where "rest = andthen (in_gov (log_activity (note_activity now owner ''secret.create'' ''ok'' ''system'' []
        [(''secret_id'', JStr i), (''name'', JStr name), (''scope_type'', JStr (py_lower scope_type)), (''scope_id'', jopt sc)])))
      (secret_info i owner)"
    have run: "snd (create_secret (cr_protect cr) now i owner name x scope_type sc extra u) = (if secret_taken i e u then u
        else snd (rest (u\<lparr>as_secrets := dset i e (as_secrets u), as_versions := dset (i, 1) p (as_versions u)\<rparr>)))"
      if "sbind (text_of 1000000 x) (cr_protect cr) = Inr p" for x p u
      using True that unfolding create_secret_def Let_def rest_def
      by (simp add: nm first_steps require_def lift_sum_def e_def)
    have "secret_taken i e t = secret_taken i e s" using vs by (auto simp: secret_taken_def t)
    moreover have w: "look_alike (s\<lparr>as_secrets := dset i e (as_secrets s), as_versions := dset (i, 1) h (as_versions s)\<rparr>)
        (t\<lparr>as_secrets := dset i e (as_secrets t), as_versions := dset (i, 1) h' (as_versions t)\<rparr>)" using vs by (simp add: t look_alike_def)
    moreover have "blind rest" unfolding rest_def by (intro blinds)
    note blind_look_alike [OF this w]
    ultimately show ?thesis using assms(1) by (simp add: run [OF h(1)] run [OF h(2)])
  qed
qed

lemma alike_rotate:
  assumes "look_alike s t" "acceptable cr v" "acceptable cr w"
  shows "look_alike (snd (rotate_secret (cr_protect cr) now i owner v s)) (snd (rotate_secret (cr_protect cr) now i owner w t))"
proof -
  from assms(1) obtain vs where t: "t = s\<lparr>as_versions := vs\<rparr>" and vs: "\<forall>k. dget (as_versions s) k = None \<longleftrightarrow> dget vs k = None"
    by (rule look_alikeE)
  from assms(2,3) obtain h h' where h: "sbind (text_of 1000000 v) (cr_protect cr) = Inr h" "sbind (text_of 1000000 w) (cr_protect cr) = Inr h'"
    by (auto simp: acceptable_def)
  show ?thesis using vs assms(1)
    by (cases "dget (as_secrets s) i")
      (auto simp: rotate_secret_def Let_def andthen_run bnd_run require_def lift_sum_def h in_gov_run secret_info_run t look_alike_def split: sum.split)
qed

definition alike :: "(assets, 'a) sx \<Rightarrow> bool" where
  "alike m \<longleftrightarrow> (\<forall>s t. look_alike s t \<longrightarrow> look_alike (snd (m s)) (snd (m t)))"

lemma alike_blind: "blind m \<Longrightarrow> alike m"
  by (simp add: alike_def blind_look_alike)

lemma alike_bnd:
  assumes "blind m" "\<And>a. alike (f a)"
  shows "alike (bnd m f)"
  unfolding alike_def
proof (intro allI impI)
  fix s t assume st: "look_alike s t"
  then obtain vs where t: "t = s\<lparr>as_versions := vs\<rparr>" by (rule look_alikeE)
  have "fst (m t) = fst (m s)" using assms(1) by (simp add: blind_def t)
  moreover have "look_alike (snd (m s)) (snd (m t))" using blind_look_alike [OF assms(1) st] .
  ultimately show "look_alike (snd (bnd m f s)) (snd (bnd m f t))"
    using assms(2) by (simp add: bnd_run split_beta alike_def split: sum.split)
qed

lemma alike_version:
  assumes "blind n" "blind A" "blind B"
  shows "alike (bnd (gets (\<lambda>s. dget (as_versions s) k)) (\<lambda>row. case row of None \<Rightarrow> n | Some h \<Rightarrow> andthen A (andthen B (lift_sum (u h)))))"
  unfolding alike_def
proof (intro allI impI)
  fix s t assume st: "look_alike s t"
  have ends: "snd (andthen A (andthen B (lift_sum r)) x) = snd (andthen A B x)" for r x
    by (simp add: andthen_run split_beta lift_sum_def split: sum.split)
  have "look_alike (snd (andthen A B s)) (snd (andthen A B t))"
    using blind_look_alike [OF blind_andthen [OF assms(2,3)] st] .
  moreover have "look_alike (snd (n s)) (snd (n t))" using blind_look_alike [OF assms(1) st] .
  moreover have "dget (as_versions s) k = None \<longleftrightarrow> dget (as_versions t) k = None" using st unfolding look_alike_def by blast
  ultimately show "look_alike
      (snd (bnd (gets (\<lambda>s. dget (as_versions s) k)) (\<lambda>row. case row of None \<Rightarrow> n | Some h \<Rightarrow> andthen A (andthen B (lift_sum (u h)))) s))
      (snd (bnd (gets (\<lambda>s. dget (as_versions s) k)) (\<lambda>row. case row of None \<Rightarrow> n | Some h \<Rightarrow> andthen A (andthen B (lift_sum (u h)))) t))"
    by (cases "dget (as_versions s) k"; cases "dget (as_versions t) k") (simp_all add: first_steps ends)
qed

lemma alike_option: "alike m \<Longrightarrow> (\<And>x. alike (f x)) \<Longrightarrow> alike (case v of None \<Rightarrow> m | Some x \<Rightarrow> f x)"
  by (simp split: option.split)

lemma alike_resolve: "alike (resolve_secret unprotect now generated i owner actor_type actor purpose)"
  unfolding resolve_secret_def
  by (intro alike_bnd alike_option alike_version blinds) (auto intro!: alike_blind blinds blind_gets blind_modify)

text \<open>
  C34: nothing but the protected values depends on what the secrets are: two histories that make the
  same calls with different secrets, acceptable in both, end in states whose tables and logs are equal,
  the activity log, the accesses and the names and numbers of the versions included.
\<close>

theorem tables_do_not_reveal_secrets:
  assumes "list_all2 (same_call cr) cs ds" "s = fold (after_asset cr) cs (no_assets g)" "t = fold (after_asset cr) ds (no_assets g)"
  shows "s\<lparr>as_versions := []\<rparr> = t\<lparr>as_versions := []\<rparr> \<and> (\<forall>k. dget (as_versions s) k = None \<longleftrightarrow> dget (as_versions t) k = None)"
proof -
  have step: "look_alike (after_asset cr c a) (after_asset cr d b)" if "same_call cr c d" "look_alike a b" for c d a b
  proof (cases c)
    case (New_Secret now i owner name v scope_type sc extra)
    with that show ?thesis by (auto intro: alike_create)
  next
    case (New_Version now i owner v)
    with that show ?thesis by (auto intro: alike_rotate)
  next
    case (Resolve now generated i owner actor_type actor purpose)
    with that show ?thesis using alike_resolve by (auto simp: alike_def)
  qed (use that in \<open>auto intro: blind_look_alike blind_calls blind_plugins\<close>)
  have "look_alike (fold (after_asset cr) cs a) (fold (after_asset cr) ds b)" if "look_alike a b" for a b
    using assms(1) that by (induction arbitrary: a b rule: list_all2_induct) (auto intro: step)
  moreover have "look_alike (no_assets g) (no_assets g)" by (simp add: look_alike_def)
  ultimately have "look_alike s t" using assms(2,3) by blast
  then show ?thesis by (simp add: look_alike_def)
qed

definition plain :: crypto where
  "plain = \<lparr>cr_protect = Inr, cr_unprotect = Inr, cr_sha = (\<lambda>s. s)\<rparr>"

definition demo_secret :: "string \<Rightarrow> asset_call" where
  "demo_secret v = New_Secret 1 ''s1'' ''op'' ''token'' v ''agent'' (Some ''a'') None"

definition demo_uses :: "asset_call list" where
  "demo_uses = [New_Version 2 ''s1'' ''op'' ''two '', Bind_Secret 3 ''b1'' ''s1'' ''op'' ''agent'' ''a'' [] ''deploy'']"

definition vault :: assets where
  "vault = (no_assets empty_gov)\<lparr>
     as_secrets := [(''s1'', \<lparr>se_owner = ''op'', se_name = ''token'', se_scope_type = ''agent'', se_scope = Some ''a'', se_version = 1, se_meta = [],
       se_created = 1, se_updated = 1\<rparr>)],
     as_versions := [((''s1'', 1), ''zero'')],
     as_bindings := [\<lparr>sb_id = ''b1'', sb_owner = ''op'', sb_secret = ''s1'', sb_type = ''agent'', sb_target = ''a'', sb_env = None,
       sb_purpose = ''deploy'', sb_created = 1\<rparr>]\<rparr>"

definition rotated :: assets where
  "rotated = vault\<lparr>as_versions := [((''s1'', 1), ''zero''), ((''s1'', 2), ''one'')],
     as_secrets := [(''s1'', \<lparr>se_owner = ''op'', se_name = ''token'', se_scope_type = ''agent'', se_scope = Some ''a'', se_version = 2, se_meta = [],
       se_created = 1, se_updated = 2\<rparr>)],
     as_gov := snd (log_activity (note_activity 2 ''op'' ''secret.rotate'' ''ok'' ''system'' [] [(''secret_id'', JStr ''s1''), (''version'', JNum 2)])
       empty_gov)\<rparr>"

lemma rotated_vault:
  "rotate_secret (cr_protect plain) 2 ''s1'' ''op'' '' one'' vault = (Inr (the (dget (as_secrets rotated) ''s1'')), rotated)"
proof -
  have strip: "py_strip '' one'' = ''one''" by code_simp
  then have given: "text_of 1000000 '' one'' = Inr ''one''" by (simp add: text_of_Inr)
  have "case fst (log_activity (note_activity 2 ''op'' ''secret.rotate'' ''ok'' ''system'' [] [(''secret_id'', JStr ''s1''), (''version'', JNum 2)]) empty_gov) of
      Inr _ \<Rightarrow> True | Inl _ \<Rightarrow> False" by code_simp
  then show ?thesis
    by (auto simp: rotate_secret_def rotated_def vault_def no_assets_def plain_def sbind_def given lift_sum_def bnd_run andthen_run secret_info_run
      in_gov_run Let_def gets_def modify_def require_def split: sum.splits)
qed

theorem bound_actors_read_the_last_value_witness:
  "\<exists>s'. resolve_secret (cr_unprotect plain) 4 ''x1'' ''s1'' ''op'' ''agent'' ''a'' ''deploy'' rotated = (Inr ''one'', s')"
proof -
  let ?r = "resolve_secret (cr_unprotect plain) 4 ''x1'' ''s1'' ''op'' ''agent'' ''a'' ''deploy'' rotated"
  have "case fst ?r of Inr x \<Rightarrow> True | Inl _ \<Rightarrow> False" by code_simp
  then obtain x s' where r: "?r = (Inr x, s')" by (cases ?r) (auto split: sum.splits)
  have p: "cr_unprotect plain q = Inr v" if "cr_protect plain v = Inr q" for v q using that by (simp add: plain_def)
  have "x = py_strip '' one''"
    using bound_actors_read_the_last_value [OF p disjI1 [OF rotated_vault] _ _ r, of "[]"] by simp
  moreover have "py_strip '' one'' = ''one''" by code_simp
  ultimately show ?thesis using r by metis
qed

theorem tables_do_not_reveal_secrets_witness:
  "(fold (after_asset plain) (demo_secret ''a'' # demo_uses) (no_assets empty_gov))\<lparr>as_versions := []\<rparr>
   = (fold (after_asset plain) (demo_secret ''b'' # demo_uses) (no_assets empty_gov))\<lparr>as_versions := []\<rparr>"
proof -
  have strip: "py_strip ''a'' = ''a''" "py_strip ''b'' = ''b''" "py_strip ''two '' = ''two''" by code_simp+
  have "acceptable plain ''a''" "acceptable plain ''b''" "acceptable plain ''two ''"
    by (auto simp: acceptable_def plain_def text_of_Inr strip)
  then have "list_all2 (same_call plain) (demo_secret ''a'' # demo_uses) (demo_secret ''b'' # demo_uses)"
    by (auto simp: demo_secret_def demo_uses_def)
  from tables_do_not_reveal_secrets [OF this refl refl, of empty_gov] show ?thesis by simp
qed

section \<open>Plugins\<close>

text \<open>
  C35: a plugin never has more than it declares: after any calls the effective capabilities of every
  plugin are among those its manifest declares and among those it has been narrowed to.
\<close>

theorem plugins_stay_within_their_manifest:
  assumes "dget (as_plugins (fold (after_asset cr) cs (no_assets g))) i = Some p"
  shows "(\<exists>cv. json_strings cv (dget (pl_manifest p) ''capabilities'') = Inr (pl_declared p))
    \<and> set (pl_effective p) \<subseteq> set (pl_declared p) \<inter> set (pl_narrowed p)"
proof -
  have all: "writes_only (\<lambda>_. True) (\<lambda>_. True) c" for c by (cases c) simp_all
  have "\<forall>i p. dget (as_plugins (fold (after_asset cr) cs (no_assets g))) i = Some p \<longrightarrow> plugin_ok p"
    using plugin_authority.after_assets [of cs "no_assets g" cr] all by (simp add: no_assets_def list_all_iff)
  with assms show ?thesis by (simp add: plugin_ok_def)
qed

section \<open>Skills\<close>

lemma join_length: "length (join_with sep (xs @ [y])) = length (join_with sep xs) + (if xs = [] then 0 else length sep) + length y"
  by (induction sep xs rule: join_with.induct) auto

lemma skills_fit:
  assumes "take_skills limit used chunks items found = (shown, out, trunc)" "used = int (length (join_with (newline @ newline) chunks))" "used \<le> limit"
  shows "int (length (join_with (newline @ newline) out)) \<le> limit"
  using assms
proof (induction limit used chunks items found rule: take_skills.induct)
  case (1 limit used chunks items)
  then show ?case by simp
next
  case (2 limit used chunks items n i k rest)
  let ?chunk = "skill_header k @ newline @ sk_content k"
  let ?gap = "if chunks = [] then 0 else 2 :: int"
  have sep: "length (newline @ newline) = 2" by (simp add: newline_def)
  show ?case
  proof (cases "limit < used + (int (length ?chunk) + ?gap)")
    case True
    then show ?thesis using "2.prems" by (auto simp: Let_def join_length sep newline_def split: if_splits)
  next
    case False
    have "int (length (join_with (newline @ newline) (chunks @ [?chunk]))) = used + (int (length ?chunk) + ?gap)"
      using "2.prems"(2) sep by (simp add: join_length)
    with False "2.prems"(1) "2.IH" [OF refl refl refl refl False] show ?thesis by (simp add: Let_def)
  qed
qed

lemma skills_whole:
  "take_skills limit used chunks items found = (shown, out, False) \<Longrightarrow>
   out = chunks @ map (\<lambda>(n, i, k). skill_header k @ newline @ sk_content k) found \<and> shown = items @ map (\<lambda>(n, i, k). (i, False)) found"
  by (induction limit used chunks items found rule: take_skills.induct) (auto simp: Let_def split: if_splits)

text \<open>
  The text of the skills given to an agent never exceeds the size asked for, nor 50,000 characters,
  and unless it is marked as truncated it holds every enabled skill bound to the agent, whole, in the
  order of the priorities.
\<close>

theorem agent_skills_fit_the_budget:
  assumes "agent_skills owner run agent n s = (items, out, truncated)"
  shows "int (length out) \<le> max 0 (min n 50000)
    \<and> (truncated \<or> out = join_with (newline @ newline) (map (\<lambda>(n, i, k). skill_header k @ newline @ sk_content k) (bound_skills owner run agent s))
        \<and> items = map (\<lambda>(n, i, k). (i, False)) (bound_skills owner run agent s))"
proof -
  obtain chunks where t: "take_skills (max 0 (min n 50000)) 0 [] [] (bound_skills owner run agent s) = (items, chunks, truncated)"
    and out: "out = join_with (newline @ newline) chunks"
    using assms by (auto simp: agent_skills_def split: prod.splits)
  have "int (length out) \<le> max 0 (min n 50000)" using skills_fit [OF t] out by simp
  moreover have "chunks = map (\<lambda>(n, i, k). skill_header k @ newline @ sk_content k) (bound_skills owner run agent s)
      \<and> items = map (\<lambda>(n, i, k). (i, False)) (bound_skills owner run agent s)" if "\<not> truncated"
    using skills_whole [of _ 0 "[]" "[]"] t that by fastforce
  ultimately show ?thesis using out by blast
qed

definition skilled :: assets where
  "skilled = (no_assets empty_gov)\<lparr>
     as_skills := [(''k1'', \<lparr>sk_owner = ''op'', sk_name = ''a'', sk_version = ''1'', sk_content = ''look first'', sk_digest = ''look first'',
       sk_source = ''local'', sk_meta = [], sk_created = 1\<rparr>)],
     as_skill_bindings := [(''j1'', \<lparr>kb_owner = ''op'', kb_skill = ''k1'', kb_run = ''r'', kb_agent = ''ag'', kb_priority = 100, kb_enabled = True,
       kb_created = 2, kb_updated = 2\<rparr>)]\<rparr>"

theorem agent_skills_fit_the_budget_witness:
  "case agent_skills ''op'' ''r'' ''ag'' 200 skilled of (items, out, truncated) \<Rightarrow> length out = 40 \<and> \<not> truncated \<and> int (length out) \<le> 200"
proof -
  have "case agent_skills ''op'' ''r'' ''ag'' 200 skilled of (items, out, truncated) \<Rightarrow> length out = 40 \<and> \<not> truncated" by code_simp
  then show ?thesis
    using agent_skills_fit_the_budget [of "''op''" "''r''" "''ag''" 200 skilled] by (auto split: prod.splits)
qed

theorem plugins_stay_within_their_manifest_witness:
  "\<exists>p. dget (as_plugins (fold (after_asset plain) [Register_Plugin demo_conv 1 ''p1'' ''op'' [(''name'', JStr ''x''), (''version'', JStr ''1''),
      (''capabilities'', JList [JStr ''read'', JStr ''write''])] (Some [''capability:read'', ''root'']) None False None] (no_assets empty_gov))) ''p1'' = Some p
    \<and> pl_effective p = [''read''] \<and> set (pl_effective p) \<subseteq> set (pl_declared p)"
proof -
  let ?s = "fold (after_asset plain) [Register_Plugin demo_conv 1 ''p1'' ''op'' [(''name'', JStr ''x''), (''version'', JStr ''1''),
      (''capabilities'', JList [JStr ''read'', JStr ''write''])] (Some [''capability:read'', ''root'']) None False None] (no_assets empty_gov)"
  have "case dget (as_plugins ?s) ''p1'' of None \<Rightarrow> False | Some p \<Rightarrow> pl_effective p = [''read'']" by code_simp
  then obtain p where p: "dget (as_plugins ?s) ''p1'' = Some p" "pl_effective p = [''read'']" by (auto split: option.splits)
  from plugins_stay_within_their_manifest [OF p(1)] p show ?thesis by blast
qed

end
