(* ===== verification/Spec2Isabelle.thy ===== *)
theory Spec2Isabelle
  imports Lease_Properties Budget_Properties Master_Queue_Properties
    Dead_Path_Properties Consent_Properties Authorization_Properties Work_Properties
    Workspace_Properties Spending_Properties Assets_Properties
begin

text \<open>
  A model of the scheduling and durable-execution core of SENTRA (Python, under src/).

  \<^bold>\<open>The program.\<close> An orchestrator splits a run into tasks, keeps them in an in-memory queue
  (src/orchestrator/queue.py) and hands ready tasks to workers. Effects on the machine pass
  through the durable runtime (src/sentra_mcp/services/durable.py), an SQLite database of runs,
  goals, agents, chats, operations, leases, resources, artifacts and an event log, which decides
  whether an operation may start and which caller may still write. The queue calls a lease
  manager (src/orchestrator/durable_resources.py) when it dispatches and settles tasks: its leases
  live in the durable runtime, and it mirrors the tasks in a durable ledger with a journal
  (src/sentra_mcp/services/task_ledger.py). Calls to models are admitted by a token budget
  (src/orchestrator/budgets.py). Whole runs are jobs of a project queue
  (src/orchestrator/master_queue.py). Local actions an agent proposes from a browser conversation
  start only behind two consents of the operator (src/sentra_mcp/services/action_consent_gate.py,
  chat_access.py). What a principal may do is decided by durable grants
  (src/sentra_mcp/services/authorization.py), which work items and agents inherit through the goals,
  runs and projects of the durable runtime. Work items (src/sentra_mcp/services/governance.py) carry
  the product's view of the work: who executes it, its quality gate, its review, its retries.
  Where it is executed is a workspace leased from the durable runtime (execution_workspace.py), and
  what it may spend is limited by budget policies over a ledger of costs (budget_policy.py). Beside
  the work items governance.py keeps secrets with the actors they are bound to, the skills given to
  agents and the capabilities plugins effectively have.

  \<^bold>\<open>Theories.\<close>
  \<^item> Prelude: exceptions as values (\<open>exn\<close>), computations \<open>('s, 'a) sx\<close> that return a value or
    an exception together with the state reached, dictionaries as association lists in insertion
    order, the string methods the code calls, and the rules for invariants (\<open>keep\<close>).
  \<^item> Task_Model: Task, TaskStatus, TaskPriority (orchestrator/models.py) and TaskStateMachine
    (orchestrator/state_machine.py); the locale \<open>transition_table\<close> for tables of moves.
  \<^item> Anti_Explosion: AntiExplosionGuard (orchestrator/anti_explosion.py).
  \<^item> Task_Queue: every method of PriorityTaskQueue. Queue_Invariants: the elementary writes the
    methods are made of, as the locale \<open>queue_invariant\<close>, with the proof that every method keeps
    what these keep, and reachable queues. Queue_Locks, Queue_Dependencies: its interpretations
    for resource locks, the task index, the guard and the dependency sets. Queue_Settlement and
    Queue_Dispatch: what the settling methods and dispatch do, branch by branch. Queue_Admission:
    histories with the tasks the queue has put in, and what the guard's counters say of them.
    Queue_Failure: ready and blocked tasks are known, and a failure under any lease manager goes as
    without one up to the manager's own exceptions. Queue_Properties: the properties of the queue.
  \<^item> Durable_Model: the tables of the database and the transition tables, interpreted as
    \<open>transition_table\<close>s. Durable_Runs, Durable_Operations, Durable_Records, Durable_Reconcile:
    the calls of DurableRunService, one definition each. Durable_Invariants: the locale
    \<open>db_invariant\<close> of elementary writes, kept by every call, and reachable databases.
    Durable_Safety: its interpretations (operation table, fencing tokens, event log, idempotency
    keys, ownership, and what may become of an earlier state). Durable_Recovery: what
    reconciliation writes and what a polling reader sees. Durable_Properties: the properties of
    the durable runtime.
  \<^item> Task_Ledger: DurableTaskLedger; Task_Dict: Task.to_dict and from_dict, and the payload the
    ledger is given. Ledger_Properties: the locale \<open>ledger_invariant\<close> with its interpretations for
    the table of moves, the keys, the journal and the past, and the ledger's properties,
    refinement of the scheduler's state machine among them.
  \<^item> Lease_Manager: DurableResourceLeaseManager over the durable runtime and the ledger; it
    provides the operations the queue calls (\<open>manager_api\<close>). Lease_Properties: the locale
    \<open>lease_interface\<close> that states what the queue relies on, its interpretation on the manager, and
    the properties of queue, manager and runtime together.
  \<^item> Token_Budget: TokenBudget (orchestrator/budgets.py). Budget_Properties: sums over
    reservations, sound budgets, and their life over failed stores, crashes and restarts.
  \<^item> Master_Queue: MasterQueue and the measured admission of orchestrator/scale_gates.py.
    Master_Queue_Properties: correctness of the dependency check, and histories of the queue.
  \<^item> Dead_Path: the decision about a failed call to the strong model, the counter of dead hits and
    the router to the weak model (orchestrator/providers/degradation.py, fallback_router.py).
    Dead_Path_Properties: when the weak model is asked, how its answers are marked, and how many
    of its attempts complete.
  \<^item> Chat_Access: ChatAccessService (sentra_mcp/services/chat_access.py). Action_Consent:
    ActionConsentService and HostOwnerClickAuthenticator (action_consent_gate.py) on one database.
    Consent_Invariants: histories of their transactions, in any order and at any time, and what
    they keep. Consent_Properties: the locale \<open>one_shot\<close> of single-use claims, interpreted on
    actions and on the proofs of clicks, and the properties of the gate.
  \<^item> Authorization: AuthorizationService over the durable runtime's tables (authorization.py) and
    the veto chain (sentra_quality/policy_veto_chain.py). Authorization_Properties: a declarative
    account of inherited scopes, and what decisions, revocations and vetoes guarantee.
  \<^item> Json_Values: values of JSON columns as the control-plane services read them. Work_Items: the
    work items of GovernanceService (governance.py). Work_Invariants: the changes a call can make to
    an item, and the locales \<open>gov_invariant\<close> of predicates every call keeps and \<open>item_invariant\<close> of
    properties of each row. Work_Properties: their interpretations for the quality gate, the stages of
    review and the retries, when an execution starts, and the properties of work items.
  \<^item> Execution_Workspace: ExecutionWorkspaceService (execution_workspace.py) over the durable
    runtime. Workspace_Properties: the locale \<open>workspace_invariant\<close>, interpreted on the runtime's
    fences and the recorded tokens, and who may still renew or release a workspace.
  \<^item> Budget_Policy: the cost ledger of governance.py and BudgetPolicyService (budget_policy.py).
    Spending_Properties: the tree of work items as an invariant of the service, the recursive query
    as reachability in it, what reservations can add to the usage of a policy, and what costs
    recorded without admission can.
  \<^item> Governance_Assets: secrets, work products, skills and plugins (governance.py).
    Assets_Properties: the locale \<open>asset_invariant\<close>, interpreted on the value of a secret and on the
    authority of plugins; that nothing outside the protected values depends on a secret, by a
    relation between two histories; and the size of the skills given to an agent.

  \<^bold>\<open>Correspondence.\<close> A method is a function from its arguments and the object's state to a
  result and a state. What it mutates before it raises stays mutated, except inside a database
  transaction, where \<open>atomically\<close> rolls back. A method of the queue holds the queue's lock from
  start to end without suspending, and a call of the durable runtime holds its lock, so
  interleavings of callers are sequences of calls: \<open>queue_step\<close>, \<open>scheduler_step\<close> and \<open>db_step\<close>.
  Task objects shared by the queue's dictionaries are held once, in \<open>q_all\<close>. The clock, generated
  identifiers, SHA-256 and the existence of a process are arguments. The queue takes the lease
  manager as the record \<open>lease_api\<close> of its operations, which \<open>manager_api\<close> fills. Times and ratios
  are rationals. Integers are Python's, so unbounded. Loops are structural recursions except three:
  the cascade of the queue is a recursive function whose measure is the number of blocked tasks
  (each pass but the last removes one), the depth-first search of the project queue has the
  number of jobs off the current path as its measure, and the lineage of a work item the number of
  places left of its 32. The recursive SQL query below an item runs as many rounds as there are
  items, which is enough (\<open>budget_tree_iff\<close>); no other definition uses fuel.

  \<^bold>\<open>Not modelled.\<close> Text outside ASCII, floating-point rounding, the event and state files written
  beside the database, schema migration, the PostgreSQL backend, the asyncio engine that calls
  the queue, the collector of browser evidence, the central operation gate around a consented
  action, and the parts of the repository that are user interface, network, operating-system
  or model-provider input and output.
\<close>

end
